(* ===== verification/Prelude.thy ===== *)
theory Prelude
  imports Main "HOL-Library.Word"
begin

text \<open>
  What the components of the development share: the ways a C++ operation of the program can
  fail, the result type that carries them, the loops over results, and list lemmas about
  indexed updates.

  \<^item> \<open>cpp_error\<close> lists the failures the sources can run into.  An operation whose source
    dereferences a null pointer, indexes an array outside its bounds or calls \<open>at\<close> with a
    bad index returns \<open>Inl\<close> of one of them; the model never makes up a value for such a
    case.
  \<^item> \<open>bind_res\<close> runs two operations in sequence and stops at the first failure, as the
    program would.
  \<^item> \<open>fold_res\<close> is a counted \<open>for\<close> loop whose body may fail.
\<close>

section \<open>Failures as values\<close>

datatype cpp_error =
    NullDeref        \<comment> \<open>member access through a null pointer\<close>
  | OutOfBounds      \<comment> \<open>raw array or iterator access outside the object\<close>
  | OutOfRange       \<comment> \<open>\<open>std::out_of_range\<close>, thrown by \<open>at\<close>\<close>
  | UseAfterFree     \<comment> \<open>access through a pointer to a deleted object\<close>
  | EmptyContainer   \<comment> \<open>\<open>front\<close>, \<open>top\<close> or \<open>pop\<close> of an empty container\<close>
  | SignedOverflow   \<comment> \<open>overflow of a signed 32-bit computation\<close>
  | ComException     \<comment> \<open>\<open>com_exception\<close>, thrown by \<open>ThrowIfFailed\<close>\<close>
  | LogicError       \<comment> \<open>\<open>std::logic_error\<close>\<close>
  | RuntimeError     \<comment> \<open>\<open>std::runtime_error\<close>\<close>
  | SystemError      \<comment> \<open>\<open>std::system_error\<close>\<close>
  | InvalidParameter \<comment> \<open>the invalid-parameter handler of the C runtime\<close>
  | AssertFailed     \<comment> \<open>an \<open>assert\<close> of the source does not hold\<close>

type_synonym 'a res = "cpp_error + 'a"

definition bind_res :: "'a res \<Rightarrow> ('a \<Rightarrow> 'b res) \<Rightarrow> 'b res" where
  "bind_res m f = (case m of Inl e \<Rightarrow> Inl e | Inr x \<Rightarrow> f x)"

named_theorems res_simps "unfolding of sequenced results"
named_theorems invs "an operation keeps its component's invariant"

lemma bind_res_simps [simp, res_simps]:
  "bind_res (Inl e) f = Inl e"
  "bind_res (Inr x) f = f x"
  by (simp_all add: bind_res_def)

lemma bind_res_Inr_iff [res_simps]:
  "bind_res m f = Inr y \<longleftrightarrow> (\<exists>x. m = Inr x \<and> f x = Inr y)"
  by (cases m) simp_all

lemma bind_res_Inl_iff:
  "bind_res m f = Inl e \<longleftrightarrow> m = Inl e \<or> (\<exists>x. m = Inr x \<and> f x = Inl e)"
  by (cases m) simp_all

lemma bind_res_InrE:
  assumes "bind_res m f = Inr y"
  obtains x where "m = Inr x" and "f x = Inr y"
  using assms by (auto simp: bind_res_Inr_iff)

lemma bind_res_assoc:
  "bind_res (bind_res m f) g = bind_res m (\<lambda>x. bind_res (f x) g)"
  by (cases m) simp_all

lemma bind_res_cong [fundef_cong]:
  assumes "m = m'" and "\<And>x. m' = Inr x \<Longrightarrow> f x = f' x"
  shows "bind_res m f = bind_res m' f'"
  using assms by (cases m') auto

definition of_option :: "cpp_error \<Rightarrow> 'a option \<Rightarrow> 'a res" where
  "of_option e v = (case v of None \<Rightarrow> Inl e | Some x \<Rightarrow> Inr x)"

lemma of_option_simps [simp]:
  "of_option e None = Inl e"
  "of_option e (Some x) = Inr x"
  by (simp_all add: of_option_def)

lemma of_option_Inr_iff [res_simps]: "of_option e v = Inr x \<longleftrightarrow> v = Some x"
  by (cases v) simp_all

definition guard_res :: "cpp_error \<Rightarrow> bool \<Rightarrow> unit res" where
  "guard_res e b = (if b then Inr () else Inl e)"

lemma guard_res_simps [simp]:
  "guard_res e True = Inr ()"
  "guard_res e False = Inl e"
  by (simp_all add: guard_res_def)

lemma guard_res_Inr_iff [res_simps]: "guard_res e b = Inr u \<longleftrightarrow> b"
  by (simp add: guard_res_def)

text \<open>The result of a signed 32-bit computation.\<close>

definition int32_res :: "int \<Rightarrow> int res" where
  "int32_res x = (if - (2 ^ 31) \<le> x \<and> x < 2 ^ 31 then Inr x else Inl SignedOverflow)"

lemma int32_res_Inr_iff [res_simps]: "int32_res x = Inr y \<longleftrightarrow> y = x \<and> - (2 ^ 31) \<le> x \<and> x < 2 ^ 31"
  by (auto simp: int32_res_def)

section \<open>Loops whose body may fail\<close>

fun fold_res :: "('a \<Rightarrow> 's \<Rightarrow> 's res) \<Rightarrow> 'a list \<Rightarrow> 's \<Rightarrow> 's res" where
  "fold_res f [] s = Inr s"
| "fold_res f (x # xs) s = bind_res (f x s) (fold_res f xs)"

lemma fold_res_append:
  "fold_res f (xs @ ys) s = bind_res (fold_res f xs s) (fold_res f ys)"
proof (induction xs arbitrary: s)
  case Nil
  then show ?case by simp
next
  case (Cons x xs)
  then show ?case by (cases "f x s") simp_all
qed

text \<open>A loop inside a loop.\<close>

lemma fold_res_concat:
  "fold_res (\<lambda>x. fold_res f (g x)) xs s = fold_res f (concat (map g xs)) s"
proof (induction xs arbitrary: s)
  case Nil
  then show ?case by simp
next
  case (Cons x xs)
  then show ?case by (cases "fold_res f (g x) s") (simp_all add: fold_res_append)
qed

lemma fold_res_invariant:
  assumes "fold_res f xs s = Inr t" and "P s"
    and "\<And>x u v. x \<in> set xs \<Longrightarrow> P u \<Longrightarrow> f x u = Inr v \<Longrightarrow> P v"
  shows "P t"
  using assms
proof (induction xs arbitrary: s)
  case Nil
  then show ?case by simp
next
  case (Cons x xs)
  from Cons.prems(1) obtain u where u: "f x s = Inr u" and rest: "fold_res f xs u = Inr t"
    by (auto simp: bind_res_Inr_iff)
  have "P u" using Cons.prems(3) [OF _ Cons.prems(2) u] by simp
  with rest show ?case by (rule Cons.IH) (use Cons.prems(3) in auto)
qed

lemma fold_res_total:
  assumes "P s"
    and "\<And>x u. x \<in> set xs \<Longrightarrow> P u \<Longrightarrow> \<exists>v. f x u = Inr v \<and> P v"
  shows "\<exists>t. fold_res f xs s = Inr t \<and> P t"
  using assms
proof (induction xs arbitrary: s)
  case Nil
  then show ?case by simp
next
  case (Cons x xs)
  from Cons.prems(2) [of x s] Cons.prems(1) obtain v where "f x s = Inr v" and "P v" by auto
  moreover from this(2) have "\<exists>t. fold_res f xs v = Inr t \<and> P t"
    by (rule Cons.IH) (use Cons.prems(2) in auto)
  ultimately show ?case by simp
qed

section \<open>Indexed access\<close>

definition at_res :: "cpp_error \<Rightarrow> 'a list \<Rightarrow> int \<Rightarrow> 'a res" where
  "at_res e xs i = (if 0 \<le> i \<and> i < int (length xs) then Inr (xs ! nat i) else Inl e)"

lemma at_res_Inr_iff [res_simps]:
  "at_res e xs i = Inr x \<longleftrightarrow> 0 \<le> i \<and> i < int (length xs) \<and> x = xs ! nat i"
  by (auto simp: at_res_def)

lemma at_res_nat [simp]: "i < length xs \<Longrightarrow> at_res e xs (int i) = Inr (xs ! i)"
  by (simp add: at_res_def)

lemma length_filter_eq_iff: "length (filter P xs) = length xs \<longleftrightarrow> (\<forall>x\<in>set xs. P x)"
proof (induction xs)
  case Nil
  then show ?case by simp
next
  case (Cons x xs)
  have "length (filter P xs) < Suc (length xs)" by (simp add: le_imp_less_Suc)
  then have "length (filter P xs) \<noteq> Suc (length xs)" by simp
  with Cons show ?case by simp
qed

lemma nth_list_update_if:
  "(xs[i := v]) ! j = (if i = j \<and> i < length xs then v else xs ! j)"
  by (cases "i < length xs") (auto simp: nth_list_update list_update_beyond)

lemma list_all_upt_iff: "list_all P [a..<b] \<longleftrightarrow> (\<forall>i. a \<le> i \<longrightarrow> i < b \<longrightarrow> P i)"
  by (auto simp: list_all_iff)

lemma upt_0_4: "[0..<4] = [0, 1, 2, 3]"
  by (simp add: upt_rec numeral_eq_Suc)

lemma all_less_4: "(\<forall>i<4. P i) \<longleftrightarrow> P 0 \<and> P 1 \<and> P 2 \<and> P (3::nat)"
  by (auto simp: numeral_eq_Suc All_less_Suc)

lemma length_4_cases:
  assumes "length xs = 4"
  obtains a b c d where "xs = [a, b, c, d]"
  using assms by (auto simp: numeral_eq_Suc length_Suc_conv)

end
