(* ===== verification/Float32.thy ===== *)
theory Float32
  imports Prelude
begin

text \<open>
  The finite values of the C++ type \<open>float\<close> (IEEE-754 binary32), for the frame times of the
  board and the rotation of a block.

  Every finite float is an integer multiple of \<open>2^-149\<close>, the least subnormal, so a value
  is represented by that integer: the literal \<open>1.0f\<close> is \<open>2^149\<close>.  Sums, differences and
  products are computed exactly on integers and then rounded to 24 significant bits, ties to
  even, as the hardware does.  Infinities and NaNs are not represented; the program reaches
  neither, since it adds frame times below one second and multiplies by values at most one.
\<close>

section \<open>Rounding to 24 significant bits\<close>

type_synonym f32 = int

text \<open>How many low bits of a magnitude do not fit into a 24-bit significand.\<close>

function shift_count :: "nat \<Rightarrow> nat" where
  "shift_count a = (if a < 16777216 then 0 else Suc (shift_count (a div 2)))"
  by pat_completeness auto
termination
  by (relation "measure id") auto

declare shift_count.simps [simp del]

text \<open>\<open>a / 2^e\<close> rounded to the nearest integer, ties to the even one.\<close>

definition rne_shift :: "nat \<Rightarrow> nat \<Rightarrow> nat" where
  "rne_shift a e =
     (let q = a div 2 ^ e; r = 2 * (a mod 2 ^ e)
      in if r > 2 ^ e \<or> (r = 2 ^ e \<and> odd q) then q + 1 else q)"

text \<open>
  The float nearest to \<open>p * 2^-k\<close> (in units of the representation): no bit below the least
  subnormal is kept, and no more than 24 significant bits are.
\<close>

definition f32_norm :: "nat \<Rightarrow> int \<Rightarrow> f32" where
  "f32_norm k p =
     (let a = nat \<bar>p\<bar>; e = max k (shift_count a)
      in sgn p * int (rne_shift a e * 2 ^ (e - k)))"

section \<open>Arithmetic\<close>

definition f32_one :: f32 where
  "f32_one = 713623846352979940529142984724747568191373312"

definition f32_of_int :: "int \<Rightarrow> f32" where
  "f32_of_int n = f32_norm 0 (n * f32_one)"

definition f32_add :: "f32 \<Rightarrow> f32 \<Rightarrow> f32" where
  "f32_add a b = f32_norm 0 (a + b)"

definition f32_sub :: "f32 \<Rightarrow> f32 \<Rightarrow> f32" where
  "f32_sub a b = f32_norm 0 (a - b)"

definition f32_neg :: "f32 \<Rightarrow> f32" where
  "f32_neg a = - a"

definition f32_mul :: "f32 \<Rightarrow> f32 \<Rightarrow> f32" where
  "f32_mul a b = f32_norm 149 (a * b)"

text \<open>
  \<open>roundf\<close>, to the nearest integer with ties away from zero, followed by the conversion of
  the integral float to \<open>int\<close>.
\<close>

definition f32_roundf :: "f32 \<Rightarrow> int" where
  "f32_roundf a = sgn a * ((\<bar>a\<bar> + f32_one div 2) div f32_one)"

section \<open>Facts\<close>

lemma f32_one_eq: "f32_one = 2 ^ 149"
  by (simp add: f32_one_def)

lemma f32_one_pos [simp]: "0 < f32_one"
  by (simp add: f32_one_def)

lemma shift_count_small: "a < 16777216 \<Longrightarrow> shift_count a = 0"
  by (simp add: shift_count.simps)

lemma rne_shift_0 [simp]: "rne_shift a 0 = a"
  by (simp add: rne_shift_def)

lemma f32_norm_small: "\<bar>p\<bar> < 16777216 \<Longrightarrow> f32_norm 0 p = p"
  by (simp add: f32_norm_def shift_count_small sgn_mult_abs)

lemma f32_norm_0 [simp]: "f32_norm k 0 = 0"
  by (simp add: f32_norm_def)

lemma f32_norm_uminus: "f32_norm k (- p) = - f32_norm k p"
  by (simp add: f32_norm_def Let_def)

lemma f32_add_commute: "f32_add a b = f32_add b a"
  by (simp add: f32_add_def add.commute)

lemma f32_add_neg_self [simp]: "f32_add (f32_neg a) a = 0"
  by (simp add: f32_add_def f32_neg_def)

lemma f32_norm_nonneg: "0 \<le> p \<Longrightarrow> 0 \<le> f32_norm k p"
  by (simp add: f32_norm_def Let_def sgn_if)

lemma rne_shift_exact: "rne_shift (q * 2 ^ e) e = q"
  by (simp add: rne_shift_def)

lemma shift_count_bound: "a < 16777216 * 2 ^ shift_count a"
proof (induction a rule: shift_count.induct)
  case (1 a)
  show ?case
  proof (cases "a < 16777216")
    case True
    then show ?thesis by (simp add: shift_count_small)
  next
    case False
    with 1 have "a div 2 < 16777216 * 2 ^ shift_count (a div 2)" by simp
    with False show ?thesis by (simp add: shift_count.simps [of a])
  qed
qed

lemma shift_count_mono: "a \<le> b \<Longrightarrow> shift_count a \<le> shift_count b"
proof (induction b arbitrary: a rule: shift_count.induct)
  case (1 b)
  show ?case
  proof (cases "a < 16777216")
    case True
    then show ?thesis by (simp add: shift_count_small)
  next
    case False
    with 1 have "shift_count (a div 2) \<le> shift_count (b div 2)" by simp
    with False 1(2) show ?thesis
      by (simp add: shift_count.simps [of a] shift_count.simps [of b])
  qed
qed

text \<open>A value with at most 24 significant bits is a float, so rounding keeps it.\<close>

lemma shift_count_shifted:
  assumes "q < 16777216"
  shows "shift_count (q * 2 ^ n) \<le> n"
proof (induction n)
  case 0
  then show ?case using assms by (simp add: shift_count_small)
next
  case (Suc n)
  show ?case
  proof (cases "q * 2 ^ Suc n < 16777216")
    case True
    then show ?thesis by (simp add: shift_count_small)
  next
    case False
    moreover have "q * 2 ^ Suc n div 2 = q * 2 ^ n" by simp
    ultimately show ?thesis using Suc
      by (subst shift_count.simps) (simp del: power_Suc)
  qed
qed

lemma rne_shift_multiple:
  assumes "e \<le> n"
  shows "rne_shift (q * 2 ^ n) e = q * 2 ^ (n - e)"
proof -
  have "q * 2 ^ n = (q * 2 ^ (n - e)) * 2 ^ e"
    using assms by (simp add: mult.assoc flip: power_add)
  then show ?thesis by (metis rne_shift_exact)
qed

lemma f32_norm_representable:
  assumes "q < 16777216"
  shows "f32_norm 0 (int (q * 2 ^ n)) = int (q * 2 ^ n)"
proof (cases "q = 0")
  case True
  then show ?thesis by simp
next
  case False
  let ?e = "shift_count (q * 2 ^ n)"
  have "?e \<le> n" using assms by (rule shift_count_shifted)
  then have "rne_shift (q * 2 ^ n) ?e * 2 ^ ?e = q * 2 ^ n"
    by (simp add: rne_shift_multiple mult.assoc flip: power_add)
  with False show ?thesis
    by (simp add: f32_norm_def nat_mult_distrib nat_power_eq zero_less_mult_iff
        del: of_nat_mult of_nat_power)
qed

lemma f32_of_int_small:
  assumes "0 \<le> n" and "n < 16777216"
  shows "f32_of_int n = n * f32_one"
proof -
  have "f32_norm 0 (int (nat n * 2 ^ 149)) = int (nat n * 2 ^ 149)"
    using assms by (intro f32_norm_representable) simp
  then show ?thesis using assms by (simp add: f32_of_int_def f32_one_eq)
qed

section \<open>Error bounds\<close>

lemma rne_shift_error: "2 * \<bar>int (rne_shift a e) * 2 ^ e - int a\<bar> \<le> 2 ^ e"
proof -
  let ?q = "int (a div 2 ^ e)" and ?r = "int (a mod 2 ^ e)"
  have "int (a div 2 ^ e * 2 ^ e + a mod 2 ^ e) = int a"
    by (simp only: div_mult_mod_eq)
  then have a: "int a = ?q * 2 ^ e + ?r"
    by (simp only: of_nat_add of_nat_mult of_nat_power of_nat_numeral)
  have "a mod 2 ^ e < 2 ^ e" by simp
  then have "int (a mod 2 ^ e) < int (2 ^ e)" by (simp only: of_nat_less_iff)
  then have r: "0 \<le> ?r" "?r < 2 ^ e" by (simp_all only: of_nat_power of_nat_numeral of_nat_0_le_iff)
  consider "rne_shift a e = a div 2 ^ e" "2 * (a mod 2 ^ e) \<le> 2 ^ e"
    | "rne_shift a e = a div 2 ^ e + 1" "2 ^ e \<le> 2 * (a mod 2 ^ e)"
  proof (cases "2 * (a mod 2 ^ e) > 2 ^ e \<or> 2 * (a mod 2 ^ e) = 2 ^ e \<and> odd (a div 2 ^ e)")
    case True
    then show ?thesis by (intro that(2)) (auto simp: rne_shift_def Let_def)
  next
    case False
    then have "rne_shift a e = a div 2 ^ e" by (simp add: rne_shift_def Let_def)
    with False show ?thesis by (intro that(1)) auto
  qed
  then show ?thesis
  proof cases
    case 1
    from 1(2) have "2 * ?r \<le> 2 ^ e" by (metis of_nat_le_iff of_nat_mult of_nat_numeral of_nat_power)
    with 1(1) a r show ?thesis by (simp add: algebra_simps)
  next
    case 2
    from 2(2) have "2 ^ e \<le> 2 * ?r" by (metis of_nat_le_iff of_nat_mult of_nat_numeral of_nat_power)
    with 2(1) a r show ?thesis by (simp add: algebra_simps)
  qed
qed

lemma shift_count_tight:
  assumes "shift_count a = Suc e"
  shows "16777216 * 2 ^ e \<le> a"
  using assms
proof (induction a arbitrary: e rule: shift_count.induct)
  case (1 a)
  from 1(2) have a: "\<not> a < 16777216" and e: "e = shift_count (a div 2)"
    by (auto simp: shift_count.simps [of a] split: if_splits)
  show ?case
  proof (cases e)
    case 0
    with a show ?thesis by simp
  next
    case (Suc e')
    with 1(1) [OF a] e have "16777216 * 2 ^ e' \<le> a div 2" by simp
    with Suc show ?thesis by simp
  qed
qed

lemma f32_norm_mult_pow:
  "f32_norm k p * 2 ^ k =
     sgn p * (int (rne_shift (nat \<bar>p\<bar>) (max k (shift_count (nat \<bar>p\<bar>))))
              * 2 ^ max k (shift_count (nat \<bar>p\<bar>)))"
proof -
  let ?e = "max k (shift_count (nat \<bar>p\<bar>))"
  have "(2::int) ^ (?e - k) * 2 ^ k = 2 ^ ?e" by (simp flip: power_add)
  then show ?thesis by (simp add: f32_norm_def Let_def mult.assoc)
qed

text \<open>
  The relative error is at most \<open>2^-24\<close>, plus half a unit in the last place of a product.
\<close>

lemma f32_norm_error:
  "16777216 * \<bar>f32_norm k p * 2 ^ k - p\<bar> \<le> \<bar>p\<bar> + 8388608 * 2 ^ k"
proof -
  let ?a = "nat \<bar>p\<bar>"
  let ?e = "max k (shift_count ?a)"
  let ?m = "int (rne_shift ?a ?e) * 2 ^ ?e"
  have "f32_norm k p * 2 ^ k - p = sgn p * (?m - int ?a)"
    by (simp add: f32_norm_mult_pow right_diff_distrib mult.commute [of "sgn p"] abs_mult_sgn)
  then have err: "2 * \<bar>f32_norm k p * 2 ^ k - p\<bar> \<le> 2 ^ ?e"
    using rne_shift_error [of ?a ?e] by (auto simp: abs_mult abs_sgn_eq)
  show ?thesis
  proof (cases "shift_count ?a \<le> k")
    case True
    with err show ?thesis by (simp add: max_def split: if_splits)
  next
    case False
    then obtain n where n: "shift_count ?a = Suc n" by (cases "shift_count ?a") auto
    with False have e: "?e = Suc n" by simp
    from shift_count_tight [OF n] have "int (16777216 * 2 ^ n) \<le> \<bar>p\<bar>"
      by (metis abs_ge_zero int_nat_eq of_nat_le_iff)
    then have p: "16777216 * 2 ^ n \<le> \<bar>p\<bar>" by simp
    from err e have "\<bar>f32_norm k p * 2 ^ k - p\<bar> \<le> 2 ^ n" by simp
    then have "16777216 * \<bar>f32_norm k p * 2 ^ k - p\<bar> \<le> 16777216 * 2 ^ n"
      by (rule mult_left_mono) simp
    also note p
    also have "\<bar>p\<bar> \<le> \<bar>p\<bar> + 8388608 * 2 ^ k" by simp
    finally show ?thesis .
  qed
qed

lemma f32_norm0_error: "16777216 * \<bar>f32_norm 0 p - p\<bar> \<le> \<bar>p\<bar> + 8388608"
  using f32_norm_error [of 0 p] by simp

lemma f32_mul_error:
  "16777216 * \<bar>f32_mul (x * f32_one) c - x * c\<bar> \<le> \<bar>x * c\<bar> + 8388608"
proof -
  let ?r = "f32_mul (x * f32_one) c"
  have "16777216 * \<bar>?r * f32_one - x * f32_one * c\<bar> \<le> \<bar>x * f32_one * c\<bar> + 8388608 * f32_one"
    using f32_norm_error [of 149 "x * f32_one * c"] by (simp add: f32_mul_def f32_one_eq)
  moreover have "?r * f32_one - x * f32_one * c = (?r - x * c) * f32_one"
    by (simp add: algebra_simps)
  moreover have "x * f32_one * c = (x * c) * f32_one" by simp
  ultimately have "(16777216 * \<bar>?r - x * c\<bar>) * f32_one \<le> (\<bar>x * c\<bar> + 8388608) * f32_one"
    by (simp only: abs_mult abs_of_pos [OF f32_one_pos]) (simp add: algebra_simps)
  then show ?thesis by (simp only: mult_le_cancel_right_pos [OF f32_one_pos])
qed

lemma f32_of_int_exact:
  assumes "\<bar>n\<bar> < 16777216"
  shows "f32_of_int n = n * f32_one"
proof (cases "0 \<le> n")
  case True
  then show ?thesis using assms by (simp add: f32_of_int_small)
next
  case False
  then have "f32_of_int (- n) = - n * f32_one" using assms by (intro f32_of_int_small) auto
  then show ?thesis by (simp add: f32_of_int_def f32_norm_uminus)
qed

lemma f32_roundf_nearest:
  assumes "2 * \<bar>a - n * f32_one\<bar> < f32_one"
  shows "f32_roundf a = n"
proof -
  define h where "h = f32_one div 2"
  have h: "f32_one = 2 * h" by (simp add: h_def f32_one_def)
  have pos: "0 < h" by (simp add: h_def f32_one_def)
  have round: "(b + h) div f32_one = m" if "\<bar>b - m * f32_one\<bar> < h" for b m
  proof -
    from that have "m * f32_one \<le> b + h" "b + h < (m + 1) * f32_one"
      by (auto simp: h algebra_simps)
    then show ?thesis using f32_one_pos by (intro int_div_pos_eq [where r = "b + h - m * f32_one"]) (auto simp: algebra_simps)
  qed
  have near: "\<bar>a - n * f32_one\<bar> < h" using assms h by simp
  consider "a = 0" | "0 < a" | "a < 0" by linarith
  then show ?thesis
  proof cases
    case 1
    have "n = 0"
    proof (rule ccontr)
      assume "n \<noteq> 0"
      then have "1 * (2 * h) \<le> \<bar>n\<bar> * (2 * h)" using pos by (intro mult_right_mono) auto
      with near 1 pos show False by (simp add: h abs_mult)
    qed
    with 1 show ?thesis by (simp add: f32_roundf_def)
  next
    case 2
    with round [OF near] show ?thesis by (simp add: f32_roundf_def h_def)
  next
    case 3
    from near have "\<bar>- a - (- n) * f32_one\<bar> < h" by simp
    from round [OF this] 3 show ?thesis by (simp add: f32_roundf_def h_def)
  qed
qed

end
