(* ===== verification/TetrisDef.thy ===== *)
theory TetrisDef
  imports Float32
begin

text \<open>
  The data of \<open>IOCPTetrisCommon/IOCPTetrisDef.h\<close>: the enumerations, the positions, the cells
  of the board and the seven tetrominoes, with the member functions of their classes.

  A scoped enumeration with underlying type \<open>short\<close> is a datatype with the source's
  enumerators.  \<open>InputType\<close> and \<open>ShapeType\<close> also travel in packets, where the underlying
  16-bit value can be one that no enumerator has; C++ keeps such a value, and so does the
  model, in the constructor \<open>Input_Other\<close> or \<open>Shape_Other\<close>.
  Coordinates are C++ \<open>int\<close>s.  They stay far inside the 32-bit range (the invariants of
  the board bound them), so they are mathematical integers here.
\<close>

section \<open>Constants and enumerations\<close>

definition BLOCKSIZE :: int where "BLOCKSIZE = 48"
definition TETRIS_BOARD_WIDTH :: nat where [simp]: "TETRIS_BOARD_WIDTH = 10"
definition TETRIS_BOARD_HEIGHT :: nat where [simp]: "TETRIS_BOARD_HEIGHT = 20"
definition FALLING_BLOCK_INTERVAL :: f32 where "FALLING_BLOCK_INTERVAL = f32_one"

text \<open>\<open>const float PI = 3.141529f\<close>: the literal rounds to \<open>823533 / 2^18\<close>.\<close>

definition PI :: f32 where "PI = 823533 * 2 ^ 131"

datatype ResourceID =
    Res_NONE | BLOCK_RED | BLOCK_ORANGE | BLOCK_YELLOW | BLOCK_GREEN | BLOCK_MINT
  | BLOCK_PURPLE | BLOCK_PINK | BLOCK_WALL | Res_GRID | Res_EMPTY | Res_EXPECT | Res_END

datatype InputType =
    Input_NONE | UP | DOWN | LEFT | RIGHT | HOLD | ROTATERIGHT | ROTATELEFT | DROP
  | Input_Other "16 word"

datatype BlockType = Block_NONE | FALLING | WALL

datatype ShapeType =
    Shape_NONE | Shape_Z | Shape_L | Shape_O | Shape_S | Shape_I | Shape_J | Shape_T
  | Shape_Other "16 word"

section \<open>Positions\<close>

record Vector2D =
  vx :: int
  vy :: int

definition vec :: "int \<Rightarrow> int \<Rightarrow> Vector2D" where
  "vec x y = \<lparr>vx = x, vy = y\<rparr>"

definition vec_add :: "Vector2D \<Rightarrow> Vector2D \<Rightarrow> Vector2D" where
  "vec_add a b = vec (vx a + vx b) (vy a + vy b)"

lemma vec_sel [simp]: "vx (vec x y) = x" "vy (vec x y) = y"
  by (simp_all add: vec_def)

lemma vec_add_sel [simp]: "vx (vec_add a b) = vx a + vx b" "vy (vec_add a b) = vy a + vy b"
  by (simp_all add: vec_add_def)

lemma vec_eq_iff: "vec a b = vec c d \<longleftrightarrow> a = c \<and> b = d"
  by (simp add: vec_def)

lemma vec_add_assoc: "vec_add (vec_add a b) c = vec_add a (vec_add b c)"
  by (simp add: vec_add_def add.assoc)

lemma vec_add_0 [simp]: "vec_add a (vec 0 0) = a"
  by (cases a) (simp add: vec_add_def vec_def)

section \<open>Cells\<close>

record BlockInfo =
  bpos :: Vector2D
  rotate_angle :: f32
  resourceID :: ResourceID
  blockType :: BlockType

definition mk_block :: "ResourceID \<Rightarrow> BlockType \<Rightarrow> int \<Rightarrow> int \<Rightarrow> BlockInfo" where
  "mk_block r b x y =
     \<lparr>bpos = vec x y, rotate_angle = 0, resourceID = r, blockType = b\<rparr>"

text \<open>The copy constructor copies everything but \<open>rotate\<close>, which starts at its default.\<close>

definition copy_block :: "BlockInfo \<Rightarrow> BlockInfo" where
  "copy_block c =
     \<lparr>bpos = bpos c, rotate_angle = 0, resourceID = resourceID c, blockType = blockType c\<rparr>"

text \<open>\<open>SetProperty\<close> copies what the cell shows, not where it is.\<close>

definition SetProperty :: "BlockInfo \<Rightarrow> BlockInfo \<Rightarrow> BlockInfo" where
  "SetProperty c src = c\<lparr>resourceID := resourceID src, blockType := blockType src\<rparr>"

definition block_SetPos :: "BlockInfo \<Rightarrow> int \<Rightarrow> int \<Rightarrow> BlockInfo" where
  "block_SetPos c x y = c\<lparr>bpos := vec x y\<rparr>"

section \<open>The seven shapes\<close>

definition BlockShape_Z :: "BlockInfo list" where
  "BlockShape_Z =
     [mk_block BLOCK_RED FALLING (-1) (-1), mk_block BLOCK_RED FALLING 0 (-1),
      mk_block BLOCK_RED FALLING 0 0, mk_block BLOCK_RED FALLING 1 0]"

definition BlockShape_L :: "BlockInfo list" where
  "BlockShape_L =
     [mk_block BLOCK_ORANGE FALLING (-1) 0, mk_block BLOCK_ORANGE FALLING 0 0,
      mk_block BLOCK_ORANGE FALLING 1 0, mk_block BLOCK_ORANGE FALLING 1 (-1)]"

definition BlockShape_O :: "BlockInfo list" where
  "BlockShape_O =
     [mk_block BLOCK_YELLOW FALLING 0 0, mk_block BLOCK_YELLOW FALLING 1 0,
      mk_block BLOCK_YELLOW FALLING 0 (-1), mk_block BLOCK_YELLOW FALLING 1 (-1)]"

definition BlockShape_S :: "BlockInfo list" where
  "BlockShape_S =
     [mk_block BLOCK_GREEN FALLING (-1) 0, mk_block BLOCK_GREEN FALLING 0 0,
      mk_block BLOCK_GREEN FALLING 0 (-1), mk_block BLOCK_GREEN FALLING 1 (-1)]"

definition BlockShape_I :: "BlockInfo list" where
  "BlockShape_I =
     [mk_block BLOCK_MINT FALLING (-1) 0, mk_block BLOCK_MINT FALLING 0 0,
      mk_block BLOCK_MINT FALLING 1 0, mk_block BLOCK_MINT FALLING 2 0]"

definition BlockShape_J :: "BlockInfo list" where
  "BlockShape_J =
     [mk_block BLOCK_PURPLE FALLING (-1) (-1), mk_block BLOCK_PURPLE FALLING (-1) 0,
      mk_block BLOCK_PURPLE FALLING 0 0, mk_block BLOCK_PURPLE FALLING 1 0]"

definition BlockShape_T :: "BlockInfo list" where
  "BlockShape_T =
     [mk_block BLOCK_PINK FALLING (-1) 0, mk_block BLOCK_PINK FALLING 0 0,
      mk_block BLOCK_PINK FALLING 1 0, mk_block BLOCK_PINK FALLING 0 (-1)]"

lemmas BlockShape_defs =
  BlockShape_Z_def BlockShape_L_def BlockShape_O_def BlockShape_S_def BlockShape_I_def
  BlockShape_J_def BlockShape_T_def

section \<open>Falling blocks\<close>

record FallingBlock =
  fpos :: Vector2D
  blockInfo :: "BlockInfo list"
  blockShape :: ShapeType

text \<open>The constructor from a shape; its array assignments copy the four cells.\<close>

definition mk_falling :: "ShapeType \<Rightarrow> BlockInfo list \<Rightarrow> FallingBlock" where
  "mk_falling s bs = \<lparr>fpos = vec 0 0, blockInfo = bs, blockShape = s\<rparr>"

text \<open>The default constructor.\<close>

definition default_falling :: FallingBlock where
  "default_falling =
     \<lparr>fpos = vec 0 0, blockInfo = replicate 4 (mk_block Res_EMPTY Block_NONE 0 0),
      blockShape = Shape_NONE\<rparr>"

text \<open>
  The user-defined assignment operator copies the position and the cells and leaves the
  shape of the target alone.
\<close>

definition falling_assign :: "FallingBlock \<Rightarrow> FallingBlock \<Rightarrow> FallingBlock" where
  "falling_assign dst src = dst\<lparr>fpos := fpos src, blockInfo := blockInfo src\<rparr>"

definition falling_SetPos :: "FallingBlock \<Rightarrow> int \<Rightarrow> int \<Rightarrow> FallingBlock" where
  "falling_SetPos f x y = f\<lparr>fpos := vec x y\<rparr>"

definition SetBlockType :: "FallingBlock \<Rightarrow> BlockType \<Rightarrow> FallingBlock" where
  "SetBlockType f b = f\<lparr>blockInfo := map (\<lambda>c. c\<lparr>blockType := b\<rparr>) (blockInfo f)\<rparr>"

definition SetResourceID :: "FallingBlock \<Rightarrow> ResourceID \<Rightarrow> FallingBlock" where
  "SetResourceID f r = f\<lparr>blockInfo := map (\<lambda>c. c\<lparr>resourceID := r\<rparr>) (blockInfo f)\<rparr>"

text \<open>Where the \<open>i\<close>-th cell of a falling block lies on the board.\<close>

definition cell_x :: "FallingBlock \<Rightarrow> nat \<Rightarrow> int" where
  "cell_x f i = vx (fpos f) + vx (bpos (blockInfo f ! i))"

definition cell_y :: "FallingBlock \<Rightarrow> nat \<Rightarrow> int" where
  "cell_y f i = vy (fpos f) + vy (bpos (blockInfo f ! i))"

lemma cell_falling_SetPos [simp]:
  "cell_x (falling_SetPos f x y) i = x + vx (bpos (blockInfo f ! i))"
  "cell_y (falling_SetPos f x y) i = y + vy (bpos (blockInfo f ! i))"
  by (simp_all add: cell_x_def cell_y_def falling_SetPos_def)

end
