(* ===== verification/BoardLines.thy ===== *)
theory BoardLines
  imports TetrisDef
begin

text \<open>
  The cell grid of \<open>TetrisBoard\<close> (the member \<open>board\<close>) and the operations that clear full
  lines: \<open>IsAnyBlock\<close>, \<open>DeleteLine\<close>, \<open>MoveToDown\<close> and \<open>RemoveWall\<close> of
  \<open>IOCPTetrisCommon/TetrisBoard.h\<close>.

  The grid is a list of 20 rows of 10 cells, row 0 on top.  A loop over a whole row is a
  \<open>map\<close> over it; a raw access \<open>board[y][x]\<close> with a computed index is checked and fails with
  \<open>OutOfBounds\<close>.  The lemmas view a grid through what its cells show (\<open>view\<close>) and reduce
  the line clearing to lists of rows: \<open>shift_rows\<close> and \<open>clear_rows\<close> are the loops on such
  lists, and \<open>remove_full\<close> is the reference they are compared with.
\<close>

section \<open>The grid\<close>

type_synonym cells = "BlockInfo list list"

definition read_cell :: "cells \<Rightarrow> int \<Rightarrow> int \<Rightarrow> BlockInfo res" where
  "read_cell b y x =
     (if 0 \<le> y \<and> y < int TETRIS_BOARD_HEIGHT \<and> 0 \<le> x \<and> x < int TETRIS_BOARD_WIDTH
      then Inr (b ! nat y ! nat x) else Inl OutOfBounds)"

definition write_cell :: "cells \<Rightarrow> int \<Rightarrow> int \<Rightarrow> BlockInfo \<Rightarrow> cells res" where
  "write_cell b y x c =
     (if 0 \<le> y \<and> y < int TETRIS_BOARD_HEIGHT \<and> 0 \<le> x \<and> x < int TETRIS_BOARD_WIDTH
      then Inr (b[nat y := (b ! nat y)[nat x := c]]) else Inl OutOfBounds)"

text \<open>The loop of \<open>Init\<close>: every cell is reset and told its position.\<close>

definition init_cell :: "BlockInfo \<Rightarrow> nat \<Rightarrow> nat \<Rightarrow> BlockInfo" where
  "init_cell c height width =
     (block_SetPos c (int width) (int height))
       \<lparr>blockType := Block_NONE, resourceID := Res_EMPTY\<rparr>"

definition init_cells :: "cells \<Rightarrow> cells" where
  "init_cells b =
     map (\<lambda>height. map (\<lambda>width. init_cell (b ! height ! width) height width)
                       [0..<TETRIS_BOARD_WIDTH])
         [0..<TETRIS_BOARD_HEIGHT]"

text \<open>The member array before \<open>Init\<close>: default-constructed cells.\<close>

definition raw_cells :: cells where
  "raw_cells = replicate TETRIS_BOARD_HEIGHT
                 (replicate TETRIS_BOARD_WIDTH (mk_block Res_EMPTY Block_NONE 0 0))"

section \<open>Line operations\<close>

definition IsValidHeight :: "int \<Rightarrow> bool" where
  "IsValidHeight height \<longleftrightarrow> 0 \<le> height \<and> height < int TETRIS_BOARD_HEIGHT"

definition IsAnyBlock :: "cells \<Rightarrow> nat \<Rightarrow> bool" where
  "IsAnyBlock b height = list_ex (\<lambda>c. blockType c = WALL) (b ! height)"

definition clear_cell :: "BlockInfo \<Rightarrow> BlockInfo" where
  "clear_cell c = c\<lparr>resourceID := Res_EMPTY, blockType := Block_NONE\<rparr>"

definition DeleteLine :: "cells \<Rightarrow> nat \<Rightarrow> cells" where
  "DeleteLine b height = b[height := map clear_cell (b ! height)]"

text \<open>
  \<open>MoveToDown\<close> returns early only if the line and the one below it are both invalid; with
  exactly one of them invalid the loop runs and leaves the array.
\<close>

definition MoveToDown :: "cells \<Rightarrow> int \<Rightarrow> cells res" where
  "MoveToDown b height =
     (if \<not> IsValidHeight height \<and> \<not> IsValidHeight (height + 1) then Inr b
      else if \<not> (IsValidHeight height \<and> IsValidHeight (height + 1)) then Inl OutOfBounds
      else Inr (DeleteLine
                 (b[nat (height + 1) :=
                      map2 SetProperty (b ! nat (height + 1)) (b ! nat height)])
                 (nat height)))"

text \<open>
  The inner loop of \<open>RemoveWall\<close>: \<open>moveHeigth\<close> counts down from \<open>height - 1\<close> and stops at the
  first line without a wall.  The argument is \<open>moveHeigth + 1\<close>.
\<close>

fun ShiftLines :: "nat \<Rightarrow> cells \<Rightarrow> cells res" where
  "ShiftLines 0 b = Inr b"
| "ShiftLines (Suc moveHeigth) b =
     (if \<not> IsAnyBlock b moveHeigth then Inr b
      else bind_res (MoveToDown b (int moveHeigth)) (ShiftLines moveHeigth))"

definition wallCount :: "cells \<Rightarrow> nat \<Rightarrow> nat" where
  "wallCount b height = length (filter (\<lambda>c. blockType c = WALL) (b ! height))"

definition RemoveWallAt :: "nat \<Rightarrow> cells \<Rightarrow> cells res" where
  "RemoveWallAt height b =
     (if wallCount b height = TETRIS_BOARD_WIDTH
      then ShiftLines height (DeleteLine b height) else Inr b)"

text \<open>The second component is the out-parameter \<open>outRemovedWallCnt\<close>, which the code sets to 0.\<close>

definition RemoveWall :: "cells \<Rightarrow> (cells \<times> int) res" where
  "RemoveWall b =
     bind_res (fold_res RemoveWallAt [0..<TETRIS_BOARD_HEIGHT] b) (\<lambda>b'. Inr (b', 0))"

section \<open>Well-formed grids and what they show\<close>

definition wf_cell :: "nat \<Rightarrow> nat \<Rightarrow> BlockInfo \<Rightarrow> bool" where
  "wf_cell y x c \<longleftrightarrow>
     bpos c = vec (int x) (int y) \<and> rotate_angle c = 0 \<and>
     (blockType c = WALL \<or> blockType c = Block_NONE \<and> resourceID c = Res_EMPTY)"

definition wf_cells :: "cells \<Rightarrow> bool" where
  "wf_cells b \<longleftrightarrow>
     length b = 20 \<and>
     (\<forall>y<20. length (b ! y) = 10 \<and> (\<forall>x<10. wf_cell y x (b ! y ! x)))"

type_synonym row = "(ResourceID \<times> BlockType) list"

definition row_view :: "BlockInfo list \<Rightarrow> row" where
  "row_view r = map (\<lambda>c. (resourceID c, blockType c)) r"

definition view :: "cells \<Rightarrow> row list" where
  "view b = map row_view b"

definition empty_row :: row where
  "empty_row = replicate 10 (Res_EMPTY, Block_NONE)"

definition some_wall :: "row \<Rightarrow> bool" where
  "some_wall r = list_ex (\<lambda>c. snd c = WALL) r"

definition full_row :: "row \<Rightarrow> bool" where
  "full_row r = list_all (\<lambda>c. snd c = WALL) r"

text \<open>No line without a wall lies below a line with one.\<close>

definition gap_free :: "row list \<Rightarrow> bool" where
  "gap_free v \<longleftrightarrow> list_all some_wall (dropWhile (\<lambda>r. \<not> some_wall r) v)"

text \<open>The reference: full lines vanish, as many empty lines come in on top.\<close>

definition remove_full :: "row list \<Rightarrow> row list" where
  "remove_full v =
     replicate (length (filter full_row v)) empty_row @ filter (\<lambda>r. \<not> full_row r) v"

lemma length_view [simp]: "length (view b) = length b"
  by (simp add: view_def)

lemma view_nth [simp]: "y < length b \<Longrightarrow> view b ! y = row_view (b ! y)"
  by (simp add: view_def)

lemma length_row_view [simp]: "length (row_view r) = length r"
  by (simp add: row_view_def)

lemma not_some_empty_row [simp]: "\<not> some_wall empty_row"
  by (simp add: some_wall_def empty_row_def list_ex_iff)

lemma full_row_some_wall: "full_row r \<Longrightarrow> r \<noteq> [] \<Longrightarrow> some_wall r"
  by (cases r) (auto simp: full_row_def some_wall_def)

lemma not_full_empty_row [simp]: "\<not> full_row empty_row"
  by (simp add: full_row_def empty_row_def list_all_iff)

lemma IsAnyBlock_view: "y < length b \<Longrightarrow> IsAnyBlock b y = some_wall (view b ! y)"
  by (simp add: IsAnyBlock_def some_wall_def row_view_def list_ex_iff)

lemma wallCount_view:
  assumes "wf_cells b" and "y < 20"
  shows "wallCount b y = TETRIS_BOARD_WIDTH \<longleftrightarrow> full_row (view b ! y)"
proof -
  have len: "length (b ! y) = 10" and y: "y < length b"
    using assms by (auto simp: wf_cells_def)
  have "wallCount b y = length (b ! y) \<longleftrightarrow> (\<forall>c\<in>set (b ! y). blockType c = WALL)"
    by (simp add: wallCount_def length_filter_eq_iff)
  with len y show ?thesis by (simp add: full_row_def row_view_def list_all_iff)
qed

lemma wf_cells_no_wall:
  assumes "wf_cells b" and "r \<in> set (view b)" and "\<not> some_wall r"
  shows "r = empty_row"
proof -
  from assms(2) obtain y where y: "y < length b" and r: "r = row_view (b ! y)"
    by (auto simp: view_def in_set_conv_nth)
  with assms(1) have len: "length (b ! y) = 10" and "\<forall>x<10. wf_cell y x (b ! y ! x)"
    by (auto simp: wf_cells_def)
  moreover have "blockType (b ! y ! x) \<noteq> WALL" if "x < 10" for x
    using assms(3) that len by (auto simp: r some_wall_def row_view_def list_ex_iff)
  ultimately have "\<forall>x<10. r ! x = (Res_EMPTY, Block_NONE)"
    by (simp add: r row_view_def wf_cell_def)
  with len r show ?thesis
    by (intro nth_equalityI) (auto simp: empty_row_def)
qed

lemma wf_cells_rows: "wf_cells b \<Longrightarrow> r \<in> set (view b) \<Longrightarrow> length r = 10"
  by (auto simp: wf_cells_def view_def in_set_conv_nth)

section \<open>The line operations on views\<close>

lemma view_DeleteLine:
  assumes "wf_cells b" and "y < 20"
  shows "view (DeleteLine b y) = (view b)[y := empty_row]"
proof -
  have "row_view (map clear_cell (b ! y)) = empty_row"
    using assms
    by (intro nth_equalityI) (auto simp: row_view_def empty_row_def clear_cell_def wf_cells_def)
  then show ?thesis by (simp add: DeleteLine_def view_def map_update)
qed

lemma wf_cells_update:
  assumes "wf_cells b" and "length r = 10" and "\<And>x. x < 10 \<Longrightarrow> wf_cell y x (r ! x)"
  shows "wf_cells (b[y := r])"
proof -
  have "(b[y := r]) ! z = (if y = z \<and> y < length b then r else b ! z)" for z
    by (rule nth_list_update_if)
  with assms show ?thesis by (auto simp: wf_cells_def)
qed

lemma wf_cells_DeleteLine [invs]:
  assumes "wf_cells b" and "y < 20"
  shows "wf_cells (DeleteLine b y)"
  unfolding DeleteLine_def
  using assms by (intro wf_cells_update) (auto simp: wf_cells_def wf_cell_def clear_cell_def)

lemma MoveToDown_valid:
  assumes "wf_cells b" and "Suc m < 20"
  shows "\<exists>b'. MoveToDown b (int m) = Inr b' \<and> wf_cells b' \<and>
              view b' = (view b)[Suc m := view b ! m, m := empty_row]"
proof -
  let ?r = "map2 SetProperty (b ! Suc m) (b ! m)"
  let ?b = "b[Suc m := ?r]"
  have len: "length b = 20" "length (b ! m) = 10" "length (b ! Suc m) = 10"
    using assms by (auto simp: wf_cells_def)
  have idx: "nat (int m + 1) = Suc m" by simp
  have wf: "wf_cells ?b"
  proof (rule wf_cells_update [OF assms(1)])
    show "length ?r = 10" using len by simp
    fix x :: nat assume x: "x < 10"
    have "wf_cell m x (b ! m ! x)" "wf_cell (Suc m) x (b ! Suc m ! x)"
      using assms x unfolding wf_cells_def by auto
    with x len show "wf_cell (Suc m) x (?r ! x)"
      by (auto simp: wf_cell_def SetProperty_def)
  qed
  have "row_view ?r = row_view (b ! m)"
    using len by (intro nth_equalityI) (auto simp: row_view_def SetProperty_def)
  then have "view ?b = (view b)[Suc m := view b ! m]"
    using len assms(2) by (simp add: view_def map_update)
  with wf assms(2) have "view (DeleteLine ?b m) = (view b)[Suc m := view b ! m, m := empty_row]"
    by (simp add: view_DeleteLine)
  moreover have "wf_cells (DeleteLine ?b m)" using wf assms(2) by (simp add: wf_cells_DeleteLine)
  moreover have "MoveToDown b (int m) = Inr (DeleteLine ?b m)"
    using assms(2) by (simp add: MoveToDown_def IsValidHeight_def idx)
  ultimately show ?thesis by blast
qed

text \<open>The loops of \<open>RemoveWall\<close> on lists of rows.\<close>

fun shift_rows :: "nat \<Rightarrow> row list \<Rightarrow> row list" where
  "shift_rows 0 v = v"
| "shift_rows (Suc m) v =
     (if \<not> some_wall (v ! m) then v
      else shift_rows m (v[Suc m := v ! m, m := empty_row]))"

definition clear_row_at :: "nat \<Rightarrow> row list \<Rightarrow> row list" where
  "clear_row_at h v = (if full_row (v ! h) then shift_rows h (v[h := empty_row]) else v)"

definition clear_rows :: "nat \<Rightarrow> row list \<Rightarrow> row list" where
  "clear_rows n v = fold clear_row_at [0..<n] v"

lemma ShiftLines_view:
  assumes "wf_cells b" and "h < 20"
  shows "\<exists>b'. ShiftLines h b = Inr b' \<and> wf_cells b' \<and> view b' = shift_rows h (view b)"
  using assms
proof (induction h arbitrary: b)
  case 0
  then show ?case by simp
next
  case (Suc m)
  then have m: "m < length b" by (simp add: wf_cells_def)
  obtain b1 where b1: "MoveToDown b (int m) = Inr b1" "wf_cells b1"
    "view b1 = (view b)[Suc m := view b ! m, m := empty_row]"
    using MoveToDown_valid [OF Suc.prems] by blast
  from Suc.IH [OF b1(2)] Suc.prems(2) obtain b2 where
    "ShiftLines m b1 = Inr b2" "wf_cells b2" "view b2 = shift_rows m (view b1)" by auto
  with b1 m show ?case
    using Suc.prems(1) by (auto simp: IsAnyBlock_view simp del: view_nth)
qed

lemma RemoveWallAt_view:
  assumes "wf_cells b" and "h < 20"
  shows "\<exists>b'. RemoveWallAt h b = Inr b' \<and> wf_cells b' \<and> view b' = clear_row_at h (view b)"
proof -
  have "wf_cells (DeleteLine b h)" using assms by (rule wf_cells_DeleteLine)
  from ShiftLines_view [OF this assms(2)] show ?thesis
    using assms unfolding RemoveWallAt_def clear_row_at_def
    by (simp add: wallCount_view view_DeleteLine del: view_nth TETRIS_BOARD_WIDTH_def)
qed

lemma fold_RemoveWallAt_view:
  assumes "wf_cells b" and "n \<le> 20"
  shows "\<exists>b'. fold_res RemoveWallAt [0..<n] b = Inr b' \<and> wf_cells b' \<and>
              view b' = clear_rows n (view b)"
  using assms(2)
proof (induction n)
  case 0
  then show ?case using assms(1) by (simp add: clear_rows_def)
next
  case (Suc n)
  then obtain b1 where b1: "fold_res RemoveWallAt [0..<n] b = Inr b1" "wf_cells b1"
    "view b1 = clear_rows n (view b)" by auto
  from RemoveWallAt_view [OF b1(2), of n] Suc.prems b1 show ?case
    by (auto simp: fold_res_append clear_rows_def)
qed

lemma RemoveWall_view:
  assumes "wf_cells b"
  obtains b' where "RemoveWall b = Inr (b', 0)" and "wf_cells b'"
    and "view b' = clear_rows 20 (view b)"
  using fold_RemoveWallAt_view [OF assms, of 20] by (auto simp: RemoveWall_def)

section \<open>Clearing lists of rows\<close>

text \<open>
  The shift moves the lines above the cleared one down by one, up to the first line without
  a wall: an empty line goes in above them.
\<close>

lemma shift_rows_append:
  "shift_rows (length p) (p @ empty_row # q) =
     rev (dropWhile some_wall (rev p)) @ empty_row # rev (takeWhile some_wall (rev p)) @ q"
proof (induction p arbitrary: q rule: rev_induct)
  case Nil
  then show ?case by simp
next
  case (snoc a p)
  have upd: "((p @ [a]) @ empty_row # q)[Suc (length p) := a, length p := empty_row]
             = p @ empty_row # a # q"
    by (simp add: list_update_append)
  show ?case
  proof (cases "some_wall a")
    case True
    with snoc [of "a # q"] upd show ?thesis
      by (simp add: nth_append) 
  next
    case False
    then show ?thesis by (simp add: nth_append)
  qed
qed

lemma clear_row_at_append:
  assumes "length p = h"
  shows "clear_row_at h (p @ r # q) =
     (if full_row r
      then rev (dropWhile some_wall (rev p)) @ empty_row # rev (takeWhile some_wall (rev p)) @ q
      else p @ r # q)"
  using assms shift_rows_append [of p q]
  by (auto simp: clear_row_at_def nth_append list_update_append)

text \<open>The part above the loop's current line, and the lines the loop has not reached.\<close>

lemma clear_rows_split:
  assumes "n \<le> length v"
  shows "\<exists>p. clear_rows n v = p @ drop n v \<and> length p = n \<and>
             list_all (\<lambda>r. \<not> full_row r) p \<and>
             filter some_wall p = filter (\<lambda>r. some_wall r \<and> \<not> full_row r) (take n v)"
  using assms
proof (induction n)
  case 0
  then show ?case by (simp add: clear_rows_def)
next
  case (Suc n)
  then obtain p where p: "clear_rows n v = p @ drop n v" "length p = n"
    "list_all (\<lambda>r. \<not> full_row r) p"
    "filter some_wall p = filter (\<lambda>r. some_wall r \<and> \<not> full_row r) (take n v)" by auto
  from Suc.prems have n: "n < length v" by simp
  then have d: "drop n v = v ! n # drop (Suc n) v" by (simp add: Cons_nth_drop_Suc)
  have t: "take (Suc n) v = take n v @ [v ! n]" using n by (simp add: take_Suc_conv_app_nth)
  let ?k = "rev (dropWhile some_wall (rev p))" and ?s = "rev (takeWhile some_wall (rev p))"
  have ks: "?k @ ?s = p" by (metis rev_append rev_rev_ident takeWhile_dropWhile_id)
  let ?p' = "if full_row (v ! n) then ?k @ empty_row # ?s else p @ [v ! n]"
  have eq: "clear_rows (Suc n) v = ?p' @ drop (Suc n) v"
    using p d by (simp add: clear_rows_def clear_row_at_append)
  have "length ?k + length ?s = n" using p(2) ks by (metis length_append)
  then have len: "length ?p' = Suc n" using p(2) by simp
  have set_ks: "set ?k \<union> set ?s = set p" by (metis ks set_append)
  have nf: "list_all (\<lambda>r. \<not> full_row r) ?p'"
  proof (cases "full_row (v ! n)")
    case True
    have "\<forall>r \<in> set ?k \<union> set ?s. \<not> full_row r" unfolding set_ks using p(3) by (simp add: list_all_iff)
    with True show ?thesis unfolding list_all_iff by (simp only: if_True) simp
  next
    case False
    with p(3) show ?thesis by (simp add: list_all_iff)
  qed
  have fl: "filter some_wall ?p' = filter (\<lambda>r. some_wall r \<and> \<not> full_row r) (take (Suc n) v)"
    using p(4) t ks [THEN arg_cong, of "filter some_wall"]
    by (cases "full_row (v ! n)") auto
  show ?case using eq len nf fl by blast
qed

lemma dropWhile_replicate_append:
  "list_all some_wall s \<Longrightarrow>
     rev (dropWhile some_wall (rev (replicate j empty_row @ s))) = replicate j empty_row \<and>
     rev (takeWhile some_wall (rev (replicate j empty_row @ s))) = s"
proof -
  assume "list_all some_wall s"
  then have s: "\<And>r. r \<in> set (rev s) \<Longrightarrow> some_wall r" by (simp add: list_all_iff)
  have e: "dropWhile some_wall (replicate j empty_row) = replicate j empty_row"
    "takeWhile some_wall (replicate j empty_row) = []"
    by (cases j; simp)+
  have "dropWhile some_wall (rev s @ ys) = dropWhile some_wall ys"
    "takeWhile some_wall (rev s @ ys) = rev s @ takeWhile some_wall ys" for ys
    using s by (auto intro: dropWhile_append2 takeWhile_append2)
  with e show ?thesis by simp
qed

text \<open>Without gaps the loop computes the reference.\<close>

lemma clear_rows_stack:
  assumes "v = replicate j empty_row @ s" and "list_all some_wall s" and "n \<le> length s"
  shows "clear_rows (j + n) v =
     replicate (j + length (filter full_row (take n s))) empty_row
       @ filter (\<lambda>r. \<not> full_row r) (take n s) @ drop n s"
  using assms(3)
proof (induction n)
  case 0
  have "clear_rows i v = v" if "i \<le> j" for i
    using that
  proof (induction i)
    case 0
    then show ?case by (simp add: clear_rows_def)
  next
    case (Suc i)
    then have "v ! i = empty_row" by (simp add: assms(1) nth_append)
    with Suc show ?case by (simp add: clear_rows_def clear_row_at_def)
  qed
  then show ?case by (simp add: assms(1))
next
  case (Suc n)
  let ?f = "filter (\<lambda>r. \<not> full_row r) (take n s)"
  let ?j = "j + length (filter full_row (take n s))"
  from Suc.prems have n: "n < length s" by simp
  then have d: "drop n s = s ! n # drop (Suc n) s" by (simp add: Cons_nth_drop_Suc)
  have t: "take (Suc n) s = take n s @ [s ! n]" using n by (simp add: take_Suc_conv_app_nth)
  have len: "length (replicate ?j empty_row @ ?f) = j + n"
    using n sum_length_filter_compl [of full_row "take n s"] by simp
  have "list_all some_wall ?f"
    using assms(2) by (auto simp: list_all_iff dest: in_set_takeD)
  note split = dropWhile_replicate_append [OF this, of ?j]
  have "clear_rows (j + Suc n) v = clear_row_at (j + n) (clear_rows (j + n) v)"
    by (simp add: clear_rows_def)
  also have "\<dots> = clear_row_at (j + n) ((replicate ?j empty_row @ ?f) @ s ! n # drop (Suc n) s)"
    using Suc d by simp
  also have "\<dots> = (if full_row (s ! n)
      then replicate ?j empty_row @ empty_row # ?f @ drop (Suc n) s
      else (replicate ?j empty_row @ ?f) @ s ! n # drop (Suc n) s)"
    unfolding clear_row_at_append [OF len] split [THEN conjunct1] split [THEN conjunct2]
    by (rule refl)
  also have "\<dots> = replicate (j + length (filter full_row (take (Suc n) s))) empty_row
       @ filter (\<lambda>r. \<not> full_row r) (take (Suc n) s) @ drop (Suc n) s"
    unfolding t by (simp add: replicate_app_Cons_same)
  finally show ?case .
qed

lemma gap_free_split:
  assumes "gap_free v" and "\<And>r. r \<in> set v \<Longrightarrow> \<not> some_wall r \<Longrightarrow> r = empty_row"
  obtains j s where "v = replicate j empty_row @ s" and "list_all some_wall s"
proof -
  let ?e = "takeWhile (\<lambda>r. \<not> some_wall r) v"
  have "\<forall>r\<in>set ?e. r = empty_row"
    using assms(2) by (metis (mono_tags, lifting) set_takeWhileD)
  then have "?e = replicate (length ?e) empty_row" by (simp add: map_replicate_const replicate_length_same)
  then have "v = replicate (length ?e) empty_row @ dropWhile (\<lambda>r. \<not> some_wall r) v"
    by (metis takeWhile_dropWhile_id)
  with assms(1) show thesis by (intro that) (auto simp: gap_free_def)
qed

lemma clear_rows_remove_full:
  assumes "gap_free v" and "\<And>r. r \<in> set v \<Longrightarrow> \<not> some_wall r \<Longrightarrow> r = empty_row"
  shows "clear_rows (length v) v = remove_full v"
proof -
  obtain j s where v: "v = replicate j empty_row @ s" and s: "list_all some_wall s"
    using gap_free_split [OF assms] by blast
  from clear_rows_stack [OF v s order_refl] show ?thesis
    by (simp add: remove_full_def v replicate_add add.commute flip: append_assoc)
       (simp add: add.commute flip: replicate_add)
qed

end
