(* ===== verification/TetrisBoard.thy ===== *)
theory TetrisBoard
  imports BoardLines
begin

text \<open>
  The class \<open>TetrisBoard\<close> of \<open>IOCPTetrisCommon/TetrisBoard.h\<close>: its state as a record and its
  member functions, each with every branch of the source.

  \<^item> The pointers \<open>hold\<close> and \<open>fallingBlock\<close> own their objects and never alias: a block is
    either in the queue, falling or held.  They are options of values; \<open>SAFE_DELETE\<close> is
    \<open>None\<close>, and a member access through a null pointer fails with \<open>NullDeref\<close>.
  \<^item> The three queues are lists, front first.
  \<^item> \<open>float\<close> values are \<open>f32\<close>, and \<open>cosf\<close> and \<open>sinf\<close> of the constant \<open>PI * 0.5f\<close> are
    their correctly rounded results.
  \<^item> The input loop of \<open>Update\<close> recurses on the input queue and terminates because no step
    of the body puts anything into it; the landing loop of \<open>UpdateExpectBlock\<close> terminates
    because the first cell gets closer to the floor.
\<close>

section \<open>State\<close>

record TetrisBoard =
  board :: cells
  hold :: "FallingBlock option"
  fallingBlock :: "FallingBlock option"
  expectBlock :: FallingBlock
  nextFallingBlockQueue :: "FallingBlock list"
  inputQueue :: "InputType list"
  applyQueue :: "InputType list"
  canHold :: bool
  isPlaying :: bool
  lastFallingTime :: f32
  playerSessionIndex :: int

text \<open>A board as the default member initializers leave it.\<close>

definition new_board :: TetrisBoard where
  "new_board =
     \<lparr>board = raw_cells, hold = None, fallingBlock = None, expectBlock = default_falling,
      nextFallingBlockQueue = [], inputQueue = [], applyQueue = [], canHold = False,
      isPlaying = False, lastFallingTime = 0, playerSessionIndex = 0\<rparr>"

text \<open>\<open>Init\<close> keeps \<open>canHold\<close> and \<open>expectBlock\<close>, and the player for the index 0.\<close>

definition Init :: "int \<Rightarrow> TetrisBoard \<Rightarrow> TetrisBoard" where
  "Init sessionIndex tb =
     tb\<lparr>board := init_cells (board tb),
        playerSessionIndex :=
          (if sessionIndex \<noteq> 0 then sessionIndex else playerSessionIndex tb),
        isPlaying := False,
        nextFallingBlockQueue := [],
        fallingBlock := None,
        hold := None,
        applyQueue := [],
        inputQueue := [],
        lastFallingTime := 0\<rparr>"

definition Start :: "TetrisBoard \<Rightarrow> TetrisBoard" where
  "Start tb = tb\<lparr>isPlaying := True, canHold := True\<rparr>"

definition Stop :: "TetrisBoard \<Rightarrow> TetrisBoard" where
  "Stop tb = Init (playerSessionIndex tb) tb"

section \<open>Queues\<close>

definition QueueInput :: "InputType \<Rightarrow> TetrisBoard \<Rightarrow> TetrisBoard" where
  "QueueInput i tb = tb\<lparr>inputQueue := inputQueue tb @ [i]\<rparr>"

fun QueueInputs :: "InputType list \<Rightarrow> TetrisBoard \<Rightarrow> TetrisBoard" where
  "QueueInputs [] tb = tb"
| "QueueInputs (i # is) tb = QueueInputs is (tb\<lparr>inputQueue := inputQueue tb @ [i]\<rparr>)"

definition DequeInput :: "TetrisBoard \<Rightarrow> InputType \<times> TetrisBoard" where
  "DequeInput tb =
     (case inputQueue tb of
        [] \<Rightarrow> (Input_NONE, tb)
      | i # is \<Rightarrow> (i, tb\<lparr>inputQueue := is\<rparr>))"

definition MakeFallingBlock :: "ShapeType \<Rightarrow> FallingBlock option" where
  "MakeFallingBlock type =
     (case type of
        Shape_Z \<Rightarrow> Some (mk_falling Shape_Z BlockShape_Z)
      | Shape_L \<Rightarrow> Some (mk_falling Shape_L BlockShape_L)
      | Shape_O \<Rightarrow> Some (mk_falling Shape_O BlockShape_O)
      | Shape_S \<Rightarrow> Some (mk_falling Shape_S BlockShape_S)
      | Shape_I \<Rightarrow> Some (mk_falling Shape_I BlockShape_I)
      | Shape_J \<Rightarrow> Some (mk_falling Shape_J BlockShape_J)
      | Shape_T \<Rightarrow> Some (mk_falling Shape_T BlockShape_T)
      | _ \<Rightarrow> None)"

definition QueueNextBlock :: "ShapeType \<Rightarrow> TetrisBoard \<Rightarrow> TetrisBoard" where
  "QueueNextBlock type tb =
     (case MakeFallingBlock type of
        None \<Rightarrow> tb
      | Some f \<Rightarrow> tb\<lparr>nextFallingBlockQueue := nextFallingBlockQueue tb @ [f]\<rparr>)"

definition DequeNextBlock :: "TetrisBoard \<Rightarrow> FallingBlock option \<times> TetrisBoard" where
  "DequeNextBlock tb =
     (case nextFallingBlockQueue tb of
        [] \<Rightarrow> (None, tb)
      | f # fs \<Rightarrow> (Some f, tb\<lparr>nextFallingBlockQueue := fs\<rparr>))"

definition GetRemainFallingBlock :: "TetrisBoard \<Rightarrow> nat" where
  "GetRemainFallingBlock tb = length (nextFallingBlockQueue tb)"

definition GetAppliedInputs :: "TetrisBoard \<Rightarrow> InputType list" where
  "GetAppliedInputs tb = applyQueue tb"

definition IsPlaying :: "TetrisBoard \<Rightarrow> bool" where
  "IsPlaying tb = isPlaying tb"

definition push_applied :: "InputType \<Rightarrow> TetrisBoard \<Rightarrow> TetrisBoard" where
  "push_applied i tb = tb\<lparr>applyQueue := applyQueue tb @ [i]\<rparr>"

section \<open>The falling block\<close>

definition SetFallingBlock :: "FallingBlock option \<Rightarrow> TetrisBoard \<Rightarrow> TetrisBoard" where
  "SetFallingBlock p tb =
     (case p of
        None \<Rightarrow> tb
      | Some f \<Rightarrow> tb\<lparr>fallingBlock := Some (falling_SetPos f 4 (-1)), lastFallingTime := 0\<rparr>)"

text \<open>
  \<open>fallingBlock = DequeNextBlock(); SetFallingBlock(fallingBlock);\<close>, which three places of
  the source write out.
\<close>

definition NextFallingBlock :: "TetrisBoard \<Rightarrow> TetrisBoard" where
  "NextFallingBlock tb =
     (let (p, tb1) = DequeNextBlock tb in SetFallingBlock p (tb1\<lparr>fallingBlock := p\<rparr>))"

definition CanMoveFallingBlock :: "cells \<Rightarrow> FallingBlock \<Rightarrow> Vector2D \<Rightarrow> bool" where
  "CanMoveFallingBlock b f vector =
     list_all
       (\<lambda>i. let x = cell_x f i + vx vector; y = cell_y f i + vy vector
            in if y \<ge> int TETRIS_BOARD_HEIGHT then False
               else if 0 > x \<or> x \<ge> int TETRIS_BOARD_WIDTH then False
               else \<not> (y \<ge> 0 \<and> blockType (b ! nat y ! nat x) = WALL))
       [0..<4]"

text \<open>One iteration of the loop of \<open>FallingBlockToWall\<close>.\<close>

definition WallCell :: "FallingBlock \<Rightarrow> FallingBlock \<Rightarrow> nat \<Rightarrow> cells \<Rightarrow> cells res" where
  "WallCell expect falling i b =
     (let x = cell_x expect i; y = cell_y expect i
      in write_cell b y x
           ((blockInfo falling ! i)\<lparr>bpos := vec x y, blockType := WALL\<rparr>))"

definition FallingBlockToWall :: "TetrisBoard \<Rightarrow> TetrisBoard res" where
  "FallingBlockToWall tb =
     (case fallingBlock tb of
        None \<Rightarrow> Inl NullDeref
      | Some f \<Rightarrow>
          bind_res (fold_res (WallCell (expectBlock tb) f) [0..<4] (board tb))
            (\<lambda>b. Inr (tb\<lparr>board := b, fallingBlock := None, canHold := True\<rparr>)))"

text \<open>\<open>cosf(PI * 0.5f)\<close> and \<open>sinf(PI * 0.5f)\<close>.\<close>

definition half_pi :: f32 where "half_pi = f32_mul PI (2 ^ 148)"
definition cos_half_pi :: f32 where
  "cos_half_pi = 22682655268594994459201858089372738387968"
definition sin_half_pi :: f32 where "sin_half_pi = f32_one"

definition rot_x :: "int \<Rightarrow> int \<Rightarrow> int" where
  "rot_x curX curY =
     f32_roundf (f32_sub (f32_mul (f32_of_int curX) cos_half_pi)
                         (f32_mul (f32_of_int curY) sin_half_pi))"

definition rot_y :: "int \<Rightarrow> int \<Rightarrow> int" where
  "rot_y curX curY =
     f32_roundf (f32_add (f32_mul (f32_of_int curX) sin_half_pi)
                         (f32_mul (f32_of_int curY) cos_half_pi))"

definition rotate_cell_right :: "BlockInfo \<Rightarrow> BlockInfo" where
  "rotate_cell_right c =
     (let curX = vx (bpos c); curY = vy (bpos c)
      in c\<lparr>bpos := vec (rot_x curX curY) (rot_y curX curY)\<rparr>)"

definition rotate_cell_left :: "BlockInfo \<Rightarrow> BlockInfo" where
  "rotate_cell_left c =
     (let curX = vx (bpos c); curY = vy (bpos c)
      in c\<lparr>bpos := vec (- rot_x curX curY) (- rot_y curX curY)\<rparr>)"

definition rotate_right :: "FallingBlock \<Rightarrow> FallingBlock" where
  "rotate_right f = f\<lparr>blockInfo := map rotate_cell_right (blockInfo f)\<rparr>"

definition rotate_left :: "FallingBlock \<Rightarrow> FallingBlock" where
  "rotate_left f = f\<lparr>blockInfo := map rotate_cell_left (blockInfo f)\<rparr>"

definition input_vector :: "InputType \<Rightarrow> Vector2D" where
  "input_vector inputType =
     (case inputType of
        DOWN \<Rightarrow> vec 0 1
      | LEFT \<Rightarrow> vec (-1) 0
      | RIGHT \<Rightarrow> vec 1 0
      | _ \<Rightarrow> vec 0 0)"

definition MoveFallingBlock :: "InputType \<Rightarrow> TetrisBoard \<Rightarrow> TetrisBoard res" where
  "MoveFallingBlock inputType tb =
     (if inputType = DROP then
        bind_res (FallingBlockToWall tb)
          (\<lambda>tb1. let (p, tb2) = DequeNextBlock tb1 in Inr (SetFallingBlock p tb2))
      else case fallingBlock tb of
        None \<Rightarrow> Inl NullDeref
      | Some f \<Rightarrow>
          if blockShape f \<noteq> Shape_O \<and> inputType = ROTATELEFT then
            Inr (tb\<lparr>fallingBlock := Some (rotate_left f)\<rparr>)
          else if blockShape f \<noteq> Shape_O \<and> (inputType = UP \<or> inputType = ROTATERIGHT) then
            Inr (tb\<lparr>fallingBlock := Some (rotate_right f)\<rparr>)
          else if CanMoveFallingBlock (board tb) f (input_vector inputType) then
            Inr (tb\<lparr>fallingBlock :=
                       Some (f\<lparr>fpos := vec_add (fpos f) (input_vector inputType)\<rparr>)\<rparr>)
          else Inr tb)"

section \<open>Holding a block\<close>

text \<open>The first block goes into the hold and the next one comes from the queue; later ones
  are exchanged with the held one.\<close>

definition swap_hold :: "TetrisBoard \<Rightarrow> TetrisBoard" where
  "swap_hold tb =
     (case hold tb of
        None \<Rightarrow> NextFallingBlock (tb\<lparr>hold := fallingBlock tb\<rparr>)
      | Some h \<Rightarrow> tb\<lparr>hold := fallingBlock tb, fallingBlock := Some h\<rparr>)"

definition HoldBlock :: "TetrisBoard \<Rightarrow> TetrisBoard res" where
  "HoldBlock tb =
     (let tb1 = swap_hold tb
      in case hold tb1 of
           None \<Rightarrow> Inl NullDeref
         | Some h \<Rightarrow>
             (case MakeFallingBlock (blockShape h) of
                None \<Rightarrow> Inl NullDeref
              | Some h' \<Rightarrow>
                  Inr (tb1\<lparr>hold := Some (h'\<lparr>fpos := vec (-3) 3\<rparr>),
                           lastFallingTime := 0, canHold := False\<rparr>)))"

section \<open>Update\<close>

text \<open>The body of the input loop, for one dequeued input.\<close>

definition ApplyInput :: "f32 \<Rightarrow> InputType \<Rightarrow> TetrisBoard \<Rightarrow> TetrisBoard res" where
  "ApplyInput elapsedTime inputType tb =
     (if inputType = Input_NONE then Inr tb
      else if inputType = HOLD \<and> canHold tb then
        bind_res (HoldBlock tb) (\<lambda>tb1. Inr (push_applied inputType tb1))
      else
        bind_res
          (MoveFallingBlock inputType
             (if inputType = DOWN then tb\<lparr>lastFallingTime := f32_neg elapsedTime\<rparr> else tb))
          (\<lambda>tb1. Inr (push_applied inputType tb1)))"

lemma inputQueue_SetFallingBlock [simp]: "inputQueue (SetFallingBlock p tb) = inputQueue tb"
  by (simp add: SetFallingBlock_def split: option.split)

lemma inputQueue_DequeNextBlock:
  "DequeNextBlock tb = (p, tb') \<Longrightarrow> inputQueue tb' = inputQueue tb"
  by (auto simp: DequeNextBlock_def split: list.splits)

lemma inputQueue_NextFallingBlock [simp]: "inputQueue (NextFallingBlock tb) = inputQueue tb"
  by (auto simp: NextFallingBlock_def dest: inputQueue_DequeNextBlock split: prod.splits)

lemma inputQueue_FallingBlockToWall:
  "FallingBlockToWall tb = Inr tb' \<Longrightarrow> inputQueue tb' = inputQueue tb"
  by (auto simp: FallingBlockToWall_def bind_res_Inr_iff split: option.splits)

lemma inputQueue_MoveFallingBlock:
  assumes "MoveFallingBlock i tb = Inr tb'"
  shows "inputQueue tb' = inputQueue tb"
proof (cases "i = DROP")
  case True
  with assms obtain tb1 where tb1: "FallingBlockToWall tb = Inr tb1"
    and tb': "(let (p, tb2) = DequeNextBlock tb1 in Inr (SetFallingBlock p tb2))
             = (Inr tb' :: TetrisBoard res)"
    by (auto simp: MoveFallingBlock_def bind_res_Inr_iff)
  obtain p tb2 where "DequeNextBlock tb1 = (p, tb2)" by fastforce
  with tb1 tb' show ?thesis
    by (auto dest!: inputQueue_FallingBlockToWall inputQueue_DequeNextBlock)
next
  case False
  with assms show ?thesis
    by (auto simp: MoveFallingBlock_def split: option.splits if_splits)
qed

lemma inputQueue_HoldBlock: "HoldBlock tb = Inr tb' \<Longrightarrow> inputQueue tb' = inputQueue tb"
  by (auto simp: HoldBlock_def swap_hold_def Let_def split: option.splits)

lemma inputQueue_ApplyInput:
  "ApplyInput e i tb = Inr tb' \<Longrightarrow> inputQueue tb' = inputQueue tb"
  by (auto simp: ApplyInput_def bind_res_Inr_iff push_applied_def split: if_splits
      dest: inputQueue_MoveFallingBlock inputQueue_HoldBlock)

function InputLoop :: "f32 \<Rightarrow> TetrisBoard \<Rightarrow> TetrisBoard res" where
  "InputLoop elapsedTime tb =
     (if inputQueue tb = [] then Inr tb
      else bind_res
             (ApplyInput elapsedTime (fst (DequeInput tb)) (snd (DequeInput tb)))
             (\<lambda>tb1. InputLoop elapsedTime tb1))"
  by pat_completeness auto
termination
  by (relation "measure (\<lambda>(e, tb). length (inputQueue tb))")
     (auto simp: DequeInput_def neq_Nil_conv dest!: inputQueue_ApplyInput)

declare InputLoop.simps [simp del]

definition UpdateFallingBlock :: "f32 \<Rightarrow> TetrisBoard \<Rightarrow> TetrisBoard res" where
  "UpdateFallingBlock elapsedTime tb0 =
     (let tb = (if fallingBlock tb0 = None then NextFallingBlock tb0 else tb0)
      in case fallingBlock tb of
           None \<Rightarrow> Inr tb
         | Some f \<Rightarrow>
             (let t = f32_add (lastFallingTime tb) elapsedTime
              in if t > FALLING_BLOCK_INTERVAL then
                   (let tb1 = tb\<lparr>lastFallingTime := 0\<rparr>
                    in if CanMoveFallingBlock (board tb1) f (vec 0 1) then
                         bind_res (MoveFallingBlock DOWN tb1)
                           (\<lambda>tb2. Inr (push_applied DOWN tb2))
                       else
                         bind_res (FallingBlockToWall tb1)
                           (\<lambda>tb2. Inr (push_applied DROP tb2)))
                 else Inr (tb\<lparr>lastFallingTime := t\<rparr>)))"

text \<open>The loop \<open>while (CanMoveFallingBlock(vector)) vector.y += 1;\<close>.\<close>

function expect_loop :: "cells \<Rightarrow> FallingBlock \<Rightarrow> Vector2D \<Rightarrow> Vector2D" where
  "expect_loop b f vector =
     (if CanMoveFallingBlock b f vector
      then expect_loop b f (vec (vx vector) (vy vector + 1)) else vector)"
  by pat_completeness auto
termination
  by (relation "measure (\<lambda>(b, f, v). nat (20 - (cell_y f 0 + vy v)))")
     (auto simp: CanMoveFallingBlock_def upt_0_4 Let_def split: if_splits)

declare expect_loop.simps [simp del]

definition UpdateExpectBlock :: "TetrisBoard \<Rightarrow> TetrisBoard" where
  "UpdateExpectBlock tb =
     (case fallingBlock tb of
        None \<Rightarrow> tb
      | Some f \<Rightarrow>
          (let e = falling_assign (expectBlock tb) f;
               v = expect_loop (board tb) f (vec 0 0);
               vector = vec (vx v) (vy v - 1);
               e1 = e\<lparr>fpos := vec_add (fpos e) vector\<rparr>
           in tb\<lparr>expectBlock := SetResourceID (SetBlockType e1 Block_NONE) Res_EXPECT\<rparr>))"

definition Update :: "f32 \<Rightarrow> TetrisBoard \<Rightarrow> TetrisBoard res" where
  "Update elapsedTime tb0 =
     (let tb = tb0\<lparr>applyQueue := []\<rparr>
      in if \<not> isPlaying tb then Inr tb
         else
           bind_res
             (InputLoop elapsedTime
                (if fallingBlock tb = None then NextFallingBlock tb else tb))
             (\<lambda>tb1. bind_res (UpdateFallingBlock elapsedTime tb1)
             (\<lambda>tb2. let tb3 = UpdateExpectBlock tb2
                    in bind_res (RemoveWall (board tb3))
                         (\<lambda>(b, _). Inr (tb3\<lparr>board := b\<rparr>)))))"

section \<open>What is drawn\<close>

definition place :: "Vector2D \<Rightarrow> BlockInfo \<Rightarrow> BlockInfo" where
  "place p c = c\<lparr>bpos := vec_add (bpos c) p\<rparr>"

definition GetRenderInfo :: "TetrisBoard \<Rightarrow> BlockInfo list" where
  "GetRenderInfo tb =
     concat (map (\<lambda>height. map (\<lambda>width. copy_block (board tb ! height ! width))
                               [0..<TETRIS_BOARD_WIDTH])
                 [0..<TETRIS_BOARD_HEIGHT])
     @ (case fallingBlock tb of
          None \<Rightarrow> []
        | Some f \<Rightarrow>
            concat (map (\<lambda>i. [place (fpos (expectBlock tb))
                                    (copy_block (blockInfo (expectBlock tb) ! i)),
                              place (fpos f) (copy_block (blockInfo f ! i))])
                        [0..<4]))
     @ (case hold tb of
          None \<Rightarrow> []
        | Some h \<Rightarrow> map (\<lambda>i. place (fpos h) (copy_block (blockInfo h ! i))) [0..<4])
     @ (if length (nextFallingBlockQueue tb) > 5
        then concat (map (\<lambda>i. map (\<lambda>j. place (vec 12 (int i * 3 + 3))
                                   (copy_block (blockInfo (nextFallingBlockQueue tb ! i) ! j)))
                                  [0..<4])
                         [0..<5])
        else [])"

end
