(* ===== verification/BoardInv.thy ===== *)
theory BoardInv
  imports TetrisBoard
begin

text \<open>
  Invariants of the board: what \<open>wf_board\<close> says of each member and that every member function
  of \<open>TetrisBoard\<close> keeps it, up to \<open>Update\<close>.  The facts about rotation come first, because
  the invariant bounds the cell offsets that a rotation computes through floats.
\<close>

section \<open>Rotation is a quarter turn\<close>

text \<open>
  The float computation gives the exact turn for the offsets that occur, for any values of
  \<open>cosf\<close> and \<open>sinf\<close> within a thousandth of 0 and 1: the misprinted digits of \<open>PI\<close> and the
  accuracy of the math library do not matter.
\<close>

lemma rounding_chain:
  fixes p q r s t M :: int
  assumes "1000000000 < M"
  shows "p \<le> q + r \<Longrightarrow> 16777216 * q \<le> r + 8388608 \<Longrightarrow> 1000 * r \<le> 2 * M \<Longrightarrow> 100 * p \<le> M"
    and "p \<le> q + s \<Longrightarrow> 16777216 * q \<le> r + 8388608 \<Longrightarrow> r \<le> s + t \<Longrightarrow>
         1000 * s \<le> 2 * M \<Longrightarrow> t \<le> 2 * M \<Longrightarrow> 100 * p \<le> M"
    and "p \<le> q + s \<Longrightarrow> 16777216 * q \<le> r + 8388608 \<Longrightarrow> r \<le> s + t \<Longrightarrow>
         50 * s \<le> M \<Longrightarrow> t \<le> 2 * M \<Longrightarrow> 2 * p < M"
    and "p \<le> q + r \<Longrightarrow> 100 * q \<le> M \<Longrightarrow> 100 * r \<le> M \<Longrightarrow> 50 * p \<le> M"
  using assms by linarith+

lemma rotate_coordinate:
  assumes "\<bar>x\<bar> \<le> 2" and "\<bar>y\<bar> \<le> 2"
    and "1000 * \<bar>c\<bar> \<le> f32_one" and "1000 * \<bar>s - f32_one\<bar> \<le> f32_one"
  shows "f32_roundf (f32_sub (f32_mul (f32_of_int x) c) (f32_mul (f32_of_int y) s)) = - y"
    and "f32_roundf (f32_add (f32_mul (f32_of_int y) s) (f32_mul (f32_of_int x) c)) = y"
proof -
  define M where "M = f32_one"
  have M: "1000000000 < M" by (simp add: M_def f32_one_def)
  define a where "a = f32_mul (x * f32_one) c"
  define b where "b = f32_mul (y * f32_one) s"
  have ints: "f32_of_int x = x * f32_one" "f32_of_int y = y * f32_one"
    using assms(1,2) by (auto intro!: f32_of_int_exact)
  have xc: "1000 * \<bar>x * c\<bar> \<le> 2 * M"
  proof -
    have "\<bar>x\<bar> * (1000 * \<bar>c\<bar>) \<le> 2 * M"
      using assms(1,3) by (intro mult_mono) (auto simp: M_def)
    then show ?thesis by (simp add: abs_mult algebra_simps)
  qed
  have ys: "1000 * \<bar>y * s - y * M\<bar> \<le> 2 * M"
  proof -
    have "\<bar>y\<bar> * (1000 * \<bar>s - M\<bar>) \<le> 2 * M"
      using assms(2,4) by (intro mult_mono) (auto simp: M_def)
    moreover have "\<bar>y * s - y * M\<bar> = \<bar>y\<bar> * \<bar>s - M\<bar>"
      by (simp add: abs_mult flip: right_diff_distrib)
    ultimately show ?thesis by simp
  qed
  have yM: "\<bar>y * M\<bar> \<le> 2 * M"
    using assms(2) M by (simp add: abs_mult mult_right_mono)
  have ea: "16777216 * \<bar>a - x * c\<bar> \<le> \<bar>x * c\<bar> + 8388608"
    unfolding a_def by (rule f32_mul_error)
  have eb: "16777216 * \<bar>b - y * s\<bar> \<le> \<bar>y * s\<bar> + 8388608"
    unfolding b_def by (rule f32_mul_error)
  have a: "100 * \<bar>a\<bar> \<le> M"
    by (rule rounding_chain(1) [OF M _ ea xc]) simp
  have b: "100 * \<bar>b - y * M\<bar> \<le> M"
    by (rule rounding_chain(2) [OF M _ eb _ ys yM]) simp_all
  have near: "2 * \<bar>f32_norm 0 d - n * f32_one\<bar> < f32_one"
    if "50 * \<bar>d - n * M\<bar> \<le> M" and "\<bar>n * M\<bar> \<le> 2 * M" for d n
    unfolding M_def [symmetric]
    by (rule rounding_chain(3) [OF M _ f32_norm0_error [of d] _ that]) simp_all
  have sum: "50 * p \<le> M" if "p \<le> \<bar>a\<bar> + \<bar>b - y * M\<bar>" for p
    by (rule rounding_chain(4) [OF M that a b])
  have "2 * \<bar>f32_norm 0 (a - b) - (- y) * f32_one\<bar> < f32_one"
    by (rule near [OF sum]) (use yM in simp_all)
  then show "f32_roundf (f32_sub (f32_mul (f32_of_int x) c) (f32_mul (f32_of_int y) s)) = - y"
    unfolding ints f32_sub_def a_def [symmetric] b_def [symmetric] by (rule f32_roundf_nearest)
  have "2 * \<bar>f32_norm 0 (b + a) - y * f32_one\<bar> < f32_one"
    by (rule near [OF sum]) (use yM in simp_all)
  then show "f32_roundf (f32_add (f32_mul (f32_of_int y) s) (f32_mul (f32_of_int x) c)) = y"
    unfolding ints f32_add_def a_def [symmetric] b_def [symmetric] by (rule f32_roundf_nearest)
qed

lemma rot_exact:
  assumes "\<bar>x\<bar> \<le> 2" and "\<bar>y\<bar> \<le> 2"
  shows "rot_x x y = - y" and "rot_y x y = x"
  using rotate_coordinate [OF assms, of cos_half_pi sin_half_pi]
    rotate_coordinate [OF assms(2,1), of cos_half_pi sin_half_pi]
  by (simp_all add: rot_x_def rot_y_def cos_half_pi_def sin_half_pi_def f32_one_def)

section \<open>Well-formed blocks\<close>

definition wf_offset :: "BlockInfo \<Rightarrow> bool" where
  "wf_offset c \<longleftrightarrow>
     \<bar>vx (bpos c)\<bar> \<le> 2 \<and> \<bar>vy (bpos c)\<bar> \<le> 2 \<and> rotate_angle c = 0"

definition wf_offsets :: "BlockInfo list \<Rightarrow> bool" where
  "wf_offsets bs \<longleftrightarrow> length bs = 4 \<and> list_all wf_offset bs"

definition wf_falling :: "FallingBlock \<Rightarrow> bool" where
  "wf_falling f \<longleftrightarrow>
     wf_offsets (blockInfo f) \<and> MakeFallingBlock (blockShape f) \<noteq> None \<and>
     - 3 \<le> vx (fpos f) \<and> vx (fpos f) \<le> 11 \<and> - 1 \<le> vy (fpos f) \<and> vy (fpos f) \<le> 21"

text \<open>A held block is a fresh block of its shape, placed at the left of the board.\<close>

definition wf_hold :: "FallingBlock \<Rightarrow> bool" where
  "wf_hold h \<longleftrightarrow>
     MakeFallingBlock (blockShape h) = Some (h\<lparr>fpos := vec 0 0\<rparr>) \<and> fpos h = vec (-3) 3"

definition wf_expect :: "FallingBlock \<Rightarrow> bool" where
  "wf_expect e \<longleftrightarrow>
     wf_offsets (blockInfo e) \<and>
     - 3 \<le> vx (fpos e) \<and> vx (fpos e) \<le> 11 \<and> - 2 \<le> vy (fpos e) \<and> vy (fpos e) \<le> 21"

lemma wf_offsets_nth:
  "wf_offsets bs \<Longrightarrow> i < 4 \<Longrightarrow> wf_offset (bs ! i)"
  by (simp add: wf_offsets_def list_all_length)

lemma MakeFallingBlock_wf:
  assumes "MakeFallingBlock s = Some f"
  shows "wf_falling f" and "blockShape f = s" and "fpos f = vec 0 0"
  using assms
  by (auto simp: MakeFallingBlock_def mk_falling_def wf_falling_def wf_offsets_def wf_offset_def
      BlockShape_defs mk_block_def split: ShapeType.splits)

lemma wf_hold_falling: "wf_hold h \<Longrightarrow> wf_falling h"
  using MakeFallingBlock_wf(1) [of "blockShape h"]
  by (auto simp: wf_hold_def wf_falling_def)

lemma wf_falling_SetPos: "wf_falling f \<Longrightarrow> wf_falling (falling_SetPos f 4 (-1))"
  by (simp add: wf_falling_def falling_SetPos_def)

lemma wf_offset_rotate:
  assumes "wf_offset c"
  shows "rotate_cell_right c = c\<lparr>bpos := vec (- vy (bpos c)) (vx (bpos c))\<rparr>"
    and "rotate_cell_left c = c\<lparr>bpos := vec (vy (bpos c)) (- vx (bpos c))\<rparr>"
  using assms
  by (simp_all add: wf_offset_def rotate_cell_right_def rotate_cell_left_def rot_exact)

lemma wf_falling_rotate [invs]:
  assumes "wf_falling f"
  shows "wf_falling (rotate_right f)" and "wf_falling (rotate_left f)"
  using assms
  by (auto simp: wf_falling_def wf_offsets_def rotate_right_def rotate_left_def list_all_iff
      wf_offset_rotate) (auto simp: wf_offset_def)

lemma rotate_inverse:
  assumes "wf_offsets (blockInfo f)"
  shows "rotate_left (rotate_right f) = f"
proof -
  have "rotate_cell_left (rotate_cell_right c) = c" if "wf_offset c" for c
  proof -
    have "wf_offset (rotate_cell_right c)"
      using that by (simp add: wf_offset_rotate) (simp add: wf_offset_def)
    with that show ?thesis by (simp add: wf_offset_rotate vec_def)
  qed
  with assms have "map (rotate_cell_left \<circ> rotate_cell_right) (blockInfo f) = blockInfo f"
    by (intro map_idI) (auto simp: wf_offsets_def list_all_iff)
  then show ?thesis by (simp add: rotate_left_def rotate_right_def)
qed

section \<open>Moving\<close>

lemma CanMoveFallingBlock_iff:
  "CanMoveFallingBlock b f v \<longleftrightarrow>
     (\<forall>i<4. cell_y f i + vy v < 20 \<and> 0 \<le> cell_x f i + vx v \<and> cell_x f i + vx v < 10 \<and>
            (0 \<le> cell_y f i + vy v \<longrightarrow>
             blockType (b ! nat (cell_y f i + vy v) ! nat (cell_x f i + vx v)) \<noteq> WALL))"
proof -
  have cond: "(if y \<ge> int TETRIS_BOARD_HEIGHT then False
       else if 0 > x \<or> x \<ge> int TETRIS_BOARD_WIDTH then False else \<not> (y \<ge> 0 \<and> w))
     \<longleftrightarrow> y < 20 \<and> 0 \<le> x \<and> x < 10 \<and> (0 \<le> y \<longrightarrow> \<not> w)" for x y :: int and w
    by auto
  show ?thesis unfolding CanMoveFallingBlock_def Let_def cond list_all_upt_iff by simp
qed

text \<open>A move asks whether the block would fit at its new place.\<close>

definition fits :: "cells \<Rightarrow> FallingBlock \<Rightarrow> bool" where
  "fits b f \<longleftrightarrow> CanMoveFallingBlock b f (vec 0 0)"

definition moved :: "FallingBlock \<Rightarrow> Vector2D \<Rightarrow> FallingBlock" where
  "moved f v = f\<lparr>fpos := vec_add (fpos f) v\<rparr>"

lemma cell_moved [simp]:
  "cell_x (moved f v) i = cell_x f i + vx v" "cell_y (moved f v) i = cell_y f i + vy v"
  by (simp_all add: moved_def cell_x_def cell_y_def)

lemma CanMove_fits: "CanMoveFallingBlock b f v \<longleftrightarrow> fits b (moved f v)"
  by (simp add: fits_def CanMoveFallingBlock_iff add.commute)

lemma CanMove_bounds:
  assumes "CanMoveFallingBlock b f v" and "wf_offsets (blockInfo f)"
  shows "- 2 \<le> vx (fpos f) + vx v" "vx (fpos f) + vx v \<le> 11" "vy (fpos f) + vy v \<le> 21"
proof -
  have "wf_offset (blockInfo f ! 0)" using assms(2) by (rule wf_offsets_nth) simp
  moreover have "cell_y f 0 + vy v < 20" "0 \<le> cell_x f 0 + vx v" "cell_x f 0 + vx v < 10"
    using assms(1) unfolding CanMoveFallingBlock_iff by simp_all
  ultimately show "- 2 \<le> vx (fpos f) + vx v" "vx (fpos f) + vx v \<le> 11"
    "vy (fpos f) + vy v \<le> 21"
    by (auto simp: wf_offset_def cell_x_def cell_y_def)
qed

lemma vy_input_vector: "0 \<le> vy (input_vector i)"
  by (simp add: input_vector_def split: InputType.split)

lemma wf_falling_moved:
  assumes "wf_falling f" and "CanMoveFallingBlock b f (input_vector i)"
  shows "wf_falling (moved f (input_vector i))"
proof -
  have "wf_offsets (blockInfo f)" using assms(1) by (simp add: wf_falling_def)
  from CanMove_bounds [OF assms(2) this] assms(1) vy_input_vector [of i] show ?thesis
    by (simp add: wf_falling_def moved_def)
qed

section \<open>The landing position\<close>

lemma expect_loop_unfold_True:
  "CanMoveFallingBlock b f v \<Longrightarrow> expect_loop b f v = expect_loop b f (vec (vx v) (vy v + 1))"
  by (simp add: expect_loop.simps)

lemma expect_loop_unfold_False:
  "\<not> CanMoveFallingBlock b f v \<Longrightarrow> expect_loop b f v = v"
  by (simp add: expect_loop.simps)

text \<open>
  The loop stops at the first distance the block cannot fall: it could fall every smaller
  distance, and the column does not change.
\<close>

lemma expect_loop_spec:
  "vx (expect_loop b f v) = vx v \<and> vy v \<le> vy (expect_loop b f v) \<and>
   \<not> CanMoveFallingBlock b f (expect_loop b f v) \<and>
   (\<forall>d. vy v \<le> d \<and> d < vy (expect_loop b f v) \<longrightarrow> CanMoveFallingBlock b f (vec (vx v) d))"
proof (induction b f v rule: expect_loop.induct)
  case (1 b f v)
  show ?case
  proof (cases "CanMoveFallingBlock b f v")
    case True
    note IH = 1 [OF True] and step = expect_loop_unfold_True [OF True]
    have "CanMoveFallingBlock b f (vec (vx v) d)"
      if "vy v \<le> d" "d < vy (expect_loop b f v)" for d
    proof (cases "d = vy v")
      case True
      then show ?thesis using \<open>CanMoveFallingBlock b f v\<close> by (cases v) (simp add: vec_def)
    next
      case False
      with that IH step show ?thesis by simp
    qed
    with IH step show ?thesis by auto
  next
    case False
    then show ?thesis by (auto simp: expect_loop_unfold_False)
  qed
qed

definition land_distance :: "cells \<Rightarrow> FallingBlock \<Rightarrow> int" where
  "land_distance b f = vy (expect_loop b f (vec 0 0)) - 1"

lemma land_distance_spec:
  "- 1 \<le> land_distance b f"
  "\<not> CanMoveFallingBlock b f (vec 0 (land_distance b f + 1))"
  "0 \<le> d \<Longrightarrow> d \<le> land_distance b f \<Longrightarrow> CanMoveFallingBlock b f (vec 0 d)"
proof -
  note s = expect_loop_spec [of b f "vec 0 0"]
  have "expect_loop b f (vec 0 0) = vec 0 (land_distance b f + 1)"
    using s by (intro Vector2D.equality) (auto simp: land_distance_def)
  with s show "\<not> CanMoveFallingBlock b f (vec 0 (land_distance b f + 1))" by auto
  show "- 1 \<le> land_distance b f" using s by (simp add: land_distance_def)
  show "0 \<le> d \<Longrightarrow> d \<le> land_distance b f \<Longrightarrow> CanMoveFallingBlock b f (vec 0 d)"
    using s by (simp add: land_distance_def)
qed

lemma UpdateExpectBlock_eq:
  assumes "fallingBlock tb = Some f"
  shows "UpdateExpectBlock tb = tb\<lparr>expectBlock :=
           \<lparr>fpos = vec_add (fpos f) (vec 0 (land_distance (board tb) f)),
            blockInfo = map (\<lambda>c. c\<lparr>blockType := Block_NONE, resourceID := Res_EXPECT\<rparr>)
                          (blockInfo f),
            blockShape = blockShape (expectBlock tb)\<rparr>\<rparr>"
  using assms expect_loop_spec [of "board tb" f "vec 0 0"]
  by (cases "expectBlock tb")
     (simp add: UpdateExpectBlock_def Let_def falling_assign_def SetResourceID_def
      SetBlockType_def land_distance_def comp_def)

section \<open>The invariant of the board\<close>

definition wf_board :: "TetrisBoard \<Rightarrow> bool" where
  "wf_board tb \<longleftrightarrow>
     wf_cells (board tb) \<and> pred_option wf_falling (fallingBlock tb) \<and>
     pred_option wf_hold (hold tb) \<and> list_all wf_falling (nextFallingBlockQueue tb) \<and>
     wf_expect (expectBlock tb)"

text \<open>\<open>Init\<close> does not touch \<open>rotate\<close>, which is 0 in every cell the program makes.\<close>

lemma wf_cells_init:
  assumes "\<And>y x. y < 20 \<Longrightarrow> x < 10 \<Longrightarrow> rotate_angle (b ! y ! x) = 0"
  shows "wf_cells (init_cells b)"
  using assms
  by (auto simp: wf_cells_def init_cells_def wf_cell_def init_cell_def block_SetPos_def)

lemma wf_boardD:
  assumes "wf_board tb"
  shows "wf_cells (board tb)" "wf_expect (expectBlock tb)"
    "list_all wf_falling (nextFallingBlockQueue tb)"
    "fallingBlock tb = Some f \<Longrightarrow> wf_falling f"
    "hold tb = Some h \<Longrightarrow> wf_hold h"
  using assms by (auto simp: wf_board_def)

lemma wf_board_Init [invs]:
  assumes "wf_board tb"
  shows "wf_board (Init s tb)"
proof -
  have "wf_cells (init_cells (board tb))"
    using assms by (intro wf_cells_init) (simp add: wf_board_def wf_cells_def wf_cell_def)
  with assms show ?thesis by (simp add: wf_board_def Init_def)
qed

lemma wf_board_new: "wf_board (Init s new_board)"
proof -
  have "wf_cells (init_cells raw_cells)"
    by (intro wf_cells_init) (simp add: raw_cells_def mk_block_def)
  moreover have "wf_expect default_falling"
    by (simp add: wf_expect_def default_falling_def wf_offsets_def wf_offset_def mk_block_def
        list_all_iff)
  ultimately show ?thesis by (simp add: wf_board_def Init_def new_board_def)
qed

lemma wf_board_Start [invs]: "wf_board tb \<Longrightarrow> wf_board (Start tb)"
  by (simp add: wf_board_def Start_def)

lemma wf_board_Stop [invs]: "wf_board tb \<Longrightarrow> wf_board (Stop tb)"
  by (simp add: Stop_def wf_board_Init)

lemma wf_board_QueueNextBlock [invs]: "wf_board tb \<Longrightarrow> wf_board (QueueNextBlock s tb)"
  by (auto simp: wf_board_def QueueNextBlock_def dest: MakeFallingBlock_wf(1) split: option.split)

lemma wf_board_QueueInputs [invs]: "wf_board tb \<Longrightarrow> wf_board (QueueInputs is tb)"
  by (induction "is" tb rule: QueueInputs.induct) (auto simp: wf_board_def)

lemma wf_board_push_applied [invs]: "wf_board (push_applied i tb) = wf_board tb"
  by (simp add: wf_board_def push_applied_def)

lemma wf_board_DequeNextBlock [invs]:
  assumes "DequeNextBlock tb = (p, tb')" and "wf_board tb"
  shows "wf_board tb'" and "pred_option wf_falling p"
  using assms by (auto simp: DequeNextBlock_def wf_board_def split: list.splits)

lemma wf_board_SetFallingBlock [invs]:
  "wf_board tb \<Longrightarrow> pred_option wf_falling p \<Longrightarrow> wf_board (SetFallingBlock p tb)"
  by (auto simp: SetFallingBlock_def wf_board_def wf_falling_SetPos split: option.split)

lemma wf_board_NextFallingBlock [invs]:
  assumes "wf_board tb"
  shows "wf_board (NextFallingBlock tb)"
proof -
  obtain p tb1 where d: "DequeNextBlock tb = (p, tb1)" by fastforce
  from wf_board_DequeNextBlock [OF d assms] have "wf_board (tb1\<lparr>fallingBlock := p\<rparr>)"
    by (simp add: wf_board_def)
  with d wf_board_DequeNextBlock [OF d assms] show ?thesis
    by (simp add: NextFallingBlock_def wf_board_SetFallingBlock)
qed

lemma wf_cells_WallCell:
  assumes "WallCell e f i b = Inr b'" and "wf_cells b" and "wf_offsets (blockInfo f)" and "i < 4"
  shows "wf_cells b'"
proof -
  let ?x = "cell_x e i" and ?y = "cell_y e i"
  let ?c = "(blockInfo f ! i)\<lparr>bpos := vec ?x ?y, blockType := WALL\<rparr>"
  from assms(1) have xy: "0 \<le> ?y" "?y < 20" "0 \<le> ?x" "?x < 10"
    and b': "b' = b[nat ?y := (b ! nat ?y)[nat ?x := ?c]]"
    by (auto simp: WallCell_def write_cell_def Let_def split: if_splits)
  have c: "wf_cell (nat ?y) (nat ?x) ?c"
    using wf_offsets_nth [OF assms(3,4)] xy by (simp add: wf_cell_def wf_offset_def)
  have row: "length (b ! nat ?y) = 10" "\<And>x. x < 10 \<Longrightarrow> wf_cell (nat ?y) x (b ! nat ?y ! x)"
    using assms(2) xy by (auto simp: wf_cells_def)
  show ?thesis unfolding b'
    using assms(2) row c by (intro wf_cells_update) (auto simp: nth_list_update_if)
qed

lemma wf_board_FallingBlockToWall [invs]:
  assumes "FallingBlockToWall tb = Inr tb'" and "wf_board tb"
  shows "wf_board tb'"
proof -
  from assms(1) obtain f b where f: "fallingBlock tb = Some f"
    and b: "fold_res (WallCell (expectBlock tb) f) [0..<4] (board tb) = Inr b"
    and tb': "tb' = tb\<lparr>board := b, fallingBlock := None, canHold := True\<rparr>"
    by (auto simp: FallingBlockToWall_def bind_res_Inr_iff split: option.splits)
  from assms(2) f have "wf_offsets (blockInfo f)" by (simp add: wf_board_def wf_falling_def)
  then have "wf_cells b"
    using wf_cells_WallCell wf_boardD(1) [OF assms(2)]
    by (intro fold_res_invariant [OF b, of wf_cells]) auto
  with assms(2) tb' show ?thesis by (simp add: wf_board_def)
qed

text \<open>\<open>SetFallingBlock(DequeNextBlock())\<close>, the end of the hard drop.\<close>

definition after_drop :: "TetrisBoard \<Rightarrow> TetrisBoard" where
  "after_drop tb = (let (p, tb1) = DequeNextBlock tb in SetFallingBlock p tb1)"

lemma MoveFallingBlock_DROP:
  "MoveFallingBlock DROP tb = bind_res (FallingBlockToWall tb) (\<lambda>tb1. Inr (after_drop tb1))"
  by (simp add: MoveFallingBlock_def after_drop_def split_def Let_def)

lemma wf_board_after_drop [invs]:
  assumes "wf_board tb"
  shows "wf_board (after_drop tb)"
proof -
  obtain p tb1 where d: "DequeNextBlock tb = (p, tb1)" by fastforce
  from wf_board_DequeNextBlock [OF d assms] d show ?thesis
    by (simp add: after_drop_def wf_board_SetFallingBlock)
qed

text \<open>Every move but the hard drop succeeds as soon as there is a falling block.\<close>

lemma MoveFallingBlock_cases:
  assumes "i \<noteq> DROP" and "fallingBlock tb = Some f"
  obtains "MoveFallingBlock i tb = Inr (tb\<lparr>fallingBlock := Some (rotate_left f)\<rparr>)"
      and "i = ROTATELEFT"
  | "MoveFallingBlock i tb = Inr (tb\<lparr>fallingBlock := Some (rotate_right f)\<rparr>)"
      and "i = UP \<or> i = ROTATERIGHT"
  | "MoveFallingBlock i tb = Inr (tb\<lparr>fallingBlock := Some (moved f (input_vector i))\<rparr>)"
      and "CanMoveFallingBlock (board tb) f (input_vector i)"
  | "MoveFallingBlock i tb = Inr tb"
      and "\<not> CanMoveFallingBlock (board tb) f (input_vector i)"
proof -
  let ?O = "blockShape f = Shape_O" and ?c = "CanMoveFallingBlock (board tb) f (input_vector i)"
  note move = MoveFallingBlock_def assms(2) assms(1) moved_def
  consider "\<not> ?O" "i = ROTATELEFT" | "\<not> ?O" "i = UP \<or> i = ROTATERIGHT"
    | "?O \<or> i \<noteq> ROTATELEFT \<and> i \<noteq> UP \<and> i \<noteq> ROTATERIGHT" by blast
  then show thesis
  proof cases
    case 1
    then show thesis by (intro that(1)) (simp_all add: move)
  next
    case 2
    then show thesis by (intro that(2)) (auto simp: move)
  next
    case 3
    show thesis
    proof (cases ?c)
      case True
      with 3 show thesis by (intro that(3)) (auto simp: move)
    next
      case False
      with 3 show thesis by (intro that(4)) (auto simp: move)
    qed
  qed
qed

lemma wf_board_MoveFallingBlock [invs]:
  assumes "MoveFallingBlock i tb = Inr tb'" and "wf_board tb"
  shows "wf_board tb'"
proof (cases "i = DROP")
  case True
  with assms show ?thesis
    by (auto simp: MoveFallingBlock_DROP bind_res_Inr_iff invs)
next
  case False
  with assms(1) obtain f where f: "fallingBlock tb = Some f"
    by (auto simp: MoveFallingBlock_def split: option.splits)
  with assms(2) have wf: "wf_falling f" by (simp add: wf_boardD)
  from False f show ?thesis
    by (cases rule: MoveFallingBlock_cases)
       (use assms wf in \<open>auto simp: wf_board_def wf_falling_rotate wf_falling_moved\<close>)
qed

lemma HoldBlock_Inr:
  assumes "HoldBlock tb = Inr tb'" and "wf_board tb"
  obtains f h where "fallingBlock tb = Some f" and "wf_hold h" and "blockShape h = blockShape f"
    and "tb' = (swap_hold tb)\<lparr>hold := Some h, lastFallingTime := 0, canHold := False\<rparr>"
proof -
  have hold_swap: "hold (swap_hold tb) = fallingBlock tb"
    by (auto simp: swap_hold_def NextFallingBlock_def SetFallingBlock_def DequeNextBlock_def
        split: option.split list.split prod.split)
  with assms(1) obtain f h where f: "fallingBlock tb = Some f"
    and h: "MakeFallingBlock (blockShape f) = Some h"
    and tb': "tb' = (swap_hold tb)\<lparr>hold := Some (h\<lparr>fpos := vec (-3) 3\<rparr>),
                lastFallingTime := 0, canHold := False\<rparr>"
    by (auto simp: HoldBlock_def Let_def split: option.splits)
  note made = MakeFallingBlock_wf [OF h]
  have "h\<lparr>fpos := vec 0 0\<rparr> = h" using made(3) by (cases h) simp
  with h made have "wf_hold (h\<lparr>fpos := vec (-3) 3\<rparr>)" by (simp add: wf_hold_def)
  with f tb' made(2) show thesis by (intro that) auto
qed

lemma wf_board_swap_hold: "wf_board tb \<Longrightarrow> hold tb = Some h \<Longrightarrow> wf_board ((swap_hold tb)\<lparr>hold := None\<rparr>)"
  by (auto simp: swap_hold_def wf_board_def wf_hold_falling)

lemma NextFallingBlock_hold [simp]:
  "NextFallingBlock (tb\<lparr>hold := h\<rparr>) = (NextFallingBlock tb)\<lparr>hold := h\<rparr>"
  by (auto simp: NextFallingBlock_def SetFallingBlock_def DequeNextBlock_def
      split: option.split list.split prod.split)

lemma wf_board_HoldBlock [invs]:
  assumes "HoldBlock tb = Inr tb'" and "wf_board tb"
  shows "wf_board tb'"
proof -
  obtain h where h: "wf_hold h"
    and tb': "tb' = (swap_hold tb)\<lparr>hold := Some h, lastFallingTime := 0, canHold := False\<rparr>"
    using HoldBlock_Inr [OF assms] by blast
  have "wf_board ((swap_hold tb)\<lparr>hold := None\<rparr>)"
  proof (cases "hold tb")
    case None
    then show ?thesis
      using wf_board_NextFallingBlock [OF assms(2)] by (simp add: swap_hold_def wf_board_def)
  next
    case (Some k)
    with assms(2) show ?thesis by (rule wf_board_swap_hold)
  qed
  with h tb' show ?thesis by (simp add: wf_board_def)
qed

lemma wf_board_timer [simp]: "wf_board (tb\<lparr>lastFallingTime := t\<rparr>) = wf_board tb"
  by (simp add: wf_board_def)

lemma wf_board_ApplyInput [invs]:
  assumes "ApplyInput e i tb = Inr tb'" and "wf_board tb"
  shows "wf_board tb'"
  using assms
  by (auto simp: ApplyInput_def bind_res_Inr_iff wf_board_push_applied split: if_splits
      dest!: wf_board_HoldBlock wf_board_MoveFallingBlock)

lemma wf_board_DequeInput [invs]: "wf_board tb \<Longrightarrow> wf_board (snd (DequeInput tb))"
  by (auto simp: DequeInput_def wf_board_def split: list.split)

lemma wf_board_InputLoop [invs]:
  assumes "InputLoop e tb = Inr tb'" and "wf_board tb"
  shows "wf_board tb'"
  using assms
proof (induction e tb rule: InputLoop.induct)
  case (1 e tb)
  show ?case
  proof (cases "inputQueue tb = []")
    case True
    with "1.prems" show ?thesis by (simp add: InputLoop.simps)
  next
    case False
    with "1.prems" obtain tb1 where
      tb1: "ApplyInput e (fst (DequeInput tb)) (snd (DequeInput tb)) = Inr tb1"
      and rest: "InputLoop e tb1 = Inr tb'"
      by (auto simp: InputLoop.simps [of e tb] bind_res_Inr_iff)
    from tb1 have "wf_board tb1"
      by (rule wf_board_ApplyInput) (simp add: "1.prems"(2) wf_board_DequeInput)
    with "1.IH" [OF False tb1 rest] show ?thesis .
  qed
qed

lemma wf_board_UpdateFallingBlock [invs]:
  assumes "UpdateFallingBlock e tb = Inr tb'" and "wf_board tb"
  shows "wf_board tb'"
proof -
  let ?tb = "if fallingBlock tb = None then NextFallingBlock tb else tb"
  have "wf_board ?tb" using assms(2) by (simp add: wf_board_NextFallingBlock)
  with assms(1) show ?thesis
    by (auto simp: UpdateFallingBlock_def Let_def bind_res_Inr_iff wf_board_push_applied
        split: option.splits if_splits
        dest!: wf_board_MoveFallingBlock wf_board_FallingBlockToWall)
qed

lemma wf_board_UpdateExpectBlock [invs]:
  assumes "wf_board tb"
  shows "wf_board (UpdateExpectBlock tb)"
proof (cases "fallingBlock tb")
  case None
  with assms show ?thesis by (simp add: UpdateExpectBlock_def)
next
  case (Some f)
  let ?d = "land_distance (board tb) f"
  from assms Some have f: "wf_falling f" by (simp add: wf_boardD)
  have "vy (fpos f) + ?d \<le> 21"
  proof (cases "0 \<le> ?d")
    case True
    then have "CanMoveFallingBlock (board tb) f (vec 0 ?d)" by (rule land_distance_spec(3)) simp
    from CanMove_bounds(3) [OF this] f show ?thesis by (simp add: wf_falling_def)
  next
    case False
    with f show ?thesis by (simp add: wf_falling_def)
  qed
  with f land_distance_spec(1) [of "board tb" f] have "wf_expect (expectBlock (UpdateExpectBlock tb))"
    by (simp add: UpdateExpectBlock_eq [OF Some] wf_expect_def wf_falling_def wf_offsets_def
        list_all_iff wf_offset_def)
  with assms show ?thesis by (simp add: UpdateExpectBlock_eq [OF Some] wf_board_def)
qed

lemma wf_board_Update_aux:
  assumes "Update e tb = Inr tb'" and "wf_board tb"
  shows "wf_board tb'"
proof (cases "isPlaying tb")
  case False
  with assms show ?thesis by (auto simp: Update_def Let_def wf_board_def)
next
  case True
  let ?tb = "tb\<lparr>applyQueue := []\<rparr>"
  let ?start = "if fallingBlock ?tb = None then NextFallingBlock ?tb else ?tb"
  have tb: "wf_board ?tb" using assms(2) by (simp add: wf_board_def)
  have tb0: "wf_board ?start"
    using tb by (auto intro: wf_board_NextFallingBlock)
  from assms(1) True obtain tb1 tb2 b n where
    steps: "InputLoop e ?start = Inr tb1" "UpdateFallingBlock e tb1 = Inr tb2"
      "RemoveWall (board (UpdateExpectBlock tb2)) = Inr (b, n)"
    and tb': "tb' = (UpdateExpectBlock tb2)\<lparr>board := b\<rparr>"
    by (auto simp: Update_def Let_def bind_res_Inr_iff)
  from steps tb0 have wf: "wf_board (UpdateExpectBlock tb2)"
    by (auto intro!: wf_board_UpdateExpectBlock dest!: wf_board_InputLoop
        wf_board_UpdateFallingBlock)
  from RemoveWall_view [OF wf_boardD(1) [OF wf]] steps(3) have "wf_cells b" by auto
  with wf tb' show ?thesis by (simp add: wf_board_def)
qed

end
