(* ===== verification/BoardProps.thy ===== *)
theory BoardProps
  imports BoardInv
begin

text \<open>
  The properties of \<open>TetrisBoard\<close>: line clearing against its reference, rotation, landing,
  collision, locking, holding, the safety of a frame, and the states in which the code leaves
  defined behaviour.
\<close>

section \<open>Locking\<close>

definition on_board :: "FallingBlock \<Rightarrow> bool" where
  "on_board e \<longleftrightarrow>
     (\<forall>i<4. 0 \<le> cell_x e i \<and> cell_x e i < 10 \<and> 0 \<le> cell_y e i \<and> cell_y e i < 20)"

definition cell_set :: "FallingBlock \<Rightarrow> nat \<Rightarrow> (int \<times> int) set" where
  "cell_set e n = {(cell_x e i, cell_y e i) | i. i < n}"

lemma cell_set_0 [simp]: "cell_set e 0 = {}"
  by (simp add: cell_set_def)

lemma cell_set_Suc: "cell_set e (Suc n) = insert (cell_x e n, cell_y e n) (cell_set e n)"
  by (auto simp: cell_set_def less_Suc_eq)

text \<open>The grid after the first \<open>n\<close> cells of the block became walls.\<close>

definition walled :: "FallingBlock \<Rightarrow> FallingBlock \<Rightarrow> nat \<Rightarrow> cells \<Rightarrow> cells \<Rightarrow> bool" where
  "walled e f n b b' \<longleftrightarrow>
     wf_cells b' \<and>
     (\<forall>y<20. \<forall>x<10.
        if (int x, int y) \<in> cell_set e n
        then \<exists>i<n. cell_x e i = int x \<and> cell_y e i = int y \<and>
               b' ! y ! x = (blockInfo f ! i)\<lparr>bpos := vec (int x) (int y), blockType := WALL\<rparr>
        else b' ! y ! x = b ! y ! x)"

lemma WallCell_walled:
  assumes "walled e f n b b1" and "on_board e" and "wf_offsets (blockInfo f)" and "n < 4"
  shows "\<exists>b2. WallCell e f n b1 = Inr b2 \<and> walled e f (Suc n) b b2"
proof -
  let ?x = "cell_x e n" and ?y = "cell_y e n"
  let ?c = "(blockInfo f ! n)\<lparr>bpos := vec ?x ?y, blockType := WALL\<rparr>"
  let ?b = "b1[nat ?y := (b1 ! nat ?y)[nat ?x := ?c]]"
  have xy: "0 \<le> ?x" "?x < 10" "0 \<le> ?y" "?y < 20" using assms(2,4) by (auto simp: on_board_def)
  have W: "WallCell e f n b1 = Inr ?b"
    using xy by (simp add: WallCell_def write_cell_def Let_def)
  have wf1: "wf_cells b1" using assms(1) by (simp add: walled_def)
  have wf: "wf_cells ?b" by (rule wf_cells_WallCell [OF W wf1 assms(3,4)])
  have cell: "?b ! y ! x = (if x = nat ?x \<and> y = nat ?y then ?c else b1 ! y ! x)"
    if "y < 20" "x < 10" for x y
    using wf1 that xy by (auto simp: wf_cells_def nth_list_update_if)
  have at: "(int x, int y) = (?x, ?y) \<longleftrightarrow> x = nat ?x \<and> y = nat ?y" for x y
    using xy by auto
  have "walled e f (Suc n) b ?b"
    unfolding walled_def cell_set_Suc
  proof (intro conjI allI impI wf)
    fix y x :: nat assume yx: "y < 20" "x < 10"
    let ?W = "\<lambda>c i. cell_x e i = int x \<and> cell_y e i = int y \<and>
        c = (blockInfo f ! i)\<lparr>bpos := vec (int x) (int y), blockType := WALL\<rparr>"
    have old: "if (int x, int y) \<in> cell_set e n then \<exists>i<n. ?W (b1 ! y ! x) i else b1 ! y ! x = b ! y ! x"
      using assms(1) yx unfolding walled_def by blast
    show "if (int x, int y) \<in> insert (?x, ?y) (cell_set e n) then \<exists>i<Suc n. ?W (?b ! y ! x) i
          else ?b ! y ! x = b ! y ! x"
    proof (cases "x = nat ?x \<and> y = nat ?y")
      case True
      with xy have "?W (?b ! y ! x) n" unfolding cell [OF yx] by simp
      then show ?thesis using True xy by auto
    next
      case False
      then have "?b ! y ! x = b1 ! y ! x" unfolding cell [OF yx] by (simp only: if_False)
      with False old at [of x y] show ?thesis unfolding insert_iff by (auto simp: less_Suc_eq)
    qed
  qed
  with W show ?thesis by blast
qed

lemma fold_WallCell_walled:
  assumes "wf_cells b" and "on_board e" and "wf_offsets (blockInfo f)" and "n \<le> 4"
  shows "\<exists>b'. fold_res (WallCell e f) [0..<n] b = Inr b' \<and> walled e f n b b'"
  using assms(4)
proof (induction n)
  case 0
  then show ?case using assms(1) by (simp add: walled_def)
next
  case (Suc n)
  then obtain b1 where b1: "fold_res (WallCell e f) [0..<n] b = Inr b1" "walled e f n b b1"
    by auto
  from WallCell_walled [OF b1(2) assms(2,3)] Suc.prems b1(1) show ?case
    by (auto simp: fold_res_append)
qed

lemma WallCell_off_board:
  "WallCell e f i b = Inl err \<Longrightarrow> err = OutOfBounds"
  by (auto simp: WallCell_def write_cell_def Let_def split: if_splits)

lemma fold_WallCell_off_board:
  assumes "i \<in> set is"
    and "\<not> (0 \<le> cell_x e i \<and> cell_x e i < 10 \<and> 0 \<le> cell_y e i \<and> cell_y e i < 20)"
  shows "fold_res (WallCell e f) is b = Inl OutOfBounds"
  using assms(1)
proof (induction "is" arbitrary: b)
  case Nil
  then show ?case by simp
next
  case (Cons j js)
  show ?case
  proof (cases "WallCell e f j b")
    case (Inl err)
    with WallCell_off_board [OF this] show ?thesis by simp
  next
    case (Inr b1)
    then have "j \<noteq> i" using assms(2) by (auto simp: WallCell_def write_cell_def Let_def split: if_splits)
    with Cons Inr show ?thesis by simp
  qed
qed

lemma FallingBlockToWall_total:
  assumes "wf_board tb" and "fallingBlock tb = Some f" and "on_board (expectBlock tb)"
  shows "\<exists>b. FallingBlockToWall tb = Inr (tb\<lparr>board := b, fallingBlock := None, canHold := True\<rparr>) \<and>
             walled (expectBlock tb) f 4 (board tb) b"
proof -
  have "wf_offsets (blockInfo f)" using wf_boardD(4) [OF assms(1,2)] by (simp add: wf_falling_def)
  from fold_WallCell_walled [OF wf_boardD(1) [OF assms(1)] assms(3) this order_refl] assms(2)
  show ?thesis by (auto simp: FallingBlockToWall_def)
qed

lemma FallingBlockToWall_off_board:
  assumes "fallingBlock tb = Some f" and "\<not> on_board (expectBlock tb)"
  shows "FallingBlockToWall tb = Inl OutOfBounds"
proof -
  from assms(2) obtain i where i: "i < 4"
    "\<not> (0 \<le> cell_x (expectBlock tb) i \<and> cell_x (expectBlock tb) i < 10 \<and>
        0 \<le> cell_y (expectBlock tb) i \<and> cell_y (expectBlock tb) i < 20)"
    by (auto simp: on_board_def)
  from i(1) have "i \<in> set [0..<4]" by simp
  from fold_WallCell_off_board [OF this i(2)] assms(1) show ?thesis
    by (simp add: FallingBlockToWall_def)
qed

section \<open>A frame\<close>

lemma NextFallingBlock_sel [simp]:
  "expectBlock (NextFallingBlock tb) = expectBlock tb"
  "board (NextFallingBlock tb) = board tb"
  "canHold (NextFallingBlock tb) = canHold tb"
  by (auto simp: NextFallingBlock_def SetFallingBlock_def DequeNextBlock_def
      split: option.split list.split prod.split)

lemma after_drop_sel [simp]:
  "expectBlock (after_drop tb) = expectBlock tb"
  "board (after_drop tb) = board tb"
  by (auto simp: after_drop_def SetFallingBlock_def DequeNextBlock_def
      split: option.split list.split prod.split)

lemma fallingBlock_NextFallingBlock:
  "fallingBlock (NextFallingBlock tb) =
     (case nextFallingBlockQueue tb of [] \<Rightarrow> None | f # _ \<Rightarrow> Some (falling_SetPos f 4 (-1)))"
  by (simp add: NextFallingBlock_def SetFallingBlock_def DequeNextBlock_def split: list.split)

lemma push_applied_sel [simp]:
  "expectBlock (push_applied i tb) = expectBlock tb" "board (push_applied i tb) = board tb"
  "fallingBlock (push_applied i tb) = fallingBlock tb" "hold (push_applied i tb) = hold tb"
  "canHold (push_applied i tb) = canHold tb" "inputQueue (push_applied i tb) = inputQueue tb"
  "lastFallingTime (push_applied i tb) = lastFallingTime tb"
  "applyQueue (push_applied i tb) = applyQueue tb @ [i]"
  by (simp_all add: push_applied_def)

lemma MoveFallingBlock_total:
  assumes "wf_board tb" and "fallingBlock tb = Some f"
    and "i = DROP \<Longrightarrow> on_board (expectBlock tb)"
  shows "\<exists>tb'. MoveFallingBlock i tb = Inr tb' \<and> expectBlock tb' = expectBlock tb"
proof (cases "i = DROP")
  case True
  with FallingBlockToWall_total [OF assms(1,2)] assms(3) show ?thesis
    by (auto simp: MoveFallingBlock_DROP)
next
  case False
  from this assms(2) show ?thesis by (cases rule: MoveFallingBlock_cases) auto
qed

lemma expectBlock_swap_hold [simp]: "expectBlock (swap_hold tb) = expectBlock tb"
  by (simp add: swap_hold_def split: option.split)

lemma hold_swap_hold [simp]: "hold (swap_hold tb) = fallingBlock tb"
  by (simp add: swap_hold_def split: option.split)

lemma HoldBlock_total:
  assumes "wf_board tb" and "fallingBlock tb = Some f"
  shows "\<exists>tb'. HoldBlock tb = Inr tb' \<and> expectBlock tb' = expectBlock tb"
proof -
  from wf_boardD(4) [OF assms] obtain h where "MakeFallingBlock (blockShape f) = Some h"
    by (auto simp: wf_falling_def)
  with assms(2) show ?thesis by (simp add: HoldBlock_def Let_def)
qed

lemma ApplyInput_total:
  assumes "wf_board tb" and "fallingBlock tb = Some f" and "on_board (expectBlock tb)"
  shows "\<exists>tb'. ApplyInput e i tb = Inr tb' \<and> expectBlock tb' = expectBlock tb"
proof -
  let ?tb = "if i = DOWN then tb\<lparr>lastFallingTime := f32_neg e\<rparr> else tb"
  have "wf_board ?tb" "fallingBlock ?tb = Some f" "expectBlock ?tb = expectBlock tb"
    using assms by simp_all
  from MoveFallingBlock_total [OF this(1,2), of i] this(3) assms(3)
  obtain tb1 where "MoveFallingBlock i ?tb = Inr tb1" "expectBlock tb1 = expectBlock tb" by auto
  moreover obtain tb2 where "HoldBlock tb = Inr tb2" "expectBlock tb2 = expectBlock tb"
    using HoldBlock_total [OF assms(1,2)] by blast
  ultimately show ?thesis by (simp add: ApplyInput_def)
qed

lemma UpdateFallingBlock_total:
  assumes "wf_board tb" and "on_board (expectBlock tb)"
  shows "\<exists>tb'. UpdateFallingBlock e tb = Inr tb'"
proof -
  let ?t = "if fallingBlock tb = None then NextFallingBlock tb else tb"
  have t: "wf_board ?t" "on_board (expectBlock ?t)"
    using assms by (auto intro: wf_board_NextFallingBlock)
  show ?thesis
  proof (cases "fallingBlock ?t")
    case None
    then show ?thesis unfolding UpdateFallingBlock_def Let_def by (simp only: option.case) blast
  next
    case (Some f)
    let ?u = "?t\<lparr>lastFallingTime := 0\<rparr>"
    have u: "wf_board ?u" "fallingBlock ?u = Some f" "on_board (expectBlock ?u)"
      using t Some by simp_all
    from MoveFallingBlock_total [OF u(1,2), of DOWN] obtain v where
      "MoveFallingBlock DOWN ?u = Inr v" by auto
    moreover from FallingBlockToWall_total [OF u] obtain w where
      "FallingBlockToWall ?u = Inr w" by auto
    ultimately show ?thesis
      unfolding UpdateFallingBlock_def Let_def Some option.case
      by (auto simp only: bind_res_simps split: if_split)
  qed
qed

lemma Update_total:
  assumes "wf_board tb" and "on_board (expectBlock tb)" and "length (inputQueue tb) \<le> 1"
    and "fallingBlock tb \<noteq> None \<or> nextFallingBlockQueue tb \<noteq> [] \<or> inputQueue tb = []"
  shows "\<exists>tb'. Update e tb = Inr tb'"
proof (cases "isPlaying tb")
  case False
  then show ?thesis by (simp add: Update_def Let_def)
next
  case True
  let ?a = "tb\<lparr>applyQueue := []\<rparr>"
  let ?s = "if fallingBlock ?a = None then NextFallingBlock ?a else ?a"
  have a: "wf_board ?a" using assms(1) by (simp add: wf_board_def)
  then have s: "wf_board ?s" by (auto intro: wf_board_NextFallingBlock)
  have sel: "expectBlock ?s = expectBlock tb" "inputQueue ?s = inputQueue tb" by simp_all
  have "\<exists>t. InputLoop e ?s = Inr t \<and> expectBlock t = expectBlock tb"
  proof (cases "inputQueue tb")
    case Nil
    with sel show ?thesis by (simp add: InputLoop.simps)
  next
    case (Cons i "is")
    with assms(3) have q: "inputQueue ?s = [i]" unfolding sel by simp
    have "fallingBlock ?s \<noteq> None"
      using assms(4) Cons by (auto simp: fallingBlock_NextFallingBlock split: list.split)
    then obtain f where f: "fallingBlock ?s = Some f" by blast
    let ?d = "?s\<lparr>inputQueue := []\<rparr>"
    have "wf_board ?d" "fallingBlock ?d = Some f" "on_board (expectBlock ?d)"
      using s f sel assms(2) by (simp_all add: wf_board_def)
    from ApplyInput_total [OF this, of e i] sel obtain t where
      t: "ApplyInput e i ?d = Inr t" "expectBlock t = expectBlock tb" by auto
    then have "inputQueue t = []" using inputQueue_ApplyInput [OF t(1)] by simp
    then have "InputLoop e t = Inr t" by (simp add: InputLoop.simps)
    moreover have "DequeInput ?s = (i, ?d)" using q by (simp add: DequeInput_def)
    ultimately have "InputLoop e ?s = Inr t"
      using q t(1) by (subst InputLoop.simps) (simp only: fst_conv snd_conv bind_res_simps list.simps if_False)
    with t(2) show ?thesis by blast
  qed
  then obtain t where t: "InputLoop e ?s = Inr t" "expectBlock t = expectBlock tb" by blast
  have wt: "wf_board t" by (rule wf_board_InputLoop [OF t(1) s])
  from UpdateFallingBlock_total [OF this] t(2) assms(2) obtain u where
    u: "UpdateFallingBlock e t = Inr u" by auto
  have "wf_board (UpdateExpectBlock u)"
    by (rule wf_board_UpdateExpectBlock [OF wf_board_UpdateFallingBlock [OF u wt]])
  from RemoveWall_view [OF wf_boardD(1) [OF this]] obtain b where
    "RemoveWall (board (UpdateExpectBlock u)) = Inr (b, 0)" by blast
  with t(1) u True show ?thesis by (simp add: Update_def Let_def)
qed

text \<open>A running board for the witnesses: a Z is falling, an L waits.\<close>

definition demo :: TetrisBoard where
  "demo = UpdateExpectBlock (NextFallingBlock
            (QueueNextBlock Shape_L (QueueNextBlock Shape_Z (Start (Init 1 new_board)))))"

lemma wf_demo: "wf_board demo"
  by (simp add: demo_def invs wf_board_new)

lemma fallingBlock_UpdateExpectBlock [simp]:
  "fallingBlock (UpdateExpectBlock tb) = fallingBlock tb"
  by (cases "fallingBlock tb") (simp_all add: UpdateExpectBlock_eq, simp add: UpdateExpectBlock_def)

end
