(* ===== verification/BoardClaims.thy ===== *)
theory BoardClaims
  imports BoardProps
begin

text \<open>
  The correctness statements of \<open>TetrisBoard\<close>, each with a concrete instance, resting on the
  lemmas of \<open>BoardLines\<close>, \<open>BoardInv\<close> and \<open>BoardProps\<close>.
\<close>

section \<open>Instances\<close>

text \<open>The fresh grid with a full bottom line.\<close>

definition full_line_cells :: cells where
  "full_line_cells =
     (init_cells raw_cells)[19 := map (\<lambda>c. c\<lparr>blockType := WALL\<rparr>) (init_cells raw_cells ! 19)]"

lemma wf_fresh_cells: "wf_cells (init_cells raw_cells)"
  by (intro wf_cells_init) (simp add: raw_cells_def mk_block_def)

lemma wf_full_line_cells: "wf_cells full_line_cells"
  unfolding full_line_cells_def
  by (rule wf_cells_update [OF wf_fresh_cells])
     (auto simp: init_cells_def wf_cell_def init_cell_def block_SetPos_def raw_cells_def
       mk_block_def)

lemma gap_free_full_line_cells: "gap_free (view full_line_cells)"
  by code_simp

lemma expect_demo: "on_board (expectBlock demo)"
proof -
  have "list_all (\<lambda>i. 0 \<le> cell_x (expectBlock demo) i \<and> cell_x (expectBlock demo) i < 10 \<and>
          0 \<le> cell_y (expectBlock demo) i \<and> cell_y (expectBlock demo) i < 20) [0..<4]"
    by code_simp
  then show ?thesis by (simp add: on_board_def list_all_upt_iff)
qed

definition demo_block :: FallingBlock where
  "demo_block = falling_SetPos (mk_falling Shape_Z BlockShape_Z) 4 (-1)"

lemma falling_demo: "fallingBlock demo = Some demo_block"
  by (simp add: demo_def fallingBlock_NextFallingBlock demo_block_def QueueNextBlock_def
      MakeFallingBlock_def Start_def Init_def new_board_def)

lemma wf_demo_block: "wf_falling demo_block"
  by (rule wf_boardD(4) [OF wf_demo falling_demo])

lemma fits_demo: "fits (board demo) demo_block"
  by code_simp

lemma inputQueue_demo: "inputQueue demo = []"
  by code_simp

section \<open>Line clearing\<close>

text \<open>C1: on a well-formed grid without gaps, \<open>RemoveWall\<close> deletes exactly the full lines, moves
  the remaining ones down in their order and fills up with empty lines on top.\<close>

theorem RemoveWall_reference:
  assumes "wf_cells b" and "gap_free (view b)"
  shows "\<exists>b'. RemoveWall b = Inr (b', 0) \<and> wf_cells b' \<and> view b' = remove_full (view b)"
proof -
  obtain b' where b': "RemoveWall b = Inr (b', 0)" "wf_cells b'" "view b' = clear_rows 20 (view b)"
    using assms(1) by (rule RemoveWall_view)
  have "length (view b) = 20" using assms(1) by (simp add: wf_cells_def)
  with clear_rows_remove_full [OF assms(2) wf_cells_no_wall [OF assms(1)]] b' show ?thesis
    by metis
qed

theorem RemoveWall_reference_witness:
  "\<exists>b'. RemoveWall full_line_cells = Inr (b', 0) \<and> wf_cells b' \<and>
        view b' = remove_full (view full_line_cells) \<and> view b' = replicate 20 empty_row"
proof -
  have "remove_full (view full_line_cells) = replicate 20 empty_row" by code_simp
  with RemoveWall_reference [OF wf_full_line_cells gap_free_full_line_cells] show ?thesis
    by auto
qed

text \<open>On every well-formed grid, gaps or not, \<open>RemoveWall\<close> stays inside the array, leaves no
  full line, and keeps every other line that holds a wall, unchanged and in order.\<close>

theorem RemoveWall_no_full_line_left:
  assumes "wf_cells b"
  shows "\<exists>b'. RemoveWall b = Inr (b', 0) \<and> wf_cells b' \<and>
              list_all (\<lambda>r. \<not> full_row r) (view b') \<and>
              filter some_wall (view b') = filter (\<lambda>r. some_wall r \<and> \<not> full_row r) (view b)"
proof -
  obtain b' where b': "RemoveWall b = Inr (b', 0)" "wf_cells b'" "view b' = clear_rows 20 (view b)"
    using assms by (rule RemoveWall_view)
  have "length (view b) = 20" using assms by (simp add: wf_cells_def)
  with clear_rows_split [of 20 "view b"] b' show ?thesis by auto
qed

theorem RemoveWall_no_full_line_left_witness:
  "\<exists>b'. RemoveWall full_line_cells = Inr (b', 0) \<and> filter some_wall (view b') = []"
proof -
  have "filter (\<lambda>r. some_wall r \<and> \<not> full_row r) (view full_line_cells) = []" by code_simp
  with RemoveWall_no_full_line_left [OF wf_full_line_cells] show ?thesis by auto
qed

section \<open>The falling block\<close>

text \<open>C26: a right rotation turns every cell of a block by exactly a quarter around the block's
  origin, the left rotation undoes it, and four right rotations are the identity, although
  both go through single-precision floats and a constant \<open>PI\<close> with wrong digits.\<close>

theorem rotation_quarter_turn:
  assumes "wf_falling f"
  shows "(\<forall>i<4. bpos (blockInfo (rotate_right f) ! i) =
                vec (- vy (bpos (blockInfo f ! i))) (vx (bpos (blockInfo f ! i)))) \<and>
         rotate_left (rotate_right f) = f \<and>
         rotate_right (rotate_right (rotate_right (rotate_right f))) = f"
proof (intro conjI allI impI)
  have off: "wf_offsets (blockInfo f)" using assms by (simp add: wf_falling_def)
  then have len: "length (blockInfo f) = 4" by (simp add: wf_offsets_def)
  show "bpos (blockInfo (rotate_right f) ! i) =
          vec (- vy (bpos (blockInfo f ! i))) (vx (bpos (blockInfo f ! i)))" if "i < 4" for i
    using wf_offset_rotate(1) [OF wf_offsets_nth [OF off that]] that len
    by (simp add: rotate_right_def)
  show "rotate_left (rotate_right f) = f" by (rule rotate_inverse [OF off])
  have "rotate_cell_right (rotate_cell_right (rotate_cell_right (rotate_cell_right c))) = c"
    if "wf_offset c" for c
    using that rot_exact
    by (auto simp: wf_offset_def rotate_cell_right_def Let_def vec_def)
  then have "map (\<lambda>c. rotate_cell_right (rotate_cell_right (rotate_cell_right
               (rotate_cell_right c)))) (blockInfo f) = blockInfo f"
    using off by (intro map_idI) (auto simp: wf_offsets_def list_all_iff)
  then show "rotate_right (rotate_right (rotate_right (rotate_right f))) = f"
    by (simp add: rotate_right_def comp_def)
qed

theorem rotation_quarter_turn_witness:
  "rotate_left (rotate_right demo_block) = demo_block \<and>
   bpos (blockInfo (rotate_right demo_block) ! 3) = vec 0 1"
proof -
  have "bpos (blockInfo demo_block ! 3) = vec 1 0" by code_simp
  with rotation_quarter_turn [OF wf_demo_block] show ?thesis by auto
qed

text \<open>A step left, right or down never takes a block that fits onto a wall or off the board:
  the block moves by the input's vector if it fits there and otherwise stays.\<close>

theorem MoveFallingBlock_no_collision:
  assumes "fallingBlock tb = Some f" and "fits (board tb) f" and "i \<in> {LEFT, RIGHT, DOWN, HOLD}"
  shows "\<exists>f'. MoveFallingBlock i tb = Inr (tb\<lparr>fallingBlock := Some f'\<rparr>) \<and>
              fits (board tb) f' \<and>
              f' = (if fits (board tb) (moved f (input_vector i))
                    then moved f (input_vector i) else f)"
proof -
  have "i \<noteq> DROP" using assms(3) by auto
  from this assms(1) show ?thesis
  proof (cases rule: MoveFallingBlock_cases)
    case 4
    moreover have "tb\<lparr>fallingBlock := Some f\<rparr> = tb" using assms(1) by (cases tb) simp
    ultimately show ?thesis using assms(2) by (simp add: CanMove_fits)
  qed (use assms(3) in \<open>auto simp: CanMove_fits\<close>)
qed

theorem MoveFallingBlock_no_collision_witness:
  "\<exists>f'. MoveFallingBlock LEFT demo = Inr (demo\<lparr>fallingBlock := Some f'\<rparr>) \<and>
        fits (board demo) f' \<and> fpos f' = vec 3 (-1)"
proof -
  have "fits (board demo) (moved demo_block (input_vector LEFT))" by code_simp
  moreover have "fpos (moved demo_block (input_vector LEFT)) = vec 3 (-1)" by code_simp
  ultimately show ?thesis
    using MoveFallingBlock_no_collision [OF falling_demo fits_demo, of LEFT] by auto
qed

text \<open>C9: the ghost computed by \<open>UpdateExpectBlock\<close> is the landing place: it lies in the block's
  columns, the block can fall every distance up to it, and it cannot fall any further.\<close>

theorem UpdateExpectBlock_lands:
  assumes "fallingBlock tb = Some f" and "fits (board tb) f"
  shows "\<exists>d\<ge>0. fpos (expectBlock (UpdateExpectBlock tb)) = vec_add (fpos f) (vec 0 d) \<and>
               map bpos (blockInfo (expectBlock (UpdateExpectBlock tb))) = map bpos (blockInfo f) \<and>
               (\<forall>k. 0 \<le> k \<and> k \<le> d \<longrightarrow> fits (board tb) (moved f (vec 0 k))) \<and>
               \<not> fits (board tb) (moved f (vec 0 (d + 1)))"
proof -
  let ?d = "land_distance (board tb) f"
  have "0 \<le> ?d"
    using land_distance_spec(1,2) [of "board tb" f] assms(2)
    by (cases "?d = -1") (auto simp: fits_def)
  moreover have "map bpos (blockInfo (expectBlock (UpdateExpectBlock tb))) = map bpos (blockInfo f)"
    by (simp add: UpdateExpectBlock_eq [OF assms(1)] comp_def)
  ultimately show ?thesis
    using land_distance_spec(2) [of "board tb" f]
      land_distance_spec(3) [where b = "board tb" and f = f]
    by (intro exI [of _ ?d]) (simp add: UpdateExpectBlock_eq [OF assms(1)] CanMove_fits)
qed

theorem UpdateExpectBlock_lands_witness:
  "\<exists>d\<ge>0. fpos (expectBlock (UpdateExpectBlock demo)) = vec_add (fpos demo_block) (vec 0 d) \<and>
         \<not> fits (board demo) (moved demo_block (vec 0 (d + 1)))"
  using UpdateExpectBlock_lands [OF falling_demo fits_demo] by blast

text \<open>C10: locking puts the cells of the falling block, with their colours and as walls, at the four
  places of the ghost, leaves every other cell alone, removes the falling block and allows the
  next hold.\<close>

theorem FallingBlockToWall_locks:
  assumes "wf_board tb" and "fallingBlock tb = Some f" and "on_board (expectBlock tb)"
  shows "\<exists>b. FallingBlockToWall tb = Inr (tb\<lparr>board := b, fallingBlock := None, canHold := True\<rparr>) \<and>
             wf_cells b \<and>
             (\<forall>y<20. \<forall>x<10.
                if (int x, int y) \<in> cell_set (expectBlock tb) 4
                then \<exists>i<4. cell_x (expectBlock tb) i = int x \<and> cell_y (expectBlock tb) i = int y \<and>
                       b ! y ! x = (blockInfo f ! i)\<lparr>bpos := vec (int x) (int y), blockType := WALL\<rparr>
                else b ! y ! x = board tb ! y ! x)"
  using FallingBlockToWall_total [OF assms] by (auto simp: walled_def)

theorem FallingBlockToWall_locks_witness:
  "\<exists>b. FallingBlockToWall demo = Inr (demo\<lparr>board := b, fallingBlock := None, canHold := True\<rparr>) \<and>
       blockType (b ! 19 ! 4) = WALL \<and> resourceID (b ! 19 ! 4) \<noteq> Res_EXPECT"
proof -
  obtain b where b:
    "FallingBlockToWall demo = Inr (demo\<lparr>board := b, fallingBlock := None, canHold := True\<rparr>)"
    "\<forall>y<20. \<forall>x<10. if (int x, int y) \<in> cell_set (expectBlock demo) 4
       then \<exists>i<4. cell_x (expectBlock demo) i = int x \<and> cell_y (expectBlock demo) i = int y \<and>
              b ! y ! x = (blockInfo demo_block ! i)\<lparr>bpos := vec (int x) (int y), blockType := WALL\<rparr>
       else b ! y ! x = board demo ! y ! x"
    using FallingBlockToWall_locks [OF wf_demo falling_demo expect_demo] by blast
  have "cell_x (expectBlock demo) 2 = 4 \<and> cell_y (expectBlock demo) 2 = 19" by code_simp
  then have "(int 4, int 19) \<in> cell_set (expectBlock demo) 4"
    unfolding cell_set_def by (intro CollectI exI [of _ "2::nat"]) simp
  then obtain i where i: "i < 4"
    "b ! 19 ! 4 = (blockInfo demo_block ! i)\<lparr>bpos := vec 4 19, blockType := WALL\<rparr>"
    using b(2) [rule_format, of 19 4] by auto
  have "list_all (\<lambda>c. resourceID c \<noteq> Res_EXPECT) (take 4 (blockInfo demo_block))" "4 \<le> length (blockInfo demo_block)"
    by code_simp+
  then have "resourceID (blockInfo demo_block ! i) \<noteq> Res_EXPECT"
    using i(1) by (auto simp: list_all_length)
  with b(1) i(2) show ?thesis by (intro exI [of _ b]) simp
qed

text \<open>The memory safety of locking depends on the ghost alone: with one of its cells off the
  board, \<open>FallingBlockToWall\<close> writes outside the array.\<close>

theorem FallingBlockToWall_defined_iff:
  assumes "wf_board tb" and "fallingBlock tb = Some f"
  shows "FallingBlockToWall tb = Inl OutOfBounds \<longleftrightarrow> \<not> on_board (expectBlock tb)"
  using FallingBlockToWall_total [OF assms] FallingBlockToWall_off_board [OF assms(2)]
  by auto

theorem FallingBlockToWall_defined_iff_witness:
  "FallingBlockToWall demo \<noteq> Inl OutOfBounds"
  using FallingBlockToWall_defined_iff [OF wf_demo falling_demo] expect_demo by blast

section \<open>The frame\<close>

text \<open>A frame keeps the whole state of the board well formed: cells know their positions and are
  walls or empty, blocks have four cells with small offsets, positions stay in range.\<close>

theorem Update_preserves_wf:
  assumes "wf_board tb" and "Update e tb = Inr tb'"
  shows "wf_board tb'"
  using assms(2,1) by (rule wf_board_Update_aux)

theorem Update_preserves_wf_witness: "\<exists>tb'. Update f32_one demo = Inr tb' \<and> wf_board tb'"
proof -
  obtain tb' where "Update f32_one demo = Inr tb'"
    using Update_total [OF wf_demo expect_demo] inputQueue_demo by auto
  with Update_preserves_wf [OF wf_demo this] show ?thesis by blast
qed

text \<open>C8: a frame with at most one input, whatever the input, stays within defined behaviour as
  long as the ghost lies on the board and there is a block to act on; afterwards the board is
  well formed again.\<close>

theorem Update_safe:
  assumes "wf_board tb" and "on_board (expectBlock tb)" and "length (inputQueue tb) \<le> 1"
    and "fallingBlock tb \<noteq> None \<or> nextFallingBlockQueue tb \<noteq> [] \<or> inputQueue tb = []"
  shows "\<exists>tb'. Update e tb = Inr tb' \<and> wf_board tb'"
  using Update_total [OF assms] wf_board_Update_aux [OF _ assms(1)] by blast

theorem Update_safe_witness: "\<exists>tb'. Update f32_one (QueueInput DROP demo) = Inr tb' \<and> wf_board tb'"
proof (rule Update_safe)
  show "wf_board (QueueInput DROP demo)" using wf_demo by (simp add: wf_board_def QueueInput_def)
  show "on_board (expectBlock (QueueInput DROP demo))" using expect_demo by (simp add: QueueInput_def)
  show "length (inputQueue (QueueInput DROP demo)) \<le> 1" by (simp add: QueueInput_def inputQueue_demo)
  show "fallingBlock (QueueInput DROP demo) \<noteq> None \<or>
        nextFallingBlockQueue (QueueInput DROP demo) \<noteq> [] \<or> inputQueue (QueueInput DROP demo) = []"
    by (simp add: QueueInput_def falling_demo)
qed

end
