(* ===== verification/BoardEdge.thy ===== *)
theory BoardEdge
  imports BoardClaims
begin

text \<open>
  How the board treats time and the hold, and where it leaves defined behaviour or its intent:
  the stranded block, the stale ghost, the input without a block and the missing game over.
\<close>

lemma MoveFallingBlock_DOWN:
  assumes "fallingBlock tb = Some f"
  shows "\<exists>u f'. MoveFallingBlock DOWN tb = Inr u \<and> fallingBlock u = Some f' \<and>
            lastFallingTime u = lastFallingTime tb \<and> (f' = f \<or> f' = moved f (vec 0 1))"
proof -
  have "DOWN \<noteq> DROP" by simp
  from this assms show ?thesis
    by (cases rule: MoveFallingBlock_cases) (use assms in \<open>auto simp: input_vector_def\<close>)
qed

text \<open>A soft drop cancels the gravity of its frame: the timer is set to the negated frame
  time, the float sum is exactly 0, and the block moves at most the one line the key asked
  for.\<close>

theorem soft_drop_resets_timer:
  assumes "fallingBlock tb = Some f"
  shows "\<exists>tb1 f'. ApplyInput e DOWN tb = Inr tb1 \<and> fallingBlock tb1 = Some f' \<and>
            (f' = f \<or> f' = moved f (vec 0 1)) \<and>
            UpdateFallingBlock e tb1 = Inr (tb1\<lparr>lastFallingTime := 0\<rparr>)"
proof -
  let ?t = "tb\<lparr>lastFallingTime := f32_neg e\<rparr>"
  have "fallingBlock ?t = Some f" using assms by simp
  from MoveFallingBlock_DOWN [OF this] obtain u f' where
    u: "MoveFallingBlock DOWN ?t = Inr u" "fallingBlock u = Some f'"
      "lastFallingTime u = f32_neg e" "f' = f \<or> f' = moved f (vec 0 1)" by auto
  then have "UpdateFallingBlock e (push_applied DOWN u) =
               Inr ((push_applied DOWN u)\<lparr>lastFallingTime := 0\<rparr>)"
    by (simp add: UpdateFallingBlock_def Let_def FALLING_BLOCK_INTERVAL_def f32_one_def)
  with u show ?thesis by (simp add: ApplyInput_def)
qed

theorem soft_drop_resets_timer_witness:
  "\<exists>tb1. ApplyInput (7 * f32_one) DOWN demo = Inr tb1 \<and>
         UpdateFallingBlock (7 * f32_one) tb1 = Inr (tb1\<lparr>lastFallingTime := 0\<rparr>)"
  using soft_drop_resets_timer [OF falling_demo, of "7 * f32_one"] by blast

section \<open>Holding\<close>

text \<open>A block can be held once until the next lock: the first hold clears \<open>canHold\<close>, and every
  further hold input before a lock changes neither the falling nor the held block.\<close>

theorem hold_once_per_block:
  assumes "wf_board tb" and "fallingBlock tb = Some f" and "canHold tb"
  shows "\<exists>tb1. ApplyInput e HOLD tb = Inr tb1 \<and> \<not> canHold tb1 \<and>
            (\<exists>h. hold tb1 = Some h \<and> blockShape h = blockShape f) \<and>
            (fallingBlock tb1 \<noteq> None \<longrightarrow> ApplyInput e HOLD tb1 = Inr (push_applied HOLD tb1))"
proof -
  from HoldBlock_total [OF assms(1,2)] obtain u where u: "HoldBlock tb = Inr u" by blast
  from HoldBlock_Inr [OF u assms(1)] assms(2) obtain h where
    h: "blockShape h = blockShape f"
      "u = (swap_hold tb)\<lparr>hold := Some h, lastFallingTime := 0, canHold := False\<rparr>" by auto
  let ?t = "push_applied HOLD u"
  have t: "ApplyInput e HOLD tb = Inr ?t" "\<not> canHold ?t" "hold ?t = Some h"
    using u h assms(3) by (simp_all add: ApplyInput_def)
  have again: "ApplyInput e HOLD ?t = Inr (push_applied HOLD ?t)"
    if "fallingBlock ?t = Some g" for g
  proof -
    have v: "input_vector HOLD = vec 0 0" by (simp add: input_vector_def)
    have same: "?t\<lparr>fallingBlock := Some (moved g (vec 0 0))\<rparr> = ?t"
      using that by (cases ?t) (simp add: moved_def)
    have "MoveFallingBlock HOLD ?t = Inr ?t"
      by (rule MoveFallingBlock_cases [OF _ that, of HOLD]) (simp_all add: v same)
    with t(2) show ?thesis by (simp add: ApplyInput_def)
  qed
  from t h(1) again show ?thesis by (intro exI [of _ ?t]) auto
qed

theorem hold_once_per_block_witness:
  "\<exists>tb1. ApplyInput 0 HOLD demo = Inr tb1 \<and> \<not> canHold tb1 \<and> hold tb1 \<noteq> None"
proof -
  have "canHold demo" by code_simp
  from hold_once_per_block [OF wf_demo falling_demo this, of 0] show ?thesis by auto
qed

lemma wf_hold_offsets: "wf_hold h \<Longrightarrow> wf_offsets (blockInfo h)"
  using wf_hold_falling [of h] by (simp add: wf_falling_def)

lemma wf_hold_first:
  assumes "wf_hold h"
  shows "cell_x h 0 \<le> -3"
proof -
  from assms obtain f where f: "MakeFallingBlock (blockShape h) = Some f" "f = h\<lparr>fpos := vec 0 0\<rparr>"
    and pos: "fpos h = vec (-3) 3" by (auto simp: wf_hold_def)
  from f(1) have "vx (bpos (blockInfo f ! 0)) \<le> 0"
    by (auto simp: MakeFallingBlock_def mk_falling_def BlockShape_defs mk_block_def
        split: ShapeType.splits)
  with f(2) pos show ?thesis by (simp add: cell_x_def)
qed

lemma wf_hold_stranded:
  assumes "wf_hold h" and "vx v \<le> 1"
  shows "\<not> CanMoveFallingBlock b h v"
proof
  assume "CanMoveFallingBlock b h v"
  then have "0 \<le> cell_x h 0 + vx v" by (simp add: CanMoveFallingBlock_iff all_less_4)
  with wf_hold_first [OF assms(1)] assms(2) show False by simp
qed

text \<open>Exchanging the falling block with a held one strands it: the block that comes out of the
  hold keeps the place of the hold display, left of the board, where no input can move it.\<close>

theorem second_hold_strands_block:
  assumes "wf_board tb" and "fallingBlock tb = Some f" and "hold tb = Some h"
  shows "\<exists>tb'. HoldBlock tb = Inr tb' \<and> fallingBlock tb' = Some h \<and> fpos h = vec (-3) 3 \<and>
            (\<forall>i. \<not> CanMoveFallingBlock (board tb') h (input_vector i)) \<and>
            FallingBlockToWall (UpdateExpectBlock tb') = Inl OutOfBounds"
proof -
  have wfh: "wf_hold h" using assms(1,3) by (simp add: wf_boardD)
  from HoldBlock_total [OF assms(1,2)] obtain u where u: "HoldBlock tb = Inr u" by blast
  from HoldBlock_Inr [OF u assms(1)] obtain k where
    "u = (swap_hold tb)\<lparr>hold := Some k, lastFallingTime := 0, canHold := False\<rparr>" by blast
  with assms(3) have f: "fallingBlock u = Some h" by (simp add: swap_hold_def)
  have stuck: "\<not> CanMoveFallingBlock b h (input_vector i)" for b i
    by (rule wf_hold_stranded [OF wfh]) (simp add: input_vector_def split: InputType.split)
  let ?e = "expectBlock (UpdateExpectBlock u)"
  have "cell_x ?e 0 = cell_x h 0"
    using wf_hold_offsets [OF wfh]
    by (simp add: UpdateExpectBlock_eq [OF f] cell_x_def wf_offsets_def)
  with wf_hold_first [OF wfh] have "\<not> 0 \<le> cell_x ?e 0" by simp
  then have "\<not> on_board ?e" by (auto simp: on_board_def intro!: exI [of _ 0])
  moreover have "fallingBlock (UpdateExpectBlock u) = Some h" using f by simp
  ultimately have "FallingBlockToWall (UpdateExpectBlock u) = Inl OutOfBounds"
    by (intro FallingBlockToWall_off_board)
  moreover have "fpos h = vec (-3) 3" using wfh by (simp add: wf_hold_def)
  ultimately show ?thesis using u f stuck by blast
qed

text \<open>A board that has already held a block.\<close>

definition held_demo :: TetrisBoard where
  "held_demo = demo\<lparr>hold := Some ((mk_falling Shape_T BlockShape_T)\<lparr>fpos := vec (-3) 3\<rparr>)\<rparr>"

lemma wf_held_demo: "wf_board held_demo"
  using wf_demo
  by (simp add: held_demo_def wf_board_def wf_hold_def MakeFallingBlock_def mk_falling_def)

theorem second_hold_strands_block_witness:
  "\<exists>tb'. HoldBlock held_demo = Inr tb' \<and>
         FallingBlockToWall (UpdateExpectBlock tb') = Inl OutOfBounds"
proof -
  have "fallingBlock held_demo = Some demo_block"
    and "hold held_demo = Some ((mk_falling Shape_T BlockShape_T)\<lparr>fpos := vec (-3) 3\<rparr>)"
    by (simp_all add: held_demo_def falling_demo)
  from second_hold_strands_block [OF wf_held_demo this] show ?thesis by blast
qed

section \<open>Where the code leaves defined behaviour or its intent\<close>

lemma MoveFallingBlock_keeps_ghost:
  assumes "i \<noteq> DROP" and "fallingBlock tb = Some f"
  shows "\<exists>tb' f'. MoveFallingBlock i tb = Inr tb' \<and> fallingBlock tb' = Some f' \<and>
            expectBlock tb' = expectBlock tb \<and> board tb' = board tb"
  using assms by (cases rule: MoveFallingBlock_cases) (use assms in auto)

lemma InputLoop_Cons:
  assumes "inputQueue tb = i # is" and "ApplyInput e i (tb\<lparr>inputQueue := is\<rparr>) = Inr tb1"
  shows "InputLoop e tb = InputLoop e tb1"
  using assms by (subst InputLoop.simps) (simp add: DequeInput_def)

text \<open>A hard drop locks at the ghost of the frame's start: left, right, rotations and soft drops
  that precede the drop in the same frame move the block but not the place it locks at.\<close>

theorem drop_locks_at_previous_ghost:
  assumes "fallingBlock tb = Some f" and "inputQueue tb = ms @ [DROP]"
    and "set ms \<subseteq> {LEFT, RIGHT, DOWN, UP, ROTATELEFT, ROTATERIGHT}"
  shows "\<exists>g. InputLoop e tb = Inl OutOfBounds \<and> \<not> on_board (expectBlock tb) \<or>
             (\<exists>tb'. InputLoop e tb = Inr tb' \<and>
                    fold_res (WallCell (expectBlock tb) g) [0..<4] (board tb) = Inr (board tb'))"
  using assms
proof (induction ms arbitrary: tb f)
  case Nil
  let ?d = "tb\<lparr>inputQueue := []\<rparr>"
  from Nil.prems have q: "inputQueue tb = [DROP]" by simp
  show ?case
  proof (cases "fold_res (WallCell (expectBlock tb) f) [0..<4] (board tb)")
    case (Inl err)
    have fail: "FallingBlockToWall ?d = Inl err" using Inl Nil.prems(1) by (simp add: FallingBlockToWall_def)
    have "\<exists>i<4. \<not> (0 \<le> cell_x (expectBlock tb) i \<and> cell_x (expectBlock tb) i < 10 \<and>
              0 \<le> cell_y (expectBlock tb) i \<and> cell_y (expectBlock tb) i < 20)"
    proof (rule ccontr)
      assume "\<not> ?thesis"
      then have "\<forall>i<4. \<exists>b'. WallCell (expectBlock tb) f i b = Inr b'" for b
        by (simp add: WallCell_def write_cell_def Let_def)
      then have "\<exists>t. fold_res (WallCell (expectBlock tb) f) [0..<4] (board tb) = Inr t \<and> True"
        by (intro fold_res_total) auto
      with Inl show False by simp
    qed
    then have off: "\<not> on_board (expectBlock tb)" by (auto simp: on_board_def)
    with FallingBlockToWall_off_board [of ?d f] Nil.prems(1) fail have "err = OutOfBounds" by simp
    with fail have "ApplyInput e DROP ?d = Inl OutOfBounds"
      by (simp add: ApplyInput_def MoveFallingBlock_DROP)
    with q have "InputLoop e tb = Inl OutOfBounds"
      by (subst InputLoop.simps) (simp add: DequeInput_def)
    with off show ?thesis by blast
  next
    case (Inr b)
    let ?u = "push_applied DROP (after_drop (?d\<lparr>board := b, fallingBlock := None, canHold := True\<rparr>))"
    have "ApplyInput e DROP ?d = Inr ?u"
      using Inr Nil.prems(1) by (simp add: ApplyInput_def MoveFallingBlock_DROP FallingBlockToWall_def)
    from InputLoop_Cons [OF q this] inputQueue_ApplyInput [OF this]
    have "InputLoop e tb = Inr ?u" by (simp add: InputLoop.simps)
    with Inr show ?thesis by auto
  qed
next
  case (Cons m ms)
  let ?d = "tb\<lparr>inputQueue := ms @ [DROP]\<rparr>"
  let ?d' = "if m = DOWN then ?d\<lparr>lastFallingTime := f32_neg e\<rparr> else ?d"
  from Cons.prems have m: "m \<noteq> DROP" "m \<noteq> HOLD" "m \<noteq> Input_NONE" by auto
  have "fallingBlock ?d' = Some f" using Cons.prems(1) by simp
  from MoveFallingBlock_keeps_ghost [OF m(1) this] obtain u f' where
    u: "MoveFallingBlock m ?d' = Inr u" "fallingBlock u = Some f'"
      "expectBlock u = expectBlock tb" "board u = board tb" by auto
  have a: "ApplyInput e m ?d = Inr (push_applied m u)" using u(1) m by (simp add: ApplyInput_def)
  have q: "inputQueue (push_applied m u) = ms @ [DROP]" using inputQueue_ApplyInput [OF a] by simp
  have "fallingBlock (push_applied m u) = Some f'" using u(2) by simp
  from Cons.IH [OF this q] Cons.prems(2,3) InputLoop_Cons [OF _ a] u(3,4) show ?case by simp
qed

theorem drop_locks_at_previous_ghost_witness:
  "\<exists>tb'. InputLoop 0 (QueueInputs [LEFT, DROP] demo) = Inr tb' \<and>
         blockType (board tb' ! 19 ! 4) = WALL \<and>
         map_option (\<lambda>f. vx (fpos f)) (fallingBlock demo) = Some 4"
proof -
  let ?tb = "QueueInputs [LEFT, DROP] demo"
  have q: "inputQueue ?tb = [LEFT] @ [DROP]" by (simp add: inputQueue_demo)
  have f: "fallingBlock ?tb = Some demo_block" by (simp add: falling_demo)
  have e: "expectBlock ?tb = expectBlock demo" "board ?tb = board demo" by simp_all
  from drop_locks_at_previous_ghost [OF f q, of 0] expect_demo e obtain tb' g where
    t: "InputLoop 0 ?tb = Inr tb'"
    and b: "fold_res (WallCell (expectBlock demo) g) [0..<4] (board demo) = Inr (board tb')"
    by auto
  have xy: "cell_x (expectBlock demo) 0 = 3 \<and> cell_y (expectBlock demo) 0 = 18 \<and>
    cell_x (expectBlock demo) 1 = 4 \<and> cell_y (expectBlock demo) 1 = 18 \<and>
    cell_x (expectBlock demo) 2 = 4 \<and> cell_y (expectBlock demo) 2 = 19 \<and>
    cell_x (expectBlock demo) 3 = 5 \<and> cell_y (expectBlock demo) 3 = 19" by code_simp
  have wf: "wf_cells (board demo)" by (rule wf_boardD(1) [OF wf_demo])
  have "blockType (board tb' ! 19 ! 4) = WALL"
    using b [symmetric] xy wf
    by (simp add: upt_0_4 WallCell_def write_cell_def Let_def wf_cells_def nth_list_update_if)
  moreover have "vx (fpos demo_block) = 4" by (simp add: demo_block_def falling_SetPos_def)
  ultimately show ?thesis using t by (simp add: falling_demo)
qed

text \<open>An input that reaches a board without falling block and without queued blocks
  dereferences a null pointer.\<close>

theorem input_without_block_fails:
  assumes "isPlaying tb" and "fallingBlock tb = None" and "nextFallingBlockQueue tb = []"
    and "inputQueue tb = i # is" and "i \<noteq> Input_NONE"
  shows "Update e tb = Inl NullDeref"
proof -
  let ?d = "tb\<lparr>applyQueue := [], fallingBlock := None, inputQueue := is\<rparr>"
  have "NextFallingBlock (tb\<lparr>applyQueue := []\<rparr>) = tb\<lparr>applyQueue := [], fallingBlock := None\<rparr>"
    using assms(3) by (simp add: NextFallingBlock_def DequeNextBlock_def SetFallingBlock_def)
  moreover have "HoldBlock ?d = Inl NullDeref"
    by (simp add: HoldBlock_def Let_def)
  moreover have "MoveFallingBlock i (?d\<lparr>lastFallingTime := t\<rparr>) = Inl NullDeref"
    "MoveFallingBlock i ?d = Inl NullDeref" for t
    by (simp_all add: MoveFallingBlock_def FallingBlockToWall_def)
  ultimately have "ApplyInput e i ?d = Inl NullDeref"
    using assms(5) by (cases "i = DOWN") (simp_all add: ApplyInput_def)
  moreover have "NextFallingBlock (tb\<lparr>applyQueue := []\<rparr>) = tb\<lparr>applyQueue := [], fallingBlock := None\<rparr>"
    by fact
  ultimately have "InputLoop e (NextFallingBlock (tb\<lparr>applyQueue := []\<rparr>)) = Inl NullDeref"
    using assms(4,5) by (subst InputLoop.simps) (simp add: DequeInput_def)
  with assms(1,2) show ?thesis by (simp add: Update_def Let_def)
qed

theorem input_without_block_fails_witness:
  "Update 0 (QueueInput LEFT (Start (Init 1 new_board))) = Inl NullDeref"
  by (rule input_without_block_fails [of _ LEFT "[]"])
     (simp_all add: QueueInput_def Start_def Init_def new_board_def)

lemma MakeFallingBlock_origin:
  assumes "MakeFallingBlock s = Some f"
  shows "\<exists>i<4. bpos (blockInfo f ! i) = vec 0 0"
proof -
  have "\<exists>i\<in>{0,1,2,3}. bpos (blockInfo f ! i) = vec 0 0"
    using assms
    by (auto simp: MakeFallingBlock_def mk_falling_def BlockShape_defs mk_block_def
        split: ShapeType.splits)
  then obtain i where "i \<in> {0, 1, 2, 3 :: nat}" "bpos (blockInfo f ! i) = vec 0 0" by blast
  moreover from this(1) have "i < 4" by auto
  ultimately show ?thesis by blast
qed

text \<open>C38: there is no game over: when a fresh block cannot leave its spawn line, the timer locks it
  above the grid, an out-of-bounds write.\<close>

theorem top_out_writes_out_of_bounds:
  assumes "MakeFallingBlock s = Some f0" and "fallingBlock tb = Some (falling_SetPos f0 4 (-1))"
    and "\<not> CanMoveFallingBlock (board tb) (falling_SetPos f0 4 (-1)) (vec 0 1)"
    and "f32_add t e > FALLING_BLOCK_INTERVAL"
  shows "UpdateFallingBlock e ((UpdateExpectBlock tb)\<lparr>lastFallingTime := t\<rparr>) = Inl OutOfBounds"
proof -
  let ?f = "falling_SetPos f0 4 (-1)" and ?u = "UpdateExpectBlock tb"
  have "land_distance (board tb) ?f \<le> 0"
    using land_distance_spec(3) [of 1 "board tb" ?f] assms(3) by force
  moreover obtain i where i: "i < 4" "bpos (blockInfo f0 ! i) = vec 0 0"
    using MakeFallingBlock_origin [OF assms(1)] by blast
  moreover have "length (blockInfo f0) = 4"
    using MakeFallingBlock_wf(1) [OF assms(1)] by (simp add: wf_falling_def wf_offsets_def)
  ultimately have "cell_y (expectBlock ?u) i < 0"
    by (simp add: UpdateExpectBlock_eq [OF assms(2)] cell_y_def falling_SetPos_def)
  with i(1) have "\<not> on_board (expectBlock ?u)" by (auto simp: on_board_def)
  then have "FallingBlockToWall (?u\<lparr>lastFallingTime := 0\<rparr>) = Inl OutOfBounds"
    using assms(2) by (intro FallingBlockToWall_off_board) simp_all
  with assms(2-4) show ?thesis
    by (simp add: UpdateFallingBlock_def Let_def UpdateExpectBlock_eq [OF assms(2)])
qed

text \<open>A board whose uppermost line is full of walls but for its last cell.\<close>

definition topped_demo :: TetrisBoard where
  "topped_demo = demo\<lparr>board := (board demo)[0 :=
      (map (\<lambda>c. c\<lparr>blockType := WALL\<rparr>) (board demo ! 0))[9 := board demo ! 0 ! 9]]\<rparr>"

theorem top_out_writes_out_of_bounds_witness:
  "UpdateFallingBlock (2 * f32_one) ((UpdateExpectBlock topped_demo)\<lparr>lastFallingTime := 0\<rparr>)
     = Inl OutOfBounds"
proof (rule top_out_writes_out_of_bounds)
  show "MakeFallingBlock Shape_Z = Some (mk_falling Shape_Z BlockShape_Z)"
    by (simp add: MakeFallingBlock_def)
  show "fallingBlock topped_demo = Some (falling_SetPos (mk_falling Shape_Z BlockShape_Z) 4 (-1))"
    by (simp add: topped_demo_def falling_demo demo_block_def)
  show "\<not> CanMoveFallingBlock (board topped_demo)
            (falling_SetPos (mk_falling Shape_Z BlockShape_Z) 4 (-1)) (vec 0 1)"
    using wf_boardD(1) [OF wf_demo]
    by (simp add: CanMoveFallingBlock_iff all_less_4 topped_demo_def wf_cells_def
        BlockShape_Z_def mk_falling_def mk_block_def falling_SetPos_def cell_x_def cell_y_def)
  show "FALLING_BLOCK_INTERVAL < f32_add 0 (2 * f32_one)"
    using f32_of_int_exact [of 2] by (simp add: f32_add_def f32_of_int_def FALLING_BLOCK_INTERVAL_def)
qed

end
