(* ===== verification/PacketBuffer.thy ===== *)
theory PacketBuffer
  imports Prelude
begin

text \<open>
  The class \<open>PacketBuffer\<close> of \<open>IOCPTetrisCommon/PacketBuffer.h\<close>, which turns the byte stream
  of a socket back into packets.  Theory \<open>PacketStream\<close> adds the loop in which server and
  client empty it.

  \<^item> A \<open>char\<close> is an \<open>8 word\<close>.  It is signed on the program's platform, so its conversion to
    \<open>uint16_t\<close> sign-extends.
  \<^item> The arrays behind \<open>buffer\<close> and \<open>relocateBuffer\<close> are lists of fixed length; \<open>std::copy\<close>
    fails with \<open>OutOfBounds\<close> when its source or its target leaves its array.
\<close>

type_synonym bytes = "8 word list"

section \<open>Copying\<close>

text \<open>\<open>std::copy(src + from, src + from + n, dst + to)\<close>.\<close>

definition std_copy :: "bytes \<Rightarrow> int \<Rightarrow> int \<Rightarrow> bytes \<Rightarrow> int \<Rightarrow> bytes res" where
  "std_copy src from n dst to =
     (if 0 \<le> from \<and> 0 \<le> n \<and> from + n \<le> int (length src) \<and> 0 \<le> to \<and> to + n \<le> int (length dst)
      then Inr (take (nat to) dst @ take (nat n) (drop (nat from) src) @ drop (nat (to + n)) dst)
      else Inl OutOfBounds)"

section \<open>State and operations\<close>

record PacketBuffer =
  buffer :: bytes
  relocateBuffer :: bytes
  bufferSize :: int
  packetHeaderSize :: int
  readPos :: int
  writePos :: int

text \<open>
  \<open>new char[n]\<close> leaves its bytes indeterminate; \<open>fresh\<close> and \<open>freshR\<close> are what the two
  allocations happen to hold.
\<close>

definition buffer_Init ::
    "(nat \<Rightarrow> 8 word) \<Rightarrow> (nat \<Rightarrow> 8 word) \<Rightarrow> int \<Rightarrow> int \<Rightarrow> PacketBuffer" where
  "buffer_Init fresh freshR sz headerSize =
     \<lparr>buffer = map fresh [0..<nat sz], relocateBuffer = map freshR [0..<nat sz],
      bufferSize = sz, packetHeaderSize = headerSize, readPos = 0, writePos = 0\<rparr>"

definition NeedRelocate :: "int \<Rightarrow> PacketBuffer \<Rightarrow> bool" where
  "NeedRelocate needPacketSize pb =
     (let remainWriteSize = bufferSize pb - writePos pb in remainWriteSize < needPacketSize)"

definition RelocateBuffer :: "PacketBuffer \<Rightarrow> PacketBuffer res" where
  "RelocateBuffer pb =
     (let remainReadSize = writePos pb - readPos pb
      in bind_res (std_copy (buffer pb) (readPos pb) remainReadSize (relocateBuffer pb) 0) (\<lambda>r.
         bind_res (std_copy r 0 remainReadSize (buffer pb) 0) (\<lambda>b.
         Inr (pb\<lparr>relocateBuffer := r, buffer := b, readPos := 0, writePos := remainReadSize\<rparr>))))"

text \<open>The null pointer is \<open>None\<close>.\<close>

definition Write :: "bytes option \<Rightarrow> int \<Rightarrow> PacketBuffer \<Rightarrow> PacketBuffer res" where
  "Write data sz pb0 =
     bind_res (if NeedRelocate sz pb0 then RelocateBuffer pb0 else Inr pb0) (\<lambda>pb.
       case data of
         None \<Rightarrow> Inr pb
       | Some d \<Rightarrow>
           if sz + writePos pb > bufferSize pb - 1 then Inr pb
           else bind_res (std_copy d 0 sz (buffer pb) (writePos pb)) (\<lambda>b.
                  Inr (pb\<lparr>buffer := b, writePos := writePos pb + sz\<rparr>)))"

text \<open>\<open>uint16_t dataSize = buffer[readPos];\<close>\<close>

definition dataSize :: "8 word \<Rightarrow> int" where
  "dataSize c = uint (scast c :: 16 word)"

text \<open>The two bytes copied into \<open>test\<close> are read and dropped.\<close>

definition Read :: "PacketBuffer \<Rightarrow> (bytes option \<times> PacketBuffer) res" where
  "Read pb =
     (let canReadSize = writePos pb - readPos pb
      in if canReadSize < packetHeaderSize pb then Inr (None, pb)
         else
           bind_res (at_res OutOfBounds (buffer pb) (readPos pb)) (\<lambda>c.
           bind_res (std_copy (buffer pb) (readPos pb) 2 [0, 0] 0) (\<lambda>test.
           if canReadSize < dataSize c then Inr (None, pb)
           else
             bind_res (std_copy (buffer pb) (readPos pb) (dataSize c)
                         (replicate (nat (dataSize c)) 0) 0) (\<lambda>result.
             Inr (Some result, pb\<lparr>readPos := readPos pb + dataSize c\<rparr>)))))"

section \<open>Invariant and contents\<close>

definition wf_buffer :: "PacketBuffer \<Rightarrow> bool" where
  "wf_buffer pb \<longleftrightarrow>
     int (length (buffer pb)) = bufferSize pb \<and> int (length (relocateBuffer pb)) = bufferSize pb \<and>
     0 \<le> readPos pb \<and> readPos pb \<le> writePos pb \<and> writePos pb \<le> bufferSize pb \<and>
     2 \<le> packetHeaderSize pb"

definition pending :: "PacketBuffer \<Rightarrow> bytes" where
  "pending pb = take (nat (writePos pb - readPos pb)) (drop (nat (readPos pb)) (buffer pb))"

lemma length_pending: "wf_buffer pb \<Longrightarrow> int (length (pending pb)) = writePos pb - readPos pb"
  by (auto simp: wf_buffer_def pending_def)

lemma wf_buffer_Init [invs]:
  "0 \<le> n \<Longrightarrow> 2 \<le> h \<Longrightarrow> wf_buffer (buffer_Init g r n h)"
  "pending (buffer_Init g r n h) = []"
  by (simp_all add: wf_buffer_def buffer_Init_def pending_def)

lemma std_copy_length: "std_copy src a n dst b = Inr d \<Longrightarrow> length d = length dst"
  by (auto simp: std_copy_def split: if_splits)

lemma nat_diff_drop: "0 \<le> a \<Longrightarrow> a \<le> b \<Longrightarrow> nat (b - a) = nat b - nat a"
  by (simp add: nat_diff_distrib)

lemma RelocateBuffer_ok:
  assumes "wf_buffer pb"
  shows "\<exists>pb'. RelocateBuffer pb = Inr pb' \<and> wf_buffer pb' \<and> pending pb' = pending pb \<and>
           readPos pb' = 0 \<and> writePos pb' = writePos pb - readPos pb \<and>
           bufferSize pb' = bufferSize pb \<and> packetHeaderSize pb' = packetHeaderSize pb"
proof -
  let ?n = "writePos pb - readPos pb"
  let ?r = "take (nat ?n) (drop (nat (readPos pb)) (buffer pb)) @ drop (nat ?n) (relocateBuffer pb)"
  let ?b = "take (nat ?n) (drop (nat (readPos pb)) (buffer pb)) @ drop (nat ?n) (buffer pb)"
  have c1: "std_copy (buffer pb) (readPos pb) ?n (relocateBuffer pb) 0 = Inr ?r"
    using assms by (simp add: std_copy_def wf_buffer_def)
  have len: "length (take (nat ?n) (drop (nat (readPos pb)) (buffer pb))) = nat ?n"
    using assms by (auto simp: wf_buffer_def)
  have c2: "std_copy ?r 0 ?n (buffer pb) 0 = Inr ?b"
    using assms len by (auto simp: std_copy_def wf_buffer_def)
  let ?pb = "pb\<lparr>relocateBuffer := ?r, buffer := ?b, readPos := 0, writePos := ?n\<rparr>"
  have "RelocateBuffer pb = Inr ?pb" by (simp add: RelocateBuffer_def Let_def c1 c2)
  moreover have "wf_buffer ?pb" using assms len by (auto simp: wf_buffer_def)
  moreover have "pending ?pb = pending pb" using len by (simp add: pending_def)
  ultimately show ?thesis by (intro exI [of _ ?pb]) simp
qed

lemma take_drop_insert:
  assumes "r \<le> w" and "w \<le> length b"
  shows "take (w - r + length d) (drop r (take w b @ d @ x)) = take (w - r) (drop r b) @ d"
  using assms by (simp add: drop_take)

text \<open>The bytes a write has to store, and the space that its two tests leave it.\<close>

definition accepts :: "int \<Rightarrow> PacketBuffer \<Rightarrow> bool" where
  "accepts sz pb \<longleftrightarrow>
     writePos pb + sz < bufferSize pb \<or>
     bufferSize pb < writePos pb + sz \<and> writePos pb - readPos pb + sz < bufferSize pb"

lemma Write_fits:
  assumes "wf_buffer pb" and "sz = int (length d)" and "sz + writePos pb < bufferSize pb"
  shows "\<exists>pb'. bind_res (std_copy d 0 sz (buffer pb) (writePos pb)) (\<lambda>b.
                  Inr (pb\<lparr>buffer := b, writePos := writePos pb + sz\<rparr>)) = Inr pb' \<and>
           wf_buffer pb' \<and> pending pb' = pending pb @ d \<and> readPos pb' = readPos pb \<and>
           bufferSize pb' = bufferSize pb \<and> packetHeaderSize pb' = packetHeaderSize pb"
proof -
  let ?b = "take (nat (writePos pb)) (buffer pb) @ d @ drop (nat (writePos pb + sz)) (buffer pb)"
  let ?pb = "pb\<lparr>buffer := ?b, writePos := writePos pb + sz\<rparr>"
  have "std_copy d 0 sz (buffer pb) (writePos pb) = Inr ?b"
    using assms by (simp add: std_copy_def wf_buffer_def)
  moreover have "wf_buffer ?pb" using assms by (auto simp: wf_buffer_def)
  moreover have "pending ?pb = pending pb @ d"
  proof -
    have facts: "nat (writePos pb + sz - readPos pb) = nat (writePos pb) - nat (readPos pb) + length d"
      "nat (readPos pb) \<le> nat (writePos pb)" "nat (writePos pb) \<le> length (buffer pb)"
      "nat (writePos pb - readPos pb) = nat (writePos pb) - nat (readPos pb)"
      using assms by (auto simp: wf_buffer_def)
    have "pending ?pb = take (nat (writePos pb + sz - readPos pb)) (drop (nat (readPos pb)) ?b)"
      by (simp add: pending_def)
    with facts show ?thesis by (simp only: take_drop_insert) (simp only: pending_def)
  qed
  ultimately show ?thesis by (intro exI [of _ ?pb]) simp
qed


text \<open>
  A write stores its bytes, or drops all of them; it drops them as well when they would end
  exactly at the end of the buffer, where the test for relocation sees enough space and the
  test for writing does not.
\<close>

lemma Write_spec:
  assumes "wf_buffer pb" and "sz = int (length d)"
  shows "\<exists>pb'. Write (Some d) sz pb = Inr pb' \<and> wf_buffer pb' \<and>
           bufferSize pb' = bufferSize pb \<and> packetHeaderSize pb' = packetHeaderSize pb \<and>
           pending pb' = (if accepts sz pb then pending pb @ d else pending pb) \<and>
           writePos pb' - readPos pb' =
             writePos pb - readPos pb + (if accepts sz pb then sz else 0)"
proof (cases "NeedRelocate sz pb")
  case True
  from RelocateBuffer_ok [OF assms(1)] obtain q where q: "RelocateBuffer pb = Inr q"
    "wf_buffer q" "pending q = pending pb" "readPos q = 0" "writePos q = writePos pb - readPos pb"
    "bufferSize q = bufferSize pb" "packetHeaderSize q = packetHeaderSize pb" by blast
  have acc: "accepts sz pb \<longleftrightarrow> sz + writePos q < bufferSize q"
    using True q(5,6) assms by (auto simp: accepts_def NeedRelocate_def Let_def wf_buffer_def)
  show ?thesis
  proof (cases "accepts sz pb")
    case True
    with acc have "sz + writePos q < bufferSize q" by simp
    from Write_fits [OF q(2) assms(2) this] obtain u where u:
      "bind_res (std_copy d 0 sz (buffer q) (writePos q))
         (\<lambda>b. Inr (q\<lparr>buffer := b, writePos := writePos q + sz\<rparr>)) = Inr u"
      "wf_buffer u" "pending u = pending q @ d" "readPos u = readPos q"
      "bufferSize u = bufferSize q" "packetHeaderSize u = packetHeaderSize q" by blast
    have "writePos u = writePos q + sz" using u(1) by (auto simp: bind_res_Inr_iff)
    with u q True acc \<open>NeedRelocate sz pb\<close> show ?thesis by (auto simp: Write_def)
  next
    case False
    with q acc \<open>NeedRelocate sz pb\<close> show ?thesis by (auto simp: Write_def)
  qed
next
  case False
  have acc: "accepts sz pb \<longleftrightarrow> sz + writePos pb < bufferSize pb"
    using False assms by (auto simp: accepts_def NeedRelocate_def Let_def wf_buffer_def)
  show ?thesis
  proof (cases "accepts sz pb")
    case True
    with acc have "sz + writePos pb < bufferSize pb" by simp
    from Write_fits [OF assms this] obtain u where u:
      "bind_res (std_copy d 0 sz (buffer pb) (writePos pb))
         (\<lambda>b. Inr (pb\<lparr>buffer := b, writePos := writePos pb + sz\<rparr>)) = Inr u"
      "wf_buffer u" "pending u = pending pb @ d" "readPos u = readPos pb"
      "bufferSize u = bufferSize pb" "packetHeaderSize u = packetHeaderSize pb" by blast
    have "writePos u = writePos pb + sz" using u(1) by (auto simp: bind_res_Inr_iff)
    with u True acc False \<open>\<not> NeedRelocate sz pb\<close> show ?thesis by (auto simp: Write_def)
  next
    case False
    with acc assms(1) \<open>\<not> NeedRelocate sz pb\<close> show ?thesis by (auto simp: Write_def)
  qed
qed

section \<open>Reading refines cutting a packet off the pending bytes\<close>

definition next_packet :: "int \<Rightarrow> bytes \<Rightarrow> bytes option" where
  "next_packet header p =
     (if int (length p) < header \<or> int (length p) < dataSize (hd p) then None
      else Some (take (nat (dataSize (hd p))) p))"

lemma dataSize_nonneg [simp]: "0 \<le> dataSize c"
  by (simp add: dataSize_def)

lemma hd_pending:
  assumes "wf_buffer pb" and "0 < writePos pb - readPos pb"
  shows "hd (pending pb) = buffer pb ! nat (readPos pb)"
  using assms by (auto simp: pending_def wf_buffer_def hd_conv_nth nth_take nth_drop)

lemma pending_advance:
  assumes "wf_buffer pb" and "0 \<le> n" and "n \<le> writePos pb - readPos pb"
  shows "pending (pb\<lparr>readPos := readPos pb + n\<rparr>) = drop (nat n) (pending pb)"
    and "wf_buffer (pb\<lparr>readPos := readPos pb + n\<rparr>)"
proof -
  have "nat (readPos pb + n) = nat n + nat (readPos pb)"
    "nat (writePos pb - (readPos pb + n)) = nat (writePos pb - readPos pb) - nat n"
    using assms by (auto simp: wf_buffer_def)
  then show "pending (pb\<lparr>readPos := readPos pb + n\<rparr>) = drop (nat n) (pending pb)"
    by (simp add: pending_def drop_take)
  show "wf_buffer (pb\<lparr>readPos := readPos pb + n\<rparr>)" using assms by (auto simp: wf_buffer_def)
qed

lemma Read_spec:
  assumes "wf_buffer pb"
  shows "Read pb =
     (case next_packet (packetHeaderSize pb) (pending pb) of
        None \<Rightarrow> Inr (None, pb)
      | Some p \<Rightarrow> Inr (Some p, pb\<lparr>readPos := readPos pb + int (length p)\<rparr>))"
proof (cases "writePos pb - readPos pb < packetHeaderSize pb")
  case True
  then show ?thesis using assms by (simp add: Read_def next_packet_def length_pending Let_def)
next
  case False
  let ?c = "buffer pb ! nat (readPos pb)" and ?n = "writePos pb - readPos pb"
  from False assms have n: "2 \<le> ?n" "readPos pb + 2 \<le> int (length (buffer pb))"
    "0 \<le> readPos pb" "readPos pb < int (length (buffer pb))"
    by (auto simp: wf_buffer_def)
  have hd: "hd (pending pb) = ?c" using assms n(1) by (intro hd_pending) auto
  have c: "at_res OutOfBounds (buffer pb) (readPos pb) = Inr ?c"
    using n by (simp add: at_res_def)
  have test: "std_copy (buffer pb) (readPos pb) 2 [0, 0] 0
                = Inr (take 2 (drop (nat (readPos pb)) (buffer pb)))"
    using n by (simp add: std_copy_def)
  show ?thesis
  proof (cases "?n < dataSize ?c")
    case True
    then show ?thesis using assms False
      by (simp add: Read_def next_packet_def length_pending Let_def c test hd)
  next
    case fits: False
    let ?r = "take (nat (dataSize ?c)) (drop (nat (readPos pb)) (buffer pb))"
    have "std_copy (buffer pb) (readPos pb) (dataSize ?c) (replicate (nat (dataSize ?c)) 0) 0
            = Inr ?r"
      using fits n assms by (simp add: std_copy_def wf_buffer_def)
    moreover have "?r = take (nat (dataSize ?c)) (pending pb)"
      using fits by (simp add: pending_def min_def nat_le_eq_zle)
    moreover have "int (length (take (nat (dataSize ?c)) (pending pb))) = dataSize ?c"
      using fits length_pending [OF assms] by auto
    ultimately show ?thesis using assms False fits
      by (simp add: Read_def next_packet_def length_pending Let_def c test hd)
  qed
qed

end
