(* ===== verification/PacketStream.thy ===== *)
theory PacketStream
  imports PacketBuffer
begin

text \<open>
  How a byte stream becomes packets again: the loop that calls \<open>Read\<close> until it returns a null
  pointer, and the receive completions that each write a chunk and run that loop.

  The loop may never end, so it is a \<open>partial_function\<close>, for which \<open>None\<close> is an endless run.
  Loop and completions only need the interface \<open>packet_stream\<close> of a buffer: what it holds,
  that a write with enough room appends, and that a read cuts the first packet off.
  \<open>PacketBuffer\<close> provides it.
\<close>

section \<open>The loops\<close>

text \<open>
  \<open>while (true) { readBuf = Read(); if (readBuf == nullptr) break; f(readBuf); }\<close>, with the
  body \<open>f\<close> that server and client give it.
\<close>

partial_function (option) ReadLoop ::
    "('b \<Rightarrow> (bytes option \<times> 'b) res) \<Rightarrow> (bytes \<Rightarrow> 's \<Rightarrow> 's res) \<Rightarrow> 'b \<Rightarrow> 's \<Rightarrow>
     ('b \<times> 's) res option" where
  "ReadLoop pull f b s =
     (case pull b of
        Inl e \<Rightarrow> Some (Inl e)
      | Inr (r, b') \<Rightarrow>
          (case r of
             None \<Rightarrow> Some (Inr (b', s))
           | Some readBuf \<Rightarrow>
               (case f readBuf s of
                  Inl e \<Rightarrow> Some (Inl e)
                | Inr s' \<Rightarrow> ReadLoop pull f b' s')))"

text \<open>One receive completion: the chunk goes into the buffer, then the loop runs.\<close>

definition Receive ::
    "('b \<Rightarrow> (bytes option \<times> 'b) res) \<Rightarrow> (bytes \<Rightarrow> 'b \<Rightarrow> 'b res) \<Rightarrow> (bytes \<Rightarrow> 's \<Rightarrow> 's res) \<Rightarrow>
     bytes \<Rightarrow> 'b \<Rightarrow> 's \<Rightarrow> ('b \<times> 's) res option" where
  "Receive pull push f chunk b s =
     (case push chunk b of Inl e \<Rightarrow> Some (Inl e) | Inr b' \<Rightarrow> ReadLoop pull f b' s)"

fun ReceiveAll ::
    "('b \<Rightarrow> (bytes option \<times> 'b) res) \<Rightarrow> (bytes \<Rightarrow> 'b \<Rightarrow> 'b res) \<Rightarrow> (bytes \<Rightarrow> 's \<Rightarrow> 's res) \<Rightarrow>
     bytes list \<Rightarrow> 'b \<Rightarrow> 's \<Rightarrow> ('b \<times> 's) res option" where
  "ReceiveAll pull push f [] b s = Some (Inr (b, s))"
| "ReceiveAll pull push f (c # cs) b s =
     (case Receive pull push f c b s of
        None \<Rightarrow> None
      | Some (Inl e) \<Rightarrow> Some (Inl e)
      | Some (Inr (b', s')) \<Rightarrow> ReceiveAll pull push f cs b' s')"

text \<open>Every chunk finds the room it needs when it arrives.\<close>

fun roomy ::
    "(int \<Rightarrow> 'b \<Rightarrow> bool) \<Rightarrow> ('b \<Rightarrow> (bytes option \<times> 'b) res) \<Rightarrow> (bytes \<Rightarrow> 'b \<Rightarrow> 'b res) \<Rightarrow>
     (bytes \<Rightarrow> 's \<Rightarrow> 's res) \<Rightarrow> bytes list \<Rightarrow> 'b \<Rightarrow> 's \<Rightarrow> bool" where
  "roomy room pull push f [] b s = True"
| "roomy room pull push f (c # cs) b s =
     (room (int (length c)) b \<and>
      (case Receive pull push f c b s of
         Some (Inr (b', s')) \<Rightarrow> roomy room pull push f cs b' s'
       | _ \<Rightarrow> True))"

section \<open>Packets in a byte stream\<close>

definition is_packet :: "int \<Rightarrow> bytes \<Rightarrow> bool" where
  "is_packet header p \<longleftrightarrow> header \<le> int (length p) \<and> dataSize (hd p) = int (length p) \<and> p \<noteq> []"

definition partial_packet :: "int \<Rightarrow> bytes \<Rightarrow> bool" where
  "partial_packet header r \<longleftrightarrow> r = [] \<or> (\<exists>x. x \<noteq> [] \<and> is_packet header (r @ x))"

lemma next_packet_packet:
  "is_packet header p \<Longrightarrow> next_packet header (p @ rest) = Some p"
  by (auto simp: is_packet_def next_packet_def)

lemma next_packet_partial:
  "partial_packet header r \<Longrightarrow> 0 < header \<Longrightarrow> next_packet header r = None"
  by (cases r) (auto simp: partial_packet_def is_packet_def next_packet_def)

lemma partial_packet_prefix:
  assumes "partial_packet header (r @ x)" shows "partial_packet header r"
  using assms
  by (cases r) (auto simp: partial_packet_def intro: exI [of _ "x @ y" for y])

lemma append_split:
  assumes "p @ q = f @ g" and "length f \<le> length p"
  shows "\<exists>x. p = f @ x \<and> x @ q = g"
proof -
  from assms have "take (length f) (p @ q) = f" by simp
  with assms(2) have "p = f @ drop (length f) p" by (metis append_take_drop_id diff_is_0_eq' take0 take_append append_Nil2)
  with assms(1) show ?thesis by (metis append.assoc same_append_eq)
qed

text \<open>A prefix of a stream of packets is a stream of packets with a partial one at its end.\<close>

lemma stream_prefix:
  assumes "p @ q = concat fs @ rest" and "list_all (is_packet header) fs"
    and "partial_packet header rest"
  shows "\<exists>gs hs r. fs = gs @ hs \<and> p = concat gs @ r \<and> r @ q = concat hs @ rest \<and>
           partial_packet header r"
  using assms
proof (induction fs arbitrary: p)
  case Nil
  then have "partial_packet header p" using partial_packet_prefix by auto
  with Nil show ?case by (intro exI [of _ "[]"] exI [of _ p]) auto
next
  case (Cons f fs)
  show ?case
  proof (cases "length f \<le> length p")
    case True
    with append_split [of p q f "concat fs @ rest"] Cons.prems(1) obtain p' where
      p: "p = f @ p'" "p' @ q = concat fs @ rest" by auto
    from Cons.IH [OF p(2)] Cons.prems obtain gs hs r where
      "fs = gs @ hs" "p' = concat gs @ r" "r @ q = concat hs @ rest" "partial_packet header r" by auto
    with p(1) show ?thesis by (intro exI [of _ "f # gs"] exI [of _ hs] exI [of _ r]) simp
  next
    case False
    with append_split [of f "concat fs @ rest" p q] Cons.prems(1) obtain x where
      x: "f = p @ x" "x \<noteq> []" by fastforce
    with Cons.prems(2) have "partial_packet header p" by (auto simp: partial_packet_def)
    with Cons.prems show ?thesis by (intro exI [of _ "[]"] exI [of _ "f # fs"] exI [of _ p]) auto
  qed
qed

section \<open>The interface of a buffer\<close>

locale packet_stream =
  fixes header :: int
    and pull :: "'b \<Rightarrow> (bytes option \<times> 'b) res"
    and push :: "bytes \<Rightarrow> 'b \<Rightarrow> 'b res"
    and content :: "'b \<Rightarrow> bytes"
    and room :: "int \<Rightarrow> 'b \<Rightarrow> bool"
    and ok :: "'b \<Rightarrow> bool"
  assumes header_pos: "0 < header"
    and pull_none: "ok b \<Longrightarrow> next_packet header (content b) = None \<Longrightarrow> pull b = Inr (None, b)"
    and pull_some: "ok b \<Longrightarrow> next_packet header (content b) = Some p \<Longrightarrow>
          \<exists>b'. pull b = Inr (Some p, b') \<and> ok b' \<and> content b' = drop (length p) (content b)"
    and push_room: "ok b \<Longrightarrow> room (int (length d)) b \<Longrightarrow>
          \<exists>b'. push d b = Inr b' \<and> ok b' \<and> content b' = content b @ d"
begin

lemma ReadLoop_packets:
  assumes "ok b" and "content b = concat fs @ r" and "list_all (is_packet header) fs"
    and "partial_packet header r" and "fold_res f fs s = Inr s'"
  shows "\<exists>b'. ReadLoop pull f b s = Some (Inr (b', s')) \<and> ok b' \<and> content b' = r"
  using assms
proof (induction fs arbitrary: b s)
  case Nil
  then have "pull b = Inr (None, b)"
    using pull_none next_packet_partial header_pos by simp
  with Nil show ?case by (simp add: ReadLoop.simps)
next
  case (Cons p fs)
  have "next_packet header (content b) = Some p" using Cons.prems by (simp add: next_packet_packet)
  from pull_some [OF Cons.prems(1) this] Cons.prems(2) obtain b1 where
    b1: "pull b = Inr (Some p, b1)" "ok b1" "content b1 = concat fs @ r" by auto
  from Cons.prems(5) obtain s1 where s1: "f p s = Inr s1" "fold_res f fs s1 = Inr s'"
    by (auto simp: bind_res_Inr_iff)
  from Cons.IH [OF b1(2,3) _ Cons.prems(4) s1(2)] Cons.prems(3) b1(1) s1(1) show ?case
    by (subst ReadLoop.simps) simp
qed

lemma Receive_packets:
  assumes "ok b" and "room (int (length c)) b" and "content b @ c = concat fs @ r"
    and "list_all (is_packet header) fs" and "partial_packet header r"
    and "fold_res f fs s = Inr s'"
  shows "\<exists>b'. Receive pull push f c b s = Some (Inr (b', s')) \<and> ok b' \<and> content b' = r"
proof -
  from push_room [OF assms(1,2)] obtain b1 where
    "push c b = Inr b1" "ok b1" "content b1 = concat fs @ r" using assms(3) by auto
  with ReadLoop_packets [OF this(2,3) assms(4-6)] show ?thesis by (simp add: Receive_def)
qed

text \<open>However the stream is cut into chunks, the body sees the same packets in the same order.\<close>

lemma ReceiveAll_packets:
  assumes "ok b" and "content b @ concat cs = concat fs @ rest"
    and "list_all (is_packet header) fs" and "partial_packet header rest"
    and "fold_res f fs s = Inr s'" and "roomy room pull push f cs b s" 
    and "partial_packet header (content b)"
  shows "\<exists>b'. ReceiveAll pull push f cs b s = Some (Inr (b', s')) \<and> ok b' \<and> content b' = rest"
  using assms
proof (induction cs arbitrary: b s fs)
  case Nil
  have "fs = []"
  proof (rule ccontr)
    assume "fs \<noteq> []"
    then obtain p ps where fs: "fs = p # ps" by (cases fs) auto
    with Nil.prems have "next_packet header (content b) = Some p"
      by (simp add: next_packet_packet)
    with Nil.prems(7) next_packet_partial header_pos show False by simp
  qed
  with Nil show ?case by simp
next
  case (Cons c cs)
  have "(content b @ c) @ concat cs = concat fs @ rest" using Cons.prems(2) by simp
  from stream_prefix [OF this Cons.prems(3,4)] obtain gs hs r where
    g: "fs = gs @ hs" "content b @ c = concat gs @ r" "r @ concat cs = concat hs @ rest"
      "partial_packet header r" by blast
  from Cons.prems(5) g(1) obtain t where
    t: "fold_res f gs s = Inr t" "fold_res f hs t = Inr s'"
    by (auto simp: fold_res_append bind_res_Inr_iff)
  have "room (int (length c)) b" using Cons.prems(6) by simp
  from Receive_packets [OF Cons.prems(1) this g(2) _ g(4) t(1)] Cons.prems(3) g(1) obtain b1 where
    b1: "Receive pull push f c b s = Some (Inr (b1, t))" "ok b1" "content b1 = r" by auto
  from Cons.IH [OF b1(2) _ _ Cons.prems(4) t(2)] b1(3) g Cons.prems(3,6) b1(1) show ?case
    by simp
qed

end

section \<open>\<open>PacketBuffer\<close> is such a buffer\<close>

text \<open>\<open>sizeof(PACKET_HEADER)\<close>, which both ends pass to \<open>Init\<close>.\<close>

definition PACKET_HEADER_LENGTH :: int where "PACKET_HEADER_LENGTH = 12"

definition write_chunk :: "bytes \<Rightarrow> PacketBuffer \<Rightarrow> PacketBuffer res" where
  "write_chunk c pb = Write (Some c) (int (length c)) pb"

definition stream_ok :: "PacketBuffer \<Rightarrow> bool" where
  "stream_ok pb \<longleftrightarrow> wf_buffer pb \<and> packetHeaderSize pb = PACKET_HEADER_LENGTH"

interpretation pb: packet_stream PACKET_HEADER_LENGTH Read write_chunk pending accepts stream_ok
proof
  show "0 < PACKET_HEADER_LENGTH" by (simp add: PACKET_HEADER_LENGTH_def)
next
  fix b assume "stream_ok b" "next_packet PACKET_HEADER_LENGTH (pending b) = None"
  then show "Read b = Inr (None, b)" by (simp add: stream_ok_def Read_spec)
next
  fix b p assume b: "stream_ok b" "next_packet PACKET_HEADER_LENGTH (pending b) = Some p"
  then have "int (length p) \<le> int (length (pending b))"
    by (auto simp: next_packet_def split: if_splits)
  with b have "int (length p) \<le> writePos b - readPos b"
    by (simp add: stream_ok_def length_pending)
  from pending_advance [OF _ _ this] b
  show "\<exists>b'. Read b = Inr (Some p, b') \<and> stream_ok b' \<and> pending b' = drop (length p) (pending b)"
    by (auto simp: stream_ok_def Read_spec)
next
  fix b and d :: bytes assume "stream_ok b" "accepts (int (length d)) b"
  with Write_spec [of b _ d]
  show "\<exists>b'. write_chunk d b = Inr b' \<and> stream_ok b' \<and> pending b' = pending b @ d"
    by (fastforce simp: stream_ok_def write_chunk_def)
qed

section \<open>Facts for the statements below\<close>

lemma accepts_drop:
  assumes "wf_buffer pb" and "writePos pb + int (length d) = bufferSize pb"
  shows "write_chunk d pb = Inr pb"
  using assms by (simp add: write_chunk_def Write_def NeedRelocate_def)

text \<open>The first length byte of what is pending stays the first through every write.\<close>

lemma write_chunk_pending:
  assumes "wf_buffer pb"
  obtains pb' x where "write_chunk d pb = Inr pb'" and "wf_buffer pb'"
    and "bufferSize pb' = bufferSize pb" and "packetHeaderSize pb' = packetHeaderSize pb"
    and "pending pb' = pending pb @ x"
  using Write_spec [OF assms refl, of d] by (fastforce simp: write_chunk_def split: if_splits)

lemma dataSize_eq: "dataSize c = (if uint c < 128 then uint c else uint c + 65280)"
proof -
  have c: "uint c < 256" using uint_lt2p [of c] by simp
  then have q: "uint c div 128 = (if uint c < 128 then 0 else 1)" by auto
  have "sint c = uint c - 256 * of_bool (bit (uint c) 7)"
    using c by (simp add: sint_uint signed_take_bit_eq_take_bit_minus take_bit_eq_mod)
  also have "bit (uint c) 7 \<longleftrightarrow> \<not> uint c < 128" using q by (simp add: bit_iff_odd)
  finally have "sint c = (if uint c < 128 then uint c else uint c - 256)" by simp
  moreover have "uint (scast c :: 16 word) = sint c mod 65536"
    by (simp only: scast_eq uint_word_of_int) simp
  moreover have "(uint c - 256) mod 65536 = uint c + 65280" if "\<not> uint c < 128"
    using mod_add_self2 [of "uint c - 256" 65536] that c by simp
  moreover have "uint c mod 65536 = uint c" using c by simp
  ultimately show ?thesis by (simp add: dataSize_def)
qed

text \<open>A buffer that starts with a length byte above 127 never gives a packet again.\<close>

lemma next_packet_long:
  assumes "p \<noteq> []" and "128 \<le> uint (hd p)" and "int (length p) < 65408"
  shows "next_packet header p = None"
  using assms by (simp add: next_packet_def dataSize_eq)

lemma ReceiveAll_long:
  assumes "wf_buffer pb" and "pending pb \<noteq> []" and "128 \<le> uint (hd (pending pb))"
    and "bufferSize pb < 65408"
  shows "\<exists>pb'. ReceiveAll Read write_chunk f cs pb s = Some (Inr (pb', s))"
  using assms
proof (induction cs arbitrary: pb)
  case Nil
  then show ?case by simp
next
  case (Cons c cs)
  from write_chunk_pending [OF Cons.prems(1), of c] obtain q x where
    q: "write_chunk c pb = Inr q" "wf_buffer q" "bufferSize q = bufferSize pb"
      "pending q = pending pb @ x" by metis
  have "int (length (pending q)) < 65408"
    using length_pending [OF q(2)] q(2,3) Cons.prems(4) by (simp add: wf_buffer_def)
  with q Cons.prems(2,3) have "next_packet (packetHeaderSize q) (pending q) = None"
    by (intro next_packet_long) simp_all
  with q(2) have "Read q = Inr (None, q)" by (simp add: Read_spec)
  with q(1) have "Receive Read write_chunk f c pb s = Some (Inr (q, s))"
    by (simp add: Receive_def ReadLoop.simps)
  with Cons.IH [OF q(2)] q(3,4) Cons.prems(2-4) show ?case by simp
qed

text \<open>A pending packet of length 0 is read again and again.\<close>

lemma Read_zero:
  assumes "wf_buffer pb" and "packetHeaderSize pb \<le> int (length (pending pb))"
    and "hd (pending pb) = 0"
  shows "Read pb = Inr (Some [], pb)"
proof -
  have "next_packet (packetHeaderSize pb) (pending pb) = Some []"
    using assms by (simp add: next_packet_def dataSize_eq)
  with assms(1) show ?thesis by (simp add: Read_spec)
qed

lemma ReadLoop_endless:
  assumes "pull b = Inr (Some p, b)" and "\<And>s. \<exists>t. f p s = Inr t"
  shows "ReadLoop pull f b s = None"
proof -
  let ?P = "\<lambda>pull f b s r. \<not> (pull b = Inr (Some p, b) \<and> (\<forall>s. \<exists>t. f p s = Inr t))"
  have "?P pull f b s r" if ret: "ReadLoop pull f b s = Some r" for r
  proof (rule ReadLoop.raw_induct [where P = ?P, OF _ ret], rule notI)
    fix loop :: "('a \<Rightarrow> (bytes option \<times> 'a) res) \<Rightarrow> (bytes \<Rightarrow> 'b \<Rightarrow> 'b res) \<Rightarrow> 'a \<Rightarrow> 'b \<Rightarrow>
        ('a \<times> 'b) res option" and pull f b s r
    assume IH: "\<And>pull f b s r. loop pull f b s = Some r \<Longrightarrow> ?P pull f b s r"
      and step: "(case pull b of Inl e \<Rightarrow> Some (Inl e)
         | Inr (r, b') \<Rightarrow>
             (case r of None \<Rightarrow> Some (Inr (b', s))
              | Some readBuf \<Rightarrow> (case f readBuf s of Inl e \<Rightarrow> Some (Inl e) | Inr s' \<Rightarrow> loop pull f b' s')))
         = Some r"
      and body: "pull b = Inr (Some p, b) \<and> (\<forall>s. \<exists>t. f p s = Inr t)"
    from body obtain t where "f p s = Inr t" by blast
    with step body have "loop pull f b t = Some r" by simp
    from IH [OF this] body show False by blast
  qed
  with assms show ?thesis by (cases "ReadLoop pull f b s") auto
qed

section \<open>What the loop keeps\<close>

text \<open>A property that the body keeps, the loop keeps.\<close>

lemma ReadLoop_state:
  fixes s :: 's and b :: 'b
  assumes ret: "ReadLoop pull f b s = Some (Inr (b', s'))" and "P s"
    and "\<And>p s t. P s \<Longrightarrow> f p s = Inr t \<Longrightarrow> P t"
  shows "P s'"
proof -
  let ?Q = "\<lambda>(pull :: 'b \<Rightarrow> (bytes option \<times> 'b) res) g (b :: 'b) (s :: 's) (r :: ('b \<times> 's) res).
      \<forall>b' s'. g = f \<and> P s \<and> r = Inr (b', s') \<longrightarrow> P s'"
  have "?Q pull f b s (Inr (b', s'))"
  proof (rule ReadLoop.raw_induct [where P = ?Q, OF _ ret])
    fix loop :: "('b \<Rightarrow> (bytes option \<times> 'b) res) \<Rightarrow> (bytes \<Rightarrow> 's \<Rightarrow> 's res) \<Rightarrow> 'b \<Rightarrow> 's \<Rightarrow>
        ('b \<times> 's) res option" and pull g b s r
    assume IH: "\<And>pull g b s r. loop pull g b s = Some r \<Longrightarrow> ?Q pull g b s r"
      and step: "(case pull b of Inl e \<Rightarrow> Some (Inl e)
         | Inr (r, b') \<Rightarrow>
             (case r of None \<Rightarrow> Some (Inr (b', s))
              | Some readBuf \<Rightarrow> (case g readBuf s of Inl e \<Rightarrow> Some (Inl e) | Inr s' \<Rightarrow> loop pull g b' s')))
         = Some r"
    show "?Q pull g b s r"
    proof (intro allI impI)
      fix b' s' assume hyp: "g = f \<and> P s \<and> r = Inr (b', s')"
      with step obtain x c where c: "pull b = Inr (x, c)" by (auto split: sum.splits)
      show "P s'"
      proof (cases x)
        case None
        with step hyp c show ?thesis by auto
      next
        case (Some p)
        with step hyp c obtain t where t: "f p s = Inr t" "loop pull f c t = Some r"
          by (auto split: sum.splits)
        from IH [OF t(2)] t(1) hyp assms(3) show ?thesis by blast
      qed
    qed
  qed
  with assms(2) show ?thesis by blast
qed

section \<open>Runs that may wait for ever\<close>

text \<open>\<open>None\<close> is a run that never ends; two runs in sequence.\<close>

type_synonym 'a run = "'a res option"

definition bind_run :: "'a run \<Rightarrow> ('a \<Rightarrow> 'b run) \<Rightarrow> 'b run" where
  "bind_run m f = Option.bind m (\<lambda>r. case r of Inl e \<Rightarrow> Some (Inl e) | Inr x \<Rightarrow> f x)"

lemma bind_run_simps [simp, res_simps]:
  "bind_run None f = None" "bind_run (Some (Inl e)) f = Some (Inl e)"
  "bind_run (Some (Inr x)) f = f x"
  by (simp_all add: bind_run_def)

lemma bind_run_Inr_iff [res_simps]:
  "bind_run m f = Some (Inr y) \<longleftrightarrow> (\<exists>x. m = Some (Inr x) \<and> f x = Some (Inr y))"
  by (cases m) (auto simp: bind_run_def split: sum.splits)

fun fold_run :: "('a \<Rightarrow> 's \<Rightarrow> 's run) \<Rightarrow> 'a list \<Rightarrow> 's \<Rightarrow> 's run" where
  "fold_run f [] s = Some (Inr s)"
| "fold_run f (x # xs) s = bind_run (f x s) (fold_run f xs)"

lemma fold_run_invariant:
  assumes "fold_run f xs s = Some (Inr t)" and "P s"
    and "\<And>x u v. x \<in> set xs \<Longrightarrow> P u \<Longrightarrow> f x u = Some (Inr v) \<Longrightarrow> P v"
  shows "P t"
  using assms
proof (induction xs arbitrary: s)
  case Nil
  then show ?case by simp
next
  case (Cons x xs)
  from Cons.prems(1) obtain u where u: "f x s = Some (Inr u)" "fold_run f xs u = Some (Inr t)"
    by (auto simp: bind_run_Inr_iff)
  show ?case
    by (rule Cons.IH [OF u(2) Cons.prems(3) [OF _ Cons.prems(2) u(1)]]) (use Cons.prems(3) in auto)
qed

section \<open>Readers of a stream\<close>

text \<open>
  A reader of a stream: a state with a buffer \<open>buf\<close>, whose \<open>step\<close> writes the bytes that have arrived
  and takes the complete packets out; \<open>absorb\<close> is what packets and buffer do to the state.  A slot
  of the server and the receiving thread of the client are such readers.
\<close>

fun all_accepted :: "('s \<Rightarrow> PacketBuffer) \<Rightarrow> (bytes \<Rightarrow> 's \<Rightarrow> 's run) \<Rightarrow> bytes list \<Rightarrow> 's \<Rightarrow> bool" where
  "all_accepted buf step [] s = True"
| "all_accepted buf step (b # bs) s =
     (accepts (int (length b)) (buf s) \<and>
      (case step b s of Some (Inr t) \<Rightarrow> all_accepted buf step bs t | _ \<Rightarrow> True))"

locale packet_reader =
  fixes buf :: "'s \<Rightarrow> PacketBuffer"
    and step :: "bytes \<Rightarrow> 's \<Rightarrow> 's run"
    and absorb :: "bytes list \<Rightarrow> PacketBuffer \<Rightarrow> 's \<Rightarrow> 's"
    and ready :: "'s \<Rightarrow> bool"
  assumes step_packets: "ready s \<Longrightarrow> stream_ok (buf s) \<Longrightarrow> accepts (int (length b)) (buf s) \<Longrightarrow>
          pending (buf s) @ b = concat fs @ r \<Longrightarrow> list_all (is_packet PACKET_HEADER_LENGTH) fs \<Longrightarrow>
          partial_packet PACKET_HEADER_LENGTH r \<Longrightarrow>
          \<exists>q. step b s = Some (Inr (absorb fs q s)) \<and> stream_ok q \<and> pending q = r"
    and buf_absorb: "ready s \<Longrightarrow> buf (absorb fs q s) = q"
    and ready_absorb: "ready s \<Longrightarrow> ready (absorb fs q s)"
    and absorb_absorb: "ready s \<Longrightarrow> absorb hs q (absorb gs p s) = absorb (gs @ hs) q s"
    and absorb_nothing: "ready s \<Longrightarrow> absorb [] (buf s) s = s"
begin

lemma reads_stream:
  assumes "ready s" and "stream_ok (buf s)" and "pending (buf s) @ concat cs = concat fs @ rest"
    and "list_all (is_packet PACKET_HEADER_LENGTH) fs" and "partial_packet PACKET_HEADER_LENGTH rest"
    and "partial_packet PACKET_HEADER_LENGTH (pending (buf s))" and "all_accepted buf step cs s"
  shows "\<exists>q. fold_run step cs s = Some (Inr (absorb fs q s)) \<and> stream_ok q \<and> pending q = rest"
  using assms
proof (induction cs arbitrary: s fs)
  case Nil
  have "fs = []"
  proof (cases fs)
    case (Cons p ps)
    with Nil.prems have "next_packet PACKET_HEADER_LENGTH (pending (buf s)) = Some p"
      by (simp add: next_packet_packet)
    with Nil.prems(6) next_packet_partial show ?thesis by (simp add: PACKET_HEADER_LENGTH_def)
  qed simp
  with Nil.prems show ?case by (intro exI [of _ "buf s"]) (simp add: absorb_nothing)
next
  case (Cons b cs)
  have "(pending (buf s) @ b) @ concat cs = concat fs @ rest" using Cons.prems(3) by simp
  from stream_prefix [OF this Cons.prems(4,5)] obtain gs hs r where
    g: "fs = gs @ hs" "pending (buf s) @ b = concat gs @ r" "r @ concat cs = concat hs @ rest"
      "partial_packet PACKET_HEADER_LENGTH r" by blast
  with Cons.prems step_packets [OF Cons.prems(1,2) _ g(2) _ g(4)] obtain q where
    q: "step b s = Some (Inr (absorb gs q s))" "stream_ok q" "pending q = r" by auto
  let ?t = "absorb gs q s"
  have "\<exists>u. fold_run step cs ?t = Some (Inr (absorb hs u ?t)) \<and> stream_ok u \<and> pending u = rest"
    by (rule Cons.IH) (use Cons.prems q g in \<open>simp_all add: buf_absorb ready_absorb\<close>)
  with q(1) g(1) show ?case by (simp add: absorb_absorb Cons.prems(1))
qed

end

end
