(* ===== verification/Packet.thy ===== *)
theory Packet
  imports TetrisDef PacketStream
begin

text \<open>
  The packets of \<open>IOCPTetrisCommon/Packet.hh\<close> and the types of \<open>Common.h\<close> and \<open>ResultID.h\<close>
  that travel in them.

  \<^item> A packed struct is a record, a derived struct extends the record of its base, and a struct
    that adds no member is a synonym of its base.
  \<^item> \<open>enc_X\<close> is the object representation the program copies byte by byte (packed, little
    endian), \<open>dec_X\<close> what the bytes mean when they are copied into an object, \<open>sizeof_X\<close> the size.
  \<^item> Integer members keep their width.  A scoped enumeration keeps values that none of its
    enumerators has in an extra constructor.
  \<^item> The locale \<open>codec\<close> states what a layout owes the handlers, \<open>packet_codec\<close> what it owes the
    framing of \<open>PacketStream\<close>; every packet layout is an instance.
\<close>

section \<open>Little-endian integers\<close>

fun le_bytes :: "nat \<Rightarrow> int \<Rightarrow> bytes" where
  "le_bytes 0 x = []"
| "le_bytes (Suc n) x = word_of_int x # le_bytes n (x div 256)"

fun le_int :: "bytes \<Rightarrow> int" where
  "le_int [] = 0"
| "le_int (b # bs) = uint b + 256 * le_int bs"

lemma length_le_bytes [simp]: "length (le_bytes n x) = n"
  by (induction n arbitrary: x) simp_all

lemma le_int_bytes: "le_int (le_bytes n x) = x mod 256 ^ n"
proof (induction n arbitrary: x)
  case 0
  then show ?case by simp
next
  case (Suc n)
  have "x mod 256 + 256 * (x div 256 mod 256 ^ n) = x mod (256 * 256 ^ n)"
    by (simp add: zmod_zmult2_eq)
  with Suc show ?case by (simp add: uint_word_of_int)
qed

definition enc16 :: "16 word \<Rightarrow> bytes" where "enc16 w = le_bytes 2 (uint w)"
definition enc32 :: "32 word \<Rightarrow> bytes" where "enc32 w = le_bytes 4 (uint w)"
definition dec16 :: "bytes \<Rightarrow> 16 word" where "dec16 bs = word_of_int (le_int bs)"
definition dec32 :: "bytes \<Rightarrow> 32 word" where "dec32 bs = word_of_int (le_int bs)"

lemma length_enc [simp]: "length (enc16 w) = 2" "length (enc32 v) = 4"
  by (simp_all add: enc16_def enc32_def)

lemma dec_enc [simp]: "dec16 (enc16 w) = w" "dec32 (enc32 v) = v"
  using uint_lt2p [of w] uint_lt2p [of v]
  by (simp_all add: dec16_def enc16_def dec32_def enc32_def le_int_bytes)

text \<open>The \<open>n\<close> bytes of a member at offset \<open>k\<close>.\<close>

definition fld :: "nat \<Rightarrow> nat \<Rightarrow> bytes \<Rightarrow> bytes" where
  "fld k n bs = take n (drop k bs)"

lemma fld_append:
  "length a = k \<Longrightarrow> fld k n (a @ b) = take n b"
  "k + n \<le> length a \<Longrightarrow> fld k n (a @ b) = fld k n a"
  by (simp_all add: fld_def)

text \<open>An array of \<open>n\<close>-byte elements.\<close>

fun dec_array :: "(bytes \<Rightarrow> 'a) \<Rightarrow> nat \<Rightarrow> nat \<Rightarrow> bytes \<Rightarrow> 'a list" where
  "dec_array d n 0 bs = []"
| "dec_array d n (Suc k) bs = d (take n bs) # dec_array d n k (drop n bs)"

lemma dec_array_concat:
  assumes "\<And>x. x \<in> set xs \<Longrightarrow> length (e x) = n \<and> d (e x) = x"
  shows "dec_array d n (length xs) (concat (map e xs)) = xs"
  using assms by (induction xs) simp_all

lemma length_concat_map:
  "(\<And>x. x \<in> set xs \<Longrightarrow> length (e x) = n) \<Longrightarrow> length (concat (map e xs)) = length xs * n"
  by (induction xs) simp_all

section \<open>Enumerations\<close>

datatype ResultID =
    Result_NONE | Result_SUCCESS | Result_FAILED
  | Result_ROOM_MAX_PLAYER | Result_ROOM_NOT_FOUND | Result_ROOM_IS_PLAYING | Result_END
  | Result_Other "16 word"

definition ResultID_word :: "ResultID \<Rightarrow> 16 word" where
  "ResultID_word r =
     (case r of
        Result_NONE \<Rightarrow> 0 | Result_SUCCESS \<Rightarrow> 1 | Result_FAILED \<Rightarrow> 2
      | Result_ROOM_MAX_PLAYER \<Rightarrow> 101 | Result_ROOM_NOT_FOUND \<Rightarrow> 102
      | Result_ROOM_IS_PLAYING \<Rightarrow> 103 | Result_END \<Rightarrow> 104 | Result_Other w \<Rightarrow> w)"

definition word_ResultID :: "16 word \<Rightarrow> ResultID" where
  "word_ResultID w =
     (if w = 0 then Result_NONE else if w = 1 then Result_SUCCESS else if w = 2 then Result_FAILED
      else if w = 101 then Result_ROOM_MAX_PLAYER else if w = 102 then Result_ROOM_NOT_FOUND
      else if w = 103 then Result_ROOM_IS_PLAYING else if w = 104 then Result_END
      else Result_Other w)"

definition InputType_word :: "InputType \<Rightarrow> 16 word" where
  "InputType_word i =
     (case i of
        Input_NONE \<Rightarrow> 0 | UP \<Rightarrow> 1 | DOWN \<Rightarrow> 2 | LEFT \<Rightarrow> 3 | RIGHT \<Rightarrow> 4 | HOLD \<Rightarrow> 5
      | ROTATERIGHT \<Rightarrow> 6 | ROTATELEFT \<Rightarrow> 7 | DROP \<Rightarrow> 8 | Input_Other w \<Rightarrow> w)"

definition word_InputType :: "16 word \<Rightarrow> InputType" where
  "word_InputType w =
     (if w = 0 then Input_NONE else if w = 1 then UP else if w = 2 then DOWN
      else if w = 3 then LEFT else if w = 4 then RIGHT else if w = 5 then HOLD
      else if w = 6 then ROTATERIGHT else if w = 7 then ROTATELEFT else if w = 8 then DROP
      else Input_Other w)"

definition ShapeType_word :: "ShapeType \<Rightarrow> 16 word" where
  "ShapeType_word s =
     (case s of
        Shape_NONE \<Rightarrow> 0 | Shape_Z \<Rightarrow> 1 | Shape_L \<Rightarrow> 2 | Shape_O \<Rightarrow> 3 | Shape_S \<Rightarrow> 4
      | Shape_I \<Rightarrow> 5 | Shape_J \<Rightarrow> 6 | Shape_T \<Rightarrow> 7 | Shape_Other w \<Rightarrow> w)"

definition word_ShapeType :: "16 word \<Rightarrow> ShapeType" where
  "word_ShapeType w =
     (if w = 0 then Shape_NONE else if w = 1 then Shape_Z else if w = 2 then Shape_L
      else if w = 3 then Shape_O else if w = 4 then Shape_S else if w = 5 then Shape_I
      else if w = 6 then Shape_J else if w = 7 then Shape_T else Shape_Other w)"

text \<open>Every value of the underlying type is the value of exactly one constructor term that the
  decoding can give; the others carry an enumerator's number in the extra constructor.\<close>

definition proper_result :: "ResultID \<Rightarrow> bool" where
  "proper_result r \<longleftrightarrow> word_ResultID (ResultID_word r) = r"
definition proper_input :: "InputType \<Rightarrow> bool" where
  "proper_input i \<longleftrightarrow> word_InputType (InputType_word i) = i"
definition proper_shape :: "ShapeType \<Rightarrow> bool" where
  "proper_shape s \<longleftrightarrow> word_ShapeType (ShapeType_word s) = s"

lemma enum_word_inverse [simp]:
  "ResultID_word (word_ResultID w) = w"
  "InputType_word (word_InputType w) = w"
  "ShapeType_word (word_ShapeType w) = w"
  by (simp_all add: ResultID_word_def word_ResultID_def InputType_word_def word_InputType_def
      ShapeType_word_def word_ShapeType_def)

lemma proper_decoded [simp]:
  "proper_result (word_ResultID w)" "proper_input (word_InputType w)"
  "proper_shape (word_ShapeType w)"
  by (simp_all add: proper_result_def proper_input_def proper_shape_def)

lemma proper_enumerators [simp]:
  "proper_result Result_NONE" "proper_result Result_SUCCESS" "proper_result Result_FAILED"
  "proper_result Result_ROOM_MAX_PLAYER" "proper_result Result_ROOM_NOT_FOUND"
  "proper_result Result_ROOM_IS_PLAYING" "proper_result Result_END"
  "proper_input Input_NONE" "proper_input UP" "proper_input DOWN" "proper_input LEFT"
  "proper_input RIGHT" "proper_input HOLD" "proper_input ROTATERIGHT" "proper_input ROTATELEFT"
  "proper_input DROP"
  "proper_shape Shape_NONE" "proper_shape Shape_Z" "proper_shape Shape_L" "proper_shape Shape_O"
  "proper_shape Shape_S" "proper_shape Shape_I" "proper_shape Shape_J" "proper_shape Shape_T"
  by (simp_all add: proper_result_def proper_input_def proper_shape_def
      ResultID_word_def word_ResultID_def InputType_word_def word_InputType_def
      ShapeType_word_def word_ShapeType_def)

datatype PACKET_ID =
    PACKET_NONE
  | PID_REQ_LOGIN | PID_RES_LOGIN
  | PID_REQ_ROOM_CREATE | PID_RES_ROOM_CREATE | PID_REQ_ROOM_ENTER | PID_RES_ROOM_ENTER
  | PID_REQ_ROOM_LIST | PID_RES_ROOM_LIST | PID_REQ_ROOM_LEAVE | PID_RES_ROOM_LEAVE
  | PID_REQ_ROOM_CAN_ENTER | PID_RES_ROOM_CAN_ENTER
  | PID_REQ_GAME_STOP | PID_RES_GAME_STOP | PID_REQ_GAME_START | PID_RES_GAME_START
  | PID_REQ_GAME_INPUT | PID_RES_GAME_INPUT | PID_REQ_FALLING_BLOCK | PID_RES_FALLING_BLOCK

definition packet_id :: "PACKET_ID \<Rightarrow> 16 word" where
  "packet_id p =
     (case p of
        PACKET_NONE \<Rightarrow> 0
      | PID_REQ_LOGIN \<Rightarrow> 10001 | PID_RES_LOGIN \<Rightarrow> 10002
      | PID_REQ_ROOM_CREATE \<Rightarrow> 10101 | PID_RES_ROOM_CREATE \<Rightarrow> 10102
      | PID_REQ_ROOM_ENTER \<Rightarrow> 10103 | PID_RES_ROOM_ENTER \<Rightarrow> 10104
      | PID_REQ_ROOM_LIST \<Rightarrow> 10105 | PID_RES_ROOM_LIST \<Rightarrow> 10106
      | PID_REQ_ROOM_LEAVE \<Rightarrow> 10107 | PID_RES_ROOM_LEAVE \<Rightarrow> 10108
      | PID_REQ_ROOM_CAN_ENTER \<Rightarrow> 10109 | PID_RES_ROOM_CAN_ENTER \<Rightarrow> 10110
      | PID_REQ_GAME_STOP \<Rightarrow> 10201 | PID_RES_GAME_STOP \<Rightarrow> 10202
      | PID_REQ_GAME_START \<Rightarrow> 10203 | PID_RES_GAME_START \<Rightarrow> 10204
      | PID_REQ_GAME_INPUT \<Rightarrow> 10205 | PID_RES_GAME_INPUT \<Rightarrow> 10206
      | PID_REQ_FALLING_BLOCK \<Rightarrow> 10207 | PID_RES_FALLING_BLOCK \<Rightarrow> 10208)"

section \<open>Structs\<close>

definition ROOM_CNT_PER_PAGE :: nat where [simp]: "ROOM_CNT_PER_PAGE = 8"
definition PACKET_KEY_INPUT_SIZE :: nat where [simp]: "PACKET_KEY_INPUT_SIZE = 30"
definition PACKET_FALLING_BLOCK_SIZE :: nat where [simp]: "PACKET_FALLING_BLOCK_SIZE = 14"
definition ROOM_MAX_PLAYER :: int where "ROOM_MAX_PLAYER = 2"
definition MAX_USER_ID_LEN :: nat where [simp]: "MAX_USER_ID_LEN = 32"

record RoomInfo =
  ri_maxPlayerCnt :: "32 word"
  ri_roomIndex :: "32 word"
  ri_currentPlayerCnt :: "32 word"
  ri_isPlaying :: bool

definition default_RoomInfo :: RoomInfo where
  "default_RoomInfo =
     \<lparr>ri_maxPlayerCnt = 0, ri_roomIndex = 0, ri_currentPlayerCnt = 0, ri_isPlaying = False\<rparr>"

record PACKET_HEADER =
  PacketLength :: "16 word"
  PacketId :: "16 word"
  sequenceIndex :: "32 word"
  sessionIndex :: "32 word"

record BASE_PACKET = PACKET_HEADER +
  resultID :: ResultID

type_synonym REQ_LOGIN = BASE_PACKET
type_synonym REQ_ROOM_CREATE = BASE_PACKET
type_synonym REQ_ROOM_LEAVE = BASE_PACKET
type_synonym RES_ROOM_LEAVE = BASE_PACKET
type_synonym RES_ROOM_CAN_ENTER = BASE_PACKET
type_synonym REQ_GAME_START = BASE_PACKET
type_synonym REQ_GAME_STOP = BASE_PACKET
type_synonym RES_GAME_STOP = BASE_PACKET
type_synonym REQ_FALLING_BLOCK = BASE_PACKET

record RES_LOGIN = BASE_PACKET +
  UserID :: bytes
  newSessionID :: "32 word"

record RES_ROOM_CREATE = BASE_PACKET +
  newRoomIndex :: "32 word"

text \<open>\<open>REQ_ROOM_ENTER\<close> and \<open>REQ_ROOM_CAN_ENTER\<close> have the same layout.\<close>

record REQ_ROOM_ENTER = BASE_PACKET +
  req_roomIndex :: "32 word"

type_synonym REQ_ROOM_CAN_ENTER = REQ_ROOM_ENTER

record RES_ROOM_ENTER = BASE_PACKET +
  enterSessionIndex :: "32 word"

record REQ_ROOM_LIST = BASE_PACKET +
  roomPage :: "32 word"

record RES_ROOM_LIST = BASE_PACKET +
  roomInfo :: "RoomInfo list"

text \<open>\<open>RES_GAME_START\<close> and \<open>RES_FALLING_BLOCK\<close> have the same layout.\<close>

record RES_GAME_START = BASE_PACKET +
  newBlocks :: "ShapeType list"

type_synonym RES_FALLING_BLOCK = RES_GAME_START

record REQ_GAME_INPUT = BASE_PACKET +
  req_inputs :: "InputType list"
  inputCnt :: "32 word"

record RES_GAME_INPUT = BASE_PACKET +
  res_inputs :: "InputType list"

text \<open>
  A default-constructed packet.  \<open>PACKET_HEADER\<close> has no initializers; every send overwrites all
  of the header, so its initial value cannot be observed and is 0 here.
\<close>

definition default_BASE_PACKET :: BASE_PACKET where
  "default_BASE_PACKET =
     \<lparr>PacketLength = 0, PacketId = 0, sequenceIndex = 0, sessionIndex = 0,
      resultID = Result_FAILED\<rparr>"

definition default_RES_LOGIN :: RES_LOGIN where
  "default_RES_LOGIN = BASE_PACKET.extend default_BASE_PACKET
     (RES_LOGIN.fields (replicate (MAX_USER_ID_LEN + 1) 0) 0)"
definition default_RES_ROOM_CREATE :: RES_ROOM_CREATE where
  "default_RES_ROOM_CREATE = BASE_PACKET.extend default_BASE_PACKET (RES_ROOM_CREATE.fields 0)"
definition default_REQ_ROOM_ENTER :: REQ_ROOM_ENTER where
  "default_REQ_ROOM_ENTER = BASE_PACKET.extend default_BASE_PACKET (REQ_ROOM_ENTER.fields 0)"
definition default_RES_ROOM_ENTER :: RES_ROOM_ENTER where
  "default_RES_ROOM_ENTER = BASE_PACKET.extend default_BASE_PACKET (RES_ROOM_ENTER.fields 0)"
definition default_REQ_ROOM_LIST :: REQ_ROOM_LIST where
  "default_REQ_ROOM_LIST = BASE_PACKET.extend default_BASE_PACKET (REQ_ROOM_LIST.fields 0)"
definition default_RES_ROOM_LIST :: RES_ROOM_LIST where
  "default_RES_ROOM_LIST = BASE_PACKET.extend default_BASE_PACKET
     (RES_ROOM_LIST.fields (replicate ROOM_CNT_PER_PAGE default_RoomInfo))"
definition default_RES_GAME_START :: RES_GAME_START where
  "default_RES_GAME_START = BASE_PACKET.extend default_BASE_PACKET
     (RES_GAME_START.fields (replicate PACKET_FALLING_BLOCK_SIZE Shape_NONE))"
definition default_REQ_GAME_INPUT :: REQ_GAME_INPUT where
  "default_REQ_GAME_INPUT = BASE_PACKET.extend default_BASE_PACKET
     (REQ_GAME_INPUT.fields (replicate PACKET_KEY_INPUT_SIZE Input_NONE) 0)"
definition default_RES_GAME_INPUT :: RES_GAME_INPUT where
  "default_RES_GAME_INPUT = BASE_PACKET.extend default_BASE_PACKET
     (RES_GAME_INPUT.fields (replicate PACKET_KEY_INPUT_SIZE Input_NONE))"

section \<open>Object representations\<close>

definition enc_header :: "'a PACKET_HEADER_scheme \<Rightarrow> bytes" where
  "enc_header p =
     enc16 (PacketLength p) @ enc16 (PacketId p) @ enc32 (sequenceIndex p) @ enc32 (sessionIndex p)"

definition enc_BASE :: "'a BASE_PACKET_scheme \<Rightarrow> bytes" where
  "enc_BASE p = enc_header p @ enc16 (ResultID_word (resultID p))"

definition dec_header :: "bytes \<Rightarrow> PACKET_HEADER" where
  "dec_header bs =
     \<lparr>PacketLength = dec16 (fld 0 2 bs), PacketId = dec16 (fld 2 2 bs),
      sequenceIndex = dec32 (fld 4 4 bs), sessionIndex = dec32 (fld 8 4 bs)\<rparr>"

definition dec_BASE :: "bytes \<Rightarrow> BASE_PACKET" where
  "dec_BASE bs = PACKET_HEADER.extend (dec_header bs)
     (BASE_PACKET.fields (word_ResultID (dec16 (fld 12 2 bs))))"

definition sizeof_BASE :: nat where "sizeof_BASE = 14"

definition enc_RES_LOGIN :: "RES_LOGIN \<Rightarrow> bytes" where
  "enc_RES_LOGIN p = enc_BASE p @ UserID p @ enc32 (newSessionID p)"
definition dec_RES_LOGIN :: "bytes \<Rightarrow> RES_LOGIN" where
  "dec_RES_LOGIN bs = BASE_PACKET.extend (dec_BASE bs)
     (RES_LOGIN.fields (fld 14 33 bs) (dec32 (fld 47 4 bs)))"
definition sizeof_RES_LOGIN :: nat where "sizeof_RES_LOGIN = 51"

definition enc_RES_ROOM_CREATE :: "RES_ROOM_CREATE \<Rightarrow> bytes" where
  "enc_RES_ROOM_CREATE p = enc_BASE p @ enc32 (newRoomIndex p)"
definition dec_RES_ROOM_CREATE :: "bytes \<Rightarrow> RES_ROOM_CREATE" where
  "dec_RES_ROOM_CREATE bs = BASE_PACKET.extend (dec_BASE bs)
     (RES_ROOM_CREATE.fields (dec32 (fld 14 4 bs)))"
definition sizeof_RES_ROOM_CREATE :: nat where "sizeof_RES_ROOM_CREATE = 18"

definition enc_REQ_ROOM_ENTER :: "REQ_ROOM_ENTER \<Rightarrow> bytes" where
  "enc_REQ_ROOM_ENTER p = enc_BASE p @ enc32 (req_roomIndex p)"
definition dec_REQ_ROOM_ENTER :: "bytes \<Rightarrow> REQ_ROOM_ENTER" where
  "dec_REQ_ROOM_ENTER bs = BASE_PACKET.extend (dec_BASE bs)
     (REQ_ROOM_ENTER.fields (dec32 (fld 14 4 bs)))"
definition sizeof_REQ_ROOM_ENTER :: nat where "sizeof_REQ_ROOM_ENTER = 18"

definition enc_RES_ROOM_ENTER :: "RES_ROOM_ENTER \<Rightarrow> bytes" where
  "enc_RES_ROOM_ENTER p = enc_BASE p @ enc32 (enterSessionIndex p)"
definition dec_RES_ROOM_ENTER :: "bytes \<Rightarrow> RES_ROOM_ENTER" where
  "dec_RES_ROOM_ENTER bs = BASE_PACKET.extend (dec_BASE bs)
     (RES_ROOM_ENTER.fields (dec32 (fld 14 4 bs)))"
definition sizeof_RES_ROOM_ENTER :: nat where "sizeof_RES_ROOM_ENTER = 18"

definition enc_REQ_ROOM_LIST :: "REQ_ROOM_LIST \<Rightarrow> bytes" where
  "enc_REQ_ROOM_LIST p = enc_BASE p @ enc32 (roomPage p)"
definition dec_REQ_ROOM_LIST :: "bytes \<Rightarrow> REQ_ROOM_LIST" where
  "dec_REQ_ROOM_LIST bs = BASE_PACKET.extend (dec_BASE bs)
     (REQ_ROOM_LIST.fields (dec32 (fld 14 4 bs)))"
definition sizeof_REQ_ROOM_LIST :: nat where "sizeof_REQ_ROOM_LIST = 18"

definition enc_RoomInfo :: "RoomInfo \<Rightarrow> bytes" where
  "enc_RoomInfo r = enc32 (ri_maxPlayerCnt r) @ enc32 (ri_roomIndex r) @
     enc32 (ri_currentPlayerCnt r) @ [if ri_isPlaying r then 1 else 0]"
definition dec_RoomInfo :: "bytes \<Rightarrow> RoomInfo" where
  "dec_RoomInfo bs =
     \<lparr>ri_maxPlayerCnt = dec32 (fld 0 4 bs), ri_roomIndex = dec32 (fld 4 4 bs),
      ri_currentPlayerCnt = dec32 (fld 8 4 bs), ri_isPlaying = (fld 12 1 bs \<noteq> [0])\<rparr>"

definition enc_RES_ROOM_LIST :: "RES_ROOM_LIST \<Rightarrow> bytes" where
  "enc_RES_ROOM_LIST p = enc_BASE p @ concat (map enc_RoomInfo (roomInfo p))"
definition dec_RES_ROOM_LIST :: "bytes \<Rightarrow> RES_ROOM_LIST" where
  "dec_RES_ROOM_LIST bs = BASE_PACKET.extend (dec_BASE bs)
     (RES_ROOM_LIST.fields (dec_array dec_RoomInfo 13 ROOM_CNT_PER_PAGE (drop 14 bs)))"
definition sizeof_RES_ROOM_LIST :: nat where "sizeof_RES_ROOM_LIST = 118"

definition enc_RES_GAME_START :: "RES_GAME_START \<Rightarrow> bytes" where
  "enc_RES_GAME_START p = enc_BASE p @ concat (map (\<lambda>s. enc16 (ShapeType_word s)) (newBlocks p))"
definition dec_RES_GAME_START :: "bytes \<Rightarrow> RES_GAME_START" where
  "dec_RES_GAME_START bs = BASE_PACKET.extend (dec_BASE bs)
     (RES_GAME_START.fields (dec_array (\<lambda>b. word_ShapeType (dec16 b)) 2
        PACKET_FALLING_BLOCK_SIZE (drop 14 bs)))"
definition sizeof_RES_GAME_START :: nat where "sizeof_RES_GAME_START = 42"

definition enc_REQ_GAME_INPUT :: "REQ_GAME_INPUT \<Rightarrow> bytes" where
  "enc_REQ_GAME_INPUT p =
     enc_BASE p @ concat (map (\<lambda>i. enc16 (InputType_word i)) (req_inputs p)) @ enc32 (inputCnt p)"
definition dec_REQ_GAME_INPUT :: "bytes \<Rightarrow> REQ_GAME_INPUT" where
  "dec_REQ_GAME_INPUT bs = BASE_PACKET.extend (dec_BASE bs)
     (REQ_GAME_INPUT.fields (dec_array (\<lambda>b. word_InputType (dec16 b)) 2
        PACKET_KEY_INPUT_SIZE (fld 14 60 bs)) (dec32 (fld 74 4 bs)))"
definition sizeof_REQ_GAME_INPUT :: nat where "sizeof_REQ_GAME_INPUT = 78"

definition enc_RES_GAME_INPUT :: "RES_GAME_INPUT \<Rightarrow> bytes" where
  "enc_RES_GAME_INPUT p = enc_BASE p @ concat (map (\<lambda>i. enc16 (InputType_word i)) (res_inputs p))"
definition dec_RES_GAME_INPUT :: "bytes \<Rightarrow> RES_GAME_INPUT" where
  "dec_RES_GAME_INPUT bs = BASE_PACKET.extend (dec_BASE bs)
     (RES_GAME_INPUT.fields (dec_array (\<lambda>b. word_InputType (dec16 b)) 2
        PACKET_KEY_INPUT_SIZE (drop 14 bs)))"
definition sizeof_RES_GAME_INPUT :: nat where "sizeof_RES_GAME_INPUT = 74"

end
