(* ===== verification/PacketCodec.thy ===== *)
theory PacketCodec
  imports Packet
begin

text \<open>
  Every packet layout of the program can be decoded again and is short enough for the framing
  of \<open>PacketBuffer\<close>: the interfaces \<open>codec\<close> and \<open>packet_codec\<close> and their instances.
\<close>

section \<open>The interfaces\<close>

locale codec =
  fixes enc :: "'a \<Rightarrow> bytes" and dec :: "bytes \<Rightarrow> 'a" and len :: nat and valid :: "'a \<Rightarrow> bool"
  assumes length_enc: "valid x \<Longrightarrow> length (enc x) = len"
    and dec_enc: "valid x \<Longrightarrow> dec (enc x) = x"
begin

lemma enc_inject: "valid x \<Longrightarrow> valid y \<Longrightarrow> enc x = enc y \<longleftrightarrow> x = y"
  by (metis dec_enc)

lemma enc_prefix_free:
  assumes "valid x" and "valid y" and "enc x @ a = enc y @ b"
  shows "x = y \<and> a = b"
proof -
  have "length (enc x) = length (enc y)" using assms(1,2) by (simp add: length_enc)
  with assms(3) have "enc x = enc y \<and> a = b" by simp
  with assms(1,2) show ?thesis by (simp add: enc_inject)
qed

end

locale packet_codec = codec enc dec len valid
  for enc :: "'a \<Rightarrow> bytes" and dec :: "bytes \<Rightarrow> 'a" and len :: nat and valid :: "'a \<Rightarrow> bool" +
  fixes header :: "'a \<Rightarrow> PACKET_HEADER"
  assumes enc_starts: "valid x \<Longrightarrow> \<exists>r. enc x = enc_header (header x) @ r"
    and len_bounds: "12 \<le> len" "len < 128"
begin

lemma hd_enc:
  assumes "valid x" and "PacketLength (header x) = word_of_int (int len)"
  shows "hd (enc x) = word_of_int (int len)"
proof -
  from enc_starts [OF assms(1)] obtain r where "enc x = enc_header (header x) @ r" by blast
  moreover have "hd (enc16 w) = word_of_int (uint w)" "enc16 w \<noteq> []" for w
    by (simp_all add: enc16_def numeral_2_eq_2)
  ultimately have "hd (enc x) = word_of_int (uint (word_of_int (int len) :: 16 word))"
    using assms(2) by (simp add: enc_header_def)
  also have "uint (word_of_int (int len) :: 16 word) = int len"
    using len_bounds(2) by (simp only: uint_word_of_int) simp
  finally show ?thesis .
qed

lemma enc_is_packet:
  assumes "valid x" and "PacketLength (header x) = word_of_int (int len)"
  shows "is_packet PACKET_HEADER_LENGTH (enc x)"
proof -
  have "uint (word_of_int (int len) :: 8 word) = int len"
    using len_bounds(2) by (simp only: uint_word_of_int) simp
  with len_bounds have "dataSize (hd (enc x)) = int len"
    by (simp add: hd_enc [OF assms] dataSize_eq)
  with len_bounds(1) length_enc [OF assms(1)] show ?thesis
    by (auto simp: is_packet_def PACKET_HEADER_LENGTH_def)
qed

lemma dec_header_enc:
  assumes "valid x"
  shows "dec_header (enc x @ r) = header x"
proof -
  from enc_starts [OF assms] obtain q where "enc x = enc_header (header x) @ q" by blast
  then show ?thesis by (cases "header x") (simp add: enc_header_def dec_header_def fld_def)
qed

end

context packet_codec
begin

text \<open>A stream of encoded packets, cut into chunks in any way, is decoded to the same packets.\<close>

lemma stream_delivers:
  assumes "list_all (\<lambda>p. valid p \<and> PacketLength (header p) = word_of_int (int len)) ps"
    and "stream_ok pb" and "pending pb = []" and "concat cs = concat (map enc ps)"
    and "roomy accepts Read write_chunk (\<lambda>b qs. Inr (qs @ [dec b])) cs pb []"
  shows "\<exists>pb'. ReceiveAll Read write_chunk (\<lambda>b qs. Inr (qs @ [dec b])) cs pb [] = Some (Inr (pb', ps)) \<and>
           pending pb' = []"
proof -
  have "fold_res (\<lambda>b qs. Inr (qs @ [dec b])) (map enc ps) acc = Inr (acc @ ps)" for acc
    using assms(1) by (induction ps arbitrary: acc) (auto simp: dec_enc)
  then have body: "fold_res (\<lambda>b qs. Inr (qs @ [dec b])) (map enc ps) [] = Inr ps" by simp
  have "list_all (is_packet PACKET_HEADER_LENGTH) (map enc ps)"
    using assms(1) by (induction ps) (auto simp: enc_is_packet)
  from pb.ReceiveAll_packets [OF assms(2) _ this _ body assms(5), of "[]"] assms(3,4)
  show ?thesis by (auto simp: partial_packet_def)
qed

end

section \<open>The layouts\<close>

definition header_of :: "'a PACKET_HEADER_scheme \<Rightarrow> PACKET_HEADER" where
  "header_of p = PACKET_HEADER.truncate p"

definition valid_BASE :: "'a BASE_PACKET_scheme \<Rightarrow> bool" where
  "valid_BASE p \<longleftrightarrow> proper_result (resultID p)"
definition valid_RES_LOGIN :: "RES_LOGIN \<Rightarrow> bool" where
  "valid_RES_LOGIN p \<longleftrightarrow> valid_BASE p \<and> length (UserID p) = 33"
definition valid_RES_ROOM_LIST :: "RES_ROOM_LIST \<Rightarrow> bool" where
  "valid_RES_ROOM_LIST p \<longleftrightarrow> valid_BASE p \<and> length (roomInfo p) = ROOM_CNT_PER_PAGE"
definition valid_RES_GAME_START :: "RES_GAME_START \<Rightarrow> bool" where
  "valid_RES_GAME_START p \<longleftrightarrow>
     valid_BASE p \<and> length (newBlocks p) = PACKET_FALLING_BLOCK_SIZE \<and>
     list_all proper_shape (newBlocks p)"
definition valid_REQ_GAME_INPUT :: "REQ_GAME_INPUT \<Rightarrow> bool" where
  "valid_REQ_GAME_INPUT p \<longleftrightarrow>
     valid_BASE p \<and> length (req_inputs p) = PACKET_KEY_INPUT_SIZE \<and>
     list_all proper_input (req_inputs p)"
definition valid_RES_GAME_INPUT :: "RES_GAME_INPUT \<Rightarrow> bool" where
  "valid_RES_GAME_INPUT p \<longleftrightarrow>
     valid_BASE p \<and> length (res_inputs p) = PACKET_KEY_INPUT_SIZE \<and>
     list_all proper_input (res_inputs p)"

lemma length_enc_BASE [simp]: "length (enc_BASE p) = 14"
  by (simp add: enc_BASE_def enc_header_def)

lemma dec_enc_BASE:
  assumes "valid_BASE p"
  shows "dec_BASE (enc_BASE p @ r) = BASE_PACKET.truncate p"
  using assms
  by (simp add: dec_BASE_def dec_header_def enc_BASE_def enc_header_def fld_def valid_BASE_def
      proper_result_def PACKET_HEADER.defs BASE_PACKET.defs)

lemma enc_BASE_starts: "\<exists>r. enc_BASE p @ q = enc_header (header_of p) @ r"
  by (auto simp: enc_BASE_def header_of_def enc_header_def PACKET_HEADER.defs)

lemma enc_BASE_starts0: "\<exists>r. enc_BASE p = enc_header (header_of p) @ r"
  using enc_BASE_starts [of p "[]"] by simp

lemma RoomInfo_codec: "length (enc_RoomInfo x) = 13" "dec_RoomInfo (enc_RoomInfo x) = x"
  by (cases x; simp add: enc_RoomInfo_def dec_RoomInfo_def fld_def)+

lemma shape_codec:
  "length (enc16 (ShapeType_word x)) = 2"
  "proper_shape x \<Longrightarrow> word_ShapeType (dec16 (enc16 (ShapeType_word x))) = x"
  by (simp_all add: proper_shape_def)

lemma input_codec:
  "length (enc16 (InputType_word i)) = 2"
  "proper_input i \<Longrightarrow> word_InputType (dec16 (enc16 (InputType_word i))) = i"
  by (simp_all add: proper_input_def)

lemma dec_array_enc:
  assumes "length xs = k" and "\<And>x. x \<in> set xs \<Longrightarrow> length (e x) = n \<and> d (e x) = x"
  shows "dec_array d n k (concat (map e xs)) = xs"
  using dec_array_concat [of xs e n d] assms by simp

lemma length_array:
  assumes "length xs = k" and "\<And>x. length (e x) = n"
  shows "length (concat (map e xs)) = k * n"
  using length_concat_map [of xs e n] assms by simp

interpretation base: packet_codec enc_BASE dec_BASE sizeof_BASE valid_BASE header_of
proof
  fix x :: BASE_PACKET assume "valid_BASE x"
  then show "dec_BASE (enc_BASE x) = x"
    using dec_enc_BASE [of x "[]"] by (simp add: BASE_PACKET.defs)
qed (auto simp: sizeof_BASE_def enc_BASE_starts0)

interpretation res_login:
  packet_codec enc_RES_LOGIN dec_RES_LOGIN sizeof_RES_LOGIN valid_RES_LOGIN header_of
proof
  fix x assume "valid_RES_LOGIN x"
  then show "dec_RES_LOGIN (enc_RES_LOGIN x) = x"
    by (simp add: dec_RES_LOGIN_def enc_RES_LOGIN_def dec_enc_BASE valid_RES_LOGIN_def fld_def
        BASE_PACKET.defs RES_LOGIN.defs)
qed (auto simp: sizeof_RES_LOGIN_def enc_RES_LOGIN_def valid_RES_LOGIN_def enc_BASE_starts)

interpretation res_room_create:
  packet_codec enc_RES_ROOM_CREATE dec_RES_ROOM_CREATE sizeof_RES_ROOM_CREATE valid_BASE header_of
proof
  fix x :: RES_ROOM_CREATE assume "valid_BASE x"
  then show "dec_RES_ROOM_CREATE (enc_RES_ROOM_CREATE x) = x"
    by (simp add: dec_RES_ROOM_CREATE_def enc_RES_ROOM_CREATE_def dec_enc_BASE fld_def
        BASE_PACKET.defs RES_ROOM_CREATE.defs)
qed (auto simp: sizeof_RES_ROOM_CREATE_def enc_RES_ROOM_CREATE_def enc_BASE_starts)

interpretation req_room_enter:
  packet_codec enc_REQ_ROOM_ENTER dec_REQ_ROOM_ENTER sizeof_REQ_ROOM_ENTER valid_BASE header_of
proof
  fix x :: REQ_ROOM_ENTER assume "valid_BASE x"
  then show "dec_REQ_ROOM_ENTER (enc_REQ_ROOM_ENTER x) = x"
    by (simp add: dec_REQ_ROOM_ENTER_def enc_REQ_ROOM_ENTER_def dec_enc_BASE fld_def
        BASE_PACKET.defs REQ_ROOM_ENTER.defs)
qed (auto simp: sizeof_REQ_ROOM_ENTER_def enc_REQ_ROOM_ENTER_def enc_BASE_starts)

interpretation res_room_enter:
  packet_codec enc_RES_ROOM_ENTER dec_RES_ROOM_ENTER sizeof_RES_ROOM_ENTER valid_BASE header_of
proof
  fix x :: RES_ROOM_ENTER assume "valid_BASE x"
  then show "dec_RES_ROOM_ENTER (enc_RES_ROOM_ENTER x) = x"
    by (simp add: dec_RES_ROOM_ENTER_def enc_RES_ROOM_ENTER_def dec_enc_BASE fld_def
        BASE_PACKET.defs RES_ROOM_ENTER.defs)
qed (auto simp: sizeof_RES_ROOM_ENTER_def enc_RES_ROOM_ENTER_def enc_BASE_starts)

interpretation req_room_list:
  packet_codec enc_REQ_ROOM_LIST dec_REQ_ROOM_LIST sizeof_REQ_ROOM_LIST valid_BASE header_of
proof
  fix x :: REQ_ROOM_LIST assume "valid_BASE x"
  then show "dec_REQ_ROOM_LIST (enc_REQ_ROOM_LIST x) = x"
    by (simp add: dec_REQ_ROOM_LIST_def enc_REQ_ROOM_LIST_def dec_enc_BASE fld_def
        BASE_PACKET.defs REQ_ROOM_LIST.defs)
qed (auto simp: sizeof_REQ_ROOM_LIST_def enc_REQ_ROOM_LIST_def enc_BASE_starts)

interpretation res_room_list:
  packet_codec enc_RES_ROOM_LIST dec_RES_ROOM_LIST sizeof_RES_ROOM_LIST valid_RES_ROOM_LIST header_of
proof
  fix x assume x: "valid_RES_ROOM_LIST x"
  then have "length (concat (map enc_RoomInfo (roomInfo x))) = ROOM_CNT_PER_PAGE * 13"
    by (intro length_array) (simp_all add: valid_RES_ROOM_LIST_def RoomInfo_codec)
  then show "length (enc_RES_ROOM_LIST x) = sizeof_RES_ROOM_LIST"
    by (simp add: enc_RES_ROOM_LIST_def sizeof_RES_ROOM_LIST_def)
  from x have "dec_array dec_RoomInfo 13 ROOM_CNT_PER_PAGE (concat (map enc_RoomInfo (roomInfo x)))
      = roomInfo x"
    by (intro dec_array_enc) (simp_all add: valid_RES_ROOM_LIST_def RoomInfo_codec)
  with x show "dec_RES_ROOM_LIST (enc_RES_ROOM_LIST x) = x"
    by (simp add: dec_RES_ROOM_LIST_def enc_RES_ROOM_LIST_def dec_enc_BASE valid_RES_ROOM_LIST_def
        BASE_PACKET.defs RES_ROOM_LIST.defs)
qed (auto simp: sizeof_RES_ROOM_LIST_def enc_RES_ROOM_LIST_def enc_BASE_starts)

interpretation res_game_start:
  packet_codec enc_RES_GAME_START dec_RES_GAME_START sizeof_RES_GAME_START valid_RES_GAME_START
    header_of
proof
  fix x assume x: "valid_RES_GAME_START x"
  then have "length (concat (map (\<lambda>s. enc16 (ShapeType_word s)) (newBlocks x)))
      = PACKET_FALLING_BLOCK_SIZE * 2"
    by (intro length_array) (simp_all add: valid_RES_GAME_START_def)
  then show "length (enc_RES_GAME_START x) = sizeof_RES_GAME_START"
    by (simp add: enc_RES_GAME_START_def sizeof_RES_GAME_START_def)
  from x have "dec_array (\<lambda>b. word_ShapeType (dec16 b)) 2 PACKET_FALLING_BLOCK_SIZE
      (concat (map (\<lambda>s. enc16 (ShapeType_word s)) (newBlocks x))) = newBlocks x"
    by (intro dec_array_enc)
       (simp_all add: valid_RES_GAME_START_def list_all_iff proper_shape_def)
  with x show "dec_RES_GAME_START (enc_RES_GAME_START x) = x"
    by (simp add: dec_RES_GAME_START_def enc_RES_GAME_START_def dec_enc_BASE
        valid_RES_GAME_START_def BASE_PACKET.defs RES_GAME_START.defs)
qed (auto simp: sizeof_RES_GAME_START_def enc_RES_GAME_START_def enc_BASE_starts)

interpretation req_game_input:
  packet_codec enc_REQ_GAME_INPUT dec_REQ_GAME_INPUT sizeof_REQ_GAME_INPUT valid_REQ_GAME_INPUT
    header_of
proof
  fix x assume x: "valid_REQ_GAME_INPUT x"
  then have len: "length (concat (map (\<lambda>i. enc16 (InputType_word i)) (req_inputs x)))
      = PACKET_KEY_INPUT_SIZE * 2"
    by (intro length_array) (simp_all add: valid_REQ_GAME_INPUT_def)
  then show "length (enc_REQ_GAME_INPUT x) = sizeof_REQ_GAME_INPUT"
    by (simp add: enc_REQ_GAME_INPUT_def sizeof_REQ_GAME_INPUT_def)
  from x have "dec_array (\<lambda>b. word_InputType (dec16 b)) 2 PACKET_KEY_INPUT_SIZE
      (concat (map (\<lambda>i. enc16 (InputType_word i)) (req_inputs x))) = req_inputs x"
    by (intro dec_array_enc)
       (simp_all add: valid_REQ_GAME_INPUT_def list_all_iff proper_input_def)
  with x len show "dec_REQ_GAME_INPUT (enc_REQ_GAME_INPUT x) = x"
    by (simp add: dec_REQ_GAME_INPUT_def enc_REQ_GAME_INPUT_def dec_enc_BASE fld_def
        valid_REQ_GAME_INPUT_def BASE_PACKET.defs REQ_GAME_INPUT.defs)
qed (auto simp: sizeof_REQ_GAME_INPUT_def enc_REQ_GAME_INPUT_def enc_BASE_starts)

interpretation res_game_input:
  packet_codec enc_RES_GAME_INPUT dec_RES_GAME_INPUT sizeof_RES_GAME_INPUT valid_RES_GAME_INPUT
    header_of
proof
  fix x assume x: "valid_RES_GAME_INPUT x"
  then have "length (concat (map (\<lambda>i. enc16 (InputType_word i)) (res_inputs x)))
      = PACKET_KEY_INPUT_SIZE * 2"
    by (intro length_array) (simp_all add: valid_RES_GAME_INPUT_def)
  then show "length (enc_RES_GAME_INPUT x) = sizeof_RES_GAME_INPUT"
    by (simp add: enc_RES_GAME_INPUT_def sizeof_RES_GAME_INPUT_def)
  from x have "dec_array (\<lambda>b. word_InputType (dec16 b)) 2 PACKET_KEY_INPUT_SIZE
      (concat (map (\<lambda>i. enc16 (InputType_word i)) (res_inputs x))) = res_inputs x"
    by (intro dec_array_enc)
       (simp_all add: valid_RES_GAME_INPUT_def list_all_iff proper_input_def)
  with x show "dec_RES_GAME_INPUT (enc_RES_GAME_INPUT x) = x"
    by (simp add: dec_RES_GAME_INPUT_def enc_RES_GAME_INPUT_def dec_enc_BASE
        valid_RES_GAME_INPUT_def BASE_PACKET.defs RES_GAME_INPUT.defs)
qed (auto simp: sizeof_RES_GAME_INPUT_def enc_RES_GAME_INPUT_def enc_BASE_starts)

end
