(* ===== verification/StreamClaims.thy ===== *)
theory StreamClaims
  imports PacketStream
begin

text \<open>
  What \<open>PacketBuffer\<close> promises the two ends of a connection, and the streams it cannot handle.
\<close>

section \<open>Room for a short stream\<close>

lemma Read_keeps:
  assumes "Read pb = Inr (r, pb')" and "stream_ok pb"
  shows "stream_ok pb' \<and> writePos pb' = writePos pb \<and> bufferSize pb' = bufferSize pb"
proof (cases "next_packet (packetHeaderSize pb) (pending pb)")
  case None
  with assms show ?thesis by (auto simp: stream_ok_def Read_spec)
next
  case (Some p)
  with assms have "pb' = pb\<lparr>readPos := readPos pb + int (length p)\<rparr>"
    by (simp add: stream_ok_def Read_spec)
  moreover from Some assms(2) have "int (length p) \<le> writePos pb - readPos pb"
    using length_pending [of pb] by (auto simp: next_packet_def stream_ok_def split: if_splits)
  ultimately show ?thesis using assms(2) by (auto simp: stream_ok_def wf_buffer_def)
qed

lemma ReadLoop_keeps:
  fixes s :: 'a
  assumes ret: "ReadLoop Read f pb s = Some (Inr (pb', s'))" and "stream_ok pb"
  shows "stream_ok pb' \<and> writePos pb' = writePos pb \<and> bufferSize pb' = bufferSize pb"
proof -
  let ?Q = "\<lambda>pb pb'. stream_ok pb' \<and> writePos pb' = writePos pb \<and> bufferSize pb' = bufferSize pb"
  let ?P = "\<lambda>pull (f :: bytes \<Rightarrow> 'a \<Rightarrow> 'a res) b (s :: 'a) (r :: (PacketBuffer \<times> 'a) res). \<forall>b' s'. pull = Read \<and> stream_ok b \<and> r = Inr (b', s' :: 'a) \<longrightarrow> ?Q b b'"
  have "?P Read f pb s (Inr (pb', s'))"
  proof (rule ReadLoop.raw_induct [where P = ?P, OF _ ret])
    fix loop :: "(PacketBuffer \<Rightarrow> (bytes option \<times> PacketBuffer) res) \<Rightarrow>
        (bytes \<Rightarrow> 'a \<Rightarrow> 'a res) \<Rightarrow> PacketBuffer \<Rightarrow> 'a \<Rightarrow> (PacketBuffer \<times> 'a) res option"
      and pull f b s r
    assume IH: "\<And>pull f b s r. loop pull f b s = Some r \<Longrightarrow> ?P pull f b s r"
      and step: "(case pull b of Inl e \<Rightarrow> Some (Inl e)
         | Inr (r, b') \<Rightarrow>
             (case r of None \<Rightarrow> Some (Inr (b', s))
              | Some readBuf \<Rightarrow> (case f readBuf s of Inl e \<Rightarrow> Some (Inl e) | Inr s' \<Rightarrow> loop pull f b' s')))
         = Some r"
    show "?P pull f b s r"
    proof (intro allI impI)
    fix b' s'
    assume hyp: "pull = Read \<and> stream_ok b \<and> r = Inr (b', s')"
    with step obtain x c where c: "Read b = Inr (x, c)" by (auto split: sum.splits)
    from Read_keeps [OF this] hyp have k: "?Q b c" by blast
    show "?Q b b'"
    proof (cases x)
      case None
      with step hyp c k show ?thesis by auto
    next
      case (Some p)
      with step hyp c obtain t where "loop Read f c t = Some r" by (auto split: sum.splits)
      from IH [OF this] hyp k show ?thesis by auto
    qed
    qed
  qed
  with assms(2) show ?thesis by blast
qed

text \<open>A short chunk moves only the write position.\<close>

lemma Receive_pos:
  assumes "Receive Read write_chunk f c pb s = Some (Inr (pb', s'))" and "stream_ok pb"
    and "writePos pb + int (length c) < bufferSize pb"
  shows "stream_ok pb' \<and> writePos pb' = writePos pb + int (length c) \<and> bufferSize pb' = bufferSize pb"
proof -
  have "accepts (int (length c)) pb" using assms(3) by (simp add: accepts_def)
  from pb.push_room [OF assms(2) this] obtain q where q: "write_chunk c pb = Inr q" "stream_ok q" by blast
  have "\<not> NeedRelocate (int (length c)) pb" using assms(3) by (simp add: NeedRelocate_def)
  with q(1) assms(3) have pos: "writePos q = writePos pb + int (length c)" "bufferSize q = bufferSize pb"
    by (auto simp: write_chunk_def Write_def bind_res_Inr_iff split: if_splits)
  have "ReadLoop Read f q s = Some (Inr (pb', s'))" using assms(1) q(1) by (simp add: Receive_def)
  from ReadLoop_keeps [OF this q(2)] pos show ?thesis by simp
qed

lemma roomy_short:
  assumes "stream_ok pb" and "writePos pb + int (length (concat cs)) < bufferSize pb"
  shows "roomy accepts Read write_chunk f cs pb s"
  using assms
proof (induction cs arbitrary: pb s)
  case (Cons c cs pb s)
  have c: "writePos pb + int (length c) < bufferSize pb" using Cons.prems(2) by simp
  then have room: "accepts (int (length c)) pb" by (simp add: accepts_def)
  have "roomy accepts Read write_chunk f cs b1 s1" if "Receive Read write_chunk f c pb s = Some (Inr (b1, s1))" for b1 s1
    using Receive_pos [OF that Cons.prems(1) c] Cons.prems(2) by (intro Cons.IH) simp_all
  with room show ?case by (simp split: option.split sum.split)
qed simp

section \<open>The length of a packet\<close>

text \<open>
  What \<open>Packet.hh\<close> says: a packet begins with its \<open>PacketLength\<close>, two bytes, the low one first.
  \<open>PacketBuffer\<close> looks at the low one only and sign-extends it, so the specification and the code can
  agree on packets of less than 128 bytes, which all packets of the program are.
\<close>

fun packet_length :: "bytes \<Rightarrow> nat" where
  "packet_length (low # high # bs) = unat low + 256 * unat high"
| "packet_length bs = 0"

definition well_framed :: "bytes \<Rightarrow> bool" where
  "well_framed p \<longleftrightarrow> PACKET_HEADER_LENGTH \<le> int (length p) \<and> packet_length p = length p \<and> length p < 128"

definition begun :: "bytes \<Rightarrow> bool" where
  "begun r \<longleftrightarrow> r = [] \<or> (\<exists>x. x \<noteq> [] \<and> well_framed (r @ x))"

lemma dataSize_packet_length:
  assumes "2 \<le> length p" and "packet_length p < 128"
  shows "dataSize (hd p) = int (packet_length p)"
proof -
  from assms(1) obtain l h bs where p: "p = l # h # bs" by (cases p rule: packet_length.cases) auto
  with assms(2) have "unat h = 0" "unat l < 128" by simp_all
  moreover have "uint l = int (unat l)" by simp
  ultimately have "uint l < 128" "int (packet_length p) = uint l" unfolding p by (linarith, simp)
  then show ?thesis by (simp add: p dataSize_eq)
qed

lemma well_framed_packet: "well_framed p \<Longrightarrow> is_packet PACKET_HEADER_LENGTH p"
  using dataSize_packet_length [of p] by (auto simp: well_framed_def is_packet_def PACKET_HEADER_LENGTH_def)

lemma begun_partial: "begun r \<Longrightarrow> partial_packet PACKET_HEADER_LENGTH r"
  using well_framed_packet by (auto simp: begun_def partial_packet_def)

section \<open>Statements\<close>

text \<open>C27: \<open>Read\<close> refines cutting the first packet off the pending bytes: with the 16-bit length \<open>n\<close> that
  these announce, below 128, it returns a null pointer and changes nothing while the header or the
  packet is not there in full, and otherwise it copies the first \<open>n\<close> bytes out and moves past them; it
  never leaves the buffer.\<close>

theorem Read_cuts_first_packet:
  assumes "wf_buffer pb" and "n = packet_length (pending pb)" and "n < 128"
  shows "\<exists>pb'. wf_buffer pb' \<and>
    (if int (length (pending pb)) < packetHeaderSize pb \<or> length (pending pb) < n
     then Read pb = Inr (None, pb)
     else Read pb = Inr (Some (take n (pending pb)), pb') \<and> pending pb' = drop n (pending pb))"
proof (cases "int (length (pending pb)) < packetHeaderSize pb \<or> length (pending pb) < n")
  case True
  have "next_packet (packetHeaderSize pb) (pending pb) = None"
  proof (cases "2 \<le> length (pending pb)")
    case two: True
    from dataSize_packet_length [OF this] assms(2,3) True show ?thesis by (auto simp: next_packet_def)
  next
    case False
    then have "int (length (pending pb)) < packetHeaderSize pb" using assms(1) by (simp add: wf_buffer_def)
    then show ?thesis by (simp add: next_packet_def)
  qed
  with assms(1) True show ?thesis by (auto simp: Read_spec)
next
  case False
  let ?p = "take n (pending pb)"
  have "2 \<le> length (pending pb)" using False assms(1) by (auto simp: wf_buffer_def)
  from dataSize_packet_length [OF this] assms(2,3) False
  have some: "next_packet (packetHeaderSize pb) (pending pb) = Some ?p" by (auto simp: next_packet_def)
  have len: "length ?p = n" using False by simp
  then have "int (length ?p) \<le> writePos pb - readPos pb" using length_pending [OF assms(1)] False by simp
  from pending_advance [OF assms(1) _ this] some assms(1) len False show ?thesis by (auto simp: Read_spec)
qed

text \<open>Two login requests in their wire format, and the start of a third.\<close>

definition two_logins :: "bytes list" where
  "two_logins = [[14, 0, 17, 39, 1, 0, 0, 0, 0, 0, 0, 0, 2, 0],
                 [14, 0, 17, 39, 2, 0, 0, 0, 0, 0, 0, 0, 2, 0]]"

abbreviation fresh_buffer :: PacketBuffer where
  "fresh_buffer \<equiv> buffer_Init (\<lambda>_. 0) (\<lambda>_. 0) 1024 PACKET_HEADER_LENGTH"

lemma fresh_ok: "stream_ok fresh_buffer" "pending fresh_buffer = []"
  by (simp_all add: stream_ok_def wf_buffer_Init PACKET_HEADER_LENGTH_def)
     (simp add: buffer_Init_def)

lemma logins_are_packets: "list_all well_framed two_logins"
  by (simp add: two_logins_def well_framed_def PACKET_HEADER_LENGTH_def)

theorem Read_cuts_first_packet_witness:
  "\<exists>pb pb'. write_chunk (concat two_logins) fresh_buffer = Inr pb \<and>
     Read pb = Inr (Some (hd two_logins), pb') \<and> pending pb' = two_logins ! 1"
proof -
  have room: "accepts (int (length (concat two_logins))) fresh_buffer"
    by (simp add: accepts_def buffer_Init_def two_logins_def)
  from pb.push_room [OF fresh_ok(1) room] fresh_ok(2) obtain pb where
    pb: "write_chunk (concat two_logins) fresh_buffer = Inr pb" "stream_ok pb" "pending pb = concat two_logins"
    by auto
  then have "wf_buffer pb" "packetHeaderSize pb = 12" "14 = packet_length (pending pb)" "(14::nat) < 128"
    by (simp_all add: stream_ok_def two_logins_def PACKET_HEADER_LENGTH_def)
  from Read_cuts_first_packet [OF this(1,3,4)] this(2) pb(1,3) show ?thesis by (auto simp: two_logins_def)
qed

text \<open>C28: \<open>Write\<close> appends its bytes to the pending ones, moving these to the front when the tail is
  too short, or it drops all of them; it never leaves the buffer and loses nothing else.\<close>

theorem Write_appends_or_drops:
  assumes "wf_buffer pb"
  shows "\<exists>pb'. write_chunk d pb = Inr pb' \<and> wf_buffer pb' \<and>
           pending pb' = (if accepts (int (length d)) pb then pending pb @ d else pending pb)"
  using Write_spec [OF assms refl, of d] by (auto simp: write_chunk_def)

theorem Write_appends_or_drops_witness:
  "\<exists>pb'. write_chunk (concat two_logins) fresh_buffer = Inr pb' \<and> pending pb' = concat two_logins"
  using Write_appends_or_drops [of fresh_buffer "concat two_logins"] fresh_ok
  by (simp add: stream_ok_def accepts_def) (auto simp: buffer_Init_def two_logins_def)

text \<open>C2: if TCP cuts a stream of packets, each shorter than 128 bytes, into receive completions that all
  find room in the buffer when they come (\<open>roomy\<close>), the loop over \<open>Read\<close> hands exactly these packets,
  whole and in order, to its body, and keeps the unfinished rest.  A chunk without room is dropped
  as a whole; one that would end exactly at the end of the buffer is such a chunk.\<close>

theorem stream_reassembly:
  assumes "stream_ok pb" and "pending pb = []" and "concat cs = concat fs @ rest"
    and "list_all well_framed fs" and "begun rest"
    and "roomy accepts Read write_chunk (\<lambda>p ps. Inr (ps @ [p])) cs pb []"
  shows "\<exists>pb'. ReceiveAll Read write_chunk (\<lambda>p ps. Inr (ps @ [p])) cs pb [] = Some (Inr (pb', fs)) \<and>
           pending pb' = rest"
proof -
  have "fold_res (\<lambda>p ps. Inr (ps @ [p])) fs acc = Inr (acc @ fs)" for acc
    by (induction fs arbitrary: acc) auto
  then have "fold_res (\<lambda>p ps. Inr (ps @ [p])) fs [] = Inr fs" by simp
  moreover have "list_all (is_packet PACKET_HEADER_LENGTH) fs"
    using assms(4) by (auto simp: list_all_iff well_framed_packet)
  ultimately show ?thesis
    using pb.ReceiveAll_packets [OF assms(1) _ _ begun_partial [OF assms(5)] _ assms(6)] assms(2,3)
    by (auto simp: partial_packet_def)
qed

theorem stream_reassembly_witness:
  "\<exists>pb'. ReceiveAll Read write_chunk (\<lambda>p ps. Inr (ps @ [p]))
            [take 5 (concat two_logins), drop 5 (concat two_logins) @ [14, 0]] fresh_buffer []
          = Some (Inr (pb', two_logins)) \<and> pending pb' = [14, 0]"
proof (rule stream_reassembly [OF fresh_ok _ logins_are_packets])
  show "concat [take 5 (concat two_logins), drop 5 (concat two_logins) @ [14, 0]]
          = concat two_logins @ [14, 0]" by simp
  have "well_framed ([14, 0] @ replicate 12 0)"
    by (simp add: well_framed_def PACKET_HEADER_LENGTH_def)
  then show "begun [14, 0]"
    unfolding begun_def by (intro disjI2 exI [of _ "replicate 12 0"]) simp
  show "roomy accepts Read write_chunk (\<lambda>p ps. Inr (ps @ [p]))
          [take 5 (concat two_logins), drop 5 (concat two_logins) @ [14, 0]] fresh_buffer []"
    by (intro roomy_short fresh_ok) (simp add: buffer_Init_def two_logins_def)
qed

text \<open>A write whose bytes would end exactly at the end of the buffer loses them, however much of
  the buffer has been read: the test for relocation finds enough space and the test for
  writing one byte too little.\<close>

theorem exact_fit_is_lost:
  assumes "wf_buffer pb" and "writePos pb + int (length d) = bufferSize pb"
  shows "write_chunk d pb = Inr pb"
  using assms by (rule accepts_drop)

theorem exact_fit_is_lost_witness:
  "write_chunk (replicate 1024 7) fresh_buffer = Inr fresh_buffer"
  by (rule exact_fit_is_lost) (use fresh_ok in \<open>simp_all add: stream_ok_def buffer_Init_def\<close>)

text \<open>The length of a packet is taken from one sign-extended byte, so a packet whose low length
  byte is above 127 is never delivered, and neither is anything that follows it.\<close>

theorem long_packet_blocks_the_stream:
  assumes "stream_ok pb" and "bufferSize pb \<le> 1024" and "pending pb = []"
    and "accepts (int (length c)) pb" and "c \<noteq> []" and "128 \<le> uint (hd c)"
  shows "\<exists>pb'. ReceiveAll Read write_chunk f (c # cs) pb s = Some (Inr (pb', s))"
proof -
  from pb.push_room [OF assms(1,4)] obtain q where
    q: "write_chunk c pb = Inr q" "stream_ok q" "pending q = c" using assms(3) by auto
  from Write_spec [of pb _ c] assms(1) q(1) have "bufferSize q = bufferSize pb"
    by (fastforce simp: stream_ok_def write_chunk_def)
  with assms(2) have b: "bufferSize q < 65408" by simp
  have "int (length c) < 65408"
    using length_pending [of q] q(2,3) b by (simp add: stream_ok_def wf_buffer_def)
  with q(2,3) assms(5,6) have "Read q = Inr (None, q)"
    by (simp add: stream_ok_def Read_spec next_packet_long)
  with q(1) have "Receive Read write_chunk f c pb s = Some (Inr (q, s))"
    by (simp add: Receive_def ReadLoop.simps)
  with ReceiveAll_long [of q f cs s] q(2,3) b assms(5,6) show ?thesis by (simp add: stream_ok_def)
qed

theorem long_packet_blocks_the_stream_witness:
  "\<exists>pb'. ReceiveAll Read write_chunk (\<lambda>p ps. Inr (ps @ [p]))
            ((200 # replicate 199 0) # two_logins) fresh_buffer [] = Some (Inr (pb', []))"
  by (rule long_packet_blocks_the_stream)
     (use fresh_ok in \<open>simp_all add: buffer_Init_def accepts_def\<close>)

text \<open>A packet with length byte 0 hangs the receiving thread: the loop reads an empty packet
  again and again and never returns.\<close>

theorem zero_length_hangs:
  assumes "stream_ok pb" and "pending pb = []" and "accepts (int (length c)) pb"
    and "12 \<le> length c" and "hd c = 0" and "\<And>s. \<exists>t. f [] s = Inr t"
  shows "Receive Read write_chunk f c pb s = None"
proof -
  from pb.push_room [OF assms(1,3)] obtain q where
    q: "write_chunk c pb = Inr q" "stream_ok q" "pending q = c" using assms(2) by auto
  have "Read q = Inr (Some [], q)"
    using q assms(4,5) by (intro Read_zero) (simp_all add: stream_ok_def PACKET_HEADER_LENGTH_def)
  from ReadLoop_endless [of Read q "[]" f, OF this assms(6)] q(1) show ?thesis
    by (simp add: Receive_def)
qed

theorem zero_length_hangs_witness:
  "Receive Read write_chunk (\<lambda>p n. Inr (Suc n)) (replicate 12 0) fresh_buffer 0 = None"
  by (rule zero_length_hangs) (use fresh_ok in \<open>simp_all add: buffer_Init_def accepts_def\<close>)

end
