(* ===== verification/PacketClaims.thy ===== *)
theory PacketClaims
  imports PacketCodec StreamClaims
begin

text \<open>
  The packet formats as a whole: what is sent can be read again, and it arrives.
\<close>

text \<open>Every packet survives the way through its object representation.\<close>

theorem packets_round_trip:
  "(\<forall>p. valid_BASE p \<longrightarrow> dec_BASE (enc_BASE p) = p) \<and>
   (\<forall>p. valid_RES_LOGIN p \<longrightarrow> dec_RES_LOGIN (enc_RES_LOGIN p) = p) \<and>
   (\<forall>p. valid_BASE p \<longrightarrow> dec_RES_ROOM_CREATE (enc_RES_ROOM_CREATE p) = p) \<and>
   (\<forall>p. valid_BASE p \<longrightarrow> dec_REQ_ROOM_ENTER (enc_REQ_ROOM_ENTER p) = p) \<and>
   (\<forall>p. valid_BASE p \<longrightarrow> dec_RES_ROOM_ENTER (enc_RES_ROOM_ENTER p) = p) \<and>
   (\<forall>p. valid_BASE p \<longrightarrow> dec_REQ_ROOM_LIST (enc_REQ_ROOM_LIST p) = p) \<and>
   (\<forall>p. valid_RES_ROOM_LIST p \<longrightarrow> dec_RES_ROOM_LIST (enc_RES_ROOM_LIST p) = p) \<and>
   (\<forall>p. valid_RES_GAME_START p \<longrightarrow> dec_RES_GAME_START (enc_RES_GAME_START p) = p) \<and>
   (\<forall>p. valid_REQ_GAME_INPUT p \<longrightarrow> dec_REQ_GAME_INPUT (enc_REQ_GAME_INPUT p) = p) \<and>
   (\<forall>p. valid_RES_GAME_INPUT p \<longrightarrow> dec_RES_GAME_INPUT (enc_RES_GAME_INPUT p) = p)"
  using base.dec_enc res_login.dec_enc res_room_create.dec_enc req_room_enter.dec_enc
    res_room_enter.dec_enc req_room_list.dec_enc res_room_list.dec_enc res_game_start.dec_enc
    req_game_input.dec_enc res_game_input.dec_enc
  by blast

lemma valid_defaults:
  "valid_BASE default_BASE_PACKET" "valid_REQ_GAME_INPUT default_REQ_GAME_INPUT"
  "valid_RES_GAME_INPUT default_RES_GAME_INPUT" "valid_RES_GAME_START default_RES_GAME_START"
  "valid_RES_ROOM_LIST default_RES_ROOM_LIST" "valid_RES_LOGIN default_RES_LOGIN"
  by (simp_all add: valid_BASE_def valid_REQ_GAME_INPUT_def valid_RES_GAME_INPUT_def
      valid_RES_GAME_START_def valid_RES_ROOM_LIST_def valid_RES_LOGIN_def
      default_BASE_PACKET_def default_REQ_GAME_INPUT_def default_RES_GAME_INPUT_def
      default_RES_GAME_START_def default_RES_ROOM_LIST_def default_RES_LOGIN_def
      BASE_PACKET.defs REQ_GAME_INPUT.defs RES_GAME_INPUT.defs RES_GAME_START.defs
      RES_ROOM_LIST.defs RES_LOGIN.defs list_all_iff)

theorem packets_round_trip_witness:
  "dec_REQ_GAME_INPUT (enc_REQ_GAME_INPUT (default_REQ_GAME_INPUT\<lparr>inputCnt := 3\<rparr>))
     = default_REQ_GAME_INPUT\<lparr>inputCnt := 3\<rparr>"
proof -
  have "valid_REQ_GAME_INPUT (default_REQ_GAME_INPUT\<lparr>inputCnt := 3\<rparr>)"
    using valid_defaults(2) by (simp add: valid_REQ_GAME_INPUT_def valid_BASE_def)
  with packets_round_trip show ?thesis by blast
qed

text \<open>The key inputs the server relays arrive: \<open>RES_GAME_INPUT\<close> packets with the length the
  sender sets, put on the wire one after the other and cut into receive completions in any way
  that the buffer has room for, are decoded to the same packets in the same order.\<close>

theorem game_inputs_arrive:
  assumes "list_all (\<lambda>p. valid_RES_GAME_INPUT p \<and>
             PacketLength (header_of p) = word_of_int (int sizeof_RES_GAME_INPUT)) ps"
    and "stream_ok pb" and "pending pb = []" and "concat cs = concat (map enc_RES_GAME_INPUT ps)"
    and "roomy accepts Read write_chunk (\<lambda>b qs. Inr (qs @ [dec_RES_GAME_INPUT b])) cs pb []"
  shows "\<exists>pb'. ReceiveAll Read write_chunk (\<lambda>b qs. Inr (qs @ [dec_RES_GAME_INPUT b])) cs pb []
           = Some (Inr (pb', ps)) \<and> pending pb' = []"
  using assms by (rule res_game_input.stream_delivers)

definition demo_input :: "InputType \<Rightarrow> RES_GAME_INPUT" where
  "demo_input i = default_RES_GAME_INPUT\<lparr>PacketLength := 74, res_inputs := i # replicate 29 Input_NONE\<rparr>"

theorem game_inputs_arrive_witness:
  "\<exists>pb'. ReceiveAll Read write_chunk (\<lambda>b qs. Inr (qs @ [dec_RES_GAME_INPUT b]))
           [take 100 (concat (map enc_RES_GAME_INPUT [demo_input LEFT, demo_input DROP])),
            drop 100 (concat (map enc_RES_GAME_INPUT [demo_input LEFT, demo_input DROP]))]
           fresh_buffer []
         = Some (Inr (pb', [demo_input LEFT, demo_input DROP])) \<and> pending pb' = []"
proof (rule game_inputs_arrive [OF _ fresh_ok])
  have v: "valid_RES_GAME_INPUT (demo_input i)" if "proper_input i" for i
    using that by (simp add: demo_input_def valid_RES_GAME_INPUT_def default_RES_GAME_INPUT_def
        valid_BASE_def BASE_PACKET.defs default_BASE_PACKET_def list_all_iff)
  then show "list_all (\<lambda>p. valid_RES_GAME_INPUT p \<and>
      PacketLength (header_of p) = word_of_int (int sizeof_RES_GAME_INPUT))
      [demo_input LEFT, demo_input DROP]"
    by (simp add: demo_input_def header_of_def PACKET_HEADER.defs sizeof_RES_GAME_INPUT_def)
  have "length (enc_RES_GAME_INPUT (demo_input i)) = 74" if "proper_input i" for i
    using res_game_input.length_enc [OF v [OF that]] by (simp add: sizeof_RES_GAME_INPUT_def)
  then show "roomy accepts Read write_chunk (\<lambda>b qs. Inr (qs @ [dec_RES_GAME_INPUT b]))
      [take 100 (concat (map enc_RES_GAME_INPUT [demo_input LEFT, demo_input DROP])),
       drop 100 (concat (map enc_RES_GAME_INPUT [demo_input LEFT, demo_input DROP]))] fresh_buffer []"
    by (intro roomy_short fresh_ok) (simp add: buffer_Init_def)
  show "concat [take 100 (concat (map enc_RES_GAME_INPUT [demo_input LEFT, demo_input DROP])),
      drop 100 (concat (map enc_RES_GAME_INPUT [demo_input LEFT, demo_input DROP]))]
      = concat (map enc_RES_GAME_INPUT [demo_input LEFT, demo_input DROP])"
    by (simp only: concat.simps append_Nil2 append_take_drop_id)
qed

end
