(* ===== verification/ServerState.thy ===== *)
theory ServerState
  imports PacketCodec
begin

text \<open>
  The state of the server process: the objects behind \<open>Game::Get()\<close> and \<open>IOCPServer\<close>, and how
  pointers are followed.

  \<^item> Players are shared by pointer between \<open>PlayerManager\<close>, rooms and sessions and are deleted by
    hand, so they live in an explicit store: \<open>heap\<close> maps the address of every live \<open>Player\<close> to
    its members.  A null pointer is \<open>None\<close>.  Following it fails with \<open>NullDeref\<close>, following
    the address of a deleted player with \<open>UseAfterFree\<close>.  New players get fresh addresses.
  \<^item> Rooms are owned by \<open>RoomManager::rooms\<close>, sessions by \<open>SessionManager::sessions\<close> and never
    deleted, clients by \<open>IOCPServer::clientInfos\<close>; a pointer to one is its index there.
  \<^item> A handler object is created once and keeps its members \<open>req\<close> and \<open>res\<close> from request to
    request.  \<open>req\<close> is overwritten as a whole before use; \<open>res\<close> is part of the state.
  \<^item> What a call of the Windows API hands to the system is recorded in a list of the client
    (\<open>wsaSends\<close>) instead of being sent.
  \<^item> \<open>shuffles\<close> counts the calls of \<open>std::random_shuffle\<close>; what the calls do is a parameter of the
    operations that need it.
\<close>

section \<open>Integers\<close>

text \<open>The conversion of an \<open>int\<close> to \<open>size_t\<close>.\<close>

definition size_t :: "int \<Rightarrow> int" where
  "size_t x = x mod 2 ^ 64"

lemma size_t_nonneg: "0 \<le> x \<Longrightarrow> x < 2 ^ 64 \<Longrightarrow> size_t x = x"
  by (simp add: size_t_def)

section \<open>Objects\<close>

record Player =
  p_sessionIndex :: int
  p_playerUID :: int
  p_userName :: string
  p_roomIndex :: int
  p_fallingBlockIndex :: int

definition new_Player :: Player where
  "new_Player = \<lparr>p_sessionIndex = 0, p_playerUID = 0, p_userName = [], p_roomIndex = 0,
                 p_fallingBlockIndex = 0\<rparr>"

record Room =
  players :: "nat list"
  maxPlayerCnt :: int
  r_roomIndex :: int
  r_isPlaying :: bool
  fallingBlocks :: "ShapeType list"

definition new_Room :: "int \<Rightarrow> int \<Rightarrow> Room" where
  "new_Room index cnt =
     \<lparr>players = [], maxPlayerCnt = cnt, r_roomIndex = index, r_isPlaying = False,
      fallingBlocks = []\<rparr>"

record Session =
  playerInfo :: "nat option"
  clientInfo :: "nat option"
  s_sessionIndex :: int
  isUse :: bool

datatype IOOperation = ACCEPT | RECV | SEND | NOTIFY

text \<open>What the program uses of an \<open>OverlappedEx\<close>: the bytes to send and the operation.\<close>

record OverlappedEx =
  wsaBuf :: bytes
  operation :: IOOperation

record ClientInfo =
  clientIndex :: int
  c_sessionIndex :: int
  c_playerUID :: int
  sock :: int
  isConnect :: bool
  latestClosedTimeSec :: int
  sendDataQueue :: "OverlappedEx list"
  packetBuffer :: PacketBuffer
  wsaSends :: "OverlappedEx list"

text \<open>\<open>INVALID_SOCKET\<close>, the value that no socket has.\<close>

definition INVALID_SOCKET :: int where "INVALID_SOCKET = -1"

text \<open>The constructor and \<open>Init\<close> of \<open>ClientInfo\<close>; \<open>fresh\<close> is what the new buffers hold.\<close>

definition new_ClientInfo :: "(nat \<Rightarrow> 8 word) \<Rightarrow> int \<Rightarrow> ClientInfo" where
  "new_ClientInfo fresh index =
     \<lparr>clientIndex = index, c_sessionIndex = 0, c_playerUID = 0, sock = INVALID_SOCKET,
      isConnect = False, latestClosedTimeSec = 0, sendDataQueue = [],
      packetBuffer = buffer_Init fresh fresh 1024 PACKET_HEADER_LENGTH, wsaSends = []\<rparr>"

record PacketInfo =
  DataSize :: "16 word"
  pi_PacketId :: "16 word"
  pi_SessionIndex :: int
  pDataPtr :: bytes

text \<open>A message in the queue of \<open>IOCPTetrisServer::ProcessThread\<close>.\<close>

record PacketData =
  pd_SessionIndex :: int
  pd_DataSize :: int
  pPacketData :: bytes

record Server =
  heap :: "nat \<Rightarrow> Player option"
  nextAddress :: nat
  allPlayers :: "nat option list"
  rooms :: "Room list"
  roomIndex :: int
  sessions :: "Session list"
  clients :: "ClientInfo list"
  recvPackets :: "PacketInfo list"
  packetQueue :: "PacketData list"
  isRun :: bool
  clientNumber :: int
  shuffles :: nat
  resLogin :: RES_LOGIN
  resFallingBlock :: RES_FALLING_BLOCK
  resGameInput :: RES_GAME_INPUT
  resGameStart :: RES_GAME_START
  resGameStop :: RES_GAME_STOP
  resRoomCanEnter :: RES_ROOM_CAN_ENTER
  resRoomCreate :: RES_ROOM_CREATE
  resRoomEnter :: RES_ROOM_ENTER
  resRoomLeave :: RES_ROOM_LEAVE
  resRoomList :: RES_ROOM_LIST

text \<open>The server after \<open>Start\<close> with \<open>n\<close> client slots, numbered from 1.\<close>

definition new_Server :: "(nat \<Rightarrow> 8 word) \<Rightarrow> nat \<Rightarrow> Server" where
  "new_Server fresh n =
     \<lparr>heap = (\<lambda>_. None), nextAddress = 0, allPlayers = [], rooms = [], roomIndex = 1,
      sessions = [], clients = map (\<lambda>i. new_ClientInfo fresh (int i)) [1..<n + 1],
      recvPackets = [], packetQueue = [], isRun = True, clientNumber = 0, shuffles = 0,
      resLogin = default_RES_LOGIN, resFallingBlock = default_RES_GAME_START,
      resGameInput = default_RES_GAME_INPUT, resGameStart = default_RES_GAME_START,
      resGameStop = default_BASE_PACKET, resRoomCanEnter = default_BASE_PACKET,
      resRoomCreate = default_RES_ROOM_CREATE, resRoomEnter = default_RES_ROOM_ENTER,
      resRoomLeave = default_BASE_PACKET, resRoomList = default_RES_ROOM_LIST\<rparr>"

section \<open>Pointers\<close>

definition deref :: "(nat \<Rightarrow> Player option) \<Rightarrow> nat option \<Rightarrow> Player res" where
  "deref h p =
     (case p of
        None \<Rightarrow> Inl NullDeref
      | Some a \<Rightarrow> (case h a of None \<Rightarrow> Inl UseAfterFree | Some x \<Rightarrow> Inr x))"

lemma deref_simps [simp]:
  "deref h None = Inl NullDeref"
  "h a = Some x \<Longrightarrow> deref h (Some a) = Inr x"
  "h a = None \<Longrightarrow> deref h (Some a) = Inl UseAfterFree"
  by (simp_all add: deref_def)

lemma deref_Inr_iff [res_simps]: "deref h p = Inr x \<longleftrightarrow> (\<exists>a. p = Some a \<and> h a = Some x)"
  by (auto simp: deref_def split: option.splits)

text \<open>An assignment to a member of the player a pointer designates.\<close>

definition set_player :: "nat option \<Rightarrow> (Player \<Rightarrow> Player) \<Rightarrow> Server \<Rightarrow> Server res" where
  "set_player p g s =
     bind_res (deref (heap s) p) (\<lambda>x. Inr (s\<lparr>heap := (heap s)(the p := Some (g x))\<rparr>))"

lemma set_player_Inr_iff [res_simps]:
  "set_player p g s = Inr t \<longleftrightarrow>
     (\<exists>a x. p = Some a \<and> heap s a = Some x \<and> t = s\<lparr>heap := (heap s)(a := Some (g x))\<rparr>)"
  by (auto simp: set_player_def bind_res_Inr_iff deref_Inr_iff)

text \<open>An assignment to members of a client.  A client pointer that is followed was set from the
  client table, so its index is one of the table.\<close>

definition set_client :: "nat option \<Rightarrow> (ClientInfo \<Rightarrow> ClientInfo) \<Rightarrow> Server \<Rightarrow> Server res" where
  "set_client c g s =
     (case c of
        None \<Rightarrow> Inl NullDeref
      | Some i \<Rightarrow>
          if i < length (clients s) then Inr (s\<lparr>clients := (clients s)[i := g (clients s ! i)]\<rparr>)
          else Inl OutOfBounds)"

lemma set_client_Inr_iff [res_simps]:
  "set_client c g s = Inr t \<longleftrightarrow>
     (\<exists>i. c = Some i \<and> i < length (clients s) \<and>
          t = s\<lparr>clients := (clients s)[i := g (clients s ! i)]\<rparr>)"
  by (auto simp: set_client_def split: option.splits)

end
