(* ===== verification/ClientIO.thy ===== *)
theory ClientIO
  imports ServerState
begin

text \<open>
  The sending half of \<open>ClientInfo\<close> (\<open>System/ClientInfo.cpp\<close>): a queue of messages of which only
  the first is handed to the system at any time.

  The locale \<open>serial_sender\<close> states what a server thread relies on: messages leave in the order in
  which they were given, and a message is handed over only when the one before it is complete.
\<close>

section \<open>Operations\<close>

text \<open>\<open>WSASend\<close> is asynchronous: the call only hands the message over.\<close>

definition SendIO :: "OverlappedEx \<Rightarrow> ClientInfo \<Rightarrow> ClientInfo" where
  "SendIO o1 c = c\<lparr>wsaSends := wsaSends c @ [o1]\<rparr>"

definition SendMsg_client :: "bytes \<Rightarrow> IOOperation \<Rightarrow> ClientInfo \<Rightarrow> ClientInfo" where
  "SendMsg_client msg op c =
     (let sendOverlappedEx = \<lparr>wsaBuf = msg, operation = op\<rparr>;
          c1 = c\<lparr>sendDataQueue := sendDataQueue c @ [sendOverlappedEx]\<rparr>
      in if length (sendDataQueue c1) = 1 then SendIO sendOverlappedEx c1 else c1)"

definition SendCompleted :: "ClientInfo \<Rightarrow> ClientInfo res" where
  "SendCompleted c =
     (case sendDataQueue c of
        [] \<Rightarrow> Inl EmptyContainer
      | data # rest \<Rightarrow>
          (let c1 = c\<lparr>sendDataQueue := rest\<rparr>
           in if rest \<noteq> [] then Inr (SendIO (hd rest) c1) else Inr c1))"

text \<open>\<open>shutdown\<close>, \<open>setsockopt\<close> and \<open>closesocket\<close> act on the socket only.  Neither the send queue nor
  the packet buffer is cleared, and \<open>sessionIndex\<close> stays.\<close>

definition Disconnect_client :: "int \<Rightarrow> ClientInfo \<Rightarrow> ClientInfo" where
  "Disconnect_client now c =
     c\<lparr>isConnect := False, latestClosedTimeSec := now, sock := INVALID_SOCKET\<rparr>"

text \<open>
  \<open>BindIOCompletionPort\<close>, with the handle that \<open>CreateIoCompletionPort\<close> returns (0 is \<open>NULL\<close>, which it
  returns when it fails), \<open>BindRecv\<close> and \<open>SetSocketOption\<close>, with what the system calls return.
\<close>

definition INVALID_HANDLE_VALUE :: int where "INVALID_HANDLE_VALUE = -1"

definition BindIOCompletionPort :: "int \<Rightarrow> bool" where
  "BindIOCompletionPort hIOCP = (if hIOCP = INVALID_HANDLE_VALUE then False else True)"

definition SOCKET_ERROR :: int where "SOCKET_ERROR = -1"
definition ERROR_IO_PENDING :: int where "ERROR_IO_PENDING = 997"

definition BindRecv :: "int \<Rightarrow> int \<Rightarrow> bool" where
  "BindRecv nRet lastError =
     (if nRet = SOCKET_ERROR \<and> lastError \<noteq> ERROR_IO_PENDING then False else True)"

definition SetSocketOption :: "int \<Rightarrow> int \<Rightarrow> bool" where
  "SetSocketOption noDelay rcvBuf =
     (if noDelay = SOCKET_ERROR then False else if rcvBuf = SOCKET_ERROR then False else True)"

text \<open>\<open>Connect\<close>, with the results of \<open>BindIOCompletionPort\<close> and \<open>BindRecv\<close>; \<open>Clear\<close> is empty.\<close>

definition Clear :: "ClientInfo \<Rightarrow> ClientInfo" where
  "Clear c = c"

definition Connect :: "bool \<Rightarrow> bool \<Rightarrow> int \<Rightarrow> ClientInfo \<Rightarrow> bool \<times> ClientInfo" where
  "Connect bindPort bindRecv socket c =
     (let c1 = Clear (c\<lparr>sock := socket, isConnect := True\<rparr>)
      in if \<not> bindPort then (False, c1) else (bindRecv, c1))"

definition AcceptCompletion :: "bool \<Rightarrow> bool \<Rightarrow> ClientInfo \<Rightarrow> bool \<times> ClientInfo" where
  "AcceptCompletion bindPort bindRecv c =
     (let (ok, c1) = Connect bindPort bindRecv (sock c) c
      in if \<not> ok then (False, c1) else (True, c1))"

text \<open>A slot whose socket could not be bound to the port counts as connected all the same.\<close>

lemma port_failure_is_not_noticed:
  "AcceptCompletion (BindIOCompletionPort 0) bindRecv c = (bindRecv, c\<lparr>isConnect := True\<rparr>)"
  by (cases bindRecv)
    (simp_all add: AcceptCompletion_def Connect_def Clear_def BindIOCompletionPort_def INVALID_HANDLE_VALUE_def)

text \<open>
  \<open>PostAccept\<close>, with the socket \<open>WSASocket\<close> returns and whether \<open>AcceptEx\<close> fails with an error
  other than \<open>WSA_IO_PENDING\<close>.
\<close>

definition PostAccept :: "int \<Rightarrow> bool \<Rightarrow> int \<Rightarrow> ClientInfo \<Rightarrow> bool \<times> ClientInfo" where
  "PostAccept newSock acceptFails curTimeSec c =
     (let c1 = c\<lparr>latestClosedTimeSec := 2 ^ 32 - 1, sock := newSock\<rparr>
      in if newSock = INVALID_SOCKET then (False, c1)
         else if acceptFails then (False, c1)
         else (True, c1\<lparr>latestClosedTimeSec := curTimeSec\<rparr>))"

section \<open>A serial sender\<close>

datatype send_event = Give bytes IOOperation | Complete

text \<open>A run of messages and completions, and the messages it gives.\<close>

fun run_sends ::
    "(bytes \<Rightarrow> IOOperation \<Rightarrow> 'c \<Rightarrow> 'c) \<Rightarrow> ('c \<Rightarrow> 'c res) \<Rightarrow> send_event list \<Rightarrow> 'c \<Rightarrow> 'c res" where
  "run_sends give complete [] c = Inr c"
| "run_sends give complete (Give m op # es) c = run_sends give complete es (give m op c)"
| "run_sends give complete (Complete # es) c =
     bind_res (complete c) (run_sends give complete es)"

fun given :: "send_event list \<Rightarrow> OverlappedEx list" where
  "given [] = []"
| "given (Give m op # es) = \<lparr>wsaBuf = m, operation = op\<rparr> # given es"
| "given (Complete # es) = given es"

locale serial_sender =
  fixes give :: "bytes \<Rightarrow> IOOperation \<Rightarrow> 'c \<Rightarrow> 'c"
    and complete :: "'c \<Rightarrow> 'c res"
    and waiting :: "'c \<Rightarrow> OverlappedEx list"
    and handed :: "'c \<Rightarrow> OverlappedEx list"
  assumes give_waiting: "waiting (give m op c) = waiting c @ [\<lparr>wsaBuf = m, operation = op\<rparr>]"
    and give_handed: "handed (give m op c) =
          handed c @ (if waiting c = [] then [\<lparr>wsaBuf = m, operation = op\<rparr>] else [])"
    and complete_empty: "waiting c = [] \<Longrightarrow> complete c = Inl EmptyContainer"
    and complete_waiting: "waiting c = x # xs \<Longrightarrow>
          \<exists>d. complete c = Inr d \<and> waiting d = xs \<and> handed d = handed c @ take 1 xs"
begin

text \<open>What has been handed over and is complete; the first waiting message is handed over too.\<close>

definition serial :: "OverlappedEx list \<Rightarrow> 'c \<Rightarrow> bool" where
  "serial done c \<longleftrightarrow> handed c = done @ take 1 (waiting c)"

lemma serial_give: "serial ds c \<Longrightarrow> serial ds (give m op c)"
  by (cases "waiting c") (simp_all add: serial_def give_waiting give_handed)

lemma serial_complete:
  assumes "serial ds c" and "complete c = Inr d"
  shows "\<exists>x. waiting c = x # waiting d \<and> serial (ds @ [x]) d"
proof (cases "waiting c")
  case Nil
  with assms(2) complete_empty show ?thesis by simp
next
  case (Cons x xs)
  from complete_waiting [OF Cons] assms(2) have "waiting d = xs" "handed d = handed c @ take 1 xs"
    by auto
  with Cons assms(1) show ?thesis by (simp add: serial_def)
qed

text \<open>In any order of messages and completions the messages leave in the order given, and at most
  one of them is handed over and not complete.\<close>

lemma run_serial:
  assumes "run_sends give complete es c = Inr d" and "serial ds c"
  shows "\<exists>es'. serial es' d \<and> es' @ waiting d = ds @ waiting c @ given es \<and>
           length es' = length ds + length (filter (\<lambda>e. e = Complete) es)"
  using assms
proof (induction es arbitrary: c ds)
  case Nil
  then show ?case by auto
next
  case (Cons e es)
  show ?case
  proof (cases e)
    case (Give m op)
    with Cons.IH [of "give m op c" ds] Cons.prems serial_give show ?thesis by (simp add: give_waiting)
  next
    case Complete
    with Cons.prems(1) obtain c1 where c1: "complete c = Inr c1" "run_sends give complete es c1 = Inr d"
      by (auto simp: bind_res_Inr_iff)
    from serial_complete [OF Cons.prems(2) c1(1)] obtain x where
      x: "waiting c = x # waiting c1" "serial (ds @ [x]) c1" by blast
    from Cons.IH [OF c1(2) x(2)] x(1) Complete show ?thesis by simp
  qed
qed

end

interpretation sender: serial_sender SendMsg_client SendCompleted sendDataQueue wsaSends
proof
  fix c :: ClientInfo and x xs assume "sendDataQueue c = x # xs"
  then show "\<exists>d. SendCompleted c = Inr d \<and> sendDataQueue d = xs \<and> wsaSends d = wsaSends c @ take 1 xs"
    by (cases xs) (simp_all add: SendCompleted_def SendIO_def)
qed (auto simp: SendMsg_client_def SendCompleted_def SendIO_def Let_def)

end
