(* ===== verification/GameServer.thy ===== *)
theory GameServer
  imports ClientIO
begin

text \<open>
  The managers of the server: \<open>PlayerManager\<close>, \<open>SessionManager\<close> with \<open>Session\<close>, \<open>RoomManager\<close> and
  \<open>Room\<close>.  Every operation takes the state and returns the changed one, or the failure the
  source runs into.  A pointer to a room is its index in \<open>rooms\<close>.
\<close>

section \<open>Players\<close>

text \<open>\<open>std::find_if\<close> over the player table; the predicate dereferences every entry it meets.\<close>

fun find_player ::
    "(Player \<Rightarrow> bool) \<Rightarrow> (nat \<Rightarrow> Player option) \<Rightarrow> nat option list \<Rightarrow> nat \<Rightarrow> (nat option) res" where
  "find_player P h [] i = Inr None"
| "find_player P h (x # xs) i =
     bind_res (deref h x) (\<lambda>p. if P p then Inr (Some i) else find_player P h xs (Suc i))"

definition GetPlayerCount :: "Server \<Rightarrow> int" where
  "GetPlayerCount s = int (length (allPlayers s))"

text \<open>The first null entry of the table, or its end.\<close>

fun first_null :: "nat option list \<Rightarrow> nat" where
  "first_null [] = 0"
| "first_null (x # xs) = (if x = None then 0 else Suc (first_null xs))"

definition GetEmptyPlayer :: "Server \<Rightarrow> nat \<times> Server" where
  "GetEmptyPlayer s =
     (let a = nextAddress s; i = first_null (allPlayers s);
          s1 = s\<lparr>nextAddress := a + 1,
                 heap := (heap s)(a := Some (new_Player\<lparr>p_playerUID := int i\<rparr>))\<rparr>
      in if i < length (allPlayers s)
         then (a, s1\<lparr>allPlayers := (allPlayers s)[i := Some a]\<rparr>)
         else (a, s1\<lparr>allPlayers := allPlayers s @ [Some a]\<rparr>))"

definition RemovePlayer_manager :: "int \<Rightarrow> Server \<Rightarrow> Server res" where
  "RemovePlayer_manager playerUID s =
     bind_res (find_player (\<lambda>p. p_playerUID p = playerUID) (heap s) (allPlayers s) 0) (\<lambda>t.
       case t of
         None \<Rightarrow> Inr s
       | Some i \<Rightarrow>
           Inr (s\<lparr>heap := (heap s)(the (allPlayers s ! i) := None),
                  allPlayers := (allPlayers s)[i := None]\<rparr>))"

definition FindPlayer :: "int \<Rightarrow> Server \<Rightarrow> (nat option) res" where
  "FindPlayer playerUID s =
     bind_res (find_player (\<lambda>p. p_playerUID p = playerUID) (heap s) (allPlayers s) 0) (\<lambda>t.
       case t of None \<Rightarrow> Inr None | Some i \<Rightarrow> Inr (allPlayers s ! i))"

definition FindPlayerBySessionIndex :: "int \<Rightarrow> Server \<Rightarrow> (nat option) res" where
  "FindPlayerBySessionIndex index s =
     bind_res (find_player (\<lambda>p. p_sessionIndex p = index) (heap s) (allPlayers s) 0) (\<lambda>t.
       case t of None \<Rightarrow> Inr None | Some i \<Rightarrow> Inr (allPlayers s ! i))"

section \<open>Sessions\<close>

definition SetSession :: "nat \<Rightarrow> nat option \<Rightarrow> nat option \<Rightarrow> Server \<Rightarrow> Server res" where
  "SetSession i player client s =
     (let x = (sessions s ! i)\<lparr>playerInfo := player, clientInfo := client\<rparr>;
          index = s_sessionIndex x
      in bind_res (set_player player (\<lambda>p. p\<lparr>p_sessionIndex := index\<rparr>)
                     (s\<lparr>sessions := (sessions s)[i := x]\<rparr>)) (\<lambda>s1.
         bind_res (set_client client (\<lambda>c. c\<lparr>c_sessionIndex := index\<rparr>) s1) (\<lambda>s2.
         Inr (s2\<lparr>sessions := (sessions s2)[i := x\<lparr>isUse := True\<rparr>]\<rparr>))))"

text \<open>\<open>new Session(index, player, client)\<close>, added at the end of the table.\<close>

definition new_Session :: "int \<Rightarrow> Session" where
  "new_Session index =
     \<lparr>playerInfo = None, clientInfo = None, s_sessionIndex = index, isUse = False\<rparr>"

definition IsUse :: "Session \<Rightarrow> bool" where
  "IsUse x = isUse x"

fun first_unused :: "Session list \<Rightarrow> nat" where
  "first_unused [] = 0"
| "first_unused (x # xs) = (if \<not> IsUse x then 0 else Suc (first_unused xs))"

definition AddSession :: "nat option \<Rightarrow> nat option \<Rightarrow> Server \<Rightarrow> Server res" where
  "AddSession player client s =
     (let i = first_unused (sessions s)
      in if i < length (sessions s) then SetSession i player client s
         else SetSession i player client
                (s\<lparr>sessions := sessions s @ [new_Session (int (length (sessions s)) + 1)]\<rparr>))"

text \<open>\<open>sessions.at(--sessionIndex)\<close>; a session is designated by its place in the table.\<close>

definition FindSession :: "int \<Rightarrow> Server \<Rightarrow> nat res" where
  "FindSession index s =
     bind_res (at_res OutOfRange (sessions s) (index - 1)) (\<lambda>_. Inr (nat (index - 1)))"

definition CloseSession :: "nat \<Rightarrow> Server \<Rightarrow> Server res" where
  "CloseSession i s =
     bind_res (set_player (playerInfo (sessions s ! i)) (\<lambda>p. p\<lparr>p_sessionIndex := 0\<rparr>) s) (\<lambda>s1.
     bind_res (set_client (clientInfo (sessions s ! i)) (\<lambda>c. c\<lparr>c_sessionIndex := 0\<rparr>) s1) (\<lambda>s2.
     Inr (s2\<lparr>sessions := (sessions s2)
               [i := (sessions s2 ! i)\<lparr>playerInfo := None, clientInfo := None, isUse := False\<rparr>]\<rparr>)))"

definition RemoveSession :: "int \<Rightarrow> Server \<Rightarrow> Server res" where
  "RemoveSession index s =
     bind_res (at_res OutOfRange (sessions s) (index - 1)) (\<lambda>_. CloseSession (nat (index - 1)) s)"

definition SendMsg :: "nat option \<Rightarrow> bytes \<Rightarrow> IOOperation \<Rightarrow> Server \<Rightarrow> Server res" where
  "SendMsg client msg op s = set_client client (SendMsg_client msg op) s"

text \<open>The header that \<open>SendNotify\<close> puts on a packet.\<close>

definition stamp :: "int \<Rightarrow> PACKET_ID \<Rightarrow> nat \<Rightarrow> 'a PACKET_HEADER_scheme \<Rightarrow> 'a PACKET_HEADER_scheme" where
  "stamp index packetID n req =
     req\<lparr>sessionIndex := of_int index, PacketId := packet_id packetID, sequenceIndex := 0,
         PacketLength := of_nat n\<rparr>"

text \<open>The test for a null session is the source's; \<open>FindSession\<close> throws before it can hold.\<close>

definition SendNotify ::
    "int \<Rightarrow> PACKET_ID \<Rightarrow> nat \<Rightarrow> ('a BASE_PACKET_scheme \<Rightarrow> bytes) \<Rightarrow> 'a BASE_PACKET_scheme \<Rightarrow>
     Server \<Rightarrow> Server res" where
  "SendNotify index packetID size_of enc req s =
     bind_res (FindSession index s) (\<lambda>i.
       SendMsg (clientInfo (sessions s ! i)) (enc (stamp index packetID size_of req)) NOTIFY s)"

section \<open>Rooms\<close>

definition CreateRoom :: "Server \<Rightarrow> (int \<times> Server) res" where
  "CreateRoom s =
     bind_res (int32_res (roomIndex s + 1)) (\<lambda>next.
       Inr (roomIndex s,
            s\<lparr>rooms := rooms s @ [new_Room (roomIndex s) ROOM_MAX_PLAYER], roomIndex := next\<rparr>))"

fun find_room :: "int \<Rightarrow> Room list \<Rightarrow> nat option" where
  "find_room index [] = None"
| "find_room index (r # rs) =
     (if r_roomIndex r = index then Some 0 else map_option Suc (find_room index rs))"

definition FindRoom :: "int \<Rightarrow> Server \<Rightarrow> nat option" where
  "FindRoom index s = find_room index (rooms s)"

definition RemoveRoom :: "int \<Rightarrow> Server \<Rightarrow> Server" where
  "RemoveRoom index s =
     (case find_room index (rooms s) of
        None \<Rightarrow> s
      | Some i \<Rightarrow> s\<lparr>rooms := take i (rooms s) @ drop (Suc i) (rooms s)\<rparr>)"

definition GetCurrentPlayerCnt :: "Room \<Rightarrow> nat" where
  "GetCurrentPlayerCnt r = length (players r)"

text \<open>The listing of a room; \<open>isPlaying\<close> keeps its default.\<close>

definition room_info :: "Room \<Rightarrow> RoomInfo" where
  "room_info r =
     default_RoomInfo\<lparr>ri_currentPlayerCnt := of_nat (GetCurrentPlayerCnt r),
       ri_maxPlayerCnt := of_int (maxPlayerCnt r), ri_roomIndex := of_int (r_roomIndex r)\<rparr>"

definition GetRoomList :: "int \<Rightarrow> Server \<Rightarrow> (RoomInfo list) res" where
  "GetRoomList page s =
     bind_res (int32_res (page * int ROOM_CNT_PER_PAGE)) (\<lambda>end0.
       let endIndex = (if size_t end0 > int (length (rooms s)) then int (length (rooms s)) else end0);
           curIndex = (if endIndex - 8 < 0 then 0 else endIndex - 8);
           result = map (\<lambda>i. room_info (rooms s ! i)) [nat curIndex..<nat endIndex]
       in Inr (if length result < ROOM_CNT_PER_PAGE
               then result @ replicate (ROOM_CNT_PER_PAGE - length result) default_RoomInfo
               else result))"

section \<open>Operations of a room\<close>

definition set_room :: "nat \<Rightarrow> (Room \<Rightarrow> Room) \<Rightarrow> Server \<Rightarrow> Server" where
  "set_room i g s = s\<lparr>rooms := (rooms s)[i := g (rooms s ! i)]\<rparr>"

text \<open>One iteration of the loop of \<open>AddPlayer\<close>: the player \<open>r\<close> in the room is told about the new one
  and the new one about \<open>r\<close>.\<close>

definition greet :: "nat option \<Rightarrow> RES_ROOM_ENTER \<Rightarrow> nat \<Rightarrow> Server \<Rightarrow> Server res" where
  "greet enterUser res r s =
     bind_res (deref (heap s) (Some r)) (\<lambda>p.
     bind_res (SendNotify (p_sessionIndex p) PID_RES_ROOM_ENTER sizeof_RES_ROOM_ENTER
                 enc_RES_ROOM_ENTER res s) (\<lambda>s1.
     let newUserRes = default_RES_ROOM_ENTER\<lparr>enterSessionIndex := of_int (p_sessionIndex p)\<rparr> in
     bind_res (deref (heap s1) enterUser) (\<lambda>e.
     SendNotify (p_sessionIndex e) PID_RES_ROOM_ENTER sizeof_RES_ROOM_ENTER
       enc_RES_ROOM_ENTER newUserRes s1)))"

definition AddPlayer :: "nat \<Rightarrow> nat option \<Rightarrow> Server \<Rightarrow> Server res" where
  "AddPlayer i enterUser s =
     (let r = rooms s ! i
      in if int (length (players r)) \<ge> size_t (maxPlayerCnt r) then Inr s
         else
           bind_res (deref (heap s) enterUser) (\<lambda>e.
           let res = default_RES_ROOM_ENTER\<lparr>enterSessionIndex := of_int (p_sessionIndex e)\<rparr> in
           bind_res (fold_res (greet enterUser res) (players r) s) (\<lambda>s1.
           bind_res (set_player enterUser (\<lambda>p. p\<lparr>p_roomIndex := r_roomIndex r\<rparr>) s1) (\<lambda>s2.
           Inr (set_room i (\<lambda>r. r\<lparr>players := players r @ [the enterUser]\<rparr>) s2)))))"

definition CanEnterPlayer :: "Room \<Rightarrow> ResultID" where
  "CanEnterPlayer r =
     (if int (GetCurrentPlayerCnt r) \<ge> size_t (maxPlayerCnt r) then Result_ROOM_MAX_PLAYER
      else if r_isPlaying r then Result_ROOM_IS_PLAYING
      else Result_SUCCESS)"

text \<open>\<open>std::find_if\<close> over the players of a room; they are never null.\<close>

fun find_in_room :: "int \<Rightarrow> (nat \<Rightarrow> Player option) \<Rightarrow> nat list \<Rightarrow> nat \<Rightarrow> (nat option) res" where
  "find_in_room index h [] i = Inr None"
| "find_in_room index h (a # as) i =
     bind_res (deref h (Some a)) (\<lambda>p.
       if p_sessionIndex p = index then Inr (Some i) else find_in_room index h as (Suc i))"

definition RemovePlayer :: "nat \<Rightarrow> int \<Rightarrow> Server \<Rightarrow> Server res" where
  "RemovePlayer i index s =
     bind_res (find_in_room index (heap s) (players (rooms s ! i)) 0) (\<lambda>t.
       case t of
         None \<Rightarrow> Inr s
       | Some k \<Rightarrow>
           bind_res (set_player (Some (players (rooms s ! i) ! k)) (\<lambda>p. p\<lparr>p_roomIndex := 0\<rparr>) s) (\<lambda>s1.
           Inr (set_room i (\<lambda>r. r\<lparr>players := take k (players r) @ drop (Suc k) (players r)\<rparr>) s1)))"

definition FindUser :: "nat \<Rightarrow> int \<Rightarrow> Server \<Rightarrow> (nat option) res" where
  "FindUser i index s =
     bind_res (find_in_room index (heap s) (players (rooms s ! i)) 0) (\<lambda>t.
       case t of None \<Rightarrow> Inr None | Some k \<Rightarrow> Inr (Some (players (rooms s ! i) ! k)))"

text \<open>The seven shapes in the order of the source; \<open>shuffle n\<close> is the \<open>n\<close>-th call of
  \<open>std::random_shuffle\<close>.\<close>

definition seven_shapes :: "ShapeType list" where
  "seven_shapes = [Shape_Z, Shape_L, Shape_O, Shape_S, Shape_I, Shape_J, Shape_T]"

type_synonym shuffle = "nat \<Rightarrow> ShapeType list \<Rightarrow> ShapeType list"

definition GenerateFallingBlocks :: "shuffle \<Rightarrow> nat \<Rightarrow> Server \<Rightarrow> Server" where
  "GenerateFallingBlocks shuffle i s =
     set_room i (\<lambda>r. r\<lparr>fallingBlocks := fallingBlocks r @ map ((!) (shuffle (shuffles s) seven_shapes)) [0..<7]\<rparr>)
       (s\<lparr>shuffles := shuffles s + 1\<rparr>)"

text \<open>The loop \<open>while (index >= fallingBlocks.size()) GenerateFallingBlocks();\<close>.\<close>

lemma rooms_GenerateFallingBlocks:
  assumes "i < length (rooms s)"
  shows "length (fallingBlocks (rooms (GenerateFallingBlocks sh i s) ! i))
           = length (fallingBlocks (rooms s ! i)) + 7"
    and "length (rooms (GenerateFallingBlocks sh i s)) = length (rooms s)"
  using assms by (simp_all add: GenerateFallingBlocks_def set_room_def)

function fill_blocks :: "shuffle \<Rightarrow> nat \<Rightarrow> int \<Rightarrow> Server \<Rightarrow> Server" where
  "fill_blocks shuffle i index s =
     (if i < length (rooms s) \<and> index \<ge> int (length (fallingBlocks (rooms s ! i)))
      then fill_blocks shuffle i index (GenerateFallingBlocks shuffle i s) else s)"
  by pat_completeness auto
termination
  by (relation "measure (\<lambda>(sh, i, index, s). nat (index + 1 - int (length (fallingBlocks (rooms s ! i)))))")
     (auto simp: rooms_GenerateFallingBlocks)

declare fill_blocks.simps [simp del]

definition GetFallingBlock ::
    "shuffle \<Rightarrow> nat \<Rightarrow> nat option \<Rightarrow> int \<Rightarrow> Server \<Rightarrow> (ShapeType list \<times> Server) res" where
  "GetFallingBlock shuffle i player cnt s =
     bind_res (deref (heap s) player) (\<lambda>p.
     bind_res (int32_res (p_fallingBlockIndex p + cnt)) (\<lambda>index.
     bind_res (set_player player (\<lambda>p. p\<lparr>p_fallingBlockIndex := index\<rparr>) s) (\<lambda>s1.
     let s2 = fill_blocks shuffle i (size_t index) s1; bs = fallingBlocks (rooms s2 ! i) in
     if 0 \<le> index - cnt \<and> 0 \<le> cnt \<and> index \<le> int (length bs)
     then Inr (take (nat cnt) (drop (nat (index - cnt)) bs), s2)
     else Inl OutOfBounds)))"

text \<open>\<open>res.newBlocks[i] = result[i]\<close> for all \<open>i < PACKET_FALLING_BLOCK_SIZE\<close>.\<close>

definition copy_blocks :: "ShapeType list \<Rightarrow> (ShapeType list) res" where
  "copy_blocks result =
     (if length result < PACKET_FALLING_BLOCK_SIZE then Inl OutOfBounds
      else Inr (take PACKET_FALLING_BLOCK_SIZE result))"

text \<open>One iteration of the loop of \<open>GameStart\<close>, for the player \<open>r\<close>.\<close>

definition start_player :: "shuffle \<Rightarrow> nat \<Rightarrow> int \<Rightarrow> nat \<Rightarrow> Server \<Rightarrow> Server res" where
  "start_player shuffle i index r s =
     bind_res (deref (heap s) (Some r)) (\<lambda>p.
       if p_sessionIndex p = index then Inr s
       else
         bind_res (set_player (Some r) (\<lambda>p. p\<lparr>p_fallingBlockIndex := 0\<rparr>) s) (\<lambda>s1.
         bind_res (GetFallingBlock shuffle i (Some r) (int PACKET_FALLING_BLOCK_SIZE) s1) (\<lambda>(result, s2).
         bind_res (copy_blocks result) (\<lambda>blocks.
         SendNotify (p_sessionIndex p) PID_RES_GAME_START sizeof_RES_GAME_START enc_RES_GAME_START
           (default_RES_GAME_START\<lparr>newBlocks := blocks\<rparr>) s2))))"

definition GameStart :: "shuffle \<Rightarrow> nat \<Rightarrow> int \<Rightarrow> Server \<Rightarrow> Server res" where
  "GameStart shuffle i index s =
     (let s1 = set_room i (\<lambda>r. r\<lparr>r_isPlaying := True, fallingBlocks := []\<rparr>) s;
          s2 = GenerateFallingBlocks shuffle i s1
      in fold_res (start_player shuffle i index) (players (rooms s2 ! i)) s2)"

text \<open>One iteration of the loops of \<open>GameStop\<close> and \<open>AddKeyInput\<close>: everybody but the sender is told.\<close>

definition notify_other ::
    "int \<Rightarrow> PACKET_ID \<Rightarrow> nat \<Rightarrow> ('a BASE_PACKET_scheme \<Rightarrow> bytes) \<Rightarrow> 'a BASE_PACKET_scheme \<Rightarrow>
     nat \<Rightarrow> Server \<Rightarrow> Server res" where
  "notify_other index pid size_of enc res r s =
     bind_res (deref (heap s) (Some r)) (\<lambda>p.
       if p_sessionIndex p = index then Inr s
       else SendNotify (p_sessionIndex p) pid size_of enc res s)"

definition GameStop :: "nat \<Rightarrow> int \<Rightarrow> Server \<Rightarrow> Server res" where
  "GameStop i index s =
     (let s1 = set_room i (\<lambda>r. r\<lparr>r_isPlaying := False\<rparr>) s
      in fold_res (notify_other index PID_RES_GAME_STOP sizeof_BASE enc_BASE default_BASE_PACKET)
           (players (rooms s1 ! i)) s1)"

text \<open>\<open>inputs\<close> is the array of the request and \<open>cnt\<close> the count it claims; the packet for the others
  holds that many of them.\<close>

definition key_inputs :: "InputType list \<Rightarrow> int \<Rightarrow> RES_GAME_INPUT" where
  "key_inputs inputs cnt = default_RES_GAME_INPUT
     \<lparr>res_inputs := take (nat cnt) inputs @ drop (nat cnt) (res_inputs default_RES_GAME_INPUT)\<rparr>"

text \<open>The packet the server relays for a request in the byte form in which it arrives.\<close>

definition relayed :: "bytes \<Rightarrow> RES_GAME_INPUT" where
  "relayed bs = (let req = dec_REQ_GAME_INPUT bs in key_inputs (req_inputs req) (sint (inputCnt req)))"

definition AddKeyInput :: "nat \<Rightarrow> int \<Rightarrow> InputType list \<Rightarrow> int \<Rightarrow> Server \<Rightarrow> Server res" where
  "AddKeyInput i index inputs cnt s =
     (if cnt = 0 then Inr s
      else if cnt < 0 \<or> int (length inputs) < cnt \<or> int PACKET_KEY_INPUT_SIZE < cnt
      then Inl OutOfBounds
      else fold_res (notify_other index PID_RES_GAME_INPUT sizeof_RES_GAME_INPUT enc_RES_GAME_INPUT
                       (key_inputs inputs cnt))
             (players (rooms s ! i)) s)"

end
