(* ===== verification/Handlers.thy ===== *)
theory Handlers
  imports GameServer
begin

text \<open>
  The request handlers of the server (\<open>Handler/\<close>) and the part of \<open>PacketManager\<close> that dispatches
  to them.  \<open>BaseHandler<Req, Res>\<close> is \<open>ReadReq\<close> and \<open>WriteResponse\<close>, with the layouts of \<open>Req\<close> and
  \<open>Res\<close> as arguments; a handler's \<open>Logic\<close> is one definition, which gets the decoded request and
  the player pointer and changes the handler's own \<open>res\<close> in the state.
\<close>

section \<open>The base handler\<close>

text \<open>The header of the answer: the sequence and session of the request and the next packet id.\<close>

definition answer_header ::
    "nat \<Rightarrow> 'a PACKET_HEADER_scheme \<Rightarrow> 'b PACKET_HEADER_scheme \<Rightarrow> 'b PACKET_HEADER_scheme" where
  "answer_header sizeof_Res req res =
     res\<lparr>sequenceIndex := sequenceIndex req, sessionIndex := sessionIndex req,
         PacketId := PacketId req + 1, PacketLength := of_nat sizeof_Res\<rparr>"

text \<open>\<open>std::copy\<close> reads \<open>sizeof(Req)\<close> bytes, however long the packet is.  \<open>upd\<close> updates the
  handler's \<open>res\<close>.\<close>

definition ReadReq ::
    "nat \<Rightarrow> (bytes \<Rightarrow> 'a PACKET_HEADER_scheme) \<Rightarrow> nat \<Rightarrow>
     (('b PACKET_HEADER_scheme \<Rightarrow> 'b PACKET_HEADER_scheme) \<Rightarrow> Server \<Rightarrow> Server) \<Rightarrow>
     bytes \<Rightarrow> Server \<Rightarrow> ('a PACKET_HEADER_scheme \<times> Server) res" where
  "ReadReq sizeof_Req dec sizeof_Res upd packet s =
     (if length packet < sizeof_Req then Inl OutOfBounds
      else let req = dec (take sizeof_Req packet)
           in Inr (req, upd (answer_header sizeof_Res req) s))"

text \<open>\<open>ReadReq\<close>, the player lookup, \<open>Logic\<close>, \<open>WriteResponse\<close> and \<open>SendPacketFunc\<close>, as
  \<open>ProcessPacket\<close> calls them; \<open>get\<close> reads the handler's \<open>res\<close>.\<close>

definition SendPacketFunc :: "int \<Rightarrow> bytes \<Rightarrow> Server \<Rightarrow> Server res" where
  "SendPacketFunc index msg s =
     bind_res (FindSession index s) (\<lambda>i.
     case clientInfo (sessions s ! i) of
       None \<Rightarrow> Inl AssertFailed
     | Some c \<Rightarrow> SendMsg (Some c) msg SEND s)"

definition Handle ::
    "nat \<Rightarrow> (bytes \<Rightarrow> 'a PACKET_HEADER_scheme) \<Rightarrow> nat \<Rightarrow> ('b PACKET_HEADER_scheme \<Rightarrow> bytes) \<Rightarrow>
     (Server \<Rightarrow> 'b PACKET_HEADER_scheme) \<Rightarrow>
     (('b PACKET_HEADER_scheme \<Rightarrow> 'b PACKET_HEADER_scheme) \<Rightarrow> Server \<Rightarrow> Server) \<Rightarrow>
     ('a PACKET_HEADER_scheme \<Rightarrow> nat option \<Rightarrow> Server \<Rightarrow> Server res) \<Rightarrow>
     int \<Rightarrow> bytes \<Rightarrow> Server \<Rightarrow> Server res" where
  "Handle sizeof_Req dec sizeof_Res enc get upd logic index packet s =
     bind_res (ReadReq sizeof_Req dec sizeof_Res upd packet s) (\<lambda>(req, s1).
     bind_res (FindPlayerBySessionIndex index s1) (\<lambda>player.
     bind_res (logic req player s1) (\<lambda>s2.
     SendPacketFunc index (enc (get s2)) s2)))"

section \<open>The logic of the handlers\<close>

definition ReqLogin :: "REQ_LOGIN \<Rightarrow> nat option \<Rightarrow> Server \<Rightarrow> Server res" where
  "ReqLogin req player s =
     bind_res (deref (heap s) player) (\<lambda>p.
       Inr (s\<lparr>resLogin := (resLogin s)\<lparr>newSessionID := of_int (p_sessionIndex p),
                                       resultID := Result_SUCCESS\<rparr>\<rparr>))"

definition ReqFallingBlock :: "shuffle \<Rightarrow> REQ_FALLING_BLOCK \<Rightarrow> nat option \<Rightarrow> Server \<Rightarrow> Server res" where
  "ReqFallingBlock shuffle req player s =
     bind_res (deref (heap s) player) (\<lambda>p.
       case FindRoom (p_roomIndex p) s of
         None \<Rightarrow> Inr s
       | Some i \<Rightarrow>
           bind_res (GetFallingBlock shuffle i player (int PACKET_FALLING_BLOCK_SIZE) s) (\<lambda>(bs, s1).
           bind_res (copy_blocks bs) (\<lambda>blocks.
           Inr (s1\<lparr>resFallingBlock := (resFallingBlock s1)\<lparr>newBlocks := blocks\<rparr>\<rparr>))))"

definition ReqGameInput :: "REQ_GAME_INPUT \<Rightarrow> nat option \<Rightarrow> Server \<Rightarrow> Server res" where
  "ReqGameInput req player s =
     bind_res (deref (heap s) player) (\<lambda>p.
       case FindRoom (p_roomIndex p) s of
         None \<Rightarrow> Inr s
       | Some i \<Rightarrow> AddKeyInput i (p_sessionIndex p) (req_inputs req) (sint (inputCnt req)) s)"

definition ReqGameStart :: "shuffle \<Rightarrow> REQ_GAME_START \<Rightarrow> nat option \<Rightarrow> Server \<Rightarrow> Server res" where
  "ReqGameStart shuffle req player s =
     bind_res (deref (heap s) player) (\<lambda>p.
       case FindRoom (p_roomIndex p) s of
         None \<Rightarrow> Inl NullDeref
       | Some i \<Rightarrow>
           bind_res (GameStart shuffle i (p_sessionIndex p) s) (\<lambda>s1.
           bind_res (set_player player (\<lambda>p. p\<lparr>p_fallingBlockIndex := 0\<rparr>) s1) (\<lambda>s2.
           bind_res (GetFallingBlock shuffle i player (int PACKET_FALLING_BLOCK_SIZE) s2) (\<lambda>(bs, s3).
           bind_res (copy_blocks bs) (\<lambda>blocks.
           Inr (s3\<lparr>resGameStart := (resGameStart s3)\<lparr>newBlocks := blocks\<rparr>\<rparr>))))))"

definition ReqGameStop :: "REQ_GAME_STOP \<Rightarrow> nat option \<Rightarrow> Server \<Rightarrow> Server res" where
  "ReqGameStop req player s =
     bind_res (deref (heap s) player) (\<lambda>p.
       case FindRoom (p_roomIndex p) s of
         None \<Rightarrow> Inl NullDeref
       | Some i \<Rightarrow> GameStop i (p_sessionIndex p) s)"

definition ReqRoomCanEnter :: "REQ_ROOM_CAN_ENTER \<Rightarrow> nat option \<Rightarrow> Server \<Rightarrow> Server res" where
  "ReqRoomCanEnter req player s =
     (case FindRoom (sint (req_roomIndex req)) s of
        None \<Rightarrow> Inr (s\<lparr>resRoomCanEnter := (resRoomCanEnter s)\<lparr>resultID := Result_ROOM_NOT_FOUND\<rparr>\<rparr>)
      | Some i \<Rightarrow>
          Inr (s\<lparr>resRoomCanEnter := (resRoomCanEnter s)\<lparr>resultID := CanEnterPlayer (rooms s ! i)\<rparr>\<rparr>))"

definition ReqRoomCreate :: "REQ_ROOM_CREATE \<Rightarrow> nat option \<Rightarrow> Server \<Rightarrow> Server res" where
  "ReqRoomCreate req player s =
     bind_res (CreateRoom s) (\<lambda>(index, s1).
       Inr (s1\<lparr>resRoomCreate := (resRoomCreate s1)\<lparr>newRoomIndex := of_int index\<rparr>\<rparr>))"

definition ReqRoomEnter :: "REQ_ROOM_ENTER \<Rightarrow> nat option \<Rightarrow> Server \<Rightarrow> Server res" where
  "ReqRoomEnter req player s =
     (case FindRoom (sint (req_roomIndex req)) s of
        None \<Rightarrow> Inr (s\<lparr>resRoomEnter := (resRoomEnter s)\<lparr>resultID := Result_ROOM_NOT_FOUND\<rparr>\<rparr>)
      | Some i \<Rightarrow>
          bind_res (AddPlayer i player s) (\<lambda>s1.
          bind_res (deref (heap s1) player) (\<lambda>p.
          Inr (s1\<lparr>resRoomEnter :=
                    (resRoomEnter s1)\<lparr>enterSessionIndex := of_int (p_sessionIndex p)\<rparr>\<rparr>))))"

definition ReqRoomLeave :: "REQ_ROOM_LEAVE \<Rightarrow> nat option \<Rightarrow> Server \<Rightarrow> Server res" where
  "ReqRoomLeave req player s =
     bind_res (deref (heap s) player) (\<lambda>p.
       case FindRoom (p_roomIndex p) s of
         None \<Rightarrow> Inr s
       | Some i \<Rightarrow>
           bind_res (RemovePlayer i (p_sessionIndex p) s) (\<lambda>s1.
             if GetCurrentPlayerCnt (rooms s1 ! i) = 0
             then Inr (RemoveRoom (r_roomIndex (rooms s1 ! i)) s1) else Inr s1))"

text \<open>The listing always has \<open>ROOM_CNT_PER_PAGE\<close> entries, so the loop stays inside \<open>roomInfo\<close>.\<close>

definition ReqRoomList :: "REQ_ROOM_LIST \<Rightarrow> nat option \<Rightarrow> Server \<Rightarrow> Server res" where
  "ReqRoomList req player s =
     bind_res (GetRoomList (sint (roomPage req)) s) (\<lambda>infos.
       if length infos > ROOM_CNT_PER_PAGE then Inl OutOfBounds
       else Inr (s\<lparr>resRoomList :=
                     (resRoomList s)\<lparr>roomInfo := infos @ drop (length infos) (roomInfo (resRoomList s)),
                                     resultID := Result_SUCCESS\<rparr>\<rparr>))"

section \<open>Dispatch\<close>

datatype HandlerKind =
    H_Login | H_FallingBlock | H_GameInput | H_GameStart | H_GameStop
  | H_RoomCanEnter | H_RoomCreate | H_RoomEnter | H_RoomLeave | H_RoomList

text \<open>\<open>mRecvFuntionDictionary\<close>, as \<open>Init\<close> fills it.\<close>

definition handlers :: "(16 word \<times> HandlerKind) list" where
  "handlers =
     [(packet_id PID_REQ_LOGIN, H_Login),
      (packet_id PID_REQ_FALLING_BLOCK, H_FallingBlock),
      (packet_id PID_REQ_GAME_INPUT, H_GameInput),
      (packet_id PID_REQ_GAME_START, H_GameStart),
      (packet_id PID_REQ_GAME_STOP, H_GameStop),
      (packet_id PID_REQ_ROOM_CAN_ENTER, H_RoomCanEnter),
      (packet_id PID_REQ_ROOM_CREATE, H_RoomCreate),
      (packet_id PID_REQ_ROOM_ENTER, H_RoomEnter),
      (packet_id PID_REQ_ROOM_LEAVE, H_RoomLeave),
      (packet_id PID_REQ_ROOM_LIST, H_RoomList)]"

definition run_handler :: "shuffle \<Rightarrow> HandlerKind \<Rightarrow> int \<Rightarrow> bytes \<Rightarrow> Server \<Rightarrow> Server res" where
  "run_handler shuffle k =
     (case k of
        H_Login \<Rightarrow>
          Handle sizeof_BASE dec_BASE sizeof_RES_LOGIN enc_RES_LOGIN resLogin resLogin_update ReqLogin
      | H_FallingBlock \<Rightarrow>
          Handle sizeof_BASE dec_BASE sizeof_RES_GAME_START enc_RES_GAME_START resFallingBlock
            resFallingBlock_update (ReqFallingBlock shuffle)
      | H_GameInput \<Rightarrow>
          Handle sizeof_REQ_GAME_INPUT dec_REQ_GAME_INPUT sizeof_RES_GAME_INPUT enc_RES_GAME_INPUT
            resGameInput resGameInput_update ReqGameInput
      | H_GameStart \<Rightarrow>
          Handle sizeof_BASE dec_BASE sizeof_RES_GAME_START enc_RES_GAME_START resGameStart
            resGameStart_update (ReqGameStart shuffle)
      | H_GameStop \<Rightarrow>
          Handle sizeof_BASE dec_BASE sizeof_BASE enc_BASE resGameStop resGameStop_update ReqGameStop
      | H_RoomCanEnter \<Rightarrow>
          Handle sizeof_REQ_ROOM_ENTER dec_REQ_ROOM_ENTER sizeof_BASE enc_BASE resRoomCanEnter
            resRoomCanEnter_update ReqRoomCanEnter
      | H_RoomCreate \<Rightarrow>
          Handle sizeof_BASE dec_BASE sizeof_RES_ROOM_CREATE enc_RES_ROOM_CREATE resRoomCreate
            resRoomCreate_update ReqRoomCreate
      | H_RoomEnter \<Rightarrow>
          Handle sizeof_REQ_ROOM_ENTER dec_REQ_ROOM_ENTER sizeof_RES_ROOM_ENTER enc_RES_ROOM_ENTER
            resRoomEnter resRoomEnter_update ReqRoomEnter
      | H_RoomLeave \<Rightarrow>
          Handle sizeof_BASE dec_BASE sizeof_BASE enc_BASE resRoomLeave resRoomLeave_update ReqRoomLeave
      | H_RoomList \<Rightarrow>
          Handle sizeof_REQ_ROOM_LIST dec_REQ_ROOM_LIST sizeof_RES_ROOM_LIST enc_RES_ROOM_LIST
            resRoomList resRoomList_update ReqRoomList)"

text \<open>\<open>mRecvFuntionDictionary.at\<close> throws for an unknown packet id.\<close>

definition ProcessPacket :: "shuffle \<Rightarrow> int \<Rightarrow> 16 word \<Rightarrow> bytes \<Rightarrow> Server \<Rightarrow> Server res" where
  "ProcessPacket shuffle index packetID packet s =
     bind_res (of_option OutOfRange (map_of handlers packetID)) (\<lambda>k.
       run_handler shuffle k index packet s)"

definition QueueRecvPacket :: "PacketInfo \<Rightarrow> Server \<Rightarrow> Server" where
  "QueueRecvPacket packetData s = s\<lparr>recvPackets := recvPackets s @ [packetData]\<rparr>"

definition DequeRecvPacket :: "Server \<Rightarrow> PacketInfo option \<times> Server" where
  "DequeRecvPacket s =
     (case recvPackets s of
        [] \<Rightarrow> (None, s)
      | p # ps \<Rightarrow> (Some p, s\<lparr>recvPackets := ps\<rparr>))"

text \<open>One iteration of \<open>PacketThread\<close>.\<close>

definition PacketThread :: "shuffle \<Rightarrow> Server \<Rightarrow> Server res" where
  "PacketThread shuffle s =
     (let (packetData, s1) = DequeRecvPacket s
      in case packetData of
           None \<Rightarrow> Inr s1
         | Some p \<Rightarrow> ProcessPacket shuffle (pi_SessionIndex p) (pi_PacketId p) (pDataPtr p) s1)"

end
