(* ===== verification/IOServer.thy ===== *)
theory IOServer
  imports Handlers
begin

text \<open>
  \<open>IOCPServer\<close> and \<open>IOCPTetrisServer\<close>: the accept loop, the worker threads that take I/O
  completions from the port, the callbacks \<open>OnConnect\<close>, \<open>OnClose\<close> and \<open>OnReceive\<close>, and the
  process thread.

  What \<open>GetQueuedCompletionStatus\<close> delivers is an event.  One iteration of a thread's loop is one
  step; the steps of the threads interleave in any order.  (A step is atomic in the model.  The
  sources lock the queues and the packet buffers but not the managers.)
  A step is \<open>None\<close> if it never ends and \<open>Some (Inl e)\<close> if it fails.
\<close>

section \<open>Clients\<close>

fun find_client :: "(ClientInfo \<Rightarrow> bool) \<Rightarrow> ClientInfo list \<Rightarrow> nat option" where
  "find_client P [] = None"
| "find_client P (c # cs) = (if P c then Some 0 else map_option Suc (find_client P cs))"

definition FindEmptyClientInfo :: "Server \<Rightarrow> nat option" where
  "FindEmptyClientInfo s = find_client (\<lambda>c. \<not> isConnect c) (clients s)"

definition FindClientInfo :: "int \<Rightarrow> Server \<Rightarrow> nat option" where
  "FindClientInfo index s = find_client (\<lambda>c. clientIndex c = index) (clients s)"

definition RE_USE_SESSION_WAIT_TIMESEC :: int where "RE_USE_SESSION_WAIT_TIMESEC = 3"

text \<open>
  One pass of \<open>AcceptThread\<close> at the time \<open>now\<close>; \<open>env i\<close> is what \<open>WSASocket\<close> and \<open>AcceptEx\<close> do for
  slot \<open>i\<close>.
\<close>

definition accept_slot :: "int \<Rightarrow> int \<times> bool \<Rightarrow> ClientInfo \<Rightarrow> ClientInfo" where
  "accept_slot now env c =
     (if isConnect c then c
      else if now < latestClosedTimeSec c then c
      else if now - latestClosedTimeSec c \<le> RE_USE_SESSION_WAIT_TIMESEC then c
      else snd (PostAccept (fst env) (snd env) now c))"

definition AcceptThread :: "int \<Rightarrow> (nat \<Rightarrow> int \<times> bool) \<Rightarrow> Server \<Rightarrow> Server" where
  "AcceptThread now env s =
     s\<lparr>clients := map (\<lambda>i. accept_slot now (env i) (clients s ! i)) [0..<length (clients s)]\<rparr>"

definition Send :: "int \<Rightarrow> bytes \<Rightarrow> Server \<Rightarrow> Server res" where
  "Send index pData s = SendMsg (FindClientInfo index s) pData SEND s"

definition Disconnect :: "int \<Rightarrow> int \<Rightarrow> Server \<Rightarrow> Server res" where
  "Disconnect now index s = set_client (FindClientInfo index s) (Disconnect_client now) s"

section \<open>Callbacks\<close>

definition OnConnect :: "nat \<Rightarrow> Server \<Rightarrow> Server res" where
  "OnConnect c s =
     (let (a, s1) = GetEmptyPlayer s
      in bind_res (deref (heap s1) (Some a)) (\<lambda>p.
         bind_res (set_client (Some c) (\<lambda>ci. ci\<lparr>c_playerUID := p_playerUID p\<rparr>) s1) (\<lambda>s2.
         AddSession (Some a) (Some c) s2)))"

definition OnClose :: "int \<Rightarrow> Server \<Rightarrow> Server res" where
  "OnClose index s =
     (case FindClientInfo index s of
        None \<Rightarrow> Inl NullDeref
      | Some c \<Rightarrow>
          (let sessionIndex = c_sessionIndex (clients s ! c)
           in bind_res (FindSession sessionIndex s) (\<lambda>i.
              bind_res (deref (heap s) (playerInfo (sessions s ! i))) (\<lambda>p.
              bind_res (RemoveSession sessionIndex s) (\<lambda>s1.
              RemovePlayer_manager (p_playerUID p) s1)))))"

text \<open>
  The header is read from the copy of the packet, which is as long as its length byte says.  Of a
  packet shorter than the header's first four bytes the rest is read from behind the copy, which the
  allocator leaves readable and indeterminate: the model takes zeros for it.
\<close>

definition OnReceive :: "int \<Rightarrow> 16 word \<Rightarrow> bytes \<Rightarrow> Server \<Rightarrow> Server res" where
  "OnReceive index recvSize recvData s =
     Inr (QueueRecvPacket
       \<lparr>DataSize = recvSize, pi_PacketId = dec16 (fld 2 2 recvData),
        pi_SessionIndex = index, pDataPtr = recvData\<rparr> s)"

text \<open>The body of the receive loop: \<open>packetHeader->PacketLength\<close> is the size it passes on.\<close>

definition receive_packet :: "int \<Rightarrow> bytes \<Rightarrow> Server \<Rightarrow> Server res" where
  "receive_packet index readBuf s = OnReceive index (dec16 (fld 0 2 readBuf)) readBuf s"

definition CloseSocket :: "int \<Rightarrow> nat \<Rightarrow> Server \<Rightarrow> Server res" where
  "CloseSocket now c s =
     (if \<not> isConnect (clients s ! c) then Inr s
      else
        let index = clientIndex (clients s ! c) in
        bind_res (set_client (Some c) (Disconnect_client now) s) (OnClose index))"

section \<open>The worker threads\<close>

datatype completion =
    PortClosed
  | NoOverlapped
  | Failed "nat option"
  | Accepted int bool bool
  | Received nat bytes
  | Sent nat
  | UnknownOperation

definition OnRecv :: "nat \<Rightarrow> bytes \<Rightarrow> Server \<Rightarrow> Server res" where
  "OnRecv c buf s =
     (if c < length (clients s) then
        bind_res (Write (Some buf) (int (length buf)) (packetBuffer (clients s ! c)))
          (\<lambda>pb. set_client (Some c) (\<lambda>ci. ci\<lparr>packetBuffer := pb\<rparr>) s)
      else Inl OutOfBounds)"

definition work_received :: "nat \<Rightarrow> bytes \<Rightarrow> Server \<Rightarrow> Server res option" where
  "work_received c buf s =
     (case bind_res (OnRecv c buf s)
             (\<lambda>s1. if c_sessionIndex (clients s1 ! c) = 0 then OnConnect c s1 else Inr s1) of
        Inl e \<Rightarrow> Some (Inl e)
      | Inr s2 \<Rightarrow>
          (case ReadLoop Read (receive_packet (c_sessionIndex (clients s2 ! c)))
                  (packetBuffer (clients s2 ! c)) s2 of
             None \<Rightarrow> None
           | Some r \<Rightarrow>
               Some (bind_res r (\<lambda>(pb, s3). set_client (Some c) (\<lambda>ci. ci\<lparr>packetBuffer := pb\<rparr>) s3))))"

definition work_accepted :: "int \<Rightarrow> int \<Rightarrow> bool \<Rightarrow> bool \<Rightarrow> Server \<Rightarrow> Server res" where
  "work_accepted now index bindPort bindRecv s =
     (case FindClientInfo index s of
        None \<Rightarrow> Inl NullDeref
      | Some c \<Rightarrow>
          (let (ok, ci) = AcceptCompletion bindPort bindRecv (clients s ! c);
               s1 = s\<lparr>clients := (clients s)[c := ci]\<rparr>
           in if ok then Inr (s1\<lparr>clientNumber := clientNumber s1 + 1\<rparr>)
              else CloseSocket now c s1))"

definition work_sent :: "nat \<Rightarrow> Server \<Rightarrow> Server res" where
  "work_sent c s =
     (if c < length (clients s) then
        bind_res (SendCompleted (clients s ! c))
          (\<lambda>ci. Inr (s\<lparr>clients := (clients s)[c := ci]\<rparr>))
      else Inl OutOfBounds)"

text \<open>A failed or empty completion disconnects the client; its session is not closed.\<close>

definition WorkerThread :: "int \<Rightarrow> completion \<Rightarrow> Server \<Rightarrow> Server res option" where
  "WorkerThread now ev s =
     (case ev of
        PortClosed \<Rightarrow> Some (Inr (s\<lparr>isRun := False\<rparr>))
      | NoOverlapped \<Rightarrow> Some (Inr s)
      | Failed c \<Rightarrow>
          (case c of
             None \<Rightarrow> Some (Inr s)
           | Some i \<Rightarrow> Some (set_client (Some i) (Disconnect_client now) s))
      | Accepted index bindPort bindRecv \<Rightarrow> Some (work_accepted now index bindPort bindRecv s)
      | Received c buf \<Rightarrow> work_received c buf s
      | Sent c \<Rightarrow> Some (work_sent c s)
      | UnknownOperation \<Rightarrow> Some (Inr s))"

section \<open>The process thread\<close>

text \<open>\<open>PacketData::Set\<close> copies the bytes.\<close>

definition PacketData_Set :: "PacketData \<Rightarrow> PacketData res" where
  "PacketData_Set v =
     (if pd_DataSize v < 0 \<or> int (length (pPacketData v)) < pd_DataSize v then Inl OutOfBounds
      else Inr \<lparr>pd_SessionIndex = pd_SessionIndex v, pd_DataSize = pd_DataSize v,
                pPacketData = take (nat (pd_DataSize v)) (pPacketData v)\<rparr>)"

definition DequePacketData :: "Server \<Rightarrow> (PacketData option \<times> Server) res" where
  "DequePacketData s =
     (case packetQueue s of
        [] \<Rightarrow> Inr (None, s)
      | d # ds \<Rightarrow> bind_res (PacketData_Set d) (\<lambda>x. Inr (Some x, s\<lparr>packetQueue := ds\<rparr>)))"

text \<open>An empty packet stands for none; the session index is looked up as a client index.\<close>

definition ProcessThread :: "Server \<Rightarrow> Server res" where
  "ProcessThread s =
     bind_res (DequePacketData s) (\<lambda>(d, s1).
       case d of
         None \<Rightarrow> Inr s1
       | Some x \<Rightarrow>
           if pd_DataSize x = 0 then Inr s1
           else case FindClientInfo (pd_SessionIndex x) s1 of
                  None \<Rightarrow> Inr s1
                | Some c \<Rightarrow> SendMsg (Some c) (pPacketData x) SEND s1)"

section \<open>The server as a transition system\<close>

datatype event =
    AcceptPass int "nat \<Rightarrow> int \<times> bool"
  | Completion int completion
  | PacketStep
  | ProcessStep

definition server_step :: "shuffle \<Rightarrow> event \<Rightarrow> Server \<Rightarrow> Server res option" where
  "server_step shuffle ev s =
     (case ev of
        AcceptPass now env \<Rightarrow> Some (Inr (AcceptThread now env s))
      | Completion now c \<Rightarrow> WorkerThread now c s
      | PacketStep \<Rightarrow> Some (PacketThread shuffle s)
      | ProcessStep \<Rightarrow> Some (ProcessThread s))"

inductive steps :: "shuffle \<Rightarrow> Server \<Rightarrow> event list \<Rightarrow> Server \<Rightarrow> bool"
  for shuffle :: shuffle where
  steps_refl: "steps shuffle s [] s"
| steps_step: "steps shuffle s es t \<Longrightarrow> server_step shuffle e t = Some (Inr u) \<Longrightarrow>
               steps shuffle s (es @ [e]) u"

inductive_cases steps_snocE: "steps shuffle s (es @ [e]) u"
inductive_simps steps_Nil_iff: "steps shuffle s [] t"

end
