(* ===== verification/ServerInv.thy ===== *)
theory ServerInv
  imports IOServer StreamClaims "HOL-Library.Multiset"
begin

text \<open>
  The invariant of the server and its preservation by every operation, up to the step relation:

  \<^item> \<open>rooms_ok\<close>: room indices are unique and were given out by the counter, no room holds more
    players than its capacity, and its block sequence consists of whole 7-bags;
  \<^item> \<open>sessions_ok\<close>: the session at place \<open>i\<close> has index \<open>i + 1\<close>, and one in use has its pointers;
  \<^item> \<open>clients_ok\<close>: slots keep their numbers, their packet buffers are well formed, and their
    messages leave one at a time in the order given;
  \<^item> \<open>players_ok\<close>: the player table has no dangling pointer, and a player's UID is its place.
\<close>

section \<open>The invariant\<close>

text \<open>Sequences of whole bags of the seven shapes.\<close>

inductive bag_sequence :: "ShapeType list \<Rightarrow> bool" where
  bag_Nil: "bag_sequence []"
| bag_append: "bag_sequence bs \<Longrightarrow> mset b = mset seven_shapes \<Longrightarrow> bag_sequence (bs @ b)"

definition is_shuffle :: "shuffle \<Rightarrow> bool" where
  "is_shuffle shuffle \<longleftrightarrow> (\<forall>n xs. mset (shuffle n xs) = mset xs)"

definition room_ok :: "int \<Rightarrow> Room \<Rightarrow> bool" where
  "room_ok next r \<longleftrightarrow>
     1 \<le> r_roomIndex r \<and> r_roomIndex r < next \<and> maxPlayerCnt r = ROOM_MAX_PLAYER \<and>
     int (length (players r)) \<le> ROOM_MAX_PLAYER \<and> bag_sequence (fallingBlocks r)"

definition rooms_ok :: "Server \<Rightarrow> bool" where
  "rooms_ok s \<longleftrightarrow>
     1 \<le> roomIndex s \<and> distinct (map r_roomIndex (rooms s)) \<and>
     list_all (room_ok (roomIndex s)) (rooms s)"

definition sessions_ok :: "Server \<Rightarrow> bool" where
  "sessions_ok s \<longleftrightarrow>
     (\<forall>i<length (sessions s).
        s_sessionIndex (sessions s ! i) = int i + 1 \<and>
        (isUse (sessions s ! i) \<longrightarrow>
           playerInfo (sessions s ! i) \<noteq> None \<and> clientInfo (sessions s ! i) \<noteq> None))"

definition connection_ok :: "ClientInfo \<Rightarrow> bool" where
  "connection_ok c \<longleftrightarrow>
     stream_ok (packetBuffer c) \<and> bufferSize (packetBuffer c) = 1024 \<and>
     (\<exists>ds. wsaSends c = ds @ take 1 (sendDataQueue c))"

definition clients_ok :: "Server \<Rightarrow> bool" where
  "clients_ok s \<longleftrightarrow>
     (\<forall>i<length (clients s). connection_ok (clients s ! i) \<and> clientIndex (clients s ! i) = int i + 1)"

definition players_ok :: "Server \<Rightarrow> bool" where
  "players_ok s \<longleftrightarrow>
     (\<forall>a. heap s a \<noteq> None \<longrightarrow> a < nextAddress s) \<and>
     (\<forall>i<length (allPlayers s). \<forall>a. allPlayers s ! i = Some a \<longrightarrow>
        (\<exists>p. heap s a = Some p \<and> p_playerUID p = int i))"

definition server_ok :: "Server \<Rightarrow> bool" where
  "server_ok s \<longleftrightarrow> rooms_ok s \<and> sessions_ok s \<and> clients_ok s \<and> players_ok s"

lemmas server_ok_defs = server_ok_def rooms_ok_def sessions_ok_def clients_ok_def players_ok_def

lemma connection_ok_new: "connection_ok (new_ClientInfo fresh k)"
  by (simp add: connection_ok_def new_ClientInfo_def stream_ok_def wf_buffer_Init
      PACKET_HEADER_LENGTH_def) (simp add: buffer_Init_def)

lemma server_ok_new: "server_ok (new_Server fresh n)"
proof -
  have "[1..<n + 1] ! i = i + 1" if "i < n" for i
    using that nth_upt [of 1 i "n + 1"] by simp
  moreover have "clientIndex (new_ClientInfo fresh k) = k" for k
    by (simp add: new_ClientInfo_def)
  ultimately show ?thesis
    by (simp add: server_ok_defs new_Server_def connection_ok_new del: upt_Suc)
qed

section \<open>Updates the invariant does not see\<close>

lemma server_ok_irrelevant [simp]:
  "server_ok (s\<lparr>recvPackets := q\<rparr>) = server_ok s"
  "server_ok (s\<lparr>packetQueue := pq\<rparr>) = server_ok s"
  "server_ok (s\<lparr>isRun := b\<rparr>) = server_ok s"
  "server_ok (s\<lparr>clientNumber := k\<rparr>) = server_ok s"
  "server_ok (s\<lparr>shuffles := n\<rparr>) = server_ok s"
  "server_ok (resLogin_update f1 s) = server_ok s"
  "server_ok (resFallingBlock_update f2 s) = server_ok s"
  "server_ok (resGameInput_update f3 s) = server_ok s"
  "server_ok (resGameStart_update f4 s) = server_ok s"
  "server_ok (resGameStop_update f5 s) = server_ok s"
  "server_ok (resRoomCanEnter_update f5 s) = server_ok s"
  "server_ok (resRoomCreate_update f6 s) = server_ok s"
  "server_ok (resRoomEnter_update f7 s) = server_ok s"
  "server_ok (resRoomLeave_update f5 s) = server_ok s"
  "server_ok (resRoomList_update f8 s) = server_ok s"
  by (simp_all add: server_ok_defs)

section \<open>Pointers\<close>

lemma server_ok_set_player [invs]:
  assumes "set_player p g s = Inr t" and "\<And>x. p_playerUID (g x) = p_playerUID x" and "server_ok s"
  shows "server_ok t"
proof -
  from assms(1) obtain a x where a: "heap s a = Some x" and t: "t = s\<lparr>heap := (heap s)(a := Some (g x))\<rparr>"
    by (auto simp: set_player_Inr_iff)
  have "players_ok s" using assms(3) by (simp add: server_ok_def)
  with a assms(2) have "players_ok t" by (fastforce simp: players_ok_def t)
  with assms(3) show ?thesis by (simp add: t server_ok_def rooms_ok_def sessions_ok_def clients_ok_def)
qed

lemma server_ok_client_update [invs]:
  assumes "server_ok s" and "i < length (clients s)"
    and "connection_ok c" and "clientIndex c = clientIndex (clients s ! i)"
  shows "server_ok (s\<lparr>clients := (clients s)[i := c]\<rparr>)"
  using assms by (auto simp: server_ok_defs nth_list_update_if)

lemma server_ok_client:
  "server_ok s \<Longrightarrow> i < length (clients s) \<Longrightarrow> connection_ok (clients s ! i)"
  by (simp add: server_ok_defs)

lemma server_ok_set_client [invs]:
  assumes "set_client p g s = Inr t" and "server_ok s"
    and "\<And>c. connection_ok c \<Longrightarrow> connection_ok (g c)" and "\<And>c. clientIndex (g c) = clientIndex c"
  shows "server_ok t"
  using assms by (auto simp: set_client_Inr_iff intro!: server_ok_client_update server_ok_client)

lemma connection_ok_SendMsg [invs]: "connection_ok c \<Longrightarrow> connection_ok (SendMsg_client m op c)"
  by (cases "sendDataQueue c") (auto simp: connection_ok_def SendMsg_client_def SendIO_def Let_def)

lemma connection_ok_irrelevant [simp]:
  "connection_ok (c_sessionIndex_update f c) = connection_ok c"
  "connection_ok (c_playerUID_update f c) = connection_ok c"
  "connection_ok (isConnect_update b c) = connection_ok c"
  "connection_ok (latestClosedTimeSec_update f c) = connection_ok c"
  "connection_ok (sock_update f c) = connection_ok c"
  by (simp_all add: connection_ok_def)

lemma clientIndex_SendMsg [simp]: "clientIndex (SendMsg_client m op c) = clientIndex c"
  by (simp add: SendMsg_client_def SendIO_def Let_def)

lemma server_ok_SendMsg [invs]:
  "SendMsg c m op s = Inr t \<Longrightarrow> server_ok s \<Longrightarrow> server_ok t"
  unfolding SendMsg_def
  by (erule server_ok_set_client) (simp_all add: connection_ok_SendMsg)

lemma server_ok_SendNotify [invs]:
  "SendNotify i pid n enc req s = Inr t \<Longrightarrow> server_ok s \<Longrightarrow> server_ok t"
  by (auto simp: SendNotify_def bind_res_Inr_iff dest: server_ok_SendMsg)

lemma server_ok_SendPacketFunc [invs]:
  "SendPacketFunc i m s = Inr t \<Longrightarrow> server_ok s \<Longrightarrow> server_ok t"
  by (auto simp: SendPacketFunc_def bind_res_Inr_iff dest: server_ok_SendMsg split: option.splits)

text \<open>Sending changes only the clients.\<close>

lemma SendMsg_rooms: "SendMsg c m op s = Inr t \<Longrightarrow> rooms t = rooms s \<and> heap t = heap s"
  by (auto simp: SendMsg_def set_client_Inr_iff)

lemma SendNotify_rooms:
  "SendNotify i pid n enc req s = Inr t \<Longrightarrow> rooms t = rooms s \<and> heap t = heap s"
  by (auto simp: SendNotify_def bind_res_Inr_iff dest: SendMsg_rooms)

section \<open>Rooms\<close>

lemma server_ok_set_room [invs]:
  assumes "server_ok s" and "i < length (rooms s) \<Longrightarrow> room_ok (roomIndex s) (g (rooms s ! i))"
    and "r_roomIndex (g (rooms s ! i)) = r_roomIndex (rooms s ! i)"
  shows "server_ok (set_room i g s)"
proof (cases "i < length (rooms s)")
  case True
  have "map r_roomIndex ((rooms s)[i := g (rooms s ! i)]) = map r_roomIndex (rooms s)"
    using True assms(3) by (simp add: map_update list_update_same_conv)
  with assms True show ?thesis
    by (simp add: set_room_def server_ok_def rooms_ok_def sessions_ok_def clients_ok_def
        players_ok_def list_all_length nth_list_update_if)
next
  case False
  then have "set_room i g s = s" by (cases s) (simp add: set_room_def list_update_beyond)
  with assms(1) show ?thesis by simp
qed

lemma server_ok_room: "server_ok s \<Longrightarrow> i < length (rooms s) \<Longrightarrow> room_ok (roomIndex s) (rooms s ! i)"
  by (simp add: server_ok_def rooms_ok_def list_all_length)

lemma server_ok_CreateRoom [invs]:
  assumes "CreateRoom s = Inr (k, t)" and "server_ok s"
  shows "server_ok t"
proof -
  have "room_ok (roomIndex s + 1) r" if "room_ok (roomIndex s) r" for r
    using that by (simp add: room_ok_def)
  moreover have "room_ok (roomIndex s + 1) (new_Room (roomIndex s) ROOM_MAX_PLAYER)"
    using assms(2) by (simp add: room_ok_def new_Room_def server_ok_def rooms_ok_def bag_Nil
        ROOM_MAX_PLAYER_def)
  moreover have "roomIndex s \<notin> r_roomIndex ` set (rooms s)"
    using assms(2) by (auto simp: server_ok_def rooms_ok_def room_ok_def list_all_iff)
  ultimately show ?thesis
    using assms by (auto simp: CreateRoom_def bind_res_Inr_iff server_ok_def rooms_ok_def
        sessions_ok_def clients_ok_def players_ok_def list_all_iff new_Room_def int32_res_Inr_iff)
qed

lemma server_ok_RemoveRoom [invs]: "server_ok s \<Longrightarrow> server_ok (RemoveRoom k s)"
proof (cases "find_room k (rooms s)")
  case None
  then show "server_ok s \<Longrightarrow> ?thesis" by (simp add: RemoveRoom_def)
next
  case (Some i)
  assume s: "server_ok s"
  let ?rs = "take i (rooms s) @ drop (Suc i) (rooms s)"
  have "distinct (map r_roomIndex ?rs)"
    using s by (simp add: server_ok_def rooms_ok_def take_map [symmetric] drop_map [symmetric]
        distinct_take distinct_drop set_take_disj_set_drop_if_distinct)
  moreover have "list_all (room_ok (roomIndex s)) ?rs"
    using s by (auto simp: server_ok_def rooms_ok_def list_all_iff dest: in_set_takeD in_set_dropD)
  ultimately show ?thesis
    using s Some by (simp add: RemoveRoom_def server_ok_def rooms_ok_def sessions_ok_def
        clients_ok_def players_ok_def)
qed

lemma find_room_Some:
  "find_room k rs = Some i \<Longrightarrow> i < length rs \<and> r_roomIndex (rs ! i) = k"
  by (induction rs arbitrary: i) (auto split: if_splits)

lemma FindRoom_Some: "FindRoom k s = Some i \<Longrightarrow> i < length (rooms s) \<and> r_roomIndex (rooms s ! i) = k"
  by (simp add: FindRoom_def find_room_Some)

section \<open>Operations of a room\<close>

lemma greet_effect:
  assumes "greet e res r s = Inr t"
  shows "rooms t = rooms s" and "heap t = heap s" and "server_ok s \<Longrightarrow> server_ok t"
  using assms
  by (auto simp: greet_def bind_res_Inr_iff Let_def dest!: SendNotify_rooms, 
      auto simp: greet_def bind_res_Inr_iff Let_def dest!: server_ok_SendNotify)

lemma fold_greet_effect:
  assumes "fold_res (greet e res) rs s = Inr t"
  shows "rooms t = rooms s \<and> heap t = heap s \<and> (server_ok s \<longrightarrow> server_ok t)"
  using assms
  by (rule fold_res_invariant [where P = "\<lambda>u. rooms u = rooms s \<and> heap u = heap s \<and> (server_ok s \<longrightarrow> server_ok u)"])
     (auto dest: greet_effect)

lemma set_player_frame:
  "set_player p g s = Inr t \<Longrightarrow> rooms t = rooms s \<and> roomIndex t = roomIndex s"
  by (auto simp: set_player_Inr_iff)

lemma server_ok_AddPlayer [invs]:
  assumes "AddPlayer i e s = Inr t" and "server_ok s" and "i < length (rooms s)"
  shows "server_ok t"
proof (cases "int (length (players (rooms s ! i))) \<ge> size_t (maxPlayerCnt (rooms s ! i))")
  case True
  with assms(1,2) show ?thesis by (simp add: AddPlayer_def)
next
  case False
  let ?res = "\<lambda>x :: Player. default_RES_ROOM_ENTER\<lparr>enterSessionIndex := of_int (p_sessionIndex x)\<rparr>"
  from False assms(1) obtain x u v where
    u: "fold_res (greet e (?res x)) (players (rooms s ! i)) s = Inr u"
    and v: "set_player e (\<lambda>p. p\<lparr>p_roomIndex := r_roomIndex (rooms s ! i)\<rparr>) u = Inr v"
    and t: "set_room i (\<lambda>r. r\<lparr>players := players r @ [the e]\<rparr>) v = t"
    by (simp add: AddPlayer_def bind_res_Inr_iff Let_def) (elim exE conjE, rule that)
  from fold_greet_effect [OF u] assms(2) have u': "rooms u = rooms s" "server_ok u" by auto
  from server_ok_set_player [OF v _ u'(2)] have v': "server_ok v" by simp
  have r: "rooms v ! i = rooms s ! i" using set_player_frame [OF v] u'(1) by simp
  have "room_ok (roomIndex s) (rooms s ! i)" using assms(2,3) by (rule server_ok_room)
  with False have "int (length (players (rooms s ! i))) < 2"
    by (simp add: room_ok_def ROOM_MAX_PLAYER_def size_t_def)
  moreover have "room_ok (roomIndex v) (rooms v ! i)"
    using server_ok_room [OF v'] set_player_frame [OF v] u'(1) assms(3) by simp
  ultimately show ?thesis
    unfolding t [symmetric] by (intro server_ok_set_room [OF v']) (simp_all add: room_ok_def ROOM_MAX_PLAYER_def r)
qed

lemma find_in_room_Some:
  "find_in_room k h as j = Inr (Some m) \<Longrightarrow> j \<le> m \<and> m - j < length as"
proof (induction as arbitrary: j)
  case Nil
  then show ?case by simp
next
  case (Cons a as)
  from Cons.prems Cons.IH [of "Suc j"] show ?case
    by (auto simp: bind_res_Inr_iff split: if_splits)
qed

lemma server_ok_RemovePlayer [invs]:
  assumes "RemovePlayer i k s = Inr t" and "server_ok s"
  shows "server_ok t"
proof -
  from assms(1) consider "t = s"
    | m v where "set_player (Some (players (rooms s ! i) ! m)) (\<lambda>p. p\<lparr>p_roomIndex := 0\<rparr>) s = Inr v"
      and "t = set_room i (\<lambda>r. r\<lparr>players := take m (players r) @ drop (Suc m) (players r)\<rparr>) v"
    by (auto simp: RemovePlayer_def bind_res_Inr_iff split: option.splits)
  then show ?thesis
  proof cases
    case 1
    with assms(2) show ?thesis by simp
  next
    case 2
    have "server_ok v" by (rule server_ok_set_player [OF 2(1) _ assms(2)]) simp
    moreover have "room_ok n r \<Longrightarrow> room_ok n (r\<lparr>players := take m (players r) @ drop (Suc m) (players r)\<rparr>)"
      for n r by (auto simp: room_ok_def min_def)
    ultimately show ?thesis unfolding 2(2) by (intro server_ok_set_room) (simp_all add: server_ok_room)
  qed
qed

text \<open>A generated bag is one of the seven shapes in some order.\<close>

lemma shuffled_bag:
  assumes "is_shuffle sh"
  shows "mset (map ((!) (sh n seven_shapes)) [0..<7]) = mset seven_shapes"
proof -
  have "length (sh n seven_shapes) = length seven_shapes"
    using assms by (metis is_shuffle_def size_mset)
  then have "length (sh n seven_shapes) = 7" by (simp add: seven_shapes_def)
  then have "map ((!) (sh n seven_shapes)) [0..<7] = sh n seven_shapes"
    by (metis map_nth)
  with assms show ?thesis by (simp add: is_shuffle_def)
qed

lemma server_ok_GenerateFallingBlocks [invs]:
  assumes "server_ok s" and "is_shuffle sh"
  shows "server_ok (GenerateFallingBlocks sh i s)"
proof -
  have "room_ok n r \<Longrightarrow> room_ok n (r\<lparr>fallingBlocks := fallingBlocks r @ map ((!) (sh k seven_shapes)) [0..<7]\<rparr>)"
    for n r k using shuffled_bag [OF assms(2)] by (simp add: room_ok_def bag_append)
  with assms(1) show ?thesis
    unfolding GenerateFallingBlocks_def
    by (intro server_ok_set_room) (simp_all add: server_ok_room)
qed

lemma server_ok_fill_blocks [invs]:
  assumes "server_ok s" and "is_shuffle sh"
  shows "server_ok (fill_blocks sh i index s)"
  using assms
proof (induction sh i index s rule: fill_blocks.induct)
  case (1 sh i index s)
  then show ?case
    by (subst fill_blocks.simps) (simp add: server_ok_GenerateFallingBlocks)
qed

lemma server_ok_GetFallingBlock [invs]:
  assumes "GetFallingBlock sh i p cnt s = Inr (bs, t)" and "server_ok s" and "is_shuffle sh"
  shows "server_ok t"
  using assms
  by (auto simp: GetFallingBlock_def bind_res_Inr_iff Let_def split: if_splits
      intro!: server_ok_fill_blocks elim!: server_ok_set_player)

lemma server_ok_GameStart [invs]:
  assumes "GameStart sh i k s = Inr t" and "server_ok s" and "is_shuffle sh"
  shows "server_ok t"
proof -
  let ?s1 = "set_room i (\<lambda>r. r\<lparr>r_isPlaying := True, fallingBlocks := []\<rparr>) s"
  have "server_ok ?s1"
    using assms(2) by (intro server_ok_set_room) (auto simp: room_ok_def bag_Nil dest: server_ok_room)
  then have "server_ok (GenerateFallingBlocks sh i ?s1)"
    using assms(3) by (rule server_ok_GenerateFallingBlocks)
  moreover have "server_ok v" if "start_player sh i k r u = Inr v" "server_ok u" for r u v
    using that assms(3)
    by (auto simp: start_player_def bind_res_Inr_iff split: if_splits
        elim!: server_ok_SendNotify server_ok_GetFallingBlock server_ok_set_player)
  ultimately show ?thesis
    using assms(1) unfolding GameStart_def Let_def by (rule_tac fold_res_invariant)
qed

lemma server_ok_notify_others [invs]:
  assumes "fold_res (notify_other k pid n enc res) rs s = Inr t" and "server_ok s"
  shows "server_ok t"
  using assms
  by (rule fold_res_invariant)
     (auto simp: notify_other_def bind_res_Inr_iff split: if_splits elim!: server_ok_SendNotify)

lemma server_ok_GameStop [invs]:
  assumes "GameStop i k s = Inr t" and "server_ok s"
  shows "server_ok t"
proof -
  have "server_ok (set_room i (\<lambda>r. r\<lparr>r_isPlaying := False\<rparr>) s)"
    using assms(2) by (intro server_ok_set_room) (auto simp: room_ok_def dest: server_ok_room)
  with assms(1) show ?thesis by (auto simp: GameStop_def Let_def elim!: server_ok_notify_others)
qed

lemma server_ok_AddKeyInput [invs]:
  "AddKeyInput i k is cnt s = Inr t \<Longrightarrow> server_ok s \<Longrightarrow> server_ok t"
  by (auto simp: AddKeyInput_def Let_def split: if_splits elim!: server_ok_notify_others)

section \<open>Players and sessions\<close>

lemma first_null_less: "first_null xs < length xs \<Longrightarrow> xs ! first_null xs = None"
  by (induction xs) auto

lemma first_null_le: "first_null xs \<le> length xs"
  by (induction xs) auto

lemma server_ok_GetEmptyPlayer [invs]:
  assumes "GetEmptyPlayer s = (a, t)" and "server_ok s"
  shows "server_ok t" and "\<exists>p. heap t a = Some p"
proof -
  let ?i = "first_null (allPlayers s)"
  let ?h = "(heap s)(nextAddress s \<mapsto> new_Player\<lparr>p_playerUID := int ?i\<rparr>)"
  have p: "players_ok s" using assms(2) by (simp add: server_ok_def)
  then have fresh: "heap s (nextAddress s) = None" by (auto simp: players_ok_def)
  show "\<exists>p. heap t a = Some p"
    using assms(1) by (auto simp: GetEmptyPlayer_def Let_def split: if_splits)
  have old: "\<exists>q. ?h b = Some q \<and> p_playerUID q = int j"
    if "j < length (allPlayers s)" "allPlayers s ! j = Some b" for j b
    using that p fresh by (auto simp: players_ok_def)
  have "players_ok t"
  proof (cases "?i < length (allPlayers s)")
    case True
    then have t: "t = s\<lparr>nextAddress := nextAddress s + 1, heap := ?h,
        allPlayers := (allPlayers s)[?i := Some (nextAddress s)]\<rparr>"
      using assms(1) by (auto simp: GetEmptyPlayer_def Let_def)
    show ?thesis using p old
      by (auto simp: t players_ok_def nth_list_update_if less_Suc_eq split: if_splits)
  next
    case False
    then have t: "t = s\<lparr>nextAddress := nextAddress s + 1, heap := ?h,
        allPlayers := allPlayers s @ [Some (nextAddress s)]\<rparr>"
      and len: "?i = length (allPlayers s)"
      using assms(1) first_null_le [of "allPlayers s"] by (auto simp: GetEmptyPlayer_def Let_def)
    show ?thesis using p old len
      by (auto simp: t players_ok_def nth_append less_Suc_eq split: if_splits)
  qed
  moreover have "rooms_ok t \<and> sessions_ok t \<and> clients_ok t"
    using assms by (auto simp: GetEmptyPlayer_def Let_def server_ok_def rooms_ok_def sessions_ok_def
        clients_ok_def split: if_splits)
  ultimately show "server_ok t" by (simp add: server_ok_def)
qed

lemma find_player_Some:
  "find_player P h xs j = Inr (Some m) \<Longrightarrow>
     j \<le> m \<and> m - j < length xs \<and> (\<exists>a p. xs ! (m - j) = Some a \<and> h a = Some p \<and> P p)"
proof (induction xs arbitrary: j)
  case Nil
  then show ?case by simp
next
  case (Cons x xs)
  from Cons.prems obtain p where p: "deref h x = Inr p"
    and rest: "(if P p then Inr (Some j) else find_player P h xs (Suc j)) = Inr (Some m)"
    by (auto simp: bind_res_Inr_iff)
  show ?case
  proof (cases "P p")
    case True
    with p rest show ?thesis by (auto simp: deref_Inr_iff)
  next
    case False
    with rest Cons.IH [of "Suc j"] have "Suc j \<le> m \<and> m - Suc j < length xs \<and>
        (\<exists>a p. xs ! (m - Suc j) = Some a \<and> h a = Some p \<and> P p)" by simp
    then show ?thesis by (auto simp: nth_Cons' Suc_le_eq)
  qed
qed

lemma server_ok_RemovePlayer_manager [invs]:
  assumes "RemovePlayer_manager u s = Inr t" and "server_ok s"
  shows "server_ok t"
proof -
  from assms(1) consider "t = s"
    | m where "find_player (\<lambda>p. p_playerUID p = u) (heap s) (allPlayers s) 0 = Inr (Some m)"
      "t = s\<lparr>heap := (heap s)(the (allPlayers s ! m) := None), allPlayers := (allPlayers s)[m := None]\<rparr>"
    by (auto simp: RemovePlayer_manager_def bind_res_Inr_iff split: option.splits)
  then show ?thesis
  proof cases
    case 1
    with assms(2) show ?thesis by simp
  next
    case 2
    from find_player_Some [OF 2(1)] obtain a where m: "m < length (allPlayers s)"
      "allPlayers s ! m = Some a" by auto
    have p: "players_ok s" using assms(2) by (simp add: server_ok_def)
    have other: "b \<noteq> a" if "j < length (allPlayers s)" "allPlayers s ! j = Some b" "j \<noteq> m" for j b
    proof
      assume "b = a"
      with that m p have "(\<exists>p. heap s a = Some p \<and> p_playerUID p = int j) \<and>
          (\<exists>p. heap s a = Some p \<and> p_playerUID p = int m)" unfolding players_ok_def by blast
      with that(3) show False by auto
    qed
    have "players_ok t"
      using p m other by (auto simp: 2(2) players_ok_def nth_list_update_if split: if_splits)
    with assms(2) show ?thesis
      by (simp add: 2(2) server_ok_def rooms_ok_def sessions_ok_def clients_ok_def)
  qed
qed

lemma server_ok_session_update:
  assumes "server_ok s" and "s_sessionIndex x = s_sessionIndex (sessions s ! i)"
    and "isUse x \<Longrightarrow> playerInfo x \<noteq> None \<and> clientInfo x \<noteq> None"
  shows "server_ok (s\<lparr>sessions := (sessions s)[i := x]\<rparr>)"
  using assms
  by (auto simp: server_ok_def rooms_ok_def sessions_ok_def clients_ok_def players_ok_def
      nth_list_update_if)

lemma frame_sessions:
  "set_player p g s = Inr t \<Longrightarrow> sessions t = sessions s"
  "set_client c f s = Inr t \<Longrightarrow> sessions t = sessions s"
  by (auto simp: set_player_Inr_iff set_client_Inr_iff)

lemma server_ok_SetSession [invs]:
  assumes "SetSession i (Some a) (Some c) s = Inr t" and "server_ok s"
  shows "server_ok t"
proof -
  let ?x = "(sessions s ! i)\<lparr>playerInfo := Some a, clientInfo := Some c\<rparr>"
  let ?s0 = "s\<lparr>sessions := (sessions s)[i := ?x]\<rparr>"
  from assms(1) obtain s1 s2 where
    s1: "set_player (Some a) (\<lambda>p. p\<lparr>p_sessionIndex := s_sessionIndex ?x\<rparr>) ?s0 = Inr s1"
    and s2: "set_client (Some c) (\<lambda>c. c\<lparr>c_sessionIndex := s_sessionIndex ?x\<rparr>) s1 = Inr s2"
    and t: "t = s2\<lparr>sessions := (sessions s2)[i := ?x\<lparr>isUse := True\<rparr>]\<rparr>"
    by (auto simp: SetSession_def Let_def bind_res_Inr_iff)
  have s0: "server_ok ?s0" using assms(2) by (rule server_ok_session_update) simp_all
  have "server_ok s1" by (rule server_ok_set_player [OF s1 _ s0]) simp
  then have "server_ok s2" by (rule server_ok_set_client [OF s2]) simp_all
  moreover have "sessions s2 = (sessions s)[i := ?x]"
    using frame_sessions(1) [OF s1] frame_sessions(2) [OF s2] by simp
  then have "s_sessionIndex (?x\<lparr>isUse := True\<rparr>) = s_sessionIndex (sessions s2 ! i)"
    by (simp add: nth_list_update_if)
  ultimately show ?thesis unfolding t by (rule server_ok_session_update) simp
qed

lemma server_ok_AddSession [invs]:
  assumes "AddSession (Some a) (Some c) s = Inr t" and "server_ok s"
  shows "server_ok t"
proof -
  have "server_ok (s\<lparr>sessions := sessions s @ [new_Session (int (length (sessions s)) + 1)]\<rparr>)"
    using assms(2) by (auto simp: server_ok_def rooms_ok_def sessions_ok_def clients_ok_def
        players_ok_def nth_append new_Session_def less_Suc_eq)
  with assms show ?thesis
    by (auto simp: AddSession_def Let_def split: if_splits elim!: server_ok_SetSession)
qed

lemma server_ok_CloseSession [invs]:
  assumes "CloseSession i s = Inr t" and "server_ok s"
  shows "server_ok t"
proof -
  from assms(1) obtain s1 s2 where
    s1: "set_player (playerInfo (sessions s ! i)) (\<lambda>p. p\<lparr>p_sessionIndex := 0\<rparr>) s = Inr s1"
    and s2: "set_client (clientInfo (sessions s ! i)) (\<lambda>c. c\<lparr>c_sessionIndex := 0\<rparr>) s1 = Inr s2"
    and t: "t = s2\<lparr>sessions := (sessions s2)
               [i := (sessions s2 ! i)\<lparr>playerInfo := None, clientInfo := None, isUse := False\<rparr>]\<rparr>"
    by (auto simp: CloseSession_def bind_res_Inr_iff)
  have "server_ok s1" by (rule server_ok_set_player [OF s1 _ assms(2)]) simp
  then have "server_ok s2" by (rule server_ok_set_client [OF s2]) simp_all
  then show ?thesis unfolding t by (rule server_ok_session_update) simp_all
qed

lemma server_ok_RemoveSession [invs]:
  "RemoveSession k s = Inr t \<Longrightarrow> server_ok s \<Longrightarrow> server_ok t"
  by (auto simp: RemoveSession_def bind_res_Inr_iff elim!: server_ok_CloseSession)

section \<open>Handlers\<close>

lemma server_ok_Handle:
  assumes "Handle n dec m enc get upd logic k packet s = Inr t" and "server_ok s"
    and "\<And>f u. server_ok (upd f u) = server_ok u"
    and "\<And>req p u v. logic req p u = Inr v \<Longrightarrow> server_ok u \<Longrightarrow> server_ok v"
  shows "server_ok t"
proof -
  from assms(1) obtain req p u where
    "logic req p (upd (answer_header m req) s) = Inr u" "SendPacketFunc k (enc (get u)) u = Inr t"
    by (auto simp: Handle_def ReadReq_def bind_res_Inr_iff Let_def split: if_splits)
  with assms(2-4) show ?thesis by (metis server_ok_SendPacketFunc)
qed

lemma server_ok_logic:
  "ReqLogin r0 p s = Inr t \<Longrightarrow> server_ok s \<Longrightarrow> server_ok t"
  "is_shuffle sh \<Longrightarrow> ReqFallingBlock sh r0 p s = Inr t \<Longrightarrow> server_ok s \<Longrightarrow> server_ok t"
  "ReqGameInput r1 p s = Inr t \<Longrightarrow> server_ok s \<Longrightarrow> server_ok t"
  "is_shuffle sh \<Longrightarrow> ReqGameStart sh r0 p s = Inr t \<Longrightarrow> server_ok s \<Longrightarrow> server_ok t"
  "ReqGameStop r0 p s = Inr t \<Longrightarrow> server_ok s \<Longrightarrow> server_ok t"
  "ReqRoomCanEnter r2 p s = Inr t \<Longrightarrow> server_ok s \<Longrightarrow> server_ok t"
  "ReqRoomCreate r0 p s = Inr t \<Longrightarrow> server_ok s \<Longrightarrow> server_ok t"
  "ReqRoomEnter r2 p s = Inr t \<Longrightarrow> server_ok s \<Longrightarrow> server_ok t"
  "ReqRoomLeave r0 p s = Inr t \<Longrightarrow> server_ok s \<Longrightarrow> server_ok t"
  "ReqRoomList r3 p s = Inr t \<Longrightarrow> server_ok s \<Longrightarrow> server_ok t"
  subgoal by (auto simp: ReqLogin_def bind_res_Inr_iff)
  subgoal by (auto simp: ReqFallingBlock_def bind_res_Inr_iff split: option.splits
        elim!: server_ok_GetFallingBlock)
  subgoal by (auto simp: ReqGameInput_def bind_res_Inr_iff split: option.splits
        dest: server_ok_AddKeyInput)
  subgoal by (auto simp: ReqGameStart_def bind_res_Inr_iff split: option.splits
        elim!: server_ok_GetFallingBlock server_ok_set_player server_ok_GameStart)
  subgoal by (auto simp: ReqGameStop_def bind_res_Inr_iff split: option.splits
        dest: server_ok_GameStop)
  subgoal by (auto simp: ReqRoomCanEnter_def split: option.splits)
  subgoal by (auto simp: ReqRoomCreate_def bind_res_Inr_iff dest: server_ok_CreateRoom)
  subgoal by (auto simp: ReqRoomEnter_def bind_res_Inr_iff split: option.splits
        dest: server_ok_AddPlayer FindRoom_Some)
  subgoal by (auto simp: ReqRoomLeave_def bind_res_Inr_iff split: option.splits if_splits
        dest: server_ok_RemovePlayer intro!: server_ok_RemoveRoom)
  subgoal by (auto simp: ReqRoomList_def bind_res_Inr_iff split: if_splits)
  done

lemma server_ok_run_handler:
  assumes "run_handler sh k index packet s = Inr t" and "server_ok s" and "is_shuffle sh"
  shows "server_ok t"
proof -
  note logic = server_ok_logic(1,3,5-10) server_ok_logic(2,4) [OF assms(3)]
  have "run_handler sh k index packet s = Inr t \<longrightarrow> server_ok t"
    by (cases k; simp add: run_handler_def; intro impI;
        erule server_ok_Handle [OF _ assms(2)]; auto dest: logic)
  with assms(1) show ?thesis by blast
qed

lemma server_ok_PacketThread [invs]:
  assumes "PacketThread sh s = Inr t" and "server_ok s" and "is_shuffle sh"
  shows "server_ok t"
  using assms
  by (auto simp: PacketThread_def DequeRecvPacket_def ProcessPacket_def bind_res_Inr_iff
      split: list.splits elim!: server_ok_run_handler)

section \<open>Accepting and closing\<close>

lemma accept_slot_keeps:
  "clientIndex (accept_slot now env c) = clientIndex c"
  "connection_ok c \<Longrightarrow> connection_ok (accept_slot now env c)"
  by (simp_all add: accept_slot_def PostAccept_def Let_def)

lemma server_ok_AcceptThread [invs]: "server_ok s \<Longrightarrow> server_ok (AcceptThread now env s)"
  by (auto simp: AcceptThread_def server_ok_def rooms_ok_def sessions_ok_def clients_ok_def
      players_ok_def accept_slot_keeps)

lemma server_ok_OnConnect [invs]:
  assumes "OnConnect c s = Inr t" and "server_ok s"
  shows "server_ok t"
proof -
  obtain a s1 where e: "GetEmptyPlayer s = (a, s1)" by fastforce
  with assms(1) obtain p :: Player and s2 where
    s2: "set_client (Some c) (\<lambda>ci. ci\<lparr>c_playerUID := p_playerUID p\<rparr>) s1 = Inr s2"
    and t: "AddSession (Some a) (Some c) s2 = Inr t"
    by (auto simp: OnConnect_def bind_res_Inr_iff)
  have "server_ok s1" using server_ok_GetEmptyPlayer(1) [OF e assms(2)] .
  then have "server_ok s2" by (rule server_ok_set_client [OF s2]) simp_all
  with t show ?thesis by (rule server_ok_AddSession)
qed

lemma server_ok_OnClose [invs]:
  "OnClose k s = Inr t \<Longrightarrow> server_ok s \<Longrightarrow> server_ok t"
  by (auto simp: OnClose_def bind_res_Inr_iff Let_def split: option.splits
      elim!: server_ok_RemovePlayer_manager server_ok_RemoveSession)

lemma server_ok_disconnect [invs]:
  assumes "set_client c (Disconnect_client now) s = Inr t" and "server_ok s"
  shows "server_ok t"
  using assms by (rule server_ok_set_client) (simp_all add: Disconnect_client_def)

lemma server_ok_CloseSocket [invs]:
  "CloseSocket now c s = Inr t \<Longrightarrow> server_ok s \<Longrightarrow> server_ok t"
  by (auto simp: CloseSocket_def bind_res_Inr_iff Let_def split: if_splits
      elim!: server_ok_OnClose server_ok_disconnect)

lemma find_client_Some:
  "find_client P cs = Some i \<Longrightarrow> i < length cs \<and> P (cs ! i)"
  by (induction cs arbitrary: i) (auto split: if_splits)

lemma AcceptCompletion_keeps:
  assumes "AcceptCompletion bp br c = (ok, d)"
  shows "clientIndex d = clientIndex c" and "connection_ok c \<Longrightarrow> connection_ok d"
  using assms by (auto simp: AcceptCompletion_def Connect_def Clear_def Let_def split: if_splits)

lemma server_ok_work_accepted [invs]:
  assumes "work_accepted now k bp br s = Inr t" and "server_ok s"
  shows "server_ok t"
proof -
  from assms(1) obtain c where c: "FindClientInfo k s = Some c"
    by (auto simp: work_accepted_def split: option.splits)
  then have len: "c < length (clients s)" by (auto simp: FindClientInfo_def dest: find_client_Some)
  obtain ok d where d: "AcceptCompletion bp br (clients s ! c) = (ok, d)" by fastforce
  have "server_ok (s\<lparr>clients := (clients s)[c := d]\<rparr>)"
    using AcceptCompletion_keeps [OF d] server_ok_client [OF assms(2) len] assms(2) len
    by (intro server_ok_client_update) auto
  with assms(1) c d show ?thesis
    by (auto simp: work_accepted_def Let_def split: if_splits elim!: server_ok_CloseSocket)
qed

section \<open>Sending and receiving\<close>

lemma connection_ok_SendCompleted:
  assumes "SendCompleted c = Inr d" and "connection_ok c"
  shows "connection_ok d" and "clientIndex d = clientIndex c"
proof -
  from assms(2) obtain ds where "sender.serial ds c" by (auto simp: connection_ok_def sender.serial_def)
  from sender.serial_complete [OF this assms(1)] obtain x where "sender.serial (ds @ [x]) d" by blast
  moreover have "packetBuffer d = packetBuffer c" "clientIndex d = clientIndex c"
    using assms(1) by (auto simp: SendCompleted_def SendIO_def Let_def split: list.splits if_splits)
  ultimately show "connection_ok d" and "clientIndex d = clientIndex c"
    using assms(2) by (auto simp: connection_ok_def sender.serial_def)
qed

lemma server_ok_work_sent [invs]:
  assumes "work_sent c s = Inr t" and "server_ok s"
  shows "server_ok t"
  using assms connection_ok_SendCompleted server_ok_client [OF assms(2)]
  by (auto simp: work_sent_def bind_res_Inr_iff split: if_splits intro!: server_ok_client_update)

lemma server_ok_receive_packet:
  "receive_packet k p s = Inr t \<Longrightarrow> server_ok s \<Longrightarrow> server_ok t"
  by (auto simp: receive_packet_def OnReceive_def QueueRecvPacket_def split: if_splits)

lemma server_ok_OnRecv [invs]:
  assumes "OnRecv c buf s = Inr t" and "server_ok s"
  shows "server_ok t"
proof -
  from assms(1) obtain pb where len: "c < length (clients s)"
    and w: "Write (Some buf) (int (length buf)) (packetBuffer (clients s ! c)) = Inr pb"
    and t: "set_client (Some c) (\<lambda>ci. ci\<lparr>packetBuffer := pb\<rparr>) s = Inr t"
    by (auto simp: OnRecv_def bind_res_Inr_iff split: if_splits)
  have c: "connection_ok (clients s ! c)" using assms(2) len by (rule server_ok_client)
  with Write_spec [of "packetBuffer (clients s ! c)" _ buf] w
  have "stream_ok pb" "bufferSize pb = 1024" by (auto simp: connection_ok_def stream_ok_def)
  with c have "connection_ok ((clients s ! c)\<lparr>packetBuffer := pb\<rparr>)" by (simp add: connection_ok_def)
  with t len assms(2) show ?thesis by (auto simp: set_client_Inr_iff intro!: server_ok_client_update)
qed

lemma server_ok_work_received [invs]:
  assumes "work_received c buf s = Some (Inr t)" and "server_ok s"
  shows "server_ok t"
proof -
  from assms(1) obtain s1 s2 pb s3 where
    s1: "OnRecv c buf s = Inr s1"
    and s2: "(if c_sessionIndex (clients s1 ! c) = 0 then OnConnect c s1 else Inr s1) = Inr s2"
    and loop: "ReadLoop Read (receive_packet (c_sessionIndex (clients s2 ! c)))
                 (packetBuffer (clients s2 ! c)) s2 = Some (Inr (pb, s3))"
    and t: "set_client (Some c) (\<lambda>ci. ci\<lparr>packetBuffer := pb\<rparr>) s3 = Inr t"
    by (auto simp: work_received_def bind_res_Inr_iff split: sum.splits option.splits)
  have "server_ok s1" using s1 assms(2) by (rule server_ok_OnRecv)
  with s2 have ok2: "server_ok s2" by (auto split: if_splits dest: server_ok_OnConnect)
  let ?P = "\<lambda>u. server_ok u \<and> clients u = clients s2"
  have "?P s3"
    by (rule ReadLoop_state [OF loop, where P = ?P])
       (use ok2 server_ok_receive_packet in
        \<open>auto simp: receive_packet_def OnReceive_def QueueRecvPacket_def split: if_splits\<close>)
  then have ok3: "server_ok s3" "clients s3 = clients s2" by simp_all
  from t have len: "c < length (clients s3)" by (auto simp: set_client_Inr_iff)
  with ok3(1) have c: "connection_ok (clients s3 ! c)" by (rule server_ok_client)
  with ReadLoop_keeps [OF loop] ok3(2) have "stream_ok pb" "bufferSize pb = 1024"
    by (simp_all add: connection_ok_def)
  with c have "connection_ok ((clients s3 ! c)\<lparr>packetBuffer := pb\<rparr>)" by (simp add: connection_ok_def)
  with t len ok3(1) show ?thesis
    by (auto simp: set_client_Inr_iff intro!: server_ok_client_update)
qed

section \<open>Steps\<close>

lemma server_ok_WorkerThread [invs]:
  assumes "WorkerThread now ev s = Some (Inr t)" and "server_ok s"
  shows "server_ok t"
  using assms
  by (cases ev) (auto simp: WorkerThread_def split: option.splits
      elim!: server_ok_disconnect server_ok_work_accepted server_ok_work_received server_ok_work_sent)

lemma server_ok_ProcessThread [invs]:
  assumes "ProcessThread s = Inr t" and "server_ok s"
  shows "server_ok t"
proof (cases "packetQueue s")
  case Nil
  with assms show ?thesis by (simp add: ProcessThread_def DequePacketData_def)
next
  case (Cons d ds)
  with assms(1) obtain x :: PacketData where
    "(if pd_DataSize x = 0 then Inr (s\<lparr>packetQueue := ds\<rparr>)
      else case FindClientInfo (pd_SessionIndex x) (s\<lparr>packetQueue := ds\<rparr>) of
             None \<Rightarrow> Inr (s\<lparr>packetQueue := ds\<rparr>)
           | Some c \<Rightarrow> SendMsg (Some c) (pPacketData x) SEND (s\<lparr>packetQueue := ds\<rparr>)) = Inr t"
    by (auto simp: ProcessThread_def DequePacketData_def bind_res_Inr_iff)
  then consider "s\<lparr>packetQueue := ds\<rparr> = t"
    | c where "SendMsg (Some c) (pPacketData x) SEND (s\<lparr>packetQueue := ds\<rparr>) = Inr t"
    by (auto split: if_splits option.splits)
  then show ?thesis
    by cases (use assms(2) server_ok_SendMsg in \<open>auto simp del: fun_upd_apply\<close>)
qed

lemma server_ok_step:
  assumes "server_step sh ev s = Some (Inr t)" and "server_ok s" and "is_shuffle sh"
  shows "server_ok t"
  using assms
  by (cases ev) (auto simp: server_step_def
      intro: server_ok_AcceptThread
      elim: server_ok_WorkerThread server_ok_PacketThread server_ok_ProcessThread)

lemma server_ok_steps:
  assumes "steps sh s es t" and "is_shuffle sh" and "server_ok s"
  shows "server_ok t"
  using assms by induction (auto dest: server_ok_step)

end
