(* ===== verification/RoomFacts.thy ===== *)
theory RoomFacts
  imports ServerInv
begin

text \<open>
  Functional facts about the managers: the room directory as an instance of an interface, the
  blocks a player is dealt, and the listing of rooms.
\<close>

section \<open>A directory that never reuses a key\<close>

locale directory =
  fixes lookup :: "int \<Rightarrow> 's \<Rightarrow> 'r option"
    and create :: "'s \<Rightarrow> (int \<times> 's) res"
    and remove :: "int \<Rightarrow> 's \<Rightarrow> 's"
    and fresh :: "int \<Rightarrow> 'r"
    and inv :: "'s \<Rightarrow> bool"
    and bound :: "'s \<Rightarrow> int"
  assumes create_lookup: "inv s \<Longrightarrow> create s = Inr (k, t) \<Longrightarrow>
          lookup j t = (if j = k then Some (fresh k) else lookup j s)"
    and create_inv: "inv s \<Longrightarrow> create s = Inr (k, t) \<Longrightarrow> inv t"
    and create_key: "create s = Inr (k, t) \<Longrightarrow> k = bound s \<and> bound t = bound s + 1"
    and remove_lookup: "inv s \<Longrightarrow> lookup j (remove k s) = (if j = k then None else lookup j s)"
    and remove_inv: "inv s \<Longrightarrow> inv (remove k s)"
    and remove_bound: "bound (remove k s) = bound s"
    and below_bound: "inv s \<Longrightarrow> lookup j s = Some r \<Longrightarrow> j < bound s"
begin

lemma create_is_new: "inv s \<Longrightarrow> create s = Inr (k, t) \<Longrightarrow> lookup k s = None"
  using below_bound [of s k] create_key [of s k t] by (cases "lookup k s") auto

lemma remove_create:
  assumes "inv s" and "create s = Inr (k, t)"
  shows "lookup j (remove k t) = lookup j s"
  using create_inv [OF assms] create_lookup [OF assms] create_is_new [OF assms]
  by (simp add: remove_lookup)

text \<open>A removed key stays unused, whatever is created later.\<close>

lemma no_reuse:
  assumes "inv s" and "lookup k s = Some r" and "create (remove k s) = Inr (j, t)"
  shows "j \<noteq> k \<and> lookup k t = None"
proof -
  have "k < bound s" using assms(1,2) by (rule below_bound)
  moreover have "j = bound s" using create_key [OF assms(3)] remove_bound by simp
  ultimately have "j \<noteq> k" by simp
  with create_lookup [OF remove_inv [OF assms(1)] assms(3)] assms(1) show ?thesis
    by (simp add: remove_lookup)
qed

end

definition room_lookup :: "int \<Rightarrow> Server \<Rightarrow> Room option" where
  "room_lookup k s = map_option (\<lambda>i. rooms s ! i) (FindRoom k s)"

lemma room_lookup_iff:
  assumes "distinct (map r_roomIndex (rooms s))"
  shows "room_lookup k s = Some r \<longleftrightarrow> r \<in> set (rooms s) \<and> r_roomIndex r = k"
proof -
  have "map_option ((!) rs) (find_room k rs) = Some r \<longleftrightarrow> r \<in> set rs \<and> r_roomIndex r = k"
    if "distinct (map r_roomIndex rs)" for rs
    using that
  proof (induction rs)
    case Nil
    then show ?case by simp
  next
    case (Cons x rs)
    show ?case
    proof (cases "r_roomIndex x = k")
      case True
      with Cons.prems show ?thesis by (auto simp: image_iff)
    next
      case False
      have "map_option ((!) (x # rs)) (map_option Suc (find_room k rs)) = map_option ((!) rs) (find_room k rs)"
        by (simp add: option.map_comp comp_def)
      with False Cons show ?thesis by auto
    qed
  qed
  with assms show ?thesis by (simp add: room_lookup_def FindRoom_def)
qed

lemma room_lookup_None:
  assumes "distinct (map r_roomIndex (rooms s))"
  shows "room_lookup k s = None \<longleftrightarrow> k \<notin> r_roomIndex ` set (rooms s)"
proof -
  have "room_lookup k s = None \<longleftrightarrow> (\<forall>r. room_lookup k s \<noteq> Some r)" by simp
  with room_lookup_iff [OF assms] show ?thesis by auto
qed

lemma rooms_ok_distinct: "rooms_ok s \<Longrightarrow> distinct (map r_roomIndex (rooms s))"
  by (simp add: rooms_ok_def)

lemma lookup_cong:
  assumes "distinct (map r_roomIndex (rooms s))" and "distinct (map r_roomIndex (rooms t))"
    and "\<And>r. r \<in> set (rooms s) \<and> r_roomIndex r = k \<longleftrightarrow> r \<in> set (rooms t) \<and> r_roomIndex r = k"
  shows "room_lookup k s = room_lookup k t"
proof (cases "room_lookup k t")
  case None
  then have "k \<notin> r_roomIndex ` set (rooms t)" by (simp add: room_lookup_None [OF assms(2)])
  then have "k \<notin> r_roomIndex ` set (rooms s)" using assms(3) unfolding image_iff by blast
  with None show ?thesis by (simp add: room_lookup_None [OF assms(1)])
next
  case (Some r)
  with assms(3) room_lookup_iff [OF assms(2)] room_lookup_iff [OF assms(1)] show ?thesis by metis
qed

lemma rooms_ok_part:
  "rooms_ok s \<Longrightarrow> CreateRoom s = Inr (k, t) \<Longrightarrow> rooms_ok t"
  "rooms_ok s \<Longrightarrow> rooms_ok (RemoveRoom k s)"
proof -
  let ?c = "\<lambda>s. s\<lparr>sessions := [], clients := [], heap := (\<lambda>_. None), allPlayers := []\<rparr>"
  have c: "server_ok (?c s) \<longleftrightarrow> rooms_ok s" for s
    by (simp add: server_ok_defs)
  show "rooms_ok t" if "rooms_ok s" "CreateRoom s = Inr (k, t)"
  proof -
    have "CreateRoom (?c s) = Inr (k, ?c t)"
      using that(2) by (auto simp: CreateRoom_def bind_res_Inr_iff)
    from server_ok_CreateRoom [OF this] that(1) show ?thesis by (simp only: c)
  qed
  show "rooms_ok (RemoveRoom k s)" if "rooms_ok s"
  proof -
    have "?c (RemoveRoom k s) = RemoveRoom k (?c s)"
      by (simp add: RemoveRoom_def split: option.split)
    with server_ok_RemoveRoom [of "?c s" k] that show ?thesis by (metis c)
  qed
qed

lemma set_RemoveRoom:
  assumes "rooms_ok s"
  shows "r \<in> set (rooms (RemoveRoom k s)) \<longleftrightarrow> r \<in> set (rooms s) \<and> r_roomIndex r \<noteq> k"
proof (cases "find_room k (rooms s)")
  case None
  then have "room_lookup k s = None" by (simp add: room_lookup_def FindRoom_def)
  with None assms show ?thesis
    by (auto simp: RemoveRoom_def room_lookup_None [OF rooms_ok_distinct])
next
  case (Some i)
  from find_room_Some [OF Some] have i: "i < length (rooms s)" "r_roomIndex (rooms s ! i) = k" by auto
  have split: "rooms s = take i (rooms s) @ rooms s ! i # drop (Suc i) (rooms s)"
    using i(1) by (rule id_take_nth_drop)
  have "distinct (map r_roomIndex (take i (rooms s) @ rooms s ! i # drop (Suc i) (rooms s)))"
    using rooms_ok_distinct [OF assms] split by simp
  with i(2) have "\<forall>x \<in> set (take i (rooms s)) \<union> set (drop (Suc i) (rooms s)). r_roomIndex x \<noteq> k"
    by (auto simp: image_iff)
  moreover have "set (rooms s) = insert (rooms s ! i) (set (take i (rooms s)) \<union> set (drop (Suc i) (rooms s)))"
    by (subst split) simp
  ultimately show ?thesis using Some i(2) by (auto simp: RemoveRoom_def)
qed

lemma roomIndex_RemoveRoom [simp]: "roomIndex (RemoveRoom k s) = roomIndex s"
  by (simp add: RemoveRoom_def split: option.split)

lemma CreateRoom_key: "CreateRoom s = Inr (k, t) \<Longrightarrow> k = roomIndex s \<and> roomIndex t = roomIndex s + 1"
  by (auto simp: CreateRoom_def bind_res_Inr_iff int32_res_Inr_iff)

interpretation room_dir: directory room_lookup CreateRoom RemoveRoom
  "\<lambda>k. new_Room k ROOM_MAX_PLAYER" rooms_ok roomIndex
proof
  fix s k t j assume ok: "rooms_ok s" and create: "CreateRoom s = Inr (k, t)"
  note d = rooms_ok_distinct [OF ok] and d' = rooms_ok_distinct [OF rooms_ok_part(1) [OF ok create]]
  from create have t: "k = roomIndex s" "rooms t = rooms s @ [new_Room k ROOM_MAX_PLAYER]"
    by (auto simp: CreateRoom_def bind_res_Inr_iff)
  have new: "r_roomIndex (new_Room k ROOM_MAX_PLAYER) = k" by (simp add: new_Room_def)
  have "r_roomIndex r \<noteq> k" if "r \<in> set (rooms s)" for r
    using ok that by (auto simp: rooms_ok_def room_ok_def list_all_iff t(1))
  then show "room_lookup j t = (if j = k then Some (new_Room k ROOM_MAX_PLAYER) else room_lookup j s)"
    using room_lookup_iff [OF d', of k] lookup_cong [OF d' d, of j] new by (auto simp: t(2))
next
  fix s j k assume ok: "rooms_ok s"
  note d = rooms_ok_distinct [OF ok] and d' = rooms_ok_distinct [OF rooms_ok_part(2) [OF ok], of k]
  show "room_lookup j (RemoveRoom k s) = (if j = k then None else room_lookup j s)"
    using room_lookup_None [OF d', of k] lookup_cong [OF d' d, of j] set_RemoveRoom [OF ok, of _ k]
    by auto
next
  fix s j r assume "rooms_ok s" "room_lookup j s = Some r"
  then show "j < roomIndex s"
    using room_lookup_iff [OF rooms_ok_distinct] by (auto simp: rooms_ok_def room_ok_def list_all_iff)
qed (simp_all add: rooms_ok_part CreateRoom_key)

section \<open>Dealing blocks\<close>

definition extend_blocks :: "nat \<Rightarrow> ShapeType list \<Rightarrow> nat \<Rightarrow> Server \<Rightarrow> Server" where
  "extend_blocks i ext n s =
     (set_room i (\<lambda>r. r\<lparr>fallingBlocks := fallingBlocks r @ ext\<rparr>) s)\<lparr>shuffles := n\<rparr>"

lemma extend_blocks_sel [simp]:
  "i < length (rooms s) \<Longrightarrow> fallingBlocks (rooms (extend_blocks i ext n s) ! i) = fallingBlocks (rooms s ! i) @ ext"
  "i < length (rooms s) \<Longrightarrow> players (rooms (extend_blocks i ext n s) ! i) = players (rooms s ! i)"
  "length (rooms (extend_blocks i ext n s)) = length (rooms s)"
  "heap (extend_blocks i ext n s) = heap s"
  "clients (extend_blocks i ext n s) = clients s"
  "sessions (extend_blocks i ext n s) = sessions s"
  by (simp_all add: extend_blocks_def set_room_def)

lemma extend_extend:
  "i < length (rooms s) \<Longrightarrow>
     extend_blocks i b m (extend_blocks i a n s) = extend_blocks i (a @ b) m s"
  by (simp add: extend_blocks_def set_room_def)

lemma extend_Nil: "i < length (rooms s) \<Longrightarrow> extend_blocks i [] (shuffles s) s = s"
  by (cases s) (simp add: extend_blocks_def set_room_def)

lemma Generate_extend:
  "GenerateFallingBlocks sh i s =
     extend_blocks i (map ((!) (sh (shuffles s) seven_shapes)) [0..<7]) (shuffles s + 1) s"
  by (simp add: GenerateFallingBlocks_def extend_blocks_def set_room_def)

lemma fill_blocks_spec:
  assumes "i < length (rooms s)"
  shows "\<exists>ext n. fill_blocks sh i index s = extend_blocks i ext n s \<and>
           index < int (length (fallingBlocks (rooms s ! i) @ ext))"
  using assms
proof (induction sh i index s rule: fill_blocks.induct)
  case (1 sh i index s)
  show ?case
  proof (cases "index \<ge> int (length (fallingBlocks (rooms s ! i)))")
    case True
    let ?b = "map ((!) (sh (shuffles s) seven_shapes)) [0..<7]"
    let ?s = "extend_blocks i ?b (shuffles s + 1) s"
    have g: "GenerateFallingBlocks sh i s = ?s" by (rule Generate_extend)
    from True 1 g obtain ext n where m: "fill_blocks sh i index ?s = extend_blocks i ext n ?s"
      "index < int (length (fallingBlocks (rooms ?s ! i) @ ext))" by auto
    have "fill_blocks sh i index s = extend_blocks i (?b @ ext) n s"
      using True 1(2) g m(1) by (subst fill_blocks.simps) (simp add: extend_extend)
    with m(2) 1(2) show ?thesis
      by (intro exI [of _ "?b @ ext"] exI [of _ n]) simp
  next
    case False
    with 1(2) have "fill_blocks sh i index s = extend_blocks i [] (shuffles s) s"
      by (subst fill_blocks.simps) (simp add: extend_Nil)
    with False show ?thesis by (intro exI [of _ "[]"] exI [of _ "shuffles s"]) simp
  qed
qed

definition advance :: "nat \<Rightarrow> int \<Rightarrow> Server \<Rightarrow> Server" where
  "advance a k s = s\<lparr>heap := (heap s)(a := map_option (\<lambda>p. p\<lparr>p_fallingBlockIndex := k\<rparr>) (heap s a))\<rparr>"

lemma GetFallingBlock_spec:
  assumes "i < length (rooms s)" and "heap s a = Some p" and "p_fallingBlockIndex p = int k"
    and "int k + int c < 2 ^ 31"
  shows "\<exists>ext n. GetFallingBlock sh i (Some a) (int c) s =
             Inr (take c (drop k (fallingBlocks (rooms s ! i) @ ext)),
                  extend_blocks i ext n (advance a (int k + int c) s)) \<and>
           k + c < length (fallingBlocks (rooms s ! i) @ ext)"
proof -
  let ?u = "advance a (int k + int c) s"
  have st: "size_t (int k + int c) = int k + int c" using assms(4) by (intro size_t_nonneg) auto
  have room: "rooms ?u = rooms s" by (simp add: advance_def)
  from fill_blocks_spec [of i ?u sh "int k + int c"] assms(1) obtain ext n where
    f: "fill_blocks sh i (int k + int c) ?u = extend_blocks i ext n ?u"
      "int k + int c < int (length (fallingBlocks (rooms s ! i) @ ext))" by (auto simp: room)
  have "set_player (Some a) (\<lambda>p. p\<lparr>p_fallingBlockIndex := int k + int c\<rparr>) s = Inr ?u"
    using assms(2) by (simp add: set_player_def advance_def)
  then have "GetFallingBlock sh i (Some a) (int c) s =
     Inr (take c (drop k (fallingBlocks (rooms s ! i) @ ext)), extend_blocks i ext n ?u)"
    using assms f st room by (simp add: GetFallingBlock_def int32_res_def Let_def)
  with f(2) show ?thesis by (intro exI [of _ ext] exI [of _ n]) auto
qed

section \<open>Listing rooms\<close>

lemma GetRoomList_page:
  assumes "1 \<le> page" and "page * 8 \<le> length (rooms s)" and "length (rooms s) < 2 ^ 31"
  shows "GetRoomList (int page) s = Inr (map room_info (take 8 (drop (8 * (page - 1)) (rooms s))))"
proof -
  from assms(1) obtain q where q: "page = Suc q" by (cases page) auto
  have st: "size_t (int page * 8) = int page * 8"
    using assms by (intro size_t_nonneg) auto
  have ok: "int32_res (int page * 8) = Inr (int page * 8)" using assms by (simp add: int32_res_def)
  have "map (\<lambda>i. room_info (rooms s ! i)) [8 * q..<8 * q + 8] = map room_info (take 8 (drop (8 * q) (rooms s)))"
    using assms(2) q by (intro nth_equalityI) (auto simp del: upt_Suc)
  moreover have "nat (int page * 8) = 8 * q + 8" "nat (int page * 8 - 8) = 8 * q" using q by auto
  moreover have "\<not> int page * 8 - 8 < 0" using q by simp
  ultimately show ?thesis
    using ok st assms(2) q by (simp add: GetRoomList_def Let_def del: upt_Suc)
qed

lemma GetRoomList_last:
  assumes "length (rooms s) < page * 8" and "8 \<le> length (rooms s)" and "page < 2 ^ 28"
  shows "GetRoomList (int page) s = Inr (map room_info (drop (length (rooms s) - 8) (rooms s)))"
proof -
  let ?n = "length (rooms s)"
  have st: "size_t (int page * 8) = int page * 8" using assms by (intro size_t_nonneg) auto
  have ok: "int32_res (int page * 8) = Inr (int page * 8)" using assms by (simp add: int32_res_def)
  have "map (\<lambda>i. room_info (rooms s ! i)) [?n - 8..<?n] = map room_info (drop (?n - 8) (rooms s))"
    using assms(2) by (intro nth_equalityI) (auto simp del: upt_Suc)
  moreover have "nat (int ?n - 8) = ?n - 8" by simp
  ultimately show ?thesis
    using ok st assms by (simp add: GetRoomList_def Let_def)
qed

lemma GetRoomList_length:
  assumes "GetRoomList page s = Inr infos"
  shows "length infos = ROOM_CNT_PER_PAGE"
proof -
  let ?e = "\<lambda>x. if size_t x > int (length (rooms s)) then int (length (rooms s)) else x"
  have "length infos = ROOM_CNT_PER_PAGE" if "infos = (if length r < ROOM_CNT_PER_PAGE
      then r @ replicate (ROOM_CNT_PER_PAGE - length r) default_RoomInfo else r)" "length r \<le> 8"
    for r using that by auto
  moreover have "nat e - nat (if e - 8 < 0 then 0 else e - 8) \<le> 8" for e :: int by auto
  ultimately show ?thesis
    using assms by (auto simp: GetRoomList_def bind_res_Inr_iff Let_def split: if_splits)
qed

end
