(* ===== verification/AnswerFacts.thy ===== *)
theory AnswerFacts
  imports RoomFacts
begin

text \<open>
  What a handled request leaves behind: the managers never touch the handlers' \<open>res\<close>, a \<open>Logic\<close>
  changes only its own handler's body, and so the answer carries the header that \<open>ReadReq\<close> made.
\<close>

section \<open>The managers leave the answers alone\<close>

definition answers :: "Server \<Rightarrow> RES_LOGIN \<times> RES_FALLING_BLOCK \<times> RES_GAME_INPUT \<times> RES_GAME_START \<times>
    RES_GAME_STOP \<times> RES_ROOM_CAN_ENTER \<times> RES_ROOM_CREATE \<times> RES_ROOM_ENTER \<times> RES_ROOM_LEAVE \<times>
    RES_ROOM_LIST" where
  "answers s = (resLogin s, resFallingBlock s, resGameInput s, resGameStart s, resGameStop s,
     resRoomCanEnter s, resRoomCreate s, resRoomEnter s, resRoomLeave s, resRoomList s)"

named_theorems frames "the operation leaves the answers alone"

lemma answers_set_player [frames]: "set_player p g s = Inr t \<Longrightarrow> answers t = answers s"
  by (auto simp: set_player_Inr_iff answers_def)

lemma answers_set_client [frames]: "set_client p g s = Inr t \<Longrightarrow> answers t = answers s"
  by (auto simp: set_client_Inr_iff answers_def)

lemma answers_set_room [simp]: "answers (set_room i g s) = answers s"
  by (simp add: set_room_def answers_def)

lemma answers_SendMsg [frames]: "SendMsg c m op s = Inr t \<Longrightarrow> answers t = answers s"
  by (auto simp: SendMsg_def dest: answers_set_client)

lemma answers_SendNotify [frames]: "SendNotify i pid n enc req s = Inr t \<Longrightarrow> answers t = answers s"
  by (auto simp: SendNotify_def bind_res_Inr_iff dest: answers_SendMsg)

lemma answers_fold:
  assumes "fold_res f xs s = Inr t" and "\<And>x u v. f x u = Inr v \<Longrightarrow> answers v = answers u"
  shows "answers t = answers s"
  using assms(1) by (rule fold_res_invariant [where P = "\<lambda>u. answers u = answers s"]) (use assms(2) in auto)

lemma answers_AddPlayer [frames]:
  assumes "AddPlayer i e s = Inr t" shows "answers t = answers s"
proof -
  have "answers v = answers u" if "greet e res r u = Inr v" for res r u v
    using that by (auto simp: greet_def bind_res_Inr_iff Let_def dest!: answers_SendNotify)
  note fold = answers_fold [of "greet e res" for res, OF _ this]
  from assms show ?thesis
    by (auto simp: AddPlayer_def bind_res_Inr_iff Let_def split: if_splits
        dest!: fold answers_set_player)
qed

lemma answers_RemovePlayer [frames]: "RemovePlayer i k s = Inr t \<Longrightarrow> answers t = answers s"
  by (auto simp: RemovePlayer_def bind_res_Inr_iff split: option.splits dest!: answers_set_player)

lemma answers_Generate [simp]: "answers (GenerateFallingBlocks sh i s) = answers s"
  by (simp add: GenerateFallingBlocks_def) (simp add: answers_def)

lemma answers_fill_blocks [simp]: "answers (fill_blocks sh i index s) = answers s"
proof (induction sh i index s rule: fill_blocks.induct)
  case (1 sh i index s)
  then show ?case by (subst fill_blocks.simps) simp
qed

lemma answers_GetFallingBlock [frames]:
  "GetFallingBlock sh i p cnt s = Inr (bs, t) \<Longrightarrow> answers t = answers s"
  by (auto simp: GetFallingBlock_def bind_res_Inr_iff Let_def split: if_splits
      dest!: answers_set_player)

lemma answers_GameStart [frames]:
  assumes "GameStart sh i k s = Inr t" shows "answers t = answers s"
proof -
  have "answers v = answers u" if "start_player sh i k r u = Inr v" for r u v
    using that by (auto simp: start_player_def bind_res_Inr_iff split: if_splits
        dest!: answers_SendNotify answers_GetFallingBlock answers_set_player)
  note fold = answers_fold [of "start_player sh i k", OF _ this]
  from assms show ?thesis by (auto simp: GameStart_def Let_def dest!: fold)
qed

lemma answers_notify [frames]:
  assumes "fold_res (notify_other k pid n enc res) rs s = Inr t" shows "answers t = answers s"
  using assms
  by (rule answers_fold)
     (auto simp: notify_other_def bind_res_Inr_iff split: if_splits dest: answers_SendNotify)

lemma answers_GameStop [frames]: "GameStop i k s = Inr t \<Longrightarrow> answers t = answers s"
  by (auto simp: GameStop_def Let_def dest!: answers_notify)

lemma answers_AddKeyInput [frames]: "AddKeyInput i k is cnt s = Inr t \<Longrightarrow> answers t = answers s"
  by (auto simp: AddKeyInput_def Let_def split: if_splits dest!: answers_notify)

lemma answers_CreateRoom [frames]: "CreateRoom s = Inr (k, t) \<Longrightarrow> answers t = answers s"
  by (auto simp: CreateRoom_def bind_res_Inr_iff answers_def)

lemma answers_RemoveRoom [simp]: "answers (RemoveRoom k s) = answers s"
  by (simp add: RemoveRoom_def answers_def split: option.split)

section \<open>A logic keeps the header of its answer\<close>

lemma header_update [simp]:
  "header_of (resultID_update f (p :: 'a BASE_PACKET_scheme)) = header_of p"
  "header_of (newSessionID_update g q1) = header_of q1"
  "header_of (newRoomIndex_update g q2) = header_of q2"
  "header_of (enterSessionIndex_update g q3) = header_of q3"
  "header_of (roomInfo_update h q4) = header_of q4"
  "header_of (newBlocks_update h' q5) = header_of q5"
  by (simp_all add: header_of_def PACKET_HEADER.defs)

lemma logic_header:
  "ReqLogin r0 p s = Inr t \<Longrightarrow> header_of (resLogin t) = header_of (resLogin s)"
  "ReqFallingBlock sh r0 p s = Inr t \<Longrightarrow> header_of (resFallingBlock t) = header_of (resFallingBlock s)"
  "ReqGameInput r1 p s = Inr t \<Longrightarrow> header_of (resGameInput t) = header_of (resGameInput s)"
  "ReqGameStart sh r0 p s = Inr t \<Longrightarrow> header_of (resGameStart t) = header_of (resGameStart s)"
  "ReqGameStop r0 p s = Inr t \<Longrightarrow> header_of (resGameStop t) = header_of (resGameStop s)"
  "ReqRoomCanEnter r2 p s = Inr t \<Longrightarrow> header_of (resRoomCanEnter t) = header_of (resRoomCanEnter s)"
  "ReqRoomCreate r0 p s = Inr t \<Longrightarrow> header_of (resRoomCreate t) = header_of (resRoomCreate s)"
  "ReqRoomEnter r2 p s = Inr t \<Longrightarrow> header_of (resRoomEnter t) = header_of (resRoomEnter s)"
  "ReqRoomLeave r0 p s = Inr t \<Longrightarrow> header_of (resRoomLeave t) = header_of (resRoomLeave s)"
  "ReqRoomList r3 p s = Inr t \<Longrightarrow> header_of (resRoomList t) = header_of (resRoomList s)"
  subgoal by (auto simp: ReqLogin_def bind_res_Inr_iff)
  subgoal by (auto simp: ReqFallingBlock_def bind_res_Inr_iff split: option.splits
        dest!: answers_GetFallingBlock simp: answers_def)
  subgoal by (auto simp: ReqGameInput_def bind_res_Inr_iff split: option.splits
        dest!: answers_AddKeyInput simp: answers_def)
  subgoal by (auto simp: ReqGameStart_def bind_res_Inr_iff split: option.splits
        dest!: answers_GetFallingBlock answers_set_player answers_GameStart simp: answers_def)
  subgoal by (auto simp: ReqGameStop_def bind_res_Inr_iff split: option.splits
        dest!: answers_GameStop simp: answers_def)
  subgoal by (auto simp: ReqRoomCanEnter_def split: option.splits)
  subgoal by (auto simp: ReqRoomCreate_def bind_res_Inr_iff dest!: answers_CreateRoom simp: answers_def)
  subgoal by (auto simp: ReqRoomEnter_def bind_res_Inr_iff split: option.splits
        dest!: answers_AddPlayer simp: answers_def)
  subgoal premises prems
    using prems answers_RemoveRoom
    by (auto simp: ReqRoomLeave_def bind_res_Inr_iff split: option.splits if_splits
        dest!: answers_RemovePlayer simp: answers_def)
  subgoal by (auto simp: ReqRoomList_def bind_res_Inr_iff split: if_splits)
  done

section \<open>The answer on the wire\<close>

lemma enc_prefix:
  "\<exists>r. enc_BASE p = enc_header (header_of p) @ r"
  "\<exists>r. enc_RES_LOGIN q1 = enc_header (header_of q1) @ r"
  "\<exists>r. enc_RES_ROOM_CREATE q2 = enc_header (header_of q2) @ r"
  "\<exists>r. enc_RES_ROOM_ENTER q3 = enc_header (header_of q3) @ r"
  "\<exists>r. enc_RES_ROOM_LIST q4 = enc_header (header_of q4) @ r"
  "\<exists>r. enc_RES_GAME_START q5 = enc_header (header_of q5) @ r"
  "\<exists>r. enc_RES_GAME_INPUT q6 = enc_header (header_of q6) @ r"
  by (simp_all add: enc_BASE_starts enc_BASE_starts0 enc_RES_LOGIN_def enc_RES_ROOM_CREATE_def
      enc_RES_ROOM_ENTER_def enc_RES_ROOM_LIST_def enc_RES_GAME_START_def enc_RES_GAME_INPUT_def)

lemma dec_header_prefix: "dec_header (enc_header (h :: PACKET_HEADER) @ r) = h"
  by (cases h) (simp add: enc_header_def dec_header_def fld_def)

lemma dec_header_take: "12 \<le> n \<Longrightarrow> dec_header (take n bs) = dec_header bs"
  by (simp add: dec_header_def fld_def drop_take min_def)

lemma header_of_dec:
  "header_of (dec_BASE bs) = dec_header bs"
  "header_of (dec_REQ_ROOM_ENTER bs) = dec_header bs"
  "header_of (dec_REQ_ROOM_LIST bs) = dec_header bs"
  "header_of (dec_REQ_GAME_INPUT bs) = dec_header bs"
  by (simp_all add: header_of_def dec_BASE_def dec_REQ_ROOM_ENTER_def dec_REQ_ROOM_LIST_def
      dec_REQ_GAME_INPUT_def dec_header_def PACKET_HEADER.defs BASE_PACKET.defs)

text \<open>The header the answer to a packet has to carry.\<close>

definition answer_to :: "nat \<Rightarrow> PACKET_HEADER \<Rightarrow> PACKET_HEADER" where
  "answer_to n h = h\<lparr>PacketId := PacketId h + 1, PacketLength := of_nat n\<rparr>"

lemma header_of_answer: "header_of (answer_header n req res) = answer_to n (header_of req)"
  by (simp add: answer_header_def answer_to_def header_of_def PACKET_HEADER.defs)

definition answered :: "int \<Rightarrow> nat \<Rightarrow> bytes \<Rightarrow> Server \<Rightarrow> bool" where
  "answered index n packet t \<longleftrightarrow>
     (\<exists>c ms m. clientInfo (sessions t ! nat (index - 1)) = Some c \<and> c < length (clients t) \<and>
        sendDataQueue (clients t ! c) = ms @ [\<lparr>wsaBuf = m, operation = SEND\<rparr>] \<and>
        dec_header m = answer_to n (dec_header packet))"

lemma SendPacketFunc_last:
  assumes "SendPacketFunc k m s = Inr t"
  shows "\<exists>c ms. clientInfo (sessions t ! nat (k - 1)) = Some c \<and> c < length (clients t) \<and>
           sendDataQueue (clients t ! c) = ms @ [\<lparr>wsaBuf = m, operation = SEND\<rparr>]"
  using assms
  by (auto simp: SendPacketFunc_def SendMsg_def FindSession_def bind_res_Inr_iff set_client_Inr_iff
      sender.give_waiting split: option.splits)

lemma Handle_answer:
  assumes "Handle n dec m enc get upd logic k packet s = Inr t"
    and "\<And>f u. get (upd f u) = f (get u)"
    and "\<And>req p u v. logic req p u = Inr v \<Longrightarrow> header_of (get v) = header_of (get u)"
    and "\<And>bs. header_of (dec bs) = dec_header bs" and "12 \<le> n"
    and "\<And>x. \<exists>r. enc x = enc_header (header_of x) @ r"
  shows "answered k m packet t"
proof -
  from assms(1) obtain req p u where req: "req = dec (take n packet)"
    and u: "logic req p (upd (answer_header m req) s) = Inr u"
    and t: "SendPacketFunc k (enc (get u)) u = Inr t"
    by (auto simp: Handle_def ReadReq_def bind_res_Inr_iff Let_def split: if_splits)
  have "header_of (get u) = answer_to m (dec_header packet)"
    using assms(3) [OF u] assms(2,4,5) by (simp add: header_of_answer req dec_header_take)
  moreover obtain r where "enc (get u) = enc_header (header_of (get u)) @ r" using assms(6) by blast
  ultimately have "dec_header (enc (get u)) = answer_to m (dec_header packet)"
    by (simp add: dec_header_prefix)
  with SendPacketFunc_last [OF t] show ?thesis unfolding answered_def by metis
qed

definition sizeof_answer :: "HandlerKind \<Rightarrow> nat" where
  "sizeof_answer k =
     (case k of
        H_Login \<Rightarrow> sizeof_RES_LOGIN | H_FallingBlock \<Rightarrow> sizeof_RES_GAME_START
      | H_GameInput \<Rightarrow> sizeof_RES_GAME_INPUT | H_GameStart \<Rightarrow> sizeof_RES_GAME_START
      | H_GameStop \<Rightarrow> sizeof_BASE | H_RoomCanEnter \<Rightarrow> sizeof_BASE
      | H_RoomCreate \<Rightarrow> sizeof_RES_ROOM_CREATE | H_RoomEnter \<Rightarrow> sizeof_RES_ROOM_ENTER
      | H_RoomLeave \<Rightarrow> sizeof_BASE | H_RoomList \<Rightarrow> sizeof_RES_ROOM_LIST)"

lemma run_handler_answer:
  assumes "run_handler sh k index packet s = Inr t"
  shows "answered index (sizeof_answer k) packet t"
proof -
  note sizes = sizeof_BASE_def sizeof_REQ_ROOM_ENTER_def sizeof_REQ_ROOM_LIST_def
    sizeof_REQ_GAME_INPUT_def
  have "run_handler sh k index packet s = Inr t \<longrightarrow> answered index (sizeof_answer k) packet t"
    by (cases k; simp add: run_handler_def sizeof_answer_def; intro impI; erule Handle_answer)
       (simp_all add: header_of_dec enc_prefix logic_header, simp_all add: sizes)
  with assms show ?thesis by blast
qed

end
