(* ===== verification/ServerClaims.thy ===== *)
theory ServerClaims
  imports AnswerFacts
begin

text \<open>
  What the server guarantees in every reachable state, what its operations compute, and where
  they fail their purpose.
\<close>

section \<open>Instances\<close>

text \<open>A server with two slots, and one that has two players in one room.\<close>

abbreviation start_server :: Server where
  "start_server \<equiv> new_Server (\<lambda>_. 0) 2"

definition keep_order :: shuffle where
  "keep_order n xs = xs"

lemma is_shuffle_keep_order: "is_shuffle keep_order"
  by (simp add: is_shuffle_def keep_order_def)

definition two_player_server :: Server where
  "two_player_server =
     start_server
       \<lparr>heap := [0 \<mapsto> new_Player\<lparr>p_playerUID := 0, p_sessionIndex := 1, p_roomIndex := 1\<rparr>,
                 1 \<mapsto> new_Player\<lparr>p_playerUID := 1, p_sessionIndex := 2, p_roomIndex := 1\<rparr>],
        nextAddress := 2, allPlayers := [Some 0, Some 1],
        rooms := [(new_Room 1 2)\<lparr>players := [0, 1]\<rparr>], roomIndex := 2,
        sessions :=
          [\<lparr>playerInfo = Some 0, clientInfo = Some 0, s_sessionIndex = 1, isUse = True\<rparr>,
           \<lparr>playerInfo = Some 1, clientInfo = Some 1, s_sessionIndex = 2, isUse = True\<rparr>]\<rparr>"

section \<open>Reachable states\<close>

text \<open>C7: in every state the server can reach, whatever completions, requests and accepts interleave,
  room indices are unique, no room holds more than two players, and every room's block sequence
  consists of whole bags of the seven shapes.\<close>

theorem reachable_rooms:
  assumes "is_shuffle sh" and "steps sh (new_Server fresh n) es s"
  shows "distinct (map r_roomIndex (rooms s)) \<and>
         (\<forall>r \<in> set (rooms s). length (players r) \<le> 2 \<and> r_roomIndex r < roomIndex s \<and>
                              bag_sequence (fallingBlocks r))"
  using server_ok_steps [OF assms(2,1) server_ok_new]
  by (auto simp: server_ok_def rooms_ok_def room_ok_def list_all_iff ROOM_MAX_PLAYER_def)

lemma accept_steps:
  "steps keep_order start_server [Completion 5 (Accepted 1 True True), PacketStep]
     (start_server\<lparr>clients := [(clients start_server ! 0)\<lparr>isConnect := True\<rparr>, clients start_server ! 1],
                   clientNumber := 1\<rparr>)"
proof -
  let ?t = "start_server\<lparr>clients := [(clients start_server ! 0)\<lparr>isConnect := True\<rparr>, clients start_server ! 1],
                   clientNumber := 1\<rparr>"
  have "[1..<3] = [1, 2 :: nat]" by (simp add: upt_rec)
  then have c: "clients start_server = [new_ClientInfo (\<lambda>_. 0) 1, new_ClientInfo (\<lambda>_. 0) 2]"
    by (simp add: new_Server_def numeral_3_eq_3)
  have "server_step keep_order (Completion 5 (Accepted 1 True True)) start_server = Some (Inr ?t)"
    by (simp add: server_step_def WorkerThread_def work_accepted_def FindClientInfo_def c
        AcceptCompletion_def Connect_def Clear_def new_ClientInfo_def) (simp add: new_Server_def)
  then have "steps keep_order start_server [Completion 5 (Accepted 1 True True)] ?t"
    using steps_step [OF steps_refl] by fastforce
  moreover have "server_step keep_order PacketStep ?t = Some (Inr ?t)"
    by (simp add: server_step_def PacketThread_def DequeRecvPacket_def new_Server_def)
  ultimately show ?thesis
    using steps_step by fastforce
qed

theorem reachable_rooms_witness:
  "\<exists>s. steps keep_order start_server [Completion 5 (Accepted 1 True True), PacketStep] s \<and>
       distinct (map r_roomIndex (rooms s))"
  using reachable_rooms [OF is_shuffle_keep_order accept_steps] accept_steps by blast

text \<open>Whatever messages are sent and completions arrive, a client's messages leave in the order
  given, each completion releases exactly one, and at most one is handed over and incomplete.\<close>

theorem messages_leave_in_order:
  assumes "run_sends SendMsg_client SendCompleted es c = Inr d" and "sendDataQueue c = []" and "wsaSends c = []"
  shows "\<exists>done. done @ sendDataQueue d = given es \<and>
           wsaSends d = done @ take 1 (sendDataQueue d) \<and>
           length done = length (filter (\<lambda>e. e = Complete) es)"
proof -
  have "sender.serial [] c" using assms(2,3) by (simp add: sender.serial_def)
  from sender.run_serial [OF assms(1) this] assms(2) show ?thesis
    by (auto simp: sender.serial_def)
qed

theorem messages_leave_in_order_witness:
  "\<exists>d. run_sends SendMsg_client SendCompleted [Give [1] SEND, Give [2] NOTIFY, Complete] (new_ClientInfo (\<lambda>_. 0) 1) = Inr d \<and>
       wsaSends d = [\<lparr>wsaBuf = [1], operation = SEND\<rparr>, \<lparr>wsaBuf = [2], operation = NOTIFY\<rparr>]"
proof -
  let ?c = "new_ClientInfo (\<lambda>_. 0) 1" and ?es = "[Give [1] SEND, Give [2] NOTIFY, Complete]"
  obtain d where d: "run_sends SendMsg_client SendCompleted ?es ?c = Inr d" "sendDataQueue d = [\<lparr>wsaBuf = [2], operation = NOTIFY\<rparr>]"
    by (simp add: SendMsg_client_def SendCompleted_def SendIO_def new_ClientInfo_def Let_def)
  from messages_leave_in_order [OF d(1)] d show ?thesis
    by (auto simp: new_ClientInfo_def)
qed

section \<open>Dealing blocks\<close>

text \<open>C11: \<open>GetFallingBlock\<close> always returns: it generates bags until the player's next blocks exist,
  returns exactly the blocks from the player's position on, advances the position, and never
  changes a block that is already there.\<close>

theorem GetFallingBlock_deals_next:
  assumes "i < length (rooms s)" and "heap s a = Some p" and "p_fallingBlockIndex p = int k"
    and "int k + 14 < 2 ^ 31"
  shows "\<exists>bs t new. GetFallingBlock sh i (Some a) (int PACKET_FALLING_BLOCK_SIZE) s = Inr (bs, t) \<and>
           length bs = PACKET_FALLING_BLOCK_SIZE \<and>
           fallingBlocks (rooms t ! i) = fallingBlocks (rooms s ! i) @ new \<and>
           bs = take PACKET_FALLING_BLOCK_SIZE (drop k (fallingBlocks (rooms t ! i))) \<and>
           (\<exists>q. heap t a = Some q \<and> p_fallingBlockIndex q = int k + 14)"
proof -
  from GetFallingBlock_spec [of i s a p k 14 sh] assms obtain new n where
    "GetFallingBlock sh i (Some a) (int 14) s =
       Inr (take 14 (drop k (fallingBlocks (rooms s ! i) @ new)),
            extend_blocks i new n (advance a (int k + 14) s))"
    "k + 14 < length (fallingBlocks (rooms s ! i) @ new)" by auto
  then show ?thesis using assms(1,2) by (auto simp: advance_def)
qed

theorem GetFallingBlock_deals_next_witness:
  "\<exists>bs t. GetFallingBlock keep_order 0 (Some 1) (int PACKET_FALLING_BLOCK_SIZE) two_player_server
            = Inr (bs, t) \<and> length bs = 14"
  using GetFallingBlock_deals_next [of 0 two_player_server 1 _ 0 keep_order]
  by (auto simp: two_player_server_def new_Player_def)

text \<open>C12: the game is fair: two players of a room who have taken equally many blocks get the same
  blocks next, whoever asks first.\<close>

theorem players_get_the_same_blocks:
  assumes "i < length (rooms s)" and "heap s a = Some p" and "heap s b = Some q" and "a \<noteq> b"
    and "p_fallingBlockIndex p = int k" and "p_fallingBlockIndex q = int k"
    and "int k + 14 < 2 ^ 31"
    and "GetFallingBlock sh i (Some a) (int PACKET_FALLING_BLOCK_SIZE) s = Inr (bs, t)"
    and "GetFallingBlock sh i (Some b) (int PACKET_FALLING_BLOCK_SIZE) t = Inr (cs, u)"
  shows "cs = bs"
proof -
  from GetFallingBlock_spec [of i s a p k 14 sh] assms obtain x n where
    x: "bs = take 14 (drop k (fallingBlocks (rooms s ! i) @ x))"
      "t = extend_blocks i x n (advance a (int k + 14) s)"
      "k + 14 < length (fallingBlocks (rooms s ! i) @ x)" by auto
  have r: "i < length (rooms t)" "heap t b = Some q"
    and f: "fallingBlocks (rooms t ! i) = fallingBlocks (rooms s ! i) @ x"
    using assms(1,3,4) by (simp_all add: x(2) advance_def)
  from GetFallingBlock_spec [OF r, of k 14 sh] assms(6,7,9) obtain y where
    "cs = take 14 (drop k ((fallingBlocks (rooms s ! i) @ x) @ y))" by (auto simp: f)
  with x(1,3) show ?thesis by simp
qed

theorem players_get_the_same_blocks_witness:
  "\<exists>bs t u. GetFallingBlock keep_order 0 (Some 0) 14 two_player_server = Inr (bs, t) \<and>
            GetFallingBlock keep_order 0 (Some 1) 14 t = Inr (bs, u)"
proof -
  let ?s = two_player_server
  have s: "0 < length (rooms ?s)" "\<exists>p. heap ?s 0 = Some p \<and> p_fallingBlockIndex p = int 0"
    "\<exists>q. heap ?s 1 = Some q \<and> p_fallingBlockIndex q = int 0"
    by (simp_all add: two_player_server_def new_Player_def)
  then obtain p q where p: "heap ?s 0 = Some p" "p_fallingBlockIndex p = int 0"
    and q: "heap ?s 1 = Some q" "p_fallingBlockIndex q = int 0" by blast
  from GetFallingBlock_spec [OF s(1) p, of 14 keep_order] obtain bs t x n where
    t: "GetFallingBlock keep_order 0 (Some 0) 14 ?s = Inr (bs, t)"
      "t = extend_blocks 0 x n (advance 0 14 ?s)" by auto
  have "heap t 1 = Some q" "0 < length (rooms t)" using q s(1) by (simp_all add: t(2) advance_def)
  from GetFallingBlock_spec [OF this(2,1) q(2), of 14 keep_order] obtain cs u where
    u: "GetFallingBlock keep_order 0 (Some 1) 14 t = Inr (cs, u)" by auto
  from players_get_the_same_blocks [OF s(1) p(1) q(1) _ p(2) q(2), of keep_order bs t cs u] t(1) u
  show ?thesis by simp
qed

end
