(* ===== verification/ServerEdge.thy ===== *)
theory ServerEdge
  imports ServerClaims
begin

text \<open>
  Rooms, listings and answers of the server, and the requests and events it does not survive or
  does not answer as intended.
\<close>

section \<open>Rooms and answers\<close>

text \<open>C30: the rooms form a directory: a created room gets an unused index and is found under it,
  removing it restores every lookup, and a removed index is not given out again.\<close>

theorem rooms_are_a_directory:
  assumes "rooms_ok s" and "CreateRoom s = Inr (k, t)"
  shows "room_lookup k s = None \<and> room_lookup k t = Some (new_Room k ROOM_MAX_PLAYER) \<and>
         (\<forall>j. j \<noteq> k \<longrightarrow> room_lookup j t = room_lookup j s) \<and>
         (\<forall>j. room_lookup j (RemoveRoom k t) = room_lookup j s) \<and>
         (\<forall>j u. CreateRoom (RemoveRoom k t) = Inr (j, u) \<longrightarrow> j \<noteq> k \<and> room_lookup k u = None)"
proof -
  have look: "room_lookup k t = Some (new_Room k ROOM_MAX_PLAYER)"
    using room_dir.create_lookup [OF assms] by simp
  have "\<forall>j u. CreateRoom (RemoveRoom k t) = Inr (j, u) \<longrightarrow> j \<noteq> k \<and> room_lookup k u = None"
    using room_dir.no_reuse [OF room_dir.create_inv [OF assms] look] by blast
  with look room_dir.create_is_new [OF assms] room_dir.create_lookup [OF assms]
    room_dir.remove_create [OF assms] show ?thesis by simp
qed

lemma rooms_ok_two_player_server: "rooms_ok two_player_server"
  by (simp add: rooms_ok_def two_player_server_def room_ok_def new_Room_def bag_Nil ROOM_MAX_PLAYER_def)

theorem rooms_are_a_directory_witness:
  "\<exists>t. CreateRoom two_player_server = Inr (2, t) \<and> room_lookup 2 two_player_server = None"
proof -
  have "\<exists>t. CreateRoom two_player_server = Inr (2, t)"
    by (simp add: CreateRoom_def two_player_server_def int32_res_def)
  then obtain t where "CreateRoom two_player_server = Inr (2, t)" by blast
  from rooms_are_a_directory [OF rooms_ok_two_player_server this] this show ?thesis by blast
qed

text \<open>Page \<open>p\<close> of the room list shows the rooms \<open>8 (p - 1)\<close> to \<open>8 p - 1\<close> as long as that many
  exist; the answer always has eight entries.\<close>

theorem room_list_page:
  assumes "1 \<le> page" and "page * 8 \<le> length (rooms s)" and "length (rooms s) < 2 ^ 31"
  shows "GetRoomList (int page) s = Inr (map room_info (take 8 (drop (8 * (page - 1)) (rooms s)))) \<and>
         length (take 8 (drop (8 * (page - 1)) (rooms s))) = ROOM_CNT_PER_PAGE"
  using GetRoomList_page [OF assms] assms(1,2) by auto

definition many_rooms :: "nat \<Rightarrow> Server" where
  "many_rooms n = start_server\<lparr>rooms := map (\<lambda>i. new_Room (int i + 1) 2) [0..<n], roomIndex := int n + 1\<rparr>"

theorem room_list_page_witness:
  "\<exists>infos. GetRoomList 2 (many_rooms 17) = Inr infos \<and> length infos = 8"
  using room_list_page [of 2 "many_rooms 17"] by (simp add: many_rooms_def del: upt_Suc)

text \<open>The last, incomplete page repeats rooms of the page before it: it always shows the last
  eight rooms.\<close>

theorem last_page_overlaps:
  assumes "1 < page" and "8 * (page - 1) < length (rooms s)" and "length (rooms s) < 8 * page"
    and "page < 2 ^ 28"
  shows "\<exists>last prev. GetRoomList (int page) s = Inr last \<and> GetRoomList (int (page - 1)) s = Inr prev \<and>
           hd last = prev ! (length (rooms s) - 8 * (page - 1)) \<and>
           length (rooms s) - 8 * (page - 1) < 8"
proof -
  let ?n = "length (rooms s)" and ?k = "length (rooms s) - 8 * (page - 1)"
  have n: "8 \<le> ?n" "?n < page * 8" "?n < 2 ^ 31" "1 \<le> page - 1" "(page - 1) * 8 \<le> ?n"
    using assms by auto
  have "hd (map room_info (drop (?n - 8) (rooms s))) = room_info (rooms s ! (?n - 8))"
    using n(1) by (simp add: hd_drop_conv_nth hd_map)
  moreover have "map room_info (take 8 (drop (8 * (page - 1 - 1)) (rooms s))) ! ?k
      = room_info (rooms s ! (8 * (page - 1 - 1) + ?k))"
    using assms by simp
  moreover have "8 * (page - 1 - 1) + ?k = ?n - 8" using assms by auto
  moreover have "?k < 8" using assms by auto
  ultimately show ?thesis
    using GetRoomList_last [OF n(2,1) assms(4)] GetRoomList_page [OF n(4,5,3)] by simp
qed

theorem last_page_overlaps_witness:
  "\<exists>last prev. GetRoomList 2 (many_rooms 9) = Inr last \<and> GetRoomList 1 (many_rooms 9) = Inr prev \<and>
               hd last = prev ! 1"
  using last_page_overlaps [of 2 "many_rooms 9"] by (simp add: many_rooms_def del: upt_Suc)

text \<open>C29: every request that is processed is answered: the last message queued for its session is a
  packet whose header has the sequence and session index of the request, the packet id of the
  request plus one, and the size of the answer as its length.\<close>

theorem requests_are_answered:
  assumes "ProcessPacket sh index (PacketId (dec_header packet)) packet s = Inr t"
  shows "\<exists>k c ms m. map_of handlers (PacketId (dec_header packet)) = Some k \<and>
           clientInfo (sessions t ! nat (index - 1)) = Some c \<and>
           sendDataQueue (clients t ! c) = ms @ [\<lparr>wsaBuf = m, operation = SEND\<rparr>] \<and>
           dec_header m = (dec_header packet)
             \<lparr>PacketId := PacketId (dec_header packet) + 1, PacketLength := of_nat (sizeof_answer k)\<rparr>"
  using assms
  by (auto simp: ProcessPacket_def bind_res_Inr_iff of_option_Inr_iff answered_def answer_to_def
      dest!: run_handler_answer)

definition login_packet :: bytes where
  "login_packet = enc_BASE (default_BASE_PACKET
     \<lparr>PacketLength := 14, PacketId := packet_id PID_REQ_LOGIN, sequenceIndex := 5, sessionIndex := 2\<rparr>)"

lemma header_login: "dec_header login_packet =
    \<lparr>PacketLength = 14, PacketId = 10001, sequenceIndex = 5, sessionIndex = 2\<rparr>"
  and length_login: "length login_packet = 14"
  by (simp_all add: login_packet_def enc_BASE_def enc_header_def dec_header_def fld_def packet_id_def
      default_BASE_PACKET_def)

theorem requests_are_answered_witness:
  "\<exists>t ms m. ProcessPacket keep_order 2 10001 login_packet two_player_server = Inr t \<and>
     sendDataQueue (clients t ! 1) = ms @ [\<lparr>wsaBuf = m, operation = SEND\<rparr>] \<and>
     PacketId (dec_header m) = 10002 \<and> sequenceIndex (dec_header m) = 5"
proof -
  let ?s = two_player_server
  have "\<exists>t. ProcessPacket keep_order 2 10001 login_packet ?s = Inr t \<and>
            clientInfo (sessions t ! 1) = Some 1"
    by (simp add: ProcessPacket_def handlers_def packet_id_def run_handler_def Handle_def ReadReq_def
        length_login sizeof_BASE_def FindPlayerBySessionIndex_def two_player_server_def new_Player_def
        ReqLogin_def SendPacketFunc_def FindSession_def at_res_def SendMsg_def set_client_def new_Server_def
        Let_def)
  then obtain t where t: "ProcessPacket keep_order 2 10001 login_packet ?s = Inr t"
    "clientInfo (sessions t ! 1) = Some 1" by blast
  from requests_are_answered [of keep_order 2 login_packet ?s t] t show ?thesis
    by (auto simp: header_login)
qed

end
