(* ===== verification/ServerFaults.thy ===== *)
theory ServerFaults
  imports ServerEdge
begin

text \<open>
  Events and requests after which the server fails, or keeps running but no longer does what it
  is meant to do.
\<close>

section \<open>Players and rooms\<close>

lemma find_player_null:
  assumes "m < length xs" and "xs ! m = None"
    and "\<And>j. j < m \<Longrightarrow> \<exists>b q. xs ! j = Some b \<and> h b = Some q \<and> \<not> P q"
  shows "find_player P h xs i = Inl NullDeref"
  using assms
proof (induction xs arbitrary: m i)
  case Nil
  then show ?case by simp
next
  case (Cons x xs)
  show ?case
  proof (cases m)
    case 0
    with Cons.prems show ?thesis by simp
  next
    case (Suc k)
    from Cons.prems(3) [of 0] Suc obtain b q where "x = Some b" "h b = Some q" "\<not> P q" by auto
    moreover have "find_player P h xs (Suc i) = Inl NullDeref"
    proof (rule Cons.IH [of k])
      show "\<exists>b q. xs ! j = Some b \<and> h b = Some q \<and> \<not> P q" if "j < k" for j
        using Cons.prems(3) [of "Suc j"] Suc that by simp
    qed (use Cons.prems(1,2) Suc in simp_all)
    ultimately show ?thesis by simp
  qed
qed

lemma find_player_finds:
  assumes "m < length xs" and "\<And>j. j \<le> m \<Longrightarrow> \<exists>b q. xs ! j = Some b \<and> h b = Some q \<and> (P q \<longleftrightarrow> j = m)"
  shows "find_player P h xs i = Inr (Some (i + m))"
  using assms
proof (induction xs arbitrary: m i)
  case Nil
  then show ?case by simp
next
  case (Cons x xs)
  from Cons.prems(2) [of 0] obtain b q where x: "x = Some b" "h b = Some q" "P q \<longleftrightarrow> 0 = m" by auto
  show ?case
  proof (cases m)
    case 0
    with x show ?thesis by simp
  next
    case (Suc k)
    have "find_player P h xs (Suc i) = Inr (Some (Suc i + k))"
    proof (rule Cons.IH)
      show "\<exists>b q. xs ! j = Some b \<and> h b = Some q \<and> P q = (j = k)" if "j \<le> k" for j
        using Cons.prems(2) [of "Suc j"] Suc that by simp
    qed (use Cons.prems(1) Suc in simp)
    with x Suc show ?thesis by simp
  qed
qed

text \<open>Removing a player breaks every later lookup: it leaves a null pointer in the table, and a
  search that does not succeed before that place follows it.\<close>

theorem removal_breaks_lookups:
  assumes "players_ok s" and "m < length (allPlayers s)" and "\<And>j. j \<le> m \<Longrightarrow> allPlayers s ! j \<noteq> None"
    and "\<And>j a p. j < m \<Longrightarrow> allPlayers s ! j = Some a \<Longrightarrow> heap s a = Some p \<Longrightarrow> p_sessionIndex p \<noteq> k"
  shows "\<exists>t. RemovePlayer_manager (int m) s = Inr t \<and>
           FindPlayerBySessionIndex k t = Inl NullDeref"
proof -
  have live: "\<exists>b q. allPlayers s ! j = Some b \<and> heap s b = Some q \<and> p_playerUID q = int j"
    if "j \<le> m" for j
    using assms(1-3) that by (fastforce simp: players_ok_def)
  then obtain a where a: "allPlayers s ! m = Some a" by blast
  have "find_player (\<lambda>p. p_playerUID p = int m) (heap s) (allPlayers s) 0 = Inr (Some (0 + m))"
    by (rule find_player_finds [OF assms(2)]) (use live in fastforce)
  then have t: "RemovePlayer_manager (int m) s =
      Inr (s\<lparr>heap := (heap s)(a := None), allPlayers := (allPlayers s)[m := None]\<rparr>)"
    by (simp add: RemovePlayer_manager_def a)
  have "find_player (\<lambda>p. p_sessionIndex p = k) ((heap s)(a := None)) ((allPlayers s)[m := None]) 0
      = Inl NullDeref"
  proof (rule find_player_null [of m])
    fix j assume j: "j < m"
    then obtain b q where b: "allPlayers s ! j = Some b" "heap s b = Some q" "p_playerUID q = int j"
      using live [of j] by auto
    with live [of m] a j have "b \<noteq> a" by auto
    with b j assms(4) show "\<exists>b q. (allPlayers s)[m := None] ! j = Some b \<and>
        ((heap s)(a := None)) b = Some q \<and> \<not> p_sessionIndex q = k" by auto
  qed (use assms(2) in simp_all)
  with t show ?thesis by (simp add: FindPlayerBySessionIndex_def)
qed

lemma players_ok_two: "players_ok two_player_server"
  by (auto simp: players_ok_def two_player_server_def new_Player_def less_Suc_eq)

theorem removal_breaks_lookups_witness:
  "\<exists>t. RemovePlayer_manager 0 two_player_server = Inr t \<and>
       FindPlayerBySessionIndex 2 t = Inl NullDeref"
  using removal_breaks_lookups [OF players_ok_two, of 0 2] by (simp add: two_player_server_def)

text \<open>The answer to \<open>REQ_ROOM_ENTER\<close> does not tell whether the player got in: for an existing room
  the result is what the previous request left in the handler, and for a full room the answer is
  the same as for a successful entry.\<close>

theorem enter_result_is_stale:
  assumes "ReqRoomEnter req (Some a) s = Inr t" and "FindRoom (sint (req_roomIndex req)) s = Some i"
    and "heap s a = Some p"
  shows "resultID (resRoomEnter t) = resultID (resRoomEnter s) \<and>
         enterSessionIndex (resRoomEnter t) = of_int (p_sessionIndex p) \<and>
         (int (length (players (rooms s ! i))) \<ge> size_t (maxPlayerCnt (rooms s ! i)) \<longrightarrow>
            rooms t = rooms s)"
proof -
  from assms(1,2) obtain u q where u: "AddPlayer i (Some a) s = Inr u" "heap u a = Some q"
    and t: "t = u\<lparr>resRoomEnter := (resRoomEnter u)\<lparr>enterSessionIndex := of_int (p_sessionIndex q)\<rparr>\<rparr>"
    by (auto simp: ReqRoomEnter_def bind_res_Inr_iff deref_Inr_iff)
  have "resRoomEnter u = resRoomEnter s" using answers_AddPlayer [OF u(1)] by (simp add: answers_def)
  moreover have "p_sessionIndex q = p_sessionIndex p"
  proof (cases "int (length (players (rooms s ! i))) \<ge> size_t (maxPlayerCnt (rooms s ! i))")
    case True
    with u assms(3) show ?thesis by (simp add: AddPlayer_def)
  next
    case False
    let ?res = "default_RES_ROOM_ENTER\<lparr>enterSessionIndex := of_int (p_sessionIndex p)\<rparr>"
    from False u(1) assms(3) obtain v w where
      v: "fold_res (greet (Some a) ?res) (players (rooms s ! i)) s = Inr v"
      and w: "set_player (Some a) (\<lambda>p. p\<lparr>p_roomIndex := r_roomIndex (rooms s ! i)\<rparr>) v = Inr w"
      and u': "set_room i (\<lambda>r. r\<lparr>players := players r @ [the (Some a)]\<rparr>) w = u"
      by (simp add: AddPlayer_def bind_res_Inr_iff Let_def) blast
    from fold_greet_effect [OF v] w u(2) assms(3) show ?thesis
      by (auto simp: u' [symmetric] set_room_def set_player_Inr_iff)
  qed
  moreover have "rooms t = rooms s"
    if "int (length (players (rooms s ! i))) \<ge> size_t (maxPlayerCnt (rooms s ! i))"
    using that u(1) by (simp add: AddPlayer_def t)
  ultimately show ?thesis by (simp add: t)
qed

definition enter_request :: REQ_ROOM_ENTER where
  "enter_request = default_REQ_ROOM_ENTER\<lparr>req_roomIndex := 1\<rparr>"

theorem enter_result_is_stale_witness:
  "\<exists>t. ReqRoomEnter enter_request (Some 0) two_player_server = Inr t \<and>
       resultID (resRoomEnter t) = Result_FAILED \<and> rooms t = rooms two_player_server"
proof -
  let ?s = two_player_server
  have h: "heap ?s 0 = Some (new_Player\<lparr>p_playerUID := 0, p_sessionIndex := 1, p_roomIndex := 1\<rparr>)"
    and f: "FindRoom (sint (req_roomIndex enter_request)) ?s = Some 0"
    and full: "int (length (players (rooms ?s ! 0))) \<ge> size_t (maxPlayerCnt (rooms ?s ! 0))"
    by (simp_all add: two_player_server_def enter_request_def FindRoom_def new_Room_def size_t_def)
  have "\<exists>t. ReqRoomEnter enter_request (Some 0) ?s = Inr t"
    using h f full by (simp add: ReqRoomEnter_def AddPlayer_def)
  then obtain t where t: "ReqRoomEnter enter_request (Some 0) ?s = Inr t" by blast
  from enter_result_is_stale [OF t f h] full t show ?thesis
    by (simp add: two_player_server_def new_Server_def default_RES_ROOM_ENTER_def
        default_BASE_PACKET_def BASE_PACKET.defs)
qed

text \<open>A player who is in a room can enter it again and takes the second place too; then nobody
  else can enter.\<close>

theorem player_enters_twice:
  assumes "i < length (rooms s)" and "players (rooms s ! i) = [a]" and "maxPlayerCnt (rooms s ! i) = 2"
    and "AddPlayer i (Some a) s = Inr t"
  shows "players (rooms t ! i) = [a, a] \<and> CanEnterPlayer (rooms t ! i) = Result_ROOM_MAX_PLAYER"
proof -
  have "\<not> int (length (players (rooms s ! i))) \<ge> size_t (maxPlayerCnt (rooms s ! i))"
    using assms(2,3) by (simp add: size_t_def)
  with assms(4) obtain p :: Player and v w where
    v: "fold_res (greet (Some a) (default_RES_ROOM_ENTER\<lparr>enterSessionIndex := of_int (p_sessionIndex p)\<rparr>))
          (players (rooms s ! i)) s = Inr v"
    and w: "set_player (Some a) (\<lambda>p. p\<lparr>p_roomIndex := r_roomIndex (rooms s ! i)\<rparr>) v = Inr w"
    and t: "set_room i (\<lambda>r. r\<lparr>players := players r @ [the (Some a)]\<rparr>) w = t"
    by (simp add: AddPlayer_def bind_res_Inr_iff Let_def) blast
  have "rooms w = rooms s" using fold_greet_effect [OF v] set_player_frame [OF w] by simp
  with assms(1-3) show ?thesis
    by (simp add: t [symmetric] set_room_def CanEnterPlayer_def GetCurrentPlayerCnt_def size_t_def)
qed

definition one_player_server :: Server where
  "one_player_server = two_player_server\<lparr>rooms := [(new_Room 1 2)\<lparr>players := [0]\<rparr>]\<rparr>"

theorem player_enters_twice_witness:
  "\<exists>t. AddPlayer 0 (Some 0) one_player_server = Inr t \<and> players (rooms t ! 0) = [0, 0]"
proof -
  have "\<exists>t. AddPlayer 0 (Some 0) one_player_server = Inr t"
    by (simp add: AddPlayer_def one_player_server_def two_player_server_def new_Room_def size_t_def
        new_Player_def greet_def SendNotify_def FindSession_def at_res_def SendMsg_def set_client_def
        new_Server_def set_player_def Let_def upt_rec numeral_3_eq_3)
  then obtain t where t: "AddPlayer 0 (Some 0) one_player_server = Inr t" by blast
  from player_enters_twice [OF _ _ _ t] t show ?thesis
    by (simp add: one_player_server_def new_Room_def)
qed

section \<open>Connections that are used again\<close>

text \<open>C39: a client that disconnects leaves its session behind, and the next client on the same slot
  inherits it: no new player or session is made, and the unread bytes of the old connection stay
  in front of the new one's.\<close>

theorem reconnect_inherits_session:
  assumes "FindClientInfo k s = Some c" and "c_sessionIndex (clients s ! c) \<noteq> 0"
    and "WorkerThread t1 (Failed (Some c)) s = Some (Inr s1)"
    and "WorkerThread t2 (Accepted k True True) s1 = Some (Inr s2)"
  shows "isConnect (clients s2 ! c) \<and> packetBuffer (clients s2 ! c) = packetBuffer (clients s ! c) \<and>
         (\<forall>buf u. WorkerThread t3 (Received c buf) s2 = Some (Inr u) \<longrightarrow>
            sessions u = sessions s \<and> allPlayers u = allPlayers s \<and> heap u = heap s \<and>
            c_sessionIndex (clients u ! c) = c_sessionIndex (clients s ! c))"
proof -
  from assms(1) have len: "c < length (clients s)" by (auto simp: FindClientInfo_def dest: find_client_Some)
  have s1: "s1 = s\<lparr>clients := (clients s)[c := Disconnect_client t1 (clients s ! c)]\<rparr>"
    using assms(3) len by (simp add: WorkerThread_def set_client_def)
  have "find_client P (cs[c := d]) = find_client P cs" if "P d = P (cs ! c)" for P d and cs :: "ClientInfo list"
    using that by (induction cs arbitrary: c) (auto split: nat.split)
  then have f: "FindClientInfo k s1 = Some c"
    using assms(1) by (simp add: FindClientInfo_def s1 Disconnect_client_def)
  let ?d = "(Disconnect_client t1 (clients s ! c))\<lparr>isConnect := True\<rparr>"
  have s2: "s2 = s\<lparr>clients := (clients s)[c := ?d], clientNumber := clientNumber s + 1\<rparr>"
    using assms(4) f len
    by (simp add: WorkerThread_def work_accepted_def AcceptCompletion_def Connect_def Clear_def s1)
  have "sessions u = sessions s \<and> allPlayers u = allPlayers s \<and> heap u = heap s \<and>
        c_sessionIndex (clients u ! c) = c_sessionIndex (clients s ! c)"
    if u: "WorkerThread t3 (Received c buf) s2 = Some (Inr u)" for buf u
  proof -
    let ?P = "\<lambda>v. sessions v = sessions s \<and> allPlayers v = allPlayers s \<and> heap v = heap s \<and>
        c_sessionIndex (clients v ! c) = c_sessionIndex (clients s ! c) \<and> length (clients v) = length (clients s)"
    have P2: "?P s2" using len by (simp add: s2 Disconnect_client_def)
    from u obtain s3 s4 pb s5 where
      s3: "OnRecv c buf s2 = Inr s3"
      and s4: "(if c_sessionIndex (clients s3 ! c) = 0 then OnConnect c s3 else Inr s3) = Inr s4"
      and loop: "ReadLoop Read (receive_packet (c_sessionIndex (clients s4 ! c)))
                   (packetBuffer (clients s4 ! c)) s4 = Some (Inr (pb, s5))"
      and t: "set_client (Some c) (\<lambda>ci. ci\<lparr>packetBuffer := pb\<rparr>) s5 = Inr u"
      by (auto simp: WorkerThread_def work_received_def bind_res_Inr_iff split: sum.splits option.splits)
    have P3: "?P s3" using s3 P2 len
      by (auto simp: OnRecv_def bind_res_Inr_iff set_client_Inr_iff split: if_splits)
    with s4 assms(2) have "s4 = s3" by simp
    with P3 have "?P s4" by simp
    then have "?P s5"
      by (rule ReadLoop_state [OF loop, where P = ?P])
         (auto simp: receive_packet_def OnReceive_def QueueRecvPacket_def split: if_splits)
    with t len show ?thesis by (auto simp: set_client_Inr_iff)
  qed
  with len show ?thesis by (simp add: s2 Disconnect_client_def)
qed

theorem reconnect_inherits_session_witness:
  "\<exists>s1 s2 c. FindClientInfo 1 (two_player_server\<lparr>clients := map (\<lambda>c. c\<lparr>c_sessionIndex := 7\<rparr>) (clients start_server)\<rparr>)
              = Some c \<and>
     WorkerThread 9 (Failed (Some c))
       (two_player_server\<lparr>clients := map (\<lambda>c. c\<lparr>c_sessionIndex := 7\<rparr>) (clients start_server)\<rparr>) = Some (Inr s1) \<and>
     WorkerThread 20 (Accepted 1 True True) s1 = Some (Inr s2) \<and> isConnect (clients s2 ! c)"
proof -
  let ?s = "two_player_server\<lparr>clients := map (\<lambda>c. c\<lparr>c_sessionIndex := 7\<rparr>) (clients start_server)\<rparr>"
  have f: "FindClientInfo 1 ?s = Some 0" and len: "0 < length (clients ?s)"
    and i: "c_sessionIndex (clients ?s ! 0) \<noteq> 0"
    by (simp_all add: FindClientInfo_def new_Server_def new_ClientInfo_def upt_rec)
  let ?s1 = "?s\<lparr>clients := (clients ?s)[0 := Disconnect_client 9 (clients ?s ! 0)]\<rparr>"
  have s1: "WorkerThread 9 (Failed (Some 0)) ?s = Some (Inr ?s1)"
    by (simp only: WorkerThread_def completion.case option.case set_client_def len if_True)
  have "FindClientInfo 1 ?s1 = Some 0"
    by (simp add: FindClientInfo_def new_Server_def new_ClientInfo_def upt_rec Disconnect_client_def)
  then have "\<exists>s2. WorkerThread 20 (Accepted 1 True True) ?s1 = Some (Inr s2)"
    by (simp add: WorkerThread_def work_accepted_def AcceptCompletion_def Connect_def)
  then obtain s2 where s2: "WorkerThread 20 (Accepted 1 True True) ?s1 = Some (Inr s2)" by blast
  from reconnect_inherits_session [OF f i s1 s2] have "isConnect (clients s2 ! 0)" by blast
  with f s1 s2 show ?thesis by blast
qed

text \<open>A slot whose client disconnects while a message is on its way never sends again: the message
  stays at the head of the queue, no completion comes for it, and everything that is sent to the
  next client of the slot is queued behind it.\<close>

theorem slot_goes_mute:
  assumes "sendDataQueue c \<noteq> []"
    and "AcceptCompletion True True (Disconnect_client now c) = (True, d)"
    and "run_sends SendMsg_client SendCompleted (map (\<lambda>m. Give m SEND) ms) d = Inr e"
  shows "wsaSends e = wsaSends c \<and> length (sendDataQueue e) = length (sendDataQueue c) + length ms"
proof -
  have d: "sendDataQueue d = sendDataQueue c" "wsaSends d = wsaSends c"
    using assms(2) by (auto simp: AcceptCompletion_def Connect_def Clear_def Disconnect_client_def)
  have "wsaSends e = wsaSends x \<and> length (sendDataQueue e) = length (sendDataQueue x) + length ms"
    if "run_sends SendMsg_client SendCompleted (map (\<lambda>m. Give m SEND) ms) x = Inr e"
      and "sendDataQueue x \<noteq> []" for x
    using that
  proof (induction ms arbitrary: x)
    case Nil
    then show ?case by simp
  next
    case (Cons m ms)
    then show ?case by (simp add: sender.give_waiting sender.give_handed)
  qed
  from this [OF assms(3)] assms(1) d show ?thesis by simp
qed

theorem slot_goes_mute_witness:
  "\<exists>e. run_sends SendMsg_client SendCompleted [Give [9] SEND]
         (snd (AcceptCompletion True True (Disconnect_client 5
            (SendMsg_client [1] SEND (new_ClientInfo (\<lambda>_. 0) 1))))) = Inr e \<and>
       wsaSends e = [\<lparr>wsaBuf = [1], operation = SEND\<rparr>]"
proof -
  let ?c = "SendMsg_client [1] SEND (new_ClientInfo (\<lambda>_. 0) 1)"
  have c: "sendDataQueue ?c \<noteq> []" "wsaSends ?c = [\<lparr>wsaBuf = [1], operation = SEND\<rparr>]"
    by (simp_all add: sender.give_waiting sender.give_handed) (simp_all add: new_ClientInfo_def)
  obtain d where d: "AcceptCompletion True True (Disconnect_client 5 ?c) = (True, d)"
    by (simp add: AcceptCompletion_def Connect_def)
  from slot_goes_mute [OF c(1) d, of "[[9]]"] c(2) d show ?thesis by simp
qed

text \<open>A posted accept does not mark its slot: as long as nobody connects, every pass of the accept
  thread more than three seconds later posts another one and replaces the socket that the pending
  accept will report.\<close>

theorem pending_accept_is_replaced:
  assumes "\<not> isConnect c" and "sock1 \<noteq> INVALID_SOCKET" and "sock2 \<noteq> INVALID_SOCKET"
    and "PostAccept sock1 False t0 c = (ok, c1)"
  shows "ok \<and> sock c1 = sock1 \<and>
         (\<forall>now. sock (accept_slot now (sock2, False) c1) =
                  (if t0 + RE_USE_SESSION_WAIT_TIMESEC < now then sock2 else sock1))"
  using assms by (auto simp: PostAccept_def accept_slot_def RE_USE_SESSION_WAIT_TIMESEC_def Let_def)

theorem pending_accept_is_replaced_witness:
  "sock (accept_slot 14 (101, False) (snd (PostAccept 100 False 10 (new_ClientInfo (\<lambda>_. 0) 1)))) = 101"
proof -
  have "\<not> isConnect (new_ClientInfo (\<lambda>_. 0) 1)" by (simp add: new_ClientInfo_def)
  moreover obtain ok c1 where c1: "PostAccept 100 False 10 (new_ClientInfo (\<lambda>_. 0) 1) = (ok, c1)"
    by fastforce
  ultimately have "sock (accept_slot 14 (101, False) c1) = 101"
    using pending_accept_is_replaced [of _ 100 101 10 ok c1]
    by (simp add: INVALID_SOCKET_def RE_USE_SESSION_WAIT_TIMESEC_def)
  with c1 show ?thesis by simp
qed

end
