(* ===== verification/BoardMirror.thy ===== *)
theory BoardMirror
  imports BoardProps
begin

text \<open>
  The two boards a player's game is shown on: the player's own board, updated every frame with
  the frame time, and the enemy board of the other client, which replays the inputs that the
  own board has applied with \<open>Update(0.f)\<close>.

  \<open>core k tb\<close> is what the two have in common: everything but the queues of inputs, the timer and
  the session index, and, when \<open>k\<close> is False, the ghost (whose shape member is never assigned).
  Every operation of a frame respects it, the hard drop only with the ghost; so the replay
  follows the own board.
\<close>

section \<open>What two boards have in common\<close>

definition ghost :: "bool \<Rightarrow> FallingBlock \<Rightarrow> FallingBlock" where
  "ghost k e = (if k then e else default_falling\<lparr>blockShape := blockShape e\<rparr>)"

definition core :: "bool \<Rightarrow> TetrisBoard \<Rightarrow> TetrisBoard" where
  "core k tb = tb\<lparr>inputQueue := [], applyQueue := [], lastFallingTime := 0,
                  playerSessionIndex := 0, expectBlock := ghost k (expectBlock tb)\<rparr>"

definition map_res :: "('a \<Rightarrow> 'b) \<Rightarrow> 'a res \<Rightarrow> 'b res" where
  "map_res f r = (case r of Inl e \<Rightarrow> Inl e | Inr x \<Rightarrow> Inr (f x))"

lemma map_res_simps [simp]:
  "map_res f (Inl e) = Inl e" "map_res f (Inr x) = Inr (f x)"
  by (simp_all add: map_res_def)

lemma map_res_bind: "map_res f (bind_res m g) = bind_res m (\<lambda>x. map_res f (g x))"
  by (cases m) simp_all

lemma map_res_eq_Inr:
  assumes "map_res f r = map_res f s" and "r = Inr x"
  obtains y where "s = Inr y" and "f y = f x"
  using assms by (cases s) auto

lemma ghost_ghost [simp]: "ghost k (ghost k e) = ghost k e" "ghost True e = e"
  "blockShape (ghost k e) = blockShape e"
  by (simp_all add: ghost_def)

lemma core_sel [simp]:
  "board (core k tb) = board tb" "hold (core k tb) = hold tb"
  "fallingBlock (core k tb) = fallingBlock tb"
  "nextFallingBlockQueue (core k tb) = nextFallingBlockQueue tb" "canHold (core k tb) = canHold tb"
  "isPlaying (core k tb) = isPlaying tb" "expectBlock (core k tb) = ghost k (expectBlock tb)"
  "lastFallingTime (core k tb) = 0" "core k (core k tb) = core k tb"
  by (simp_all add: core_def)

lemma core_update [simp]:
  "core k (tb\<lparr>lastFallingTime := t\<rparr>) = core k tb" "core k (tb\<lparr>inputQueue := q\<rparr>) = core k tb"
  "core k (tb\<lparr>applyQueue := q\<rparr>) = core k tb" "core k (push_applied i tb) = core k tb"
  by (simp_all add: core_def push_applied_def)

lemma core_eqD:
  assumes "core k a = core k b"
  shows "board a = board b" "hold a = hold b" "fallingBlock a = fallingBlock b"
    "nextFallingBlockQueue a = nextFallingBlockQueue b" "canHold a = canHold b"
    "isPlaying a = isPlaying b" "ghost k (expectBlock a) = ghost k (expectBlock b)"
  using arg_cong [OF assms, of board] arg_cong [OF assms, of hold]
    arg_cong [OF assms, of fallingBlock] arg_cong [OF assms, of nextFallingBlockQueue]
    arg_cong [OF assms, of canHold] arg_cong [OF assms, of isPlaying]
    arg_cong [OF assms, of expectBlock]
  by simp_all

lemma core_eqI:
  assumes "board a = board b" "hold a = hold b" "fallingBlock a = fallingBlock b"
    "nextFallingBlockQueue a = nextFallingBlockQueue b" "canHold a = canHold b"
    "isPlaying a = isPlaying b" "ghost k (expectBlock a) = ghost k (expectBlock b)"
  shows "core k a = core k b"
  using assms by (cases a, cases b) (simp add: core_def)

section \<open>Every operation respects it\<close>

lemma core_Next:
  assumes "core k a = core k b"
  shows "core k (NextFallingBlock a) = core k (NextFallingBlock b)"
  by (rule core_eqI) (use core_eqD [OF assms] in
      \<open>auto simp: NextFallingBlock_def DequeNextBlock_def SetFallingBlock_def split: list.split\<close>)

lemma core_after_drop:
  assumes "core k a = core k b"
  shows "core k (after_drop a) = core k (after_drop b)"
  by (rule core_eqI) (use core_eqD [OF assms] in
      \<open>auto simp: after_drop_def DequeNextBlock_def SetFallingBlock_def split: list.split\<close>)

lemma core_ToWall:
  assumes "core True a = core True b"
  shows "map_res (core True) (FallingBlockToWall a) = map_res (core True) (FallingBlockToWall b)"
proof -
  note eq = core_eqD [OF assms]
  have "core True (a\<lparr>board := c, fallingBlock := None, canHold := True\<rparr>) =
        core True (b\<lparr>board := c, fallingBlock := None, canHold := True\<rparr>)" for c
    by (rule core_eqI) (use eq in simp_all)
  with eq show ?thesis by (simp add: FallingBlockToWall_def map_res_bind split: option.split)
qed

lemma core_Move:
  assumes "core k a = core k b" and "i = DROP \<Longrightarrow> k"
  shows "map_res (core k) (MoveFallingBlock i a) = map_res (core k) (MoveFallingBlock i b)"
proof (cases "i = DROP")
  case True
  with assms have k: "k = True" by simp
  have D: "map_res (core True) (bind_res x (\<lambda>y. Inr (after_drop y))) =
           map_res (core True) (bind_res z (\<lambda>y. Inr (after_drop y)))"
    if "map_res (core True) x = map_res (core True) z" for x z :: "TetrisBoard res"
    using that by (cases x; cases z) (auto intro: core_after_drop)
  from assms(1) have "core True a = core True b" unfolding k .
  from D [OF core_ToWall [OF this]] show ?thesis unfolding k True MoveFallingBlock_DROP .
next
  case False
  note eq = core_eqD [OF assms(1)]
  have "core k (a\<lparr>fallingBlock := f\<rparr>) = core k (b\<lparr>fallingBlock := f\<rparr>)" for f
    by (rule core_eqI) (use eq in simp_all)
  with False eq assms(1) show ?thesis by (simp add: MoveFallingBlock_def split: option.split)
qed

lemma core_swap:
  assumes "core k a = core k b"
  shows "core k (swap_hold a) = core k (swap_hold b)"
  by (rule core_eqI) (use core_eqD [OF assms] in
      \<open>auto simp: swap_hold_def NextFallingBlock_def DequeNextBlock_def SetFallingBlock_def
        split: list.split option.split\<close>)

lemma core_Hold:
  assumes "core k a = core k b"
  shows "map_res (core k) (HoldBlock a) = map_res (core k) (HoldBlock b)"
proof -
  note eq = core_eqD [OF core_swap [OF assms]]
  have "core k (swap_hold a\<lparr>hold := h, lastFallingTime := 0, canHold := False\<rparr>) =
        core k (swap_hold b\<lparr>hold := h, lastFallingTime := 0, canHold := False\<rparr>)" for h
    by (rule core_eqI) (use eq in simp_all)
  with eq show ?thesis by (simp add: HoldBlock_def Let_def split: option.split)
qed

lemma core_Apply:
  assumes "core k a = core k b" and "i = DROP \<Longrightarrow> k"
  shows "map_res (core k) (ApplyInput d i a) = map_res (core k) (ApplyInput e i b)"
proof -
  have P: "map_res (core k) (bind_res m (\<lambda>x. Inr (push_applied j x))) = map_res (core k) m"
    for m :: "TetrisBoard res" and j by (cases m) simp_all
  have M: "map_res (core k) (MoveFallingBlock i u) = map_res (core k) (MoveFallingBlock i v)"
    if "core k u = core k v" for u v by (rule core_Move [OF that assms(2)])
  have "core k (a\<lparr>lastFallingTime := s\<rparr>) = core k (b\<lparr>lastFallingTime := t\<rparr>)" for s t
    using assms(1) by simp
  from M [OF this] M [OF assms(1)] core_Hold [OF assms(1)] core_eqD(5) [OF assms(1)] assms(1)
  show ?thesis by (cases "i = DOWN") (simp_all add: ApplyInput_def P)
qed

section \<open>The loop over the inputs\<close>

lemma core_weaken [simp]: "core k (core True tb) = core k tb"
  by (simp add: core_def)

lemma map_res_weaken: "map_res (core True) r = map_res (core True) s \<Longrightarrow> map_res (core k) r = map_res (core k) s"
proof -
  have "map_res (core k) x = map_res (core k) (map_res (core True) x)" for x by (cases x) simp_all
  then show "map_res (core True) r = map_res (core True) s \<Longrightarrow> ?thesis" by metis
qed

lemma core_fold:
  assumes "core k a = core k b" and "DROP \<in> set is \<Longrightarrow> k"
  shows "map_res (core k) (fold_res (ApplyInput d) is a) = map_res (core k) (fold_res (ApplyInput e) is b)"
  using assms
proof (induction "is" arbitrary: a b)
  case Nil
  then show ?case by simp
next
  case (Cons i "is")
  have step: "map_res (core k) (ApplyInput d i a) = map_res (core k) (ApplyInput e i b)"
    by (rule core_Apply) (use Cons.prems in auto)
  show ?case
  proof (cases "ApplyInput d i a")
    case (Inl x)
    with step show ?thesis by (cases "ApplyInput e i b") auto
  next
    case (Inr x)
    with map_res_eq_Inr [OF step Inr] obtain y where "ApplyInput e i b = Inr y" "core k y = core k x"
      by metis
    with Inr Cons.IH [of x y] Cons.prems(2) show ?thesis by auto
  qed
qed

lemma ApplyInput_NONE [simp]: "ApplyInput e Input_NONE tb = Inr tb"
  by (simp add: ApplyInput_def)

lemma fold_skip_NONE:
  "fold_res (ApplyInput e) (filter (\<lambda>i. i \<noteq> Input_NONE) is) tb = fold_res (ApplyInput e) is tb"
proof (induction "is" arbitrary: tb)
  case Nil
  then show ?case by simp
next
  case (Cons i "is")
  then show ?case by (cases "ApplyInput e i tb") auto
qed

lemma InputLoop_step:
  "inputQueue tb = i # is \<Longrightarrow>
   InputLoop e tb = bind_res (ApplyInput e i (tb\<lparr>inputQueue := is\<rparr>)) (InputLoop e)"
  by (subst InputLoop.simps) (simp add: DequeInput_def)

lemma core_InputLoop:
  "map_res (core True) (InputLoop e tb) = map_res (core True) (fold_res (ApplyInput e) (inputQueue tb) tb)"
proof (induction "inputQueue tb" arbitrary: tb)
  case Nil
  then show ?case by (simp add: InputLoop.simps)
next
  case (Cons i "is")
  let ?t = "tb\<lparr>inputQueue := is\<rparr>"
  note q = Cons.hyps(2) [symmetric]
  have "core True ?t = core True tb" by simp
  then have f: "map_res (core True) (fold_res (ApplyInput e) (i # is) ?t) =
      map_res (core True) (fold_res (ApplyInput e) (inputQueue tb) tb)"
    unfolding q by (rule core_fold) simp
  show ?case
  proof (cases "ApplyInput e i ?t")
    case (Inl x)
    then show ?thesis unfolding f [symmetric] InputLoop_step [OF q] by simp
  next
    case (Inr x)
    then have "inputQueue x = is" by (auto dest: inputQueue_ApplyInput)
    with Cons.hyps(1) [of x] Inr show ?thesis unfolding f [symmetric] InputLoop_step [OF q] by simp
  qed
qed

lemma applyQueue_MoveFallingBlock:
  "MoveFallingBlock i tb = Inr u \<Longrightarrow> applyQueue u = applyQueue tb"
  by (cases "nextFallingBlockQueue tb")
     (auto simp: MoveFallingBlock_def FallingBlockToWall_def bind_res_Inr_iff DequeNextBlock_def
        SetFallingBlock_def split: option.splits if_splits)

lemma applyQueue_HoldBlock: "HoldBlock tb = Inr u \<Longrightarrow> applyQueue u = applyQueue tb"
  by (auto simp: HoldBlock_def swap_hold_def Let_def NextFallingBlock_def DequeNextBlock_def
      SetFallingBlock_def split: option.splits list.splits)

lemma applyQueue_ApplyInput:
  "ApplyInput e i tb = Inr u \<Longrightarrow>
   applyQueue u = applyQueue tb @ (if i = Input_NONE then [] else [i])"
  by (auto simp: ApplyInput_def bind_res_Inr_iff push_applied_def split: if_splits
      dest: applyQueue_MoveFallingBlock applyQueue_HoldBlock)

lemma InputLoop_applied:
  "InputLoop e tb = Inr u \<Longrightarrow>
   applyQueue u = applyQueue tb @ filter (\<lambda>i. i \<noteq> Input_NONE) (inputQueue tb) \<and> inputQueue u = []"
proof (induction "inputQueue tb" arbitrary: tb)
  case Nil
  then show ?case by (simp add: InputLoop.simps)
next
  case (Cons i "is")
  note q = Cons.hyps(2) [symmetric]
  from Cons.prems obtain x where x: "ApplyInput e i (tb\<lparr>inputQueue := is\<rparr>) = Inr x" "InputLoop e x = Inr u"
    by (auto simp: InputLoop_step [OF q] bind_res_Inr_iff)
  then have "inputQueue x = is" by (auto dest: inputQueue_ApplyInput)
  with Cons.hyps(1) [of x] x(2) applyQueue_ApplyInput [OF x(1)] show ?case by (simp add: q)
qed

lemma timer_Apply_0:
  "ApplyInput 0 i tb = Inr u \<Longrightarrow> lastFallingTime tb = 0 \<Longrightarrow> lastFallingTime u = 0"
  by (cases "nextFallingBlockQueue tb")
     (auto simp: ApplyInput_def MoveFallingBlock_def FallingBlockToWall_def bind_res_Inr_iff
        DequeNextBlock_def SetFallingBlock_def HoldBlock_def Let_def push_applied_def f32_neg_def
        split: option.splits if_splits)

lemma InputLoop_invariant:
  assumes "InputLoop e tb = Inr u" and "P tb"
    and "\<And>a q. P a \<Longrightarrow> P (a\<lparr>inputQueue := q\<rparr>)"
    and "\<And>i a b. P a \<Longrightarrow> ApplyInput e i a = Inr b \<Longrightarrow> P b"
  shows "P u"
  using assms(1,2)
proof (induction "inputQueue tb" arbitrary: tb)
  case Nil
  then show ?case by (simp add: InputLoop.simps)
next
  case (Cons i "is")
  note q = Cons.hyps(2) [symmetric]
  from Cons.prems(1) obtain x where
    x: "ApplyInput e i (tb\<lparr>inputQueue := is\<rparr>) = Inr x" "InputLoop e x = Inr u"
    by (auto simp: InputLoop_step [OF q] bind_res_Inr_iff)
  then have "inputQueue x = is" by (auto dest: inputQueue_ApplyInput)
  with Cons.hyps(1) [of x] x(2) assms(4) [OF assms(3) [OF Cons.prems(2)] x(1)] show ?case by simp
qed

lemma timer_InputLoop_0:
  "InputLoop 0 tb = Inr u \<Longrightarrow> lastFallingTime tb = 0 \<Longrightarrow> lastFallingTime u = 0"
  by (rule InputLoop_invariant [where P = "\<lambda>t. lastFallingTime t = 0"]) (auto intro: timer_Apply_0)

section \<open>No block is held back\<close>

definition spawned :: "TetrisBoard \<Rightarrow> bool" where
  "spawned tb \<longleftrightarrow> (fallingBlock tb = None \<longrightarrow> nextFallingBlockQueue tb = [])"

definition spawn :: "TetrisBoard \<Rightarrow> TetrisBoard" where
  "spawn tb = (if fallingBlock tb = None then NextFallingBlock tb else tb)"

lemma spawn_timer: "lastFallingTime tb = 0 \<Longrightarrow> lastFallingTime (spawn tb) = 0"
  by (cases "nextFallingBlockQueue tb")
     (simp_all add: spawn_def NextFallingBlock_def DequeNextBlock_def SetFallingBlock_def)

lemma spawn_sel [simp]:
  "inputQueue (spawn tb) = inputQueue tb" "applyQueue (spawn tb) = applyQueue tb"
  "isPlaying (spawn tb) = isPlaying tb" "board (spawn tb) = board tb"
  by (simp_all add: spawn_def NextFallingBlock_def DequeNextBlock_def SetFallingBlock_def split: list.split)

lemma spawned_spawn [simp]: "spawned (spawn tb)"
  by (cases "nextFallingBlockQueue tb")
     (simp_all add: spawned_def spawn_def NextFallingBlock_def DequeNextBlock_def SetFallingBlock_def)

lemma core_spawn: "core k a = core k b \<Longrightarrow> core k (spawn a) = core k (spawn b)"
  using core_Next [of k a b] core_eqD(3) [of k a b] by (simp add: spawn_def)

lemma core_spawned: "spawned tb \<Longrightarrow> core k (spawn tb) = core k tb"
  by (rule core_eqI)
     (auto simp: spawned_def spawn_def NextFallingBlock_def DequeNextBlock_def SetFallingBlock_def)

lemma spawned_cong: "core k a = core k b \<Longrightarrow> spawned a = spawned b"
  by (simp add: spawned_def core_eqD(3,4) [of k a b])

lemma spawned_Apply: "ApplyInput e i tb = Inr u \<Longrightarrow> spawned tb \<Longrightarrow> spawned u"
  by (cases "nextFallingBlockQueue tb")
     (auto simp: spawned_def ApplyInput_def MoveFallingBlock_def FallingBlockToWall_def
        bind_res_Inr_iff DequeNextBlock_def SetFallingBlock_def HoldBlock_def swap_hold_def
        NextFallingBlock_def Let_def push_applied_def split: option.splits if_splits)

lemma spawned_InputLoop: "InputLoop e tb = Inr u \<Longrightarrow> spawned tb \<Longrightarrow> spawned u"
  by (rule InputLoop_invariant [where P = spawned])
     (assumption, assumption, simp add: spawned_def, rule spawned_Apply)


section \<open>A frame\<close>

text \<open>What gravity does to a board whose block has been taken from the queue.\<close>

lemma UpdateFallingBlock_cases:
  assumes "UpdateFallingBlock e tb = Inr u" and "spawned tb"
  obtains (stay) "applyQueue u = applyQueue tb" and "core True u = core True tb"
  | (fall) x where "applyQueue u = applyQueue tb @ [DOWN]" and "MoveFallingBlock DOWN tb = Inr x"
      and "core True u = core True x"
  | (lock) x where "applyQueue u = applyQueue tb @ [DROP]" and "FallingBlockToWall tb = Inr x"
      and "core True u = core True x"
proof (cases "fallingBlock tb")
  case None
  with assms(2) have nxt: "NextFallingBlock tb = tb\<lparr>fallingBlock := None\<rparr>"
    by (simp add: spawned_def NextFallingBlock_def DequeNextBlock_def SetFallingBlock_def)
  with None assms(1) have u: "u = NextFallingBlock tb"
    unfolding UpdateFallingBlock_def Let_def by simp
  have "core True u = core True tb" unfolding u nxt by (rule core_eqI) (use None in simp_all)
  then show thesis by (intro stay) (simp_all add: u nxt)
next
  case (Some f)
  let ?t = "f32_add (lastFallingTime tb) e" and ?b = "tb\<lparr>lastFallingTime := 0\<rparr>"
  have c: "core True ?b = core True tb" by simp
  show thesis
  proof (cases "?t > FALLING_BLOCK_INTERVAL")
    case False
    with Some assms(1) have u: "u = tb\<lparr>lastFallingTime := ?t\<rparr>"
      unfolding UpdateFallingBlock_def Let_def by simp
    show thesis by (rule stay) (simp_all add: u)
  next
    case late: True
    show thesis
    proof (cases "CanMoveFallingBlock (board tb) f (vec 0 1)")
      case True
      with Some late assms(1) obtain y where y: "MoveFallingBlock DOWN ?b = Inr y" "u = push_applied DOWN y"
        unfolding UpdateFallingBlock_def Let_def by (simp add: bind_res_Inr_iff) metis
      obtain x where x: "MoveFallingBlock DOWN tb = Inr x" "core True x = core True y"
        by (rule map_res_eq_Inr [OF core_Move [OF c, of DOWN] y(1)]) auto
      show thesis
        by (rule fall [OF _ x(1)]) (use applyQueue_MoveFallingBlock [OF y(1)] y(2) x(2) in auto)
    next
      case False
      with Some late assms(1) obtain y where y: "FallingBlockToWall ?b = Inr y" "u = push_applied DROP y"
        unfolding UpdateFallingBlock_def Let_def by (simp add: bind_res_Inr_iff) metis
      then have "applyQueue u = applyQueue tb @ [DROP]"
        by (auto simp: FallingBlockToWall_def bind_res_Inr_iff split: option.splits)
      moreover obtain x where x: "FallingBlockToWall tb = Inr x" "core True x = core True y"
        by (rule map_res_eq_Inr [OF core_ToWall [OF c] y(1)]) auto
      ultimately show thesis by (intro lock [OF _ x(1)]) (use y(2) x(2) in auto)
    qed
  qed
qed

text \<open>Without time passing there is no gravity.\<close>

lemma UpdateFallingBlock_0:
  "lastFallingTime tb = 0 \<Longrightarrow> UpdateFallingBlock 0 tb = Inr (spawn tb)"
proof -
  assume t: "lastFallingTime tb = 0"
  have s: "lastFallingTime (spawn tb) = 0" by (rule spawn_timer [OF t])
  then have "spawn tb\<lparr>lastFallingTime := 0\<rparr> = spawn tb" by (cases "spawn tb") simp
  moreover have "f32_add 0 0 = 0" by (simp add: f32_add_def)
  ultimately show ?thesis
    using s by (simp add: UpdateFallingBlock_def spawn_def [symmetric] Let_def FALLING_BLOCK_INTERVAL_def
        f32_one_def split: option.split)
qed

definition finish :: "TetrisBoard \<Rightarrow> TetrisBoard res" where
  "finish tb = (let tb3 = UpdateExpectBlock tb
                in bind_res (RemoveWall (board tb3)) (\<lambda>(b, _). Inr (tb3\<lparr>board := b\<rparr>)))"

lemma Update_finish:
  "isPlaying tb \<Longrightarrow> Update e tb =
     bind_res (InputLoop e (spawn (tb\<lparr>applyQueue := []\<rparr>)))
       (\<lambda>a. bind_res (UpdateFallingBlock e a) finish)"
  by (simp add: Update_def finish_def [abs_def] spawn_def Let_def)

lemma core_Expect:
  assumes "core k a = core k b"
  shows "core k (UpdateExpectBlock a) = core k (UpdateExpectBlock b)"
    and "fallingBlock a \<noteq> None \<Longrightarrow> core True (UpdateExpectBlock a) = core True (UpdateExpectBlock b)"
proof -
  note eq = core_eqD [OF assms]
  have shape: "blockShape (expectBlock a) = blockShape (expectBlock b)"
    using arg_cong [OF eq(7), of blockShape] by simp
  show full: "core True (UpdateExpectBlock a) = core True (UpdateExpectBlock b)" if "fallingBlock a \<noteq> None"
  proof -
    from that eq(3) obtain f where f: "fallingBlock a = Some f" "fallingBlock b = Some f" by auto
    show ?thesis by (rule core_eqI) (use eq shape in \<open>simp_all add: UpdateExpectBlock_eq [OF f(1)] UpdateExpectBlock_eq [OF f(2)]\<close>)
  qed
  show "core k (UpdateExpectBlock a) = core k (UpdateExpectBlock b)"
  proof (cases "fallingBlock a = None")
    case True
    with assms eq(3) show ?thesis by (simp add: UpdateExpectBlock_def)
  next
    case False
    from arg_cong [OF full [OF this], of "core k"] show ?thesis by simp
  qed
qed


lemma finish_core:
  assumes "core k a = core k b" and "finish a = Inr a'"
  shows "\<exists>b'. finish b = Inr b' \<and> core k a' = core k b' \<and> inputQueue b' = inputQueue b \<and>
           lastFallingTime b' = lastFallingTime b \<and>
           fallingBlock a' = fallingBlock a \<and> applyQueue a' = applyQueue a \<and>
           (fallingBlock a' \<noteq> None \<longrightarrow> core True a' = core True b')"
proof -
  note E = core_Expect [OF assms(1)]
  note eq = core_eqD [OF E(1)]
  from assms(2) obtain c n where c: "RemoveWall (board (UpdateExpectBlock a)) = Inr (c, n)"
    and a': "a' = UpdateExpectBlock a\<lparr>board := c\<rparr>"
    by (auto simp: finish_def Let_def bind_res_Inr_iff)
  let ?b = "UpdateExpectBlock b\<lparr>board := c\<rparr>"
  have "finish b = Inr ?b" using c eq(1) by (simp add: finish_def)
  moreover have "core l a' = core l ?b" if "core l (UpdateExpectBlock a) = core l (UpdateExpectBlock b)" for l
    by (rule core_eqI) (use core_eqD [OF that] in \<open>simp_all add: a'\<close>)
  moreover have "inputQueue ?b = inputQueue b" "lastFallingTime ?b = lastFallingTime b"
    "applyQueue a' = applyQueue a"
    by (simp_all add: a' UpdateExpectBlock_def Let_def split: option.split)
  ultimately show ?thesis using E by (auto simp: a')
qed

lemma core_lock_Next:
  assumes "FallingBlockToWall a = Inr x" and "core True x = core True c"
  shows "core True (spawn c) = core True (after_drop x)"
proof -
  from assms have "fallingBlock x = None"
    by (auto simp: FallingBlockToWall_def bind_res_Inr_iff split: option.splits)
  then have "spawn x = NextFallingBlock x" "core True (NextFallingBlock x) = core True (after_drop x)"
    by (simp add: spawn_def, intro core_eqI)
       (auto simp: NextFallingBlock_def after_drop_def DequeNextBlock_def SetFallingBlock_def split: list.split)
  with core_spawn [OF assms(2)] show ?thesis by simp
qed


text \<open>Inputs on a board that starts the same, and the frame without time that they make.\<close>

lemma replay_fold:
  assumes fold: "map_res (core True) (fold_res (ApplyInput e) is a) = map_res (core True) (Inr a1)"
    and v: "core k v = core k a" and d: "DROP \<in> set is \<Longrightarrow> k"
  shows "\<exists>w. fold_res (ApplyInput 0) is v = Inr w \<and> core k w = core k a1"
proof -
  obtain y where y: "fold_res (ApplyInput e) is a = Inr y" "core True y = core True a1"
    by (rule map_res_eq_Inr [OF fold [symmetric] refl])
  obtain w where "fold_res (ApplyInput 0) is v = Inr w" "core k w = core k y"
    by (rule map_res_eq_Inr [OF core_fold [OF v [symmetric] d] y(1)])
  with arg_cong [OF y(2), of "core k"] show ?thesis by auto
qed

lemma replay_frame:
  assumes "lastFallingTime v = 0" and "core k v = core k a" and "spawned a"
    and z: "map_res (core k) (fold_res (ApplyInput 0) (inputQueue v) v) = map_res (core k) (Inr z)"
  shows "\<exists>v1 v2. InputLoop 0 v = Inr v1 \<and> UpdateFallingBlock 0 v1 = Inr v2 \<and>
      inputQueue v2 = [] \<and> lastFallingTime v2 = 0 \<and> spawned v2 \<and> core k v2 = core k z"
proof -
  have "map_res (core k) (InputLoop 0 v) = map_res (core k) (Inr z)"
    using map_res_weaken [OF core_InputLoop [of 0 v], of k] z by simp
  from map_res_eq_Inr [OF this [symmetric] refl] obtain v1 where
    v1: "InputLoop 0 v = Inr v1" "core k v1 = core k z" by metis
  have t: "lastFallingTime v1 = 0" by (rule timer_InputLoop_0 [OF v1(1) assms(1)])
  have sv: "spawned v1" using spawned_InputLoop [OF v1(1)] spawned_cong [OF assms(2)] assms(3) by simp
  have "inputQueue (spawn v1) = []" "lastFallingTime (spawn v1) = 0"
    using InputLoop_applied [OF v1(1)] spawn_timer [OF t] by simp_all
  with v1 UpdateFallingBlock_0 [OF t] core_spawned [OF sv, of k] show ?thesis by auto
qed

text \<open>The inputs of a frame and what gravity adds, replayed on a board that starts the same.\<close>

lemma replay_inputs:
  assumes own: "InputLoop e a = Inr a1" "UpdateFallingBlock e a1 = Inr a2" and a: "spawned a" "applyQueue a = []"
    and v: "core k v = core k a" "lastFallingTime v = 0" "inputQueue v = applyQueue a2"
    and drop: "DROP \<in> set (applyQueue a2) \<Longrightarrow> k"
  shows "\<exists>v1 v2. InputLoop 0 v = Inr v1 \<and> UpdateFallingBlock 0 v1 = Inr v2 \<and>
           inputQueue v2 = [] \<and> lastFallingTime v2 = 0 \<and> spawned v2 \<and>
           (core k v2 = core k a2 \<and> spawned a2 \<or>
            fallingBlock a2 = None \<and> core True v2 = core True (spawn a2))"
proof -
  let ?is = "filter (\<lambda>i. i \<noteq> Input_NONE) (inputQueue a)"
  have applied: "applyQueue a1 = ?is" using InputLoop_applied [OF own(1)] a(2) by simp
  have s1: "spawned a1" by (rule spawned_InputLoop [OF own(1) a(1)])
  have fold: "map_res (core True) (fold_res (ApplyInput e) ?is a) = map_res (core True) (Inr a1)"
    using core_InputLoop [of e a] own(1) by (simp add: fold_skip_NONE)
  have fold_v: "\<exists>w. fold_res (ApplyInput 0) ?is v = Inr w \<and> core k w = core k a1"
    if d: "DROP \<in> set ?is \<Longrightarrow> k"
    by (rule replay_fold [OF fold v(1) d])
  note replay = replay_frame [OF v(2,1) a(1)]
  from own(2) s1 show ?thesis
  proof (cases rule: UpdateFallingBlock_cases)
    case stay
    from fold_v drop obtain w where w: "fold_res (ApplyInput 0) ?is v = Inr w" "core k w = core k a1"
      unfolding stay applied by blast
    have "map_res (core k) (fold_res (ApplyInput 0) (inputQueue v) v) = map_res (core k) (Inr a2)"
      using w arg_cong [OF stay(2), of "core k"] by (simp add: v(3) stay(1) applied)
    from replay [OF this] s1 spawned_cong [OF stay(2)] show ?thesis by blast
  next
    case (fall x)
    from fold_v drop obtain w where w: "fold_res (ApplyInput 0) ?is v = Inr w" "core k w = core k a1"
      unfolding fall applied by auto
    have "map_res (core k) (ApplyInput 0 DOWN w) = map_res (core k) (Inr x)"
      using core_Move [OF w(2), of DOWN] core_Move [of k "w\<lparr>lastFallingTime := f32_neg 0\<rparr>" w DOWN] fall(2)
      by (cases "MoveFallingBlock DOWN (w\<lparr>lastFallingTime := f32_neg 0\<rparr>)") (simp_all add: ApplyInput_def)
    moreover have "core k a2 = core k x" using arg_cong [OF fall(3), of "core k"] by simp
    ultimately have "map_res (core k) (fold_res (ApplyInput 0) (inputQueue v) v) = map_res (core k) (Inr a2)"
      using w(1) by (cases "ApplyInput 0 DOWN w") (simp_all add: v(3) fall(1) applied fold_res_append)
    moreover have "spawned a2"
      using spawned_Apply [of 0 DOWN a1] fall(2) s1 spawned_cong [OF fall(3)] by (auto simp: spawned_def MoveFallingBlock_def split: option.splits if_splits)
    ultimately show ?thesis using replay by blast
  next
    case (lock x)
    with drop have k: "k = True" by simp
    from fold_v drop obtain w where w: "fold_res (ApplyInput 0) ?is v = Inr w" "core True w = core True a1"
      unfolding lock applied k by auto
    obtain y where y: "FallingBlockToWall w = Inr y" "core True y = core True x"
      by (rule map_res_eq_Inr [OF core_ToWall [OF w(2) [symmetric]] lock(2)])
    have "core True (after_drop y) = core True (after_drop x)" by (rule core_after_drop [OF y(2)])
    also have "\<dots> = core True (spawn a2)" by (rule core_lock_Next [OF lock(2) lock(3) [symmetric], symmetric])
    finally have "map_res (core k) (fold_res (ApplyInput 0) (inputQueue v) v) = map_res (core k) (Inr (spawn a2))"
      using w(1) y(1) by (simp add: v(3) lock(1) applied fold_res_append k ApplyInput_def MoveFallingBlock_DROP)
    moreover have "fallingBlock a2 = None"
      using lock(2) core_eqD(3) [OF lock(3)] by (auto simp: FallingBlockToWall_def bind_res_Inr_iff split: option.splits)
    ultimately show ?thesis using replay k by blast
  qed
qed


text \<open>
  The relation between the own board and its replay: what the two show is the same once a waiting
  block is put into place, the ghost included if \<open>k\<close>.
\<close>

definition mirrors :: "bool \<Rightarrow> TetrisBoard \<Rightarrow> TetrisBoard \<Rightarrow> bool" where
  "mirrors k own enemy \<longleftrightarrow> core k (spawn own) = core k (spawn enemy) \<and>
     lastFallingTime enemy = 0 \<and> inputQueue enemy = []"

lemma finish_lock:
  assumes "fallingBlock a = None" and "core True v = core True (spawn a)" and "spawned v"
    and "finish a = Inr a'"
  shows "\<exists>v'. finish v = Inr v' \<and> core False (spawn v') = core False (spawn a') \<and>
           inputQueue v' = inputQueue v \<and> lastFallingTime v' = lastFallingTime v \<and>
           applyQueue a' = applyQueue a \<and> fallingBlock a' = None"
proof -
  from assms(1,4) obtain c n where c: "RemoveWall (board a) = Inr (c, n)" and a': "a' = a\<lparr>board := c\<rparr>"
    by (auto simp: finish_def UpdateExpectBlock_def bind_res_Inr_iff)
  have bs: "board (UpdateExpectBlock t) = board t" for t
    by (simp add: UpdateExpectBlock_def Let_def split: option.split)
  let ?v = "UpdateExpectBlock v\<lparr>board := c\<rparr>"
  have "finish v = Inr ?v" using c core_eqD(1) [OF assms(2)] by (simp add: finish_def bs)
  moreover have "core False ?v = core False (spawn a\<lparr>board := c\<rparr>)"
    by (rule core_eqI) (use core_eqD [OF assms(2)] in
        \<open>simp_all add: UpdateExpectBlock_def Let_def ghost_def falling_assign_def SetResourceID_def
          SetBlockType_def split: option.split\<close>)
  moreover have "spawn a\<lparr>board := c\<rparr> = spawn a'"
    by (simp add: a' spawn_def NextFallingBlock_def DequeNextBlock_def SetFallingBlock_def split: list.split)
  moreover have "spawned ?v" using assms(3) by (simp add: spawned_def UpdateExpectBlock_def Let_def split: option.split)
  moreover have "inputQueue ?v = inputQueue v" "lastFallingTime ?v = lastFallingTime v"
    by (simp_all add: UpdateExpectBlock_def Let_def split: option.split)
  ultimately show ?thesis using assms(1) core_spawned [of ?v False] by (auto simp: a')
qed

section \<open>Ghosts that are up to date\<close>

text \<open>The falling block has its ghost where it lands.\<close>

definition settled :: "TetrisBoard \<Rightarrow> bool" where
  "settled tb \<longleftrightarrow> fallingBlock tb \<noteq> None \<and> UpdateExpectBlock tb = tb"

text \<open>No line is full when the frame comes to removing them.\<close>

definition no_line :: "f32 \<Rightarrow> TetrisBoard \<Rightarrow> bool" where
  "no_line e tb =
     (case bind_res (InputLoop e (spawn (tb\<lparr>applyQueue := []\<rparr>))) (UpdateFallingBlock e) of
        Inl _ \<Rightarrow> True
      | Inr b \<Rightarrow> RemoveWall (board b) = Inr (board b, 0))"

lemma UpdateExpectBlock_again: "UpdateExpectBlock (UpdateExpectBlock tb) = UpdateExpectBlock tb"
  by (cases tb) (simp add: UpdateExpectBlock_def Let_def falling_assign_def SetResourceID_def
      SetBlockType_def split: option.split)

lemma settled_finish:
  assumes "finish a = Inr b" and "RemoveWall (board a) = Inr (board a, n)" and "fallingBlock a \<noteq> None"
  shows "settled b"
proof -
  have "board (UpdateExpectBlock a) = board a"
    by (simp add: UpdateExpectBlock_def Let_def split: option.split)
  with assms(1,2) have "b = UpdateExpectBlock a\<lparr>board := board (UpdateExpectBlock a)\<rparr>"
    by (simp add: finish_def)
  then have "b = UpdateExpectBlock a" by simp
  with assms(3) show ?thesis by (simp add: settled_def UpdateExpectBlock_again)
qed

lemma settled_core:
  assumes "settled a" and "settled b" and "core k a = core k b"
  shows "core True a = core True b"
  using core_Expect(2) [OF assms(3)] assms(1,2) by (simp add: settled_def)

lemma queue_finish: "finish a = Inr b \<Longrightarrow> nextFallingBlockQueue b = nextFallingBlockQueue a"
  by (auto simp: finish_def Let_def bind_res_Inr_iff UpdateExpectBlock_def split: option.splits)

lemma spawned_falls: "spawned tb \<Longrightarrow> nextFallingBlockQueue tb \<noteq> [] \<Longrightarrow> fallingBlock tb \<noteq> None"
  by (simp add: spawned_def)

lemma spawn_falls: "nextFallingBlockQueue tb \<noteq> [] \<Longrightarrow> fallingBlock (spawn tb) \<noteq> None"
  by (cases "nextFallingBlockQueue tb")
     (auto simp: spawn_def NextFallingBlock_def DequeNextBlock_def SetFallingBlock_def)

lemma mirror_frame:
  assumes "mirrors k own enemy" and "isPlaying own" and "Update e own = Inr own'"
    and "DROP \<in> set (applyQueue own') \<Longrightarrow> k"
  shows "\<exists>enemy'. Update 0 (enemy\<lparr>inputQueue := applyQueue own'\<rparr>) = Inr enemy' \<and>
           mirrors (fallingBlock own' \<noteq> None) own' enemy' \<and>
           (no_line e own \<and> nextFallingBlockQueue own' \<noteq> [] \<longrightarrow> settled enemy')"
proof -
  let ?a = "spawn (own\<lparr>applyQueue := []\<rparr>)"
  let ?v = "spawn (enemy\<lparr>inputQueue := applyQueue own', applyQueue := []\<rparr>)"
  from assms(1) have m: "core k (spawn own) = core k (spawn enemy)" "lastFallingTime enemy = 0"
    by (simp_all add: mirrors_def)
  from assms(2,3) obtain a1 a2 where own: "InputLoop e ?a = Inr a1" "UpdateFallingBlock e a1 = Inr a2"
    and own': "finish a2 = Inr own'"
    by (auto simp: Update_finish bind_res_Inr_iff)
  have sel: "applyQueue own' = applyQueue a2"
    using finish_core [OF refl own', of True] by blast
  have "core k ?a = core k (spawn own)" by (rule core_spawn) simp
  also have "\<dots> = core k (spawn enemy)" by (rule m(1))
  also have "\<dots> = core k ?v" by (rule core_spawn) simp
  finally have core: "core k ?v = core k ?a" by simp
  have play: "isPlaying enemy" using core_eqD(6) [OF m(1)] assms(2) by simp
  obtain v1 v2 where v: "InputLoop 0 ?v = Inr v1" "UpdateFallingBlock 0 v1 = Inr v2" "inputQueue v2 = []"
      "lastFallingTime v2 = 0" "spawned v2"
    and c: "core k v2 = core k a2 \<and> spawned a2 \<or> fallingBlock a2 = None \<and> core True v2 = core True (spawn a2)"
    using replay_inputs [OF own _ _ core] assms(4) m(2) sel spawn_timer by auto
  have upd: "Update 0 (enemy\<lparr>inputQueue := applyQueue own'\<rparr>) = finish v2"
    using play v(1,2) by (simp add: Update_finish)
  have ghost: "no_line e own \<and> nextFallingBlockQueue own' \<noteq> [] \<longrightarrow> settled v'"
    if "finish v2 = Inr v'" "board v2 = board a2" "nextFallingBlockQueue a2 \<noteq> [] \<longrightarrow> fallingBlock v2 \<noteq> None"
    for v'
    using that own queue_finish [OF own'] settled_finish [OF that(1), of 0]
    by (simp add: no_line_def)
  from c show ?thesis
  proof (elim disjE conjE)
    assume k: "core k v2 = core k a2" and s: "spawned a2"
    from finish_core [OF k [symmetric] own'] obtain v' where
      f: "finish v2 = Inr v'" "core k own' = core k v'" "inputQueue v' = inputQueue v2"
        "lastFallingTime v' = lastFallingTime v2"
        "fallingBlock own' \<noteq> None \<longrightarrow> core True own' = core True v'" by blast
    have "core (fallingBlock own' \<noteq> None) own' = core (fallingBlock own' \<noteq> None) v'"
    proof (cases "fallingBlock own' = None")
      case True
      with core_eqI [of own' v' False] core_eqD [OF f(2)] show ?thesis
        by (simp add: ghost_def) (metis ghost_ghost(3))
    qed (use f(5) in simp)
    from core_spawn [OF this] upd f v(3,4) ghost [OF f(1)] core_eqD(1,3) [OF k] spawned_falls [OF s]
    show ?thesis by (auto simp: mirrors_def)
  next
    assume l: "fallingBlock a2 = None" "core True v2 = core True (spawn a2)"
    from finish_lock [OF this v(5) own'] upd v(3,4) ghost core_eqD(1,3) [OF l(2)] spawn_falls [of a2]
    show ?thesis by (auto simp: mirrors_def)
  qed
qed

end
