(* ===== verification/StepTimer.thy ===== *)
theory StepTimer
  imports Float32
begin

unbundle bit_operations_syntax

text \<open>
  The frame timer \<open>DX::StepTimer\<close> of \<open>IOCPTetrisClient/StepTimer.h\<close>.

  \<^item> \<open>uint64_t\<close> and \<open>uint32_t\<close> are words, so every sum wraps as in the source.  The performance
    counter of the system is an argument of the operations that query it (a query that fails
    throws); its frequency is part of the state.
  \<^item> The fixed-step loop does not end for a target of zero ticks, so it is a \<open>partial_function\<close>.
    What \<open>update\<close> does is an argument: it gets the timer and the caller's state.
  \<^item> A \<open>double\<close> of the conversions is given in the unit of \<open>Float32\<close>, \<open>2^-149\<close>.  A quotient by ten
    million of a positive tick count is at least \<open>10^-7\<close>, so its 53 significant bits end above
    \<open>2^-77\<close>, and it is a multiple of that unit.
\<close>

section \<open>State\<close>

record StepTimer =
  m_qpcFrequency :: "64 word"
  m_qpcLastTime :: "64 word"
  m_qpcMaxDelta :: "64 word"
  m_elapsedTicks :: "64 word"
  m_totalTicks :: "64 word"
  m_leftOverTicks :: "64 word"
  m_frameCount :: "32 word"
  m_framesPerSecond :: "32 word"
  m_framesThisSecond :: "32 word"
  m_qpcSecondCounter :: "64 word"
  m_isFixedTimeStep :: bool
  m_targetElapsedTicks :: "64 word"

definition TicksPerSecond :: "64 word" where "TicksPerSecond = 10000000"

text \<open>
  The constructor: \<open>freq\<close> and \<open>now\<close> are what the two queries give.  \<open>QuadPart / 10\<close> is a division
  of signed numbers; the system's frequency is positive.
\<close>

definition new_StepTimer :: "64 word \<Rightarrow> 64 word \<Rightarrow> StepTimer" where
  "new_StepTimer freq now =
     \<lparr>m_qpcFrequency = freq, m_qpcLastTime = now,
      m_qpcMaxDelta = word_of_int (sint freq div 10), m_elapsedTicks = 0, m_totalTicks = 0,
      m_leftOverTicks = 0, m_frameCount = 0, m_framesPerSecond = 0, m_framesThisSecond = 0,
      m_qpcSecondCounter = 0, m_isFixedTimeStep = False,
      m_targetElapsedTicks = TicksPerSecond div 60\<rparr>"

section \<open>Conversions\<close>

text \<open>The value \<open>p / q\<close> rounded to 53 significant bits, ties to even.\<close>

definition f64_round_ratio :: "nat \<Rightarrow> nat \<Rightarrow> int" where
  "f64_round_ratio p q =
     (let k = shift_count (p div q) - 29;
          d = q * 2 ^ k; m = p div d; r = 2 * (p mod d)
      in int ((if r > d \<or> (r = d \<and> odd m) then m + 1 else m) * 2 ^ k))"

text \<open>\<open>static_cast<double>(ticks) / TicksPerSecond\<close>; the conversion of a 64-bit number rounds too.\<close>

definition TicksToSeconds :: "64 word \<Rightarrow> int" where
  "TicksToSeconds ticks = f64_round_ratio (nat (f64_round_ratio (unat ticks * 2 ^ 149) 1)) 10000000"

definition GetElapsedSeconds :: "StepTimer \<Rightarrow> int" where
  "GetElapsedSeconds t = TicksToSeconds (m_elapsedTicks t)"

definition GetTotalSeconds :: "StepTimer \<Rightarrow> int" where
  "GetTotalSeconds t = TicksToSeconds (m_totalTicks t)"

text \<open>\<open>static_cast<uint64_t>(seconds * TicksPerSecond)\<close>, for a number of seconds that is not negative
  and fits.\<close>

definition SecondsToTicks :: "int \<Rightarrow> 64 word" where
  "SecondsToTicks seconds = word_of_int (f64_round_ratio (nat (seconds * 10000000)) 1 div 2 ^ 149)"

section \<open>Operations\<close>

definition SetFixedTimeStep :: "bool \<Rightarrow> StepTimer \<Rightarrow> StepTimer" where
  "SetFixedTimeStep b t = t\<lparr>m_isFixedTimeStep := b\<rparr>"

definition SetTargetElapsedTicks :: "64 word \<Rightarrow> StepTimer \<Rightarrow> StepTimer" where
  "SetTargetElapsedTicks n t = t\<lparr>m_targetElapsedTicks := n\<rparr>"

definition SetTargetElapsedSeconds :: "int \<Rightarrow> StepTimer \<Rightarrow> StepTimer" where
  "SetTargetElapsedSeconds seconds t = t\<lparr>m_targetElapsedTicks := SecondsToTicks seconds\<rparr>"

definition ResetElapsedTime :: "64 word \<Rightarrow> StepTimer \<Rightarrow> StepTimer" where
  "ResetElapsedTime now t =
     t\<lparr>m_qpcLastTime := now, m_leftOverTicks := 0, m_framesPerSecond := 0,
       m_framesThisSecond := 0, m_qpcSecondCounter := 0\<rparr>"

text \<open>The time since the last tick, clamped and converted to ticks.\<close>

definition clamped_delta :: "StepTimer \<Rightarrow> 64 word \<Rightarrow> 64 word" where
  "clamped_delta t timeDelta =
     (let d = (if timeDelta > m_qpcMaxDelta t then m_qpcMaxDelta t else timeDelta)
      in d * TicksPerSecond div m_qpcFrequency t)"

text \<open>\<open>std::abs\<close> of the difference as a signed number.\<close>

definition snap_to_target :: "StepTimer \<Rightarrow> 64 word \<Rightarrow> 64 word" where
  "snap_to_target t d =
     (if (word_of_int \<bar>sint (d - m_targetElapsedTicks t)\<bar> :: 64 word) < TicksPerSecond div 4000
      then m_targetElapsedTicks t else d)"

definition fixed_update :: "StepTimer \<Rightarrow> StepTimer" where
  "fixed_update t =
     t\<lparr>m_elapsedTicks := m_targetElapsedTicks t,
       m_totalTicks := m_totalTicks t + m_targetElapsedTicks t,
       m_leftOverTicks := m_leftOverTicks t - m_targetElapsedTicks t,
       m_frameCount := m_frameCount t + 1\<rparr>"

partial_function (option) fixed_loop ::
    "(StepTimer \<Rightarrow> 's \<Rightarrow> 's res option) \<Rightarrow> StepTimer \<Rightarrow> 's \<Rightarrow> (StepTimer \<times> 's) res option" where
  "fixed_loop update t s =
     (if m_leftOverTicks t \<ge> m_targetElapsedTicks t then
        (case update (fixed_update t) s of
           None \<Rightarrow> None
         | Some r \<Rightarrow>
             (case r of
                Inl e \<Rightarrow> Some (Inl e)
              | Inr s' \<Rightarrow> fixed_loop update (fixed_update t) s'))
      else Some (Inr (t, s)))"

definition variable_update :: "64 word \<Rightarrow> StepTimer \<Rightarrow> StepTimer" where
  "variable_update d t =
     t\<lparr>m_elapsedTicks := d, m_totalTicks := m_totalTicks t + d, m_leftOverTicks := 0,
       m_frameCount := m_frameCount t + 1\<rparr>"

text \<open>The end of \<open>Tick\<close>: counting the frames of a second.\<close>

definition track_framerate :: "32 word \<Rightarrow> StepTimer \<Rightarrow> StepTimer" where
  "track_framerate lastFrameCount t =
     (let t1 = (if m_frameCount t \<noteq> lastFrameCount
                then t\<lparr>m_framesThisSecond := m_framesThisSecond t + 1\<rparr> else t)
      in if m_qpcSecondCounter t1 \<ge> m_qpcFrequency t1
         then t1\<lparr>m_framesPerSecond := m_framesThisSecond t1, m_framesThisSecond := 0,
                 m_qpcSecondCounter := m_qpcSecondCounter t1 mod m_qpcFrequency t1\<rparr>
         else t1)"

definition Tick ::
    "(StepTimer \<Rightarrow> 's \<Rightarrow> 's res option) \<Rightarrow> 64 word \<Rightarrow> StepTimer \<Rightarrow> 's \<Rightarrow> (StepTimer \<times> 's) res option" where
  "Tick update currentTime t s =
     (let timeDelta = currentTime - m_qpcLastTime t;
          t1 = t\<lparr>m_qpcLastTime := currentTime,
                 m_qpcSecondCounter := m_qpcSecondCounter t + timeDelta\<rparr>;
          d = clamped_delta t1 timeDelta;
          done = (\<lambda>r. case r of Inl e \<Rightarrow> Inl e
                              | Inr (t', s') \<Rightarrow> Inr (track_framerate (m_frameCount t) t', s'))
      in if m_isFixedTimeStep t1 then
           map_option done
             (fixed_loop update
                (t1\<lparr>m_leftOverTicks := m_leftOverTicks t1 + snap_to_target t1 d\<rparr>) s)
         else
           (let t2 = variable_update d t1
            in map_option done
                 (map_option (\<lambda>r. case r of Inl e \<Rightarrow> Inl e | Inr s' \<Rightarrow> Inr (t2, s'))
                    (update t2 s))))"

end
