(* ===== verification/ClientState.thy ===== *)
theory ClientState
  imports BoardMirror PacketCodec StepTimer
begin

text \<open>
  The state of the client process: the singletons \<open>Game\<close> and \<open>Server\<close> of \<open>IOCPTetrisClient/\<close>, the
  scene they run, and the environment they run in.

  \<^item> A scene is a datatype with one constructor per class, so \<open>dynamic_cast\<close> is a case
    distinction.  The boards of \<open>InGameScene\<close> and its buttons are null until \<open>Start\<close> has made
    them: options, and following a null one fails with \<open>NullDeref\<close>.
  \<^item> \<open>m_epoch\<close> counts how often the vector \<open>m_buttons\<close> has been cleared: an iterator into it is
    valid as long as the number is the one at which it was made.
  \<^item> An \<open>int\<close> that travels in packets is a \<open>32 word\<close> here too, read with \<open>sint\<close> where it is used as a
    number.
  \<^item> Of the handler objects only \<open>ReqRoomList\<close> reads the request it keeps, so only that one is
    part of the state.
  \<^item> While \<open>SendSync\<close> waits, the other threads and the network go on.  What they do in the \<open>n\<close>-th
    such pause is \<open>schedule n\<close>; \<open>rounds\<close> counts the pauses.  What \<open>send\<close> was given is recorded in
    \<open>sockSends\<close>.
  \<^item> Keyboard, mouse and the rectangle test belong to DirectXTK, which is not part of the sources:
    a frame gets what they report as its \<open>FrameInput\<close>.
\<close>

section \<open>Packets in the client's queues\<close>

record ClientPacket =
  cp_DataSize :: "16 word"
  cp_PacketId :: "16 word"
  cp_SessionIndex :: "32 word"
  cp_SequenceIndex :: "32 word"
  cp_data :: bytes

definition default_ClientPacket :: ClientPacket where
  "default_ClientPacket =
     \<lparr>cp_DataSize = 0, cp_PacketId = 0, cp_SessionIndex = 0, cp_SequenceIndex = 0, cp_data = []\<rparr>"

section \<open>Buttons and scenes\<close>

record Rectangle =
  rect_x :: int
  rect_y :: int
  rect_width :: int
  rect_height :: int

record ButtonText =
  text_x :: int
  text_y :: int
  text_string :: string

record Button =
  collision :: Rectangle
  buttonTexts :: "ButtonText list"
  isEnable :: bool

text \<open>\<open>roomInfo\<close> points to the first of the button's texts.\<close>

record RoomButton = Button +
  rb_roomIndex :: "32 word"
  rb_playerNumber :: "32 word"
  rb_maxPlayerNumber :: "32 word"

record LobbyScene =
  currentRoomPage :: "32 word"
  m_buttons :: "RoomButton list"
  m_epoch :: nat

record InGameScene =
  tetrisBoard :: "TetrisBoard option"
  enemyBoard :: "TetrisBoard option"
  ig_roomIndex :: "32 word"
  gameStartButton :: "Button option"
  gameLeaveButton :: "Button option"

datatype Scene = Lobby LobbyScene | InGame InGameScene

definition new_LobbyScene :: LobbyScene where
  "new_LobbyScene = \<lparr>currentRoomPage = 1, m_buttons = [], m_epoch = 0\<rparr>"

definition new_InGameScene :: "32 word \<Rightarrow> InGameScene" where
  "new_InGameScene roomIndex =
     \<lparr>tetrisBoard = None, enemyBoard = None, ig_roomIndex = roomIndex,
      gameStartButton = None, gameLeaveButton = None\<rparr>"

section \<open>Input\<close>

text \<open>The members of \<open>KeyboardStateTracker::pressed\<close> that the program reads.\<close>

record Keys =
  key_Down :: bool
  key_Left :: bool
  key_Right :: bool
  key_Z :: bool
  key_X :: bool
  key_Up :: bool
  key_C :: bool
  key_Space :: bool

text \<open>\<open>hits\<close> tells which rectangles contain the mouse position.\<close>

record FrameInput =
  pressed :: Keys
  leftButton :: bool
  hits :: "Rectangle \<Rightarrow> bool"

definition GetInput :: "Keys \<Rightarrow> InputType list" where
  "GetInput k =
     (if key_Down k then [DOWN]
      else if key_Left k then [LEFT]
      else if key_Right k then [RIGHT]
      else if key_Z k then [ROTATELEFT]
      else if key_X k then [ROTATERIGHT]
      else if key_Up k then [ROTATERIGHT]
      else if key_C k then [HOLD]
      else if key_Space k then [DROP]
      else [])"

section \<open>The client\<close>

text \<open>What the other threads can do: an iteration of \<open>SendThread\<close> whose \<open>send\<close> succeeds or not, and
  an iteration of \<open>RecvThread\<close> in which the system delivers bytes, reports the end of the
  connection, or another error.\<close>

datatype thread_event = Sending bool | Arrived bytes | PeerClosed | RecvError

record Client =
  cl_packetBuffer :: PacketBuffer
  sendPacketQueue :: "ClientPacket list"
  sendPackets :: "ClientPacket list"
  recvPackets :: "ClientPacket list"
  notifyPackets :: "ClientPacket list"
  syncPacket :: ClientPacket
  reqRoomList :: REQ_ROOM_LIST
  needSyncPacket :: bool
  needSyncSequnce :: "32 word"
  cl_isRun :: bool
  cl_isConnect :: bool
  cl_sequenceIndex :: int
  sockSends :: "bytes list"
  curScene :: "Scene option"
  preservedScene :: "Scene option"
  cl_playerSessionIndex :: "32 word"
  updateRoomInfoInterval :: f32
  schedule :: "nat \<Rightarrow> thread_event list"
  rounds :: nat

text \<open>
  The constructors of \<open>Server\<close> and \<open>Game\<close>.  Both objects have static storage duration, so
  \<open>playerSessionIndex\<close>, which has no initializer, is 0.
\<close>

definition new_Client :: "(nat \<Rightarrow> 8 word) \<Rightarrow> (nat \<Rightarrow> thread_event list) \<Rightarrow> Client" where
  "new_Client fresh sched =
     \<lparr>cl_packetBuffer = buffer_Init fresh fresh 20000 PACKET_HEADER_LENGTH,
      sendPacketQueue = [], sendPackets = [], recvPackets = [], notifyPackets = [],
      syncPacket = default_ClientPacket, reqRoomList = default_REQ_ROOM_LIST,
      needSyncPacket = False, needSyncSequnce = 0, cl_isRun = True, cl_isConnect = False,
      cl_sequenceIndex = 0, sockSends = [], curScene = None, preservedScene = None,
      cl_playerSessionIndex = 0, updateRoomInfoInterval = 0, schedule = sched, rounds = 0\<rparr>"

end
