(* ===== verification/ClientNet.thy ===== *)
theory ClientNet
  imports ClientState "HOL-Library.Multiset"
begin

text \<open>
  The network side of the client, \<open>IOCPTetrisClient/System/Server.h\<close> and \<open>Server.cpp\<close>, up to the
  point where handlers are called: the queues, \<open>Send\<close>, and one iteration of each thread's loop.

  A \<open>std::priority_queue\<close> whose comparison is on the sequence index is the list of its elements,
  largest index first.  Among equal indices the standard leaves the order open; the model takes
  the latest first.  What the client relies on is the locale \<open>max_queue\<close>.

  The threads of the client share its queues; one iteration of a thread, and one call of
  \<open>HandlerThread\<close>, is one atomic step here.
\<close>

section \<open>Priority queues\<close>

definition pq_key :: "ClientPacket \<Rightarrow> int" where
  "pq_key p = uint (cp_SequenceIndex p)"

definition pq_push :: "ClientPacket \<Rightarrow> ClientPacket list \<Rightarrow> ClientPacket list" where
  "pq_push p q = insort_key (\<lambda>x. - pq_key x) p q"

definition pq_top :: "ClientPacket list \<Rightarrow> ClientPacket res" where
  "pq_top q = (case q of [] \<Rightarrow> Inl EmptyContainer | p # _ \<Rightarrow> Inr p)"

definition pq_pop :: "ClientPacket list \<Rightarrow> ClientPacket list" where
  "pq_pop q = tl q"

definition pq_ok :: "ClientPacket list \<Rightarrow> bool" where
  "pq_ok q \<longleftrightarrow> sorted (map (\<lambda>x. - pq_key x) q)"

locale max_queue =
  fixes push :: "'a \<Rightarrow> 'q \<Rightarrow> 'q"
    and top :: "'q \<Rightarrow> 'a res"
    and pop :: "'q \<Rightarrow> 'q"
    and elems :: "'q \<Rightarrow> 'a multiset"
    and key :: "'a \<Rightarrow> int"
    and ok :: "'q \<Rightarrow> bool"
  assumes elems_push: "ok q \<Longrightarrow> elems (push x q) = add_mset x (elems q)"
    and ok_push: "ok q \<Longrightarrow> ok (push x q)"
    and top_empty: "ok q \<Longrightarrow> elems q = {#} \<Longrightarrow> top q = Inl EmptyContainer"
    and top_max: "ok q \<Longrightarrow> elems q \<noteq> {#} \<Longrightarrow>
        \<exists>x. top q = Inr x \<and> x \<in># elems q \<and> (\<forall>y \<in># elems q. key y \<le> key x)"
    and elems_pop: "ok q \<Longrightarrow> top q = Inr x \<Longrightarrow> elems q = add_mset x (elems (pop q))"
    and ok_pop: "ok q \<Longrightarrow> ok (pop q)"
begin

lemma top_in: "ok q \<Longrightarrow> top q = Inr x \<Longrightarrow> x \<in># elems q"
  using elems_pop by fastforce

lemma top_greatest: "ok q \<Longrightarrow> top q = Inr x \<Longrightarrow> y \<in># elems q \<Longrightarrow> key y \<le> key x"
  using top_max by fastforce

text \<open>An element above all others is at the top until it is taken, whatever else is pushed.\<close>

lemma newest_at_top:
  assumes "ok q" and "x \<in># elems q" and "\<And>y. y \<in># elems q \<Longrightarrow> y \<noteq> x \<Longrightarrow> key y < key x"
  shows "top q = Inr x"
proof -
  from assms(1,2) top_max obtain y where y: "top q = Inr y" "y \<in># elems q" "key x \<le> key y" by fastforce
  with assms(3) [of y] show ?thesis by fastforce
qed

lemma push_newest:
  assumes "ok q" and "\<And>y. y \<in># elems q \<Longrightarrow> key y < key x"
  shows "top (push x q) = Inr x" and "elems (pop (push x q)) = elems q"
proof -
  show t: "top (push x q) = Inr x"
    by (rule newest_at_top) (use assms in \<open>auto simp: ok_push elems_push\<close>)
  from elems_pop [OF ok_push [OF assms(1)] t] show "elems (pop (push x q)) = elems q"
    by (simp add: elems_push assms(1))
qed

end

interpretation pq: max_queue pq_push pq_top pq_pop mset pq_key pq_ok
proof
  fix q x assume ok: "pq_ok q"
  show "mset (pq_push x q) = add_mset x (mset q)" by (simp add: pq_push_def)
  show "pq_ok (pq_push x q)"
    using ok unfolding pq_ok_def pq_push_def by (rule sorted_insort_key [THEN iffD2])
  show "mset q = {#} \<Longrightarrow> pq_top q = Inl EmptyContainer" by (simp add: pq_top_def)
  show "mset q \<noteq> {#} \<Longrightarrow> \<exists>x. pq_top q = Inr x \<and> x \<in># mset q \<and> (\<forall>y \<in># mset q. pq_key y \<le> pq_key x)"
    using ok by (cases q) (auto simp: pq_top_def pq_ok_def)
  show "pq_top q = Inr x \<Longrightarrow> mset q = add_mset x (mset (pq_pop q))"
    by (cases q) (simp_all add: pq_top_def pq_pop_def)
  show "pq_ok (pq_pop q)" using ok by (cases q) (simp_all add: pq_ok_def pq_pop_def)
qed

section \<open>Connecting and closing\<close>

text \<open>\<open>ok\<close> tells whether socket and connection could be made; the source asserts it.\<close>

definition ConnectServer :: "bool \<Rightarrow> Client \<Rightarrow> Client res" where
  "ConnectServer ok s = (if ok then Inr (s\<lparr>cl_isConnect := True\<rparr>) else Inl AssertFailed)"

definition Close :: "Client \<Rightarrow> Client" where
  "Close s = s\<lparr>cl_isConnect := False\<rparr>"

definition Shutdown :: "Client \<Rightarrow> Client" where
  "Shutdown s = (if cl_isConnect s then Close s else s)"

section \<open>Sending\<close>

text \<open>
  The header that \<open>Send\<close> and \<open>SendSync\<close> fill in, and the packet they queue.  \<open>enc\<close> is the layout
  of the request.
\<close>

definition request_packet ::
    "PACKET_ID \<Rightarrow> nat \<Rightarrow> ('a PACKET_HEADER_scheme \<Rightarrow> bytes) \<Rightarrow> 'a PACKET_HEADER_scheme \<Rightarrow>
     32 word \<Rightarrow> 32 word \<Rightarrow> ClientPacket" where
  "request_packet pid sizeof_Req enc req session seq =
     \<lparr>cp_DataSize = of_nat sizeof_Req, cp_PacketId = packet_id pid, cp_SessionIndex = session,
      cp_SequenceIndex = seq,
      cp_data = enc (req\<lparr>sessionIndex := session, PacketId := packet_id pid,
                         sequenceIndex := seq, PacketLength := of_nat sizeof_Req\<rparr>)\<rparr>"

definition cl_Send ::
    "PACKET_ID \<Rightarrow> nat \<Rightarrow> ('a PACKET_HEADER_scheme \<Rightarrow> bytes) \<Rightarrow> 'a PACKET_HEADER_scheme \<Rightarrow>
     Client \<Rightarrow> Client res" where
  "cl_Send pid sizeof_Req enc req s =
     (if \<not> cl_isConnect s then Inr s
      else bind_res (int32_res (cl_sequenceIndex s + 1)) (\<lambda>seq.
        Inr (s\<lparr>cl_sequenceIndex := seq,
               sendPacketQueue := sendPacketQueue s @
                 [request_packet pid sizeof_Req enc req (cl_playerSessionIndex s) (of_int seq)]\<rparr>)))"

text \<open>One iteration of \<open>SendThread\<close>; \<open>ok\<close> tells whether \<open>send\<close> succeeds.\<close>

definition SendThread :: "bool \<Rightarrow> Client \<Rightarrow> Client" where
  "SendThread ok s =
     (if \<not> cl_isRun s \<or> \<not> cl_isConnect s then s
      else case sendPacketQueue s of
        [] \<Rightarrow> s
      | p # ps \<Rightarrow>
          (let s1 = s\<lparr>sendPacketQueue := ps, sendPackets := pq_push p (sendPackets s),
                      sockSends := sockSends s @ [cp_data p]\<rparr>
           in if ok then s1 else Close s1))"

section \<open>Receiving\<close>

text \<open>The body of the loop over the packets: the header is read in place, and the packet goes to
  the notifications if its sequence index is 0.  Only the first eight bytes are looked at: length, id
  and sequence index.\<close>

definition queue_packet :: "bytes \<Rightarrow> Client \<Rightarrow> Client res" where
  "queue_packet readBuf s =
     (if length readBuf < 8 then Inl OutOfBounds
      else
        let h = dec_header readBuf;
            p = \<lparr>cp_DataSize = PacketLength h, cp_PacketId = PacketId h, cp_SessionIndex = 0,
                 cp_SequenceIndex = sequenceIndex h, cp_data = readBuf\<rparr>
        in if cp_SequenceIndex p = 0
           then Inr (s\<lparr>notifyPackets := notifyPackets s @ [p]\<rparr>)
           else Inr (s\<lparr>recvPackets := pq_push p (recvPackets s)\<rparr>))"

definition RecvThread_bytes :: "bytes \<Rightarrow> Client \<Rightarrow> Client run" where
  "RecvThread_bytes chunk s =
     bind_run (Receive Read write_chunk queue_packet chunk (cl_packetBuffer s) s)
       (\<lambda>(b, s1). Some (Inr (s1\<lparr>cl_packetBuffer := b\<rparr>)))"

text \<open>One iteration of a thread.  The thread of \<open>RecvThread\<close> waits while there is no connection.\<close>

definition thread_step :: "thread_event \<Rightarrow> Client \<Rightarrow> Client run" where
  "thread_step ev s =
     (case ev of
        Sending ok \<Rightarrow> Some (Inr (SendThread ok s))
      | Arrived chunk \<Rightarrow>
          if cl_isRun s \<and> cl_isConnect s then RecvThread_bytes chunk s else Some (Inr s)
      | PeerClosed \<Rightarrow>
          Some (Inr (if cl_isRun s \<and> cl_isConnect s then s\<lparr>cl_isRun := False\<rparr> else s))
      | RecvError \<Rightarrow>
          Some (Inr (if cl_isRun s \<and> cl_isConnect s then Close s else s)))"

text \<open>What happens during one pause of \<open>SendSync\<close>.\<close>

definition pause :: "Client \<Rightarrow> Client run" where
  "pause s = fold_run thread_step (schedule s (rounds s)) (s\<lparr>rounds := rounds s + 1\<rparr>)"

end
