(* ===== verification/ClientHandlers.thy ===== *)
theory ClientHandlers
  imports ClientNet
begin

text \<open>
  The response handlers of the client (\<open>IOCPTetrisClient/Handler/\<close>), \<open>Server::HandlerThread\<close>, which
  the game calls once a frame to run at most one response and one notification, and
  \<open>Server::SendSync\<close>, which calls it until its own response has been handled.
\<close>

section \<open>Access to the scene\<close>

definition GetInGameScene :: "Client \<Rightarrow> InGameScene option" where
  "GetInGameScene s = (case curScene s of Some (InGame g) \<Rightarrow> Some g | _ \<Rightarrow> None)"

definition GetLobbyScene :: "Client \<Rightarrow> LobbyScene option" where
  "GetLobbyScene s = (case curScene s of Some (Lobby l) \<Rightarrow> Some l | _ \<Rightarrow> None)"

definition set_ingame :: "InGameScene \<Rightarrow> Client \<Rightarrow> Client" where
  "set_ingame g s = s\<lparr>curScene := Some (InGame g)\<rparr>"

definition set_lobby :: "LobbyScene \<Rightarrow> Client \<Rightarrow> Client" where
  "set_lobby l s = s\<lparr>curScene := Some (Lobby l)\<rparr>"

definition SetPreservedScene :: "Scene option \<Rightarrow> Client \<Rightarrow> Client" where
  "SetPreservedScene sc s = s\<lparr>preservedScene := sc\<rparr>"

section \<open>Buttons\<close>

definition new_Button :: "int \<Rightarrow> int \<Rightarrow> string \<Rightarrow> Button" where
  "new_Button width height txt =
     \<lparr>collision = \<lparr>rect_x = 0, rect_y = 0, rect_width = width, rect_height = height\<rparr>,
      buttonTexts = [\<lparr>text_x = 0, text_y = 0, text_string = txt\<rparr>], isEnable = True\<rparr>"

definition SetPos :: "int \<Rightarrow> int \<Rightarrow> 'a Button_scheme \<Rightarrow> 'a Button_scheme" where
  "SetPos x y b = b\<lparr>collision := (collision b)\<lparr>rect_x := x, rect_y := y\<rparr>\<rparr>"

definition SetEnable :: "bool \<Rightarrow> 'a Button_scheme \<Rightarrow> 'a Button_scheme" where
  "SetEnable e b = b\<lparr>isEnable := e\<rparr>"

text \<open>\<open>hit\<close> tells which rectangles contain the position of the mouse.\<close>

definition IsPressed :: "(Rectangle \<Rightarrow> bool) \<Rightarrow> 'a Button_scheme \<Rightarrow> bool" where
  "IsPressed hit b \<longleftrightarrow> isEnable b \<and> hit (collision b)"

definition new_RoomButton :: "int \<Rightarrow> int \<Rightarrow> RoomButton" where
  "new_RoomButton width height =
     Button.extend (new_Button width height []) (RoomButton.fields 0 0 0)"

text \<open>\<open>std::to_wstring\<close>.\<close>

fun digits :: "nat \<Rightarrow> string" where
  "digits n = (if n < 10 then [char_of (48 + n)] else digits (n div 10) @ [char_of (48 + n mod 10)])"

declare digits.simps [simp del]

definition to_wstring :: "int \<Rightarrow> string" where
  "to_wstring i = (if i < 0 then CHR ''-'' # digits (nat (- i)) else digits (nat i))"

definition SetText :: "string \<Rightarrow> ButtonText \<Rightarrow> ButtonText" where
  "SetText t b = b\<lparr>text_string := t\<rparr>"

definition SetRoomInfo :: "32 word \<Rightarrow> 32 word \<Rightarrow> 32 word \<Rightarrow> RoomButton \<Rightarrow> RoomButton" where
  "SetRoomInfo roomIndex playerNumber maxPlayerNumber b =
     (let b1 = b\<lparr>rb_roomIndex := roomIndex, rb_playerNumber := playerNumber,
                 rb_maxPlayerNumber := maxPlayerNumber\<rparr>;
          newText = (if rb_roomIndex b1 = 0 then ''EMPTY''
                     else to_wstring (sint (rb_playerNumber b1)) @ ''/'' @
                          to_wstring (sint (rb_maxPlayerNumber b1)))
      in b1\<lparr>buttonTexts := (buttonTexts b1)[0 := SetText newText (buttonTexts b1 ! 0)]\<rparr>)"

section \<open>What the handlers call\<close>

definition room_button :: "RoomInfo \<Rightarrow> nat \<Rightarrow> RoomButton" where
  "room_button info i =
     SetPos (100 + (if i mod 2 \<noteq> 0 then 350 else 0)) (100 + int (i div 2) * 200)
       (SetRoomInfo (ri_roomIndex info) (ri_currentPlayerCnt info) (ri_maxPlayerCnt info)
         (new_RoomButton 300 150))"

definition SetupRoomPage :: "32 word \<Rightarrow> RoomInfo list \<Rightarrow> LobbyScene \<Rightarrow> LobbyScene res" where
  "SetupRoomPage page roomInfos l =
     (if length roomInfos < ROOM_CNT_PER_PAGE then Inl OutOfBounds
      else Inr (l\<lparr>currentRoomPage := page, m_epoch := m_epoch l + 1,
                  m_buttons := map (\<lambda>i. room_button (roomInfos ! i) i) [0..<ROOM_CNT_PER_PAGE]\<rparr>))"

definition AddFallingBlock :: "ShapeType \<Rightarrow> InGameScene \<Rightarrow> InGameScene res" where
  "AddFallingBlock shape g =
     bind_res (of_option NullDeref (tetrisBoard g)) (\<lambda>mine.
     bind_res (of_option NullDeref (enemyBoard g)) (\<lambda>enemy.
     Inr (g\<lparr>tetrisBoard := Some (QueueNextBlock shape mine),
            enemyBoard := Some (QueueNextBlock shape enemy)\<rparr>)))"

definition scene_GameStart :: "InGameScene \<Rightarrow> InGameScene res" where
  "scene_GameStart g =
     bind_res (of_option NullDeref (tetrisBoard g)) (\<lambda>mine.
     bind_res (of_option NullDeref (enemyBoard g)) (\<lambda>enemy.
     bind_res (of_option NullDeref (gameStartButton g)) (\<lambda>b.
     Inr (g\<lparr>tetrisBoard := Some (Start mine), enemyBoard := Some (Start enemy),
            gameStartButton := Some (SetEnable False b)\<rparr>))))"

section \<open>The handlers\<close>

definition on_ReqLogin :: "RES_LOGIN \<Rightarrow> Client \<Rightarrow> Client res" where
  "on_ReqLogin r s = Inr (s\<lparr>cl_playerSessionIndex := newSessionID r\<rparr>)"

definition on_ReqFallingBlock :: "RES_FALLING_BLOCK \<Rightarrow> Client \<Rightarrow> Client res" where
  "on_ReqFallingBlock r s =
     (case GetInGameScene s of
        None \<Rightarrow> Inr s
      | Some g \<Rightarrow> bind_res (fold_res AddFallingBlock (newBlocks r) g) (\<lambda>g1. Inr (set_ingame g1 s)))"

definition on_ReqGameStart :: "RES_GAME_START \<Rightarrow> Client \<Rightarrow> Client res" where
  "on_ReqGameStart r s =
     (case GetInGameScene s of
        None \<Rightarrow> Inr s
      | Some g \<Rightarrow>
          bind_res (fold_res AddFallingBlock (newBlocks r) g) (\<lambda>g1.
          bind_res (scene_GameStart g1) (\<lambda>g2. Inr (set_ingame g2 s))))"

text \<open>The inputs up to the first \<open>NONE\<close> are queued, then the enemy board is updated without
  elapsed time.\<close>

definition on_ReqGameInput :: "RES_GAME_INPUT \<Rightarrow> Client \<Rightarrow> Client res" where
  "on_ReqGameInput r s =
     (case GetInGameScene s of
        None \<Rightarrow> Inr s
      | Some g \<Rightarrow>
          bind_res (of_option NullDeref (enemyBoard g)) (\<lambda>enemy.
          bind_res (Update 0
              (fold QueueInput (takeWhile (\<lambda>i. i \<noteq> Input_NONE) (res_inputs r)) enemy)) (\<lambda>enemy1.
          Inr (set_ingame (g\<lparr>enemyBoard := Some enemy1\<rparr>) s))))"

definition on_ReqRoomCreate :: "RES_ROOM_CREATE \<Rightarrow> Client \<Rightarrow> Client res" where
  "on_ReqRoomCreate r s =
     Inr (SetPreservedScene (Some (InGame (new_InGameScene (newRoomIndex r)))) s)"

definition on_ReqRoomEnter :: "RES_ROOM_ENTER \<Rightarrow> Client \<Rightarrow> Client res" where
  "on_ReqRoomEnter r s =
     (case GetInGameScene s of
        None \<Rightarrow> Inr s
      | Some g \<Rightarrow>
          if cl_playerSessionIndex s = enterSessionIndex r then
            bind_res (of_option NullDeref (tetrisBoard g)) (\<lambda>mine.
            Inr (set_ingame (g\<lparr>tetrisBoard := Some (Init (sint (enterSessionIndex r)) mine)\<rparr>) s))
          else
            bind_res (of_option NullDeref (enemyBoard g)) (\<lambda>enemy.
            Inr (set_ingame (g\<lparr>enemyBoard := Some (Init (sint (enterSessionIndex r)) enemy)\<rparr>) s)))"

definition on_ReqRoomLeave :: "RES_ROOM_LEAVE \<Rightarrow> Client \<Rightarrow> Client res" where
  "on_ReqRoomLeave r s = Inr (SetPreservedScene (Some (Lobby new_LobbyScene)) s)"

text \<open>The page comes from the request that the handler keeps.\<close>

definition on_ReqRoomList :: "RES_ROOM_LIST \<Rightarrow> Client \<Rightarrow> Client res" where
  "on_ReqRoomList r s =
     (case GetLobbyScene s of
        None \<Rightarrow> Inr s
      | Some l \<Rightarrow>
          bind_res (SetupRoomPage (roomPage (reqRoomList s)) (take ROOM_CNT_PER_PAGE (roomInfo r)) l)
            (\<lambda>l1. Inr (set_lobby l1 s)))"

definition on_nothing :: "BASE_PACKET \<Rightarrow> Client \<Rightarrow> Client res" where
  "on_nothing r s = Inr s"

section \<open>The base handler and the dispatch\<close>

text \<open>\<open>SetRequest\<close> and \<open>Response\<close> assert the size, which they get as a signed 16-bit number.\<close>

definition checked :: "nat \<Rightarrow> ClientPacket \<Rightarrow> bytes res" where
  "checked sizeof_T p =
     (if sint (cp_DataSize p) \<noteq> int sizeof_T then Inl AssertFailed
      else if length (cp_data p) < sizeof_T then Inl OutOfBounds
      else Inr (take sizeof_T (cp_data p)))"

definition Response ::
    "nat \<Rightarrow> (bytes \<Rightarrow> 'r) \<Rightarrow> ('r \<Rightarrow> Client \<Rightarrow> Client res) \<Rightarrow> ClientPacket \<Rightarrow> Client \<Rightarrow> Client res" where
  "Response sizeof_Res dec OnResponse p s =
     bind_res (checked sizeof_Res p) (\<lambda>bs. OnResponse (dec bs) s)"

datatype ResKind =
    RES_Login | RES_FallingBlock | RES_GameInput | RES_GameStart | RES_GameStop
  | RES_RoomCanEnter | RES_RoomCreate | RES_RoomEnter | RES_RoomLeave | RES_RoomList

definition cl_handlers :: "(16 word \<times> ResKind) list" where
  "cl_handlers =
     [(packet_id PID_RES_LOGIN, RES_Login),
      (packet_id PID_RES_FALLING_BLOCK, RES_FallingBlock),
      (packet_id PID_RES_GAME_INPUT, RES_GameInput),
      (packet_id PID_RES_GAME_START, RES_GameStart),
      (packet_id PID_RES_GAME_STOP, RES_GameStop),
      (packet_id PID_RES_ROOM_CAN_ENTER, RES_RoomCanEnter),
      (packet_id PID_RES_ROOM_CREATE, RES_RoomCreate),
      (packet_id PID_RES_ROOM_ENTER, RES_RoomEnter),
      (packet_id PID_RES_ROOM_LEAVE, RES_RoomLeave),
      (packet_id PID_RES_ROOM_LIST, RES_RoomList)]"

definition sizeof_Req :: "ResKind \<Rightarrow> nat" where
  "sizeof_Req k =
     (case k of
        RES_GameInput \<Rightarrow> sizeof_REQ_GAME_INPUT
      | RES_RoomCanEnter \<Rightarrow> sizeof_REQ_ROOM_ENTER
      | RES_RoomEnter \<Rightarrow> sizeof_REQ_ROOM_ENTER
      | RES_RoomList \<Rightarrow> sizeof_REQ_ROOM_LIST
      | _ \<Rightarrow> sizeof_BASE)"

definition SetRequest :: "ResKind \<Rightarrow> ClientPacket \<Rightarrow> Client \<Rightarrow> Client res" where
  "SetRequest k p s =
     bind_res (checked (sizeof_Req k) p) (\<lambda>bs.
     Inr (if k = RES_RoomList then s\<lparr>reqRoomList := dec_REQ_ROOM_LIST bs\<rparr> else s))"

definition handler_Response :: "ResKind \<Rightarrow> ClientPacket \<Rightarrow> Client \<Rightarrow> Client res" where
  "handler_Response k =
     (case k of
        RES_Login \<Rightarrow> Response sizeof_RES_LOGIN dec_RES_LOGIN on_ReqLogin
      | RES_FallingBlock \<Rightarrow> Response sizeof_RES_GAME_START dec_RES_GAME_START on_ReqFallingBlock
      | RES_GameInput \<Rightarrow> Response sizeof_RES_GAME_INPUT dec_RES_GAME_INPUT on_ReqGameInput
      | RES_GameStart \<Rightarrow> Response sizeof_RES_GAME_START dec_RES_GAME_START on_ReqGameStart
      | RES_GameStop \<Rightarrow> Response sizeof_BASE dec_BASE on_nothing
      | RES_RoomCanEnter \<Rightarrow> Response sizeof_BASE dec_BASE on_nothing
      | RES_RoomCreate \<Rightarrow> Response sizeof_RES_ROOM_CREATE dec_RES_ROOM_CREATE on_ReqRoomCreate
      | RES_RoomEnter \<Rightarrow> Response sizeof_RES_ROOM_ENTER dec_RES_ROOM_ENTER on_ReqRoomEnter
      | RES_RoomLeave \<Rightarrow> Response sizeof_BASE dec_BASE on_ReqRoomLeave
      | RES_RoomList \<Rightarrow> Response sizeof_RES_ROOM_LIST dec_RES_ROOM_LIST on_ReqRoomList)"

section \<open>Responses and notifications\<close>

definition finish_sync :: "ClientPacket \<Rightarrow> Client \<Rightarrow> Client" where
  "finish_sync p s =
     (if needSyncPacket s \<and> needSyncSequnce s = cp_SequenceIndex p
      then s\<lparr>syncPacket := p, needSyncPacket := False\<rparr> else s)"

text \<open>The first half: a response is handled only when the newest request and the newest response
  have the same sequence index.\<close>

definition handle_response :: "Client \<Rightarrow> Client res" where
  "handle_response s =
     (if recvPackets s = [] then Inr s
      else
        bind_res (pq_top (sendPackets s)) (\<lambda>req.
        bind_res (pq_top (recvPackets s)) (\<lambda>p.
        if cp_SequenceIndex req \<noteq> cp_SequenceIndex p then Inr s
        else
          let s1 = s\<lparr>sendPackets := pq_pop (sendPackets s), recvPackets := pq_pop (recvPackets s)\<rparr>
          in bind_res (of_option AssertFailed (map_of cl_handlers (cp_PacketId p))) (\<lambda>k.
             bind_res (SetRequest k req s1) (\<lambda>s2.
             bind_res (handler_Response k p s2) (\<lambda>s3.
             Inr (finish_sync p s3)))))))"

definition handle_notify :: "Client \<Rightarrow> Client res" where
  "handle_notify s =
     (case notifyPackets s of
        [] \<Rightarrow> Inr s
      | p # ps \<Rightarrow>
          bind_res (of_option AssertFailed (map_of cl_handlers (cp_PacketId p))) (\<lambda>k.
          handler_Response k p (s\<lparr>notifyPackets := ps\<rparr>)))"

definition HandlerThread :: "Client \<Rightarrow> Client res" where
  "HandlerThread s = bind_res (handle_response s) handle_notify"

section \<open>Synchronous requests\<close>

partial_function (option) sync_loop :: "Client \<Rightarrow> Client run" where
  "sync_loop s =
     (if \<not> needSyncPacket s then Some (Inr s)
      else
        (case HandlerThread s of
           Inl e \<Rightarrow> Some (Inl e)
         | Inr s1 \<Rightarrow>
             Option.bind (pause s1)
               (\<lambda>r. case r of Inl e \<Rightarrow> Some (Inl e) | Inr s2 \<Rightarrow> sync_loop s2)))"

text \<open>The final copy: as many bytes as the response claims, over the caller's \<open>res\<close>.\<close>

definition copy_answer :: "nat \<Rightarrow> ('r \<Rightarrow> bytes) \<Rightarrow> (bytes \<Rightarrow> 'r) \<Rightarrow> 'r \<Rightarrow> ClientPacket \<Rightarrow> 'r res" where
  "copy_answer sizeof_Res enc dec answer p =
     (let n = unat (cp_DataSize p)
      in if sizeof_Res < n \<or> length (cp_data p) < n then Inl OutOfBounds
         else Inr (dec (take n (cp_data p) @ drop n (enc answer))))"

definition SendSync ::
    "PACKET_ID \<Rightarrow> nat \<Rightarrow> ('a PACKET_HEADER_scheme \<Rightarrow> bytes) \<Rightarrow> 'a PACKET_HEADER_scheme \<Rightarrow>
     nat \<Rightarrow> ('r \<Rightarrow> bytes) \<Rightarrow> (bytes \<Rightarrow> 'r) \<Rightarrow> 'r \<Rightarrow> Client \<Rightarrow> ('r \<times> Client) run" where
  "SendSync pid sizeof_Rq enc req sizeof_Res enc_res dec_res answer s =
     (if \<not> cl_isConnect s then Some (Inr (answer, s))
      else
        bind_run (Some (cl_Send pid sizeof_Rq enc req s)) (\<lambda>s1.
        bind_run
          (sync_loop (s1\<lparr>needSyncSequnce := of_int (cl_sequenceIndex s1), needSyncPacket := True\<rparr>)) (\<lambda>s2.
        bind_run (Some (copy_answer sizeof_Res enc_res dec_res answer (syncPacket s2))) (\<lambda>r.
        Some (Inr (r, s2))))))"

end
