(* ===== verification/ClientScenes.thy ===== *)
theory ClientScenes
  imports ClientHandlers
begin

text \<open>
  The scenes of the client (\<open>IOCPTetrisClient/Scene/\<close>), what their buttons do
  (\<open>IOCPTetrisClient/Game/\<close>), and the frame \<open>Game::Update\<close> that runs them.  \<open>Stop\<close>, \<open>Reset\<close> and
  \<open>Init\<close> of the scenes are empty functions.
\<close>

section \<open>Buttons\<close>

text \<open>Creating a room, or asking whether a room can be entered; the scene changes on success.\<close>

definition RoomButton_OnPressed :: "RoomButton \<Rightarrow> Client \<Rightarrow> Client run" where
  "RoomButton_OnPressed b s =
     (if rb_roomIndex b = 0 then
        bind_run (SendSync PID_REQ_ROOM_CREATE sizeof_BASE enc_BASE default_BASE_PACKET
                   sizeof_RES_ROOM_CREATE enc_RES_ROOM_CREATE dec_RES_ROOM_CREATE
                   default_RES_ROOM_CREATE s) (\<lambda>(r, s1).
        Some (Inr (if resultID r = Result_SUCCESS
                   then SetPreservedScene (Some (InGame (new_InGameScene (newRoomIndex r)))) s1
                   else s1)))
      else
        bind_run (SendSync PID_REQ_ROOM_CAN_ENTER sizeof_REQ_ROOM_ENTER enc_REQ_ROOM_ENTER
                   (default_REQ_ROOM_ENTER\<lparr>req_roomIndex := rb_roomIndex b\<rparr>)
                   sizeof_BASE enc_BASE dec_BASE default_BASE_PACKET s) (\<lambda>(r, s1).
        Some (Inr (if resultID r = Result_SUCCESS
                   then SetPreservedScene (Some (InGame (new_InGameScene (rb_roomIndex b)))) s1
                   else s1))))"

definition GameStartButton_OnPressed :: "Client \<Rightarrow> Client res" where
  "GameStartButton_OnPressed s = cl_Send PID_REQ_GAME_START sizeof_BASE enc_BASE default_BASE_PACKET s"

text \<open>The packet struct is \<open>REQ_GAME_START\<close> here too; its layout is the same.\<close>

definition GameLeaveButton_OnPressed :: "Client \<Rightarrow> Client res" where
  "GameLeaveButton_OnPressed s = cl_Send PID_REQ_ROOM_LEAVE sizeof_BASE enc_BASE default_BASE_PACKET s"

section \<open>The lobby\<close>

definition list_request :: "LobbyScene \<Rightarrow> REQ_ROOM_LIST" where
  "list_request l = default_REQ_ROOM_LIST\<lparr>roomPage := currentRoomPage l\<rparr>"

definition LobbyScene_Start :: "Client \<Rightarrow> Client run" where
  "LobbyScene_Start s =
     bind_run
       (if cl_playerSessionIndex s = 0 then
          bind_run (SendSync PID_REQ_LOGIN sizeof_BASE enc_BASE default_BASE_PACKET
                     sizeof_RES_LOGIN enc_RES_LOGIN dec_RES_LOGIN default_RES_LOGIN s) (\<lambda>(r, s1).
          Some (if resultID r = Result_SUCCESS then Inr s1 else Inl AssertFailed))
        else Some (Inr s)) (\<lambda>s1.
     bind_run (Some (of_option UseAfterFree (GetLobbyScene s1))) (\<lambda>l.
     bind_run (SendSync PID_REQ_ROOM_LIST sizeof_REQ_ROOM_LIST enc_REQ_ROOM_LIST (list_request l)
                sizeof_RES_ROOM_LIST enc_RES_ROOM_LIST dec_RES_ROOM_LIST default_RES_ROOM_LIST s1)
       (\<lambda>(r, s2). Some (Inr s2))))"

text \<open>
  The loop over \<open>m_buttons\<close>.  When a call of \<open>OnPressed\<close> has replaced the buttons, the iterator and
  the button it refers to are gone.
\<close>

fun press_buttons :: "(Rectangle \<Rightarrow> bool) \<Rightarrow> nat \<Rightarrow> RoomButton list \<Rightarrow> Client \<Rightarrow> Client run" where
  "press_buttons hit epoch [] s = Some (Inr s)"
| "press_buttons hit epoch (b # bs) s =
     (if IsPressed hit b then
        bind_run (RoomButton_OnPressed b s) (\<lambda>s1.
          if map_option m_epoch (GetLobbyScene s1) = Some epoch
          then press_buttons hit epoch bs s1
          else Some (Inl UseAfterFree))
      else press_buttons hit epoch bs s)"

text \<open>\<open>5.0f\<close>.\<close>

definition LIST_INTERVAL :: f32 where "LIST_INTERVAL = 5 * f32_one"

definition LobbyScene_Update :: "FrameInput \<Rightarrow> f32 \<Rightarrow> Client \<Rightarrow> Client run" where
  "LobbyScene_Update inp elapsedTime s =
     bind_run (Some (of_option UseAfterFree (GetLobbyScene s))) (\<lambda>l.
     bind_run
       (if leftButton inp then press_buttons (hits inp) (m_epoch l) (m_buttons l) s
        else Some (Inr s)) (\<lambda>s1.
     bind_run (Some (of_option UseAfterFree (GetLobbyScene s1))) (\<lambda>l1.
     let interval = f32_add (updateRoomInfoInterval s1) elapsedTime
     in if interval > LIST_INTERVAL then
          Some (cl_Send PID_REQ_ROOM_LIST sizeof_REQ_ROOM_LIST enc_REQ_ROOM_LIST (list_request l1)
                 (s1\<lparr>updateRoomInfoInterval := 0\<rparr>))
        else Some (Inr (s1\<lparr>updateRoomInfoInterval := interval\<rparr>)))))"

section \<open>The game\<close>

definition InGameScene_Start :: "Client \<Rightarrow> Client run" where
  "InGameScene_Start s =
     bind_run (Some (of_option UseAfterFree (GetInGameScene s))) (\<lambda>g.
     let s1 = set_ingame
           (g\<lparr>tetrisBoard := Some (Init (sint (cl_playerSessionIndex s)) new_board),
              enemyBoard := Some (Init 0 new_board)\<rparr>) s
     in bind_run (SendSync PID_REQ_ROOM_ENTER sizeof_REQ_ROOM_ENTER enc_REQ_ROOM_ENTER
                   (default_REQ_ROOM_ENTER\<lparr>req_roomIndex := ig_roomIndex g\<rparr>)
                   sizeof_RES_ROOM_ENTER enc_RES_ROOM_ENTER dec_RES_ROOM_ENTER
                   default_RES_ROOM_ENTER s1) (\<lambda>(r, s2).
        bind_run (Some (of_option UseAfterFree (GetInGameScene s2))) (\<lambda>g2.
        Some (Inr (set_ingame
          (g2\<lparr>gameStartButton := Some (SetPos 700 900 (new_Button 200 75 ''Start'')),
              gameLeaveButton := Some (SetPos 930 900 (new_Button 200 75 ''Leave''))\<rparr>) s2)))))"

text \<open>The mouse part of \<open>Update\<close>.\<close>

definition press_game_buttons :: "(Rectangle \<Rightarrow> bool) \<Rightarrow> InGameScene \<Rightarrow> Client \<Rightarrow> Client res" where
  "press_game_buttons hit g s =
     bind_res (of_option NullDeref (gameStartButton g)) (\<lambda>b.
     if IsPressed hit b then GameStartButton_OnPressed s
     else
       bind_res (of_option NullDeref (gameLeaveButton g)) (\<lambda>l.
       if IsPressed hit l then GameLeaveButton_OnPressed s else Inr s))"

text \<open>The request with the inputs of a frame: at most as many as its array holds.\<close>

definition input_request :: "InputType list \<Rightarrow> REQ_GAME_INPUT" where
  "input_request applied =
     (let is = take PACKET_KEY_INPUT_SIZE applied
      in default_REQ_GAME_INPUT
           \<lparr>req_inputs := is @ drop (length is) (req_inputs default_REQ_GAME_INPUT),
            inputCnt := of_nat (length is)\<rparr>)"

text \<open>The rest of \<open>Update\<close>, for a board that is playing: input, more blocks, the board, and the
  inputs it has applied.\<close>

definition play_frame :: "Keys \<Rightarrow> f32 \<Rightarrow> InGameScene \<Rightarrow> TetrisBoard \<Rightarrow> Client \<Rightarrow> Client res" where
  "play_frame keys elapsedTime g mine s =
     (let inputType = GetInput keys;
          mine1 = (if inputType \<noteq> [] then QueueInputs inputType mine else mine)
      in bind_res
           (if GetRemainFallingBlock mine1 < PACKET_FALLING_BLOCK_SIZE
            then cl_Send PID_REQ_FALLING_BLOCK sizeof_BASE enc_BASE default_BASE_PACKET s
            else Inr s) (\<lambda>s1.
         bind_res (Update elapsedTime mine1) (\<lambda>mine2.
         let s2 = set_ingame (g\<lparr>tetrisBoard := Some mine2\<rparr>) s1;
             appliedInputs = GetAppliedInputs mine2
         in if appliedInputs \<noteq> []
            then cl_Send PID_REQ_GAME_INPUT sizeof_REQ_GAME_INPUT enc_REQ_GAME_INPUT
                   (input_request appliedInputs) s2
            else Inr s2)))"

definition InGameScene_Update :: "FrameInput \<Rightarrow> f32 \<Rightarrow> Client \<Rightarrow> Client res" where
  "InGameScene_Update inp elapsedTime s =
     bind_res (of_option UseAfterFree (GetInGameScene s)) (\<lambda>g.
     bind_res (if leftButton inp then press_game_buttons (hits inp) g s else Inr s) (\<lambda>s1.
     bind_res (of_option NullDeref (tetrisBoard g)) (\<lambda>mine.
     if \<not> IsPlaying mine then Inr s1
     else play_frame (pressed inp) elapsedTime g mine s1)))"

text \<open>\<open>SetRoomIndex\<close>, and \<open>GameStop\<close>, which the program never calls.\<close>

definition scene_GameStop :: "InGameScene \<Rightarrow> InGameScene res" where
  "scene_GameStop g =
     bind_res (of_option NullDeref (tetrisBoard g)) (\<lambda>mine.
     bind_res (of_option NullDeref (enemyBoard g)) (\<lambda>enemy.
     bind_res (of_option NullDeref (gameStartButton g)) (\<lambda>b.
     Inr (g\<lparr>tetrisBoard := Some (Stop mine), enemyBoard := Some (Stop enemy),
            gameStartButton := Some (SetEnable True b)\<rparr>))))"

section \<open>A frame of the client\<close>

definition scene_Start :: "Client \<Rightarrow> Client run" where
  "scene_Start s =
     (case curScene s of
        None \<Rightarrow> Some (Inl NullDeref)
      | Some (Lobby _) \<Rightarrow> LobbyScene_Start s
      | Some (InGame _) \<Rightarrow> InGameScene_Start s)"

definition scene_Update :: "FrameInput \<Rightarrow> f32 \<Rightarrow> Client \<Rightarrow> Client run" where
  "scene_Update inp elapsedTime s =
     (case curScene s of
        None \<Rightarrow> Some (Inr s)
      | Some (Lobby _) \<Rightarrow> LobbyScene_Update inp elapsedTime s
      | Some (InGame _) \<Rightarrow> Some (InGameScene_Update inp elapsedTime s))"

text \<open>The change to the preserved scene at the end of a frame.\<close>

definition change_scene :: "Client \<Rightarrow> Client run" where
  "change_scene s =
     (case preservedScene s of
        None \<Rightarrow> Some (Inr (SetPreservedScene None s))
      | Some nextScene \<Rightarrow> scene_Start ((SetPreservedScene None s)\<lparr>curScene := Some nextScene\<rparr>))"

definition Game_Update :: "FrameInput \<Rightarrow> StepTimer \<Rightarrow> Client \<Rightarrow> Client run" where
  "Game_Update inp timer s =
     (let elapsedTime = f32_norm 0 (GetElapsedSeconds timer)
      in bind_run (Some (HandlerThread s)) (\<lambda>s1.
         if curScene s1 = None then Some (Inr s1)
         else bind_run (scene_Update inp elapsedTime s1) change_scene))"

text \<open>The part of \<open>Game::Initialize\<close> after the device setup, and \<open>Game::Tick\<close> without drawing.\<close>

definition Initialize :: "bool \<Rightarrow> Client \<Rightarrow> Client run" where
  "Initialize connected s =
     bind_run (Some (ConnectServer connected s)) (\<lambda>s1.
     LobbyScene_Start (s1\<lparr>curScene := Some (Lobby new_LobbyScene)\<rparr>))"

definition Game_Tick :: "FrameInput \<Rightarrow> 64 word \<Rightarrow> StepTimer \<Rightarrow> Client \<Rightarrow> (StepTimer \<times> Client) run" where
  "Game_Tick inp now timer s = Tick (Game_Update inp) now timer s"

section \<open>Runs of the client\<close>

text \<open>A frame of the game, with what the other threads do until the next one, or a step of a thread.\<close>

datatype client_event = Frame FrameInput "64 word" | Thread thread_event

definition client_step :: "client_event \<Rightarrow> StepTimer \<times> Client \<Rightarrow> (StepTimer \<times> Client) run" where
  "client_step ev st =
     (case ev of
        Frame inp now \<Rightarrow> Game_Tick inp now (fst st) (snd st)
      | Thread t \<Rightarrow> bind_run (thread_step t (snd st)) (\<lambda>s. Some (Inr (fst st, s))))"

inductive client_steps :: "StepTimer \<times> Client \<Rightarrow> client_event list \<Rightarrow> StepTimer \<times> Client \<Rightarrow> bool" where
  client_nil: "client_steps st [] st"
| client_cons: "client_step ev st = Some (Inr st1) \<Longrightarrow> client_steps st1 evs st2 \<Longrightarrow>
    client_steps st (ev # evs) st2"

inductive_cases client_steps_NilE [elim!]: "client_steps st [] st'"
inductive_cases client_steps_ConsE [elim!]: "client_steps st (ev # evs) st'"
inductive_simps client_steps_simps [simp]: "client_steps st [] st'" "client_steps st (ev # evs) st'"

end
