(* ===== verification/TimerFacts.thy ===== *)
theory TimerFacts
  imports StepTimer
begin

text \<open>
  What the frame timer promises: the clamp keeps a frame below a tenth of a second without
  overflow, the fixed-step loop ends after quotient many updates and keeps the remainder, and
  what an update keeps, a tick keeps.
\<close>

section \<open>What an update keeps\<close>

lemma fixed_loop_invariant:
  fixes s :: 's
  assumes ret: "fixed_loop update t s = Some (Inr (t', s'))" and "P s"
    and "\<And>t a b. P a \<Longrightarrow> update t a = Some (Inr b) \<Longrightarrow> P b"
  shows "P s'"
proof -
  let ?Q = "\<lambda>u t (s :: 's) (r :: (StepTimer \<times> 's) res). \<forall>t' s'. u = update \<and> P s \<and> r = Inr (t', s') \<longrightarrow> P s'"
  have "?Q update t s (Inr (t', s'))"
  proof (rule fixed_loop.raw_induct [where P = ?Q, OF _ ret])
    fix loop :: "(StepTimer \<Rightarrow> 's \<Rightarrow> 's res option) \<Rightarrow> StepTimer \<Rightarrow> 's \<Rightarrow> (StepTimer \<times> 's) res option"
      and u t s r
    assume IH: "\<And>u t s r. loop u t s = Some r \<Longrightarrow> ?Q u t s r"
      and step: "(if m_leftOverTicks t \<ge> m_targetElapsedTicks t then
          (case u (fixed_update t) s of None \<Rightarrow> None
           | Some r \<Rightarrow> (case r of Inl e \<Rightarrow> Some (Inl e) | Inr s' \<Rightarrow> loop u (fixed_update t) s'))
          else Some (Inr (t, s))) = Some r"
    show "?Q u t s r"
    proof (intro allI impI)
      fix t' s' assume hyp: "u = update \<and> P s \<and> r = Inr (t', s')"
      show "P s'"
      proof (cases "m_leftOverTicks t \<ge> m_targetElapsedTicks t")
        case False
        with step hyp show ?thesis by simp
      next
        case True
        with step hyp obtain s1 where s1: "update (fixed_update t) s = Some (Inr s1)"
          "loop u (fixed_update t) s1 = Some (Inr (t', s'))"
          by (auto split: option.splits sum.splits)
        with IH [OF s1(2)] assms(3) [OF _ s1(1)] hyp show ?thesis by blast
      qed
    qed
  qed
  with assms(2) show ?thesis by simp
qed

lemma Tick_invariant:
  assumes tick: "Tick update now t s = Some (Inr (t', s'))" and P: "P s"
    and keep: "\<And>t a b. P a \<Longrightarrow> update t a = Some (Inr b) \<Longrightarrow> P b"
  shows "P s'"
proof -
  let ?t = "t\<lparr>m_qpcLastTime := now, m_qpcSecondCounter := m_qpcSecondCounter t + (now - m_qpcLastTime t)\<rparr>"
  let ?d = "clamped_delta ?t (now - m_qpcLastTime t)"
  show ?thesis
  proof (cases "m_isFixedTimeStep t")
    case True
    let ?v = "?t\<lparr>m_leftOverTicks := m_leftOverTicks t + snap_to_target ?t ?d\<rparr>"
    from tick True obtain r where r: "fixed_loop update ?v s = Some r"
      by (auto simp: Tick_def Let_def)
    with tick True obtain u where "r = Inr (u, s')"
      by (cases r) (auto simp: Tick_def Let_def)
    with r have "fixed_loop update ?v s = Some (Inr (u, s'))" by simp
    then show ?thesis by (rule fixed_loop_invariant [where P = P, OF _ P]) (rule keep)
  next
    case False
    let ?v = "variable_update ?d ?t"
    from tick False obtain r where r: "update ?v s = Some r" by (auto simp: Tick_def Let_def)
    with tick False have "r = Inr s'" by (cases r) (auto simp: Tick_def Let_def)
    with r have "update ?v s = Some (Inr s')" by simp
    then show ?thesis by (rule keep [OF P])
  qed
qed

section \<open>The fixed-step loop\<close>

text \<open>The timer after \<open>k\<close> fixed updates.\<close>

definition fixed_updates :: "nat \<Rightarrow> StepTimer \<Rightarrow> StepTimer" where
  "fixed_updates k t = (fixed_update ^^ k) t"

lemma fixed_updates_sel:
  "m_targetElapsedTicks (fixed_updates k t) = m_targetElapsedTicks t"
  "m_leftOverTicks (fixed_updates k t) = m_leftOverTicks t - of_nat k * m_targetElapsedTicks t"
  "m_totalTicks (fixed_updates k t) = m_totalTicks t + of_nat k * m_targetElapsedTicks t"
  "m_frameCount (fixed_updates k t) = m_frameCount t + of_nat k"
  "0 < k \<Longrightarrow> m_elapsedTicks (fixed_updates k t) = m_targetElapsedTicks t"
proof -
  have "m_targetElapsedTicks ((fixed_update ^^ k) t) = m_targetElapsedTicks t" for k
    by (induction k) (simp_all add: fixed_update_def)
  note T = this
  show "m_targetElapsedTicks (fixed_updates k t) = m_targetElapsedTicks t"
    by (simp add: fixed_updates_def T)
  show "m_leftOverTicks (fixed_updates k t) = m_leftOverTicks t - of_nat k * m_targetElapsedTicks t"
    "m_totalTicks (fixed_updates k t) = m_totalTicks t + of_nat k * m_targetElapsedTicks t"
    "m_frameCount (fixed_updates k t) = m_frameCount t + of_nat k"
    by (induction k) (simp_all add: fixed_updates_def fixed_update_def T algebra_simps)
  show "0 < k \<Longrightarrow> m_elapsedTicks (fixed_updates k t) = m_targetElapsedTicks t"
    by (cases k) (simp_all add: fixed_updates_def fixed_update_def T)
qed

text \<open>What \<open>k\<close> calls of an update \<open>g\<close> make of the game: each sees the timer after its fixed step.\<close>

fun fixed_calls :: "(StepTimer \<Rightarrow> 's \<Rightarrow> 's) \<Rightarrow> nat \<Rightarrow> StepTimer \<Rightarrow> 's \<Rightarrow> 's" where
  "fixed_calls g 0 t s = s"
| "fixed_calls g (Suc k) t s = fixed_calls g k (fixed_update t) (g (fixed_update t) s)"

lemma fixed_loop_runs:
  assumes "0 < m_targetElapsedTicks t" and "\<And>t s. update t s = Some (Inr (g t s))"
    and "n = unat (m_leftOverTicks t div m_targetElapsedTicks t)"
  shows "fixed_loop update t s = Some (Inr (fixed_updates n t, fixed_calls g n t s))"
  using assms(1,3)
proof (induction n arbitrary: t s)
  case 0
  then have "unat (m_leftOverTicks t) < unat (m_targetElapsedTicks t)"
    by (simp add: unat_div word_less_nat_alt div_eq_0_iff)
  then show ?case using 0
    by (subst fixed_loop.simps) (simp add: word_le_nat_alt fixed_updates_def unat_div)
next
  case (Suc k)
  let ?l = "m_leftOverTicks t" and ?T = "m_targetElapsedTicks t" and ?u = "fixed_update t"
  have q: "unat ?l div unat ?T = Suc k" using Suc.prems(2) by (simp add: unat_div)
  then have le: "unat ?T \<le> unat ?l" by (metis div_less nat.distinct(1) not_le)
  then have sub: "unat (?l - ?T) = unat ?l - unat ?T" by (simp add: unat_sub word_le_nat_alt)
  have pos: "0 < unat ?T" using Suc.prems(1) by (simp add: word_less_nat_alt)
  have "(unat ?l - unat ?T) div unat ?T = k" using q le pos by (simp add: le_div_geq)
  then have k: "k = unat (m_leftOverTicks ?u div m_targetElapsedTicks ?u)"
    by (simp add: fixed_update_def unat_div sub)
  have "0 < m_targetElapsedTicks ?u" using Suc.prems(1) by (simp add: fixed_update_def)
  from Suc.IH [OF this k, of "g ?u s"]
  have "fixed_loop update ?u (g ?u s) = Some (Inr (fixed_updates k ?u, fixed_calls g k ?u (g ?u s)))" .
  moreover have "fixed_updates k ?u = fixed_updates (Suc k) t"
    by (simp add: fixed_updates_def funpow_swap1)
  ultimately show ?case using le assms(2)
    by (subst fixed_loop.simps) (simp add: word_le_nat_alt)
qed

section \<open>The clamp\<close>

lemma clamped_delta_bound:
  assumes "m_qpcMaxDelta t = m_qpcFrequency t div 10" and "m_qpcFrequency t \<noteq> 0"
    and "unat (m_qpcFrequency t) < 2 ^ 44"
  shows "unat (clamped_delta t d) =
      min (unat d) (unat (m_qpcMaxDelta t)) * 10000000 div unat (m_qpcFrequency t)"
    and "unat (clamped_delta t d) \<le> 1000000"
proof -
  let ?f = "unat (m_qpcFrequency t)"
  let ?d = "if d > m_qpcMaxDelta t then m_qpcMaxDelta t else d"
  have "?d \<le> m_qpcMaxDelta t" by (auto simp: not_less)
  then have "unat ?d \<le> unat (m_qpcMaxDelta t)" by (rule word_le_nat_alt [THEN iffD1])
  also have "\<dots> = ?f div 10" using assms(1) by (simp add: unat_div)
  finally have le: "unat ?d \<le> ?f div 10" .
  then have small: "unat ?d * 10000000 \<le> ?f * 1000000" by linarith
  with assms(3) have "unat ?d * unat TicksPerSecond < 2 ^ 64" by (simp add: TicksPerSecond_def)
  then have prod: "unat (?d * TicksPerSecond) = unat ?d * 10000000"
    by (subst unat_mult_lem [THEN iffD1]) (simp_all add: TicksPerSecond_def)
  have pos: "0 < ?f" using assms(2) by (simp add: unat_gt_0)
  have clamp: "unat (clamped_delta t d) = unat (?d * TicksPerSecond) div ?f"
    by (simp add: clamped_delta_def Let_def unat_div)
  moreover have "unat ?d = min (unat d) (unat (m_qpcMaxDelta t))"
    by (auto simp: min_def word_le_nat_alt word_less_nat_alt)
  ultimately show "unat (clamped_delta t d) =
      min (unat d) (unat (m_qpcMaxDelta t)) * 10000000 div unat (m_qpcFrequency t)"
    by (simp only: prod)
  have "unat (clamped_delta t d) = unat (?d * TicksPerSecond) div ?f" by (rule clamp)
  also have "\<dots> \<le> (?f * 1000000) div ?f" unfolding prod by (rule div_le_mono [OF small])
  also have "\<dots> = 1000000" using pos by simp
  finally show "unat (clamped_delta t d) \<le> 1000000" .
qed

end
