(* ===== verification/ClientInv.thy ===== *)
theory ClientInv
  imports ClientScenes StreamClaims TimerFacts
begin

text \<open>
  The invariant of the client and that every operation, frame and thread step keeps it.

  \<^item> \<open>request_ok\<close>: a queued request is a packet in the sense of the receiver's \<open>PacketBuffer\<close>, and
    the copies of its header in the queue entry agree with its bytes.
  \<^item> \<open>requests_ok\<close>: the requests are numbered from 1 without gaps in the order in which they are
    sent; the outstanding ones are in the priority queue, each once.
  \<^item> \<open>scene_ok\<close>: boards that exist are well formed, and the lobby has no or eight buttons.
\<close>

section \<open>The invariant\<close>

definition seq_of :: "bytes \<Rightarrow> int" where
  "seq_of bs = uint (sequenceIndex (dec_header bs))"

definition request_ok :: "ClientPacket \<Rightarrow> bool" where
  "request_ok p \<longleftrightarrow>
     is_packet PACKET_HEADER_LENGTH (cp_data p) \<and>
     uint (cp_DataSize p) = int (length (cp_data p)) \<and>
     dec_header (cp_data p) = \<lparr>PacketLength = cp_DataSize p, PacketId = cp_PacketId p,
       sequenceIndex = cp_SequenceIndex p, sessionIndex = cp_SessionIndex p\<rparr>"

definition requests_ok :: "Client \<Rightarrow> bool" where
  "requests_ok s \<longleftrightarrow>
     list_all request_ok (sendPackets s @ sendPacketQueue s) \<and>
     list_all (is_packet PACKET_HEADER_LENGTH) (sockSends s) \<and>
     0 \<le> cl_sequenceIndex s \<and> cl_sequenceIndex s < 2 ^ 31 \<and>
     map seq_of (sockSends s @ map cp_data (sendPacketQueue s)) = [1..cl_sequenceIndex s] \<and>
     sorted_wrt (<) (rev (map pq_key (sendPackets s))) \<and>
     set (map pq_key (sendPackets s)) \<subseteq> set (map seq_of (sockSends s))"

definition scene_ok :: "Scene \<Rightarrow> bool" where
  "scene_ok sc =
     (case sc of
        InGame g \<Rightarrow> pred_option wf_board (tetrisBoard g) \<and> pred_option wf_board (enemyBoard g)
      | Lobby l \<Rightarrow> m_buttons l = [] \<or> length (m_buttons l) = ROOM_CNT_PER_PAGE)"

definition client_ok :: "Client \<Rightarrow> bool" where
  "client_ok s \<longleftrightarrow>
     requests_ok s \<and> pq_ok (recvPackets s) \<and> stream_ok (cl_packetBuffer s) \<and>
     pred_option scene_ok (curScene s) \<and> pred_option scene_ok (preservedScene s)"

lemma client_okD:
  assumes "client_ok s"
  shows "requests_ok s" "pq_ok (recvPackets s)" "stream_ok (cl_packetBuffer s)"
    "pred_option scene_ok (curScene s)" "pred_option scene_ok (preservedScene s)"
  using assms by (simp_all add: client_ok_def)

lemma request_ok_key: "request_ok p \<Longrightarrow> seq_of (cp_data p) = pq_key p"
  by (simp add: request_ok_def seq_of_def pq_key_def)

lemma client_ok_new [invs]: "client_ok (new_Client fresh sched)"
  by (simp add: client_ok_def requests_ok_def new_Client_def pq_ok_def stream_ok_def
      wf_buffer_Init PACKET_HEADER_LENGTH_def buffer_Init_def wf_buffer_def)

section \<open>Requests\<close>

lemma header_request [simp]:
  "header_of (req\<lparr>sessionIndex := a, PacketId := b, sequenceIndex := c, PacketLength := d\<rparr>) =
   \<lparr>PacketLength = d, PacketId = b, sequenceIndex = c, sessionIndex = a\<rparr>"
  by (simp add: header_of_def PACKET_HEADER.defs)

lemma request_packet_ok:
  assumes "\<And>a b c d. length (enc (req\<lparr>sessionIndex := a, PacketId := b, sequenceIndex := c,
                                     PacketLength := d\<rparr>)) = n"
    and "\<And>r. \<exists>q. enc r = enc_header (header_of r) @ q"
    and "12 \<le> n" and "n < 128"
  shows "request_ok (request_packet pid n enc req session seq)"
proof -
  let ?r = "req\<lparr>sessionIndex := session, PacketId := packet_id pid, sequenceIndex := seq,
                PacketLength := of_nat n\<rparr>"
  have len: "length (enc ?r) = n" by (rule assms(1))
  from assms(2) [of ?r] obtain q where q: "enc ?r = enc_header (header_of ?r) @ q" by blast
  have h: "dec_header (enc ?r) = header_of ?r"
    unfolding q by (simp add: enc_header_def dec_header_def fld_def)
  have w: "uint (of_nat n :: 16 word) = int n" "uint (of_nat n :: 8 word) = int n"
    using assms(4) by (simp_all add: unsigned_of_nat take_bit_nat_eq_self_iff)
  have "hd (enc16 w) = word_of_int (uint w)" "enc16 w \<noteq> []" for w
    by (simp_all add: enc16_def numeral_2_eq_2)
  then have "hd (enc ?r) = word_of_int (uint (of_nat n :: 16 word))"
    unfolding q by (simp add: enc_header_def)
  then have "hd (enc ?r) = of_nat n" unfolding w(1) by simp
  then have "dataSize (hd (enc ?r)) = int n" using assms(4) w(2) by (simp add: dataSize_eq)
  then have "is_packet PACKET_HEADER_LENGTH (enc ?r)"
    using len assms(3) by (auto simp: is_packet_def PACKET_HEADER_LENGTH_def)
  with h len w(1) show ?thesis by (simp add: request_ok_def request_packet_def)
qed

lemma length_enc_REQ_GAME_INPUT: "length (req_inputs r) = 30 \<Longrightarrow> length (enc_REQ_GAME_INPUT r) = 78"
  using length_array [of "req_inputs r" 30 "\<lambda>i. enc16 (InputType_word i)" 2]
  by (simp add: enc_REQ_GAME_INPUT_def)


lemma length_input_request: "length (req_inputs (input_request applied)) = 30"
  by (simp add: input_request_def Let_def default_REQ_GAME_INPUT_def BASE_PACKET.defs
      REQ_GAME_INPUT.defs)

lemma requests_well_formed [simp]:
  "request_ok (request_packet pid sizeof_BASE enc_BASE (b :: BASE_PACKET) session seq)"
  "request_ok (request_packet pid sizeof_REQ_ROOM_ENTER enc_REQ_ROOM_ENTER e session seq)"
  "request_ok (request_packet pid sizeof_REQ_ROOM_LIST enc_REQ_ROOM_LIST l session seq)"
  by (rule request_packet_ok; simp add: sizeof_BASE_def sizeof_REQ_ROOM_ENTER_def enc_REQ_ROOM_ENTER_def
      sizeof_REQ_ROOM_LIST_def enc_REQ_ROOM_LIST_def enc_BASE_starts enc_BASE_starts0)+

lemma input_request_well_formed [simp]:
  "request_ok (request_packet pid sizeof_REQ_GAME_INPUT enc_REQ_GAME_INPUT (input_request is) session seq)"
proof (rule request_packet_ok)
  show "length (enc_REQ_GAME_INPUT (input_request is\<lparr>sessionIndex := a, PacketId := b,
      sequenceIndex := c, PacketLength := d\<rparr>)) = sizeof_REQ_GAME_INPUT" for a b c d
    using length_input_request by (subst length_enc_REQ_GAME_INPUT) (simp_all add: sizeof_REQ_GAME_INPUT_def)
  show "\<exists>q. enc_REQ_GAME_INPUT r = enc_header (header_of r) @ q" for r
    by (simp add: enc_REQ_GAME_INPUT_def enc_BASE_starts)
qed (simp_all add: sizeof_REQ_GAME_INPUT_def)

lemma client_ok_Send:
  assumes "cl_Send pid n enc req s = Inr t" and "client_ok s"
    and "\<And>session seq. request_ok (request_packet pid n enc req session seq)"
  shows "client_ok t"
proof (cases "cl_isConnect s")
  case False
  with assms show ?thesis by (simp add: cl_Send_def)
next
  case True
  let ?n = "cl_sequenceIndex s + 1"
  let ?p = "request_packet pid n enc req (cl_playerSessionIndex s) (of_int ?n)"
  from True assms(1) have t: "t = s\<lparr>cl_sequenceIndex := ?n, sendPacketQueue := sendPacketQueue s @ [?p]\<rparr>"
    and n: "?n < 2 ^ 31"
    by (auto simp: cl_Send_def bind_res_Inr_iff int32_res_Inr_iff)
  from assms(2) have r: "requests_ok s" by (rule client_okD)
  then have "0 \<le> ?n" by (simp add: requests_ok_def)
  with n have "uint (of_int ?n :: 32 word) = ?n" by (simp only: uint_word_of_int) simp
  with request_ok_key [OF assms(3)] have "seq_of (cp_data ?p) = ?n"
    by (simp add: pq_key_def request_packet_def)
  with r n assms(3) have "requests_ok t"
    by (auto simp: requests_ok_def t upto_rec2)
  with assms(2) show ?thesis by (simp add: client_ok_def t)
qed


section \<open>Threads\<close>

lemma requests_ok_irrelevant [simp]:
  "requests_ok (s\<lparr>notifyPackets := ps\<rparr>) = requests_ok s" "requests_ok (s\<lparr>recvPackets := ps\<rparr>) = requests_ok s"
  "requests_ok (s\<lparr>cl_packetBuffer := b\<rparr>) = requests_ok s" "requests_ok (s\<lparr>curScene := c\<rparr>) = requests_ok s"
  "requests_ok (s\<lparr>preservedScene := c\<rparr>) = requests_ok s"
  by (simp_all add: requests_ok_def)

lemma client_ok_irrelevant [simp]:
  "client_ok (s\<lparr>rounds := n\<rparr>) = client_ok s" "client_ok (s\<lparr>cl_isRun := b\<rparr>) = client_ok s"
  "client_ok (s\<lparr>cl_isConnect := b\<rparr>) = client_ok s" "client_ok (s\<lparr>needSyncPacket := b\<rparr>) = client_ok s"
  "client_ok (s\<lparr>needSyncSequnce := q\<rparr>) = client_ok s" "client_ok (s\<lparr>syncPacket := p\<rparr>) = client_ok s"
  "client_ok (s\<lparr>reqRoomList := r\<rparr>) = client_ok s"
  "client_ok (s\<lparr>cl_playerSessionIndex := q\<rparr>) = client_ok s"
  "client_ok (s\<lparr>updateRoomInfoInterval := e\<rparr>) = client_ok s"
  "client_ok (s\<lparr>notifyPackets := ps\<rparr>) = client_ok s"
  by (simp_all add: client_ok_def requests_ok_def)

lemma pq_push_newest:
  "(\<And>x. x \<in> set q \<Longrightarrow> pq_key x < pq_key p) \<Longrightarrow> pq_push p q = p # q"
  by (cases q) (auto simp: pq_push_def less_imp_le)

lemma upto_split:
  assumes "xs @ y # ys = [1..n]" and "x \<in> set xs"
  shows "x < (y :: int)"
proof -
  have "sorted_wrt (<) (xs @ y # ys)" using assms(1) by simp
  with assms(2) show ?thesis by (auto simp: sorted_wrt_append)
qed

lemma client_ok_Close [invs]: "client_ok s \<Longrightarrow> client_ok (Close s)"
  by (simp add: Close_def)

lemma client_ok_SendThread [invs]:
  assumes "client_ok s"
  shows "client_ok (SendThread ok s)"
proof (cases "cl_isRun s \<and> cl_isConnect s \<and> sendPacketQueue s \<noteq> []")
  case False
  with assms show ?thesis by (auto simp: SendThread_def split: list.split)
next
  case True
  then obtain p ps where q: "sendPacketQueue s = p # ps" by (auto simp: neq_Nil_conv)
  from assms have r: "requests_ok s" by (rule client_okD)
  then have p: "request_ok p" and
    seq: "map seq_of (sockSends s) @ seq_of (cp_data p) # map seq_of (map cp_data ps) = [1..cl_sequenceIndex s]"
    using q by (auto simp: requests_ok_def)
  note key = request_ok_key [OF p]
  from r have keys: "set (map pq_key (sendPackets s)) \<subseteq> set (map seq_of (sockSends s))"
    by (simp add: requests_ok_def)
  have less: "pq_key x < pq_key p" if "x \<in> set (sendPackets s)" for x
    using upto_split [OF seq, of "pq_key x"] that keys by (auto simp: key)
  let ?t = "s\<lparr>sendPacketQueue := ps, sendPackets := p # sendPackets s, sockSends := sockSends s @ [cp_data p]\<rparr>"
  have "requests_ok ?t"
    using r p seq less keys q key by (auto simp: requests_ok_def sorted_wrt_append request_ok_def)
  with assms have "client_ok ?t" by (simp add: client_ok_def)
  with True q pq_push_newest [OF less] show ?thesis
    by (simp add: SendThread_def Let_def client_ok_Close)
qed

lemma client_ok_queue_packet:
  "queue_packet bs s = Inr t \<Longrightarrow> client_ok s \<Longrightarrow> client_ok t"
  by (auto simp: queue_packet_def Let_def client_ok_def pq.ok_push split: if_splits)

lemma client_ok_RecvThread:
  assumes "RecvThread_bytes chunk s = Some (Inr t)" and "client_ok s"
  shows "client_ok t"
proof -
  from assms(1) obtain b u where
    r: "Receive Read write_chunk queue_packet chunk (cl_packetBuffer s) s = Some (Inr (b, u))"
    and t: "t = u\<lparr>cl_packetBuffer := b\<rparr>"
    by (auto simp: RecvThread_bytes_def bind_run_Inr_iff)
  from r obtain pb where w: "write_chunk chunk (cl_packetBuffer s) = Inr pb"
    and l: "ReadLoop Read queue_packet pb s = Some (Inr (b, u))"
    by (auto simp: Receive_def split: sum.splits)
  have ok: "stream_ok (cl_packetBuffer s)" by (rule client_okD [OF assms(2)])
  then have "stream_ok pb"
    using Write_spec [of "cl_packetBuffer s" "int (length chunk)" chunk] w
    by (auto simp: stream_ok_def write_chunk_def)
  from ReadLoop_keeps [OF l this] have b: "stream_ok b" by simp
  have "client_ok u"
    by (rule ReadLoop_state [where P = client_ok, OF l assms(2)]) (rule client_ok_queue_packet)
  with b show ?thesis by (simp add: client_ok_def t)
qed

lemma client_ok_thread_step:
  "thread_step ev s = Some (Inr t) \<Longrightarrow> client_ok s \<Longrightarrow> client_ok t"
  by (cases ev) (auto simp: thread_step_def invs split: if_splits dest: client_ok_RecvThread)

lemma client_ok_pause: "pause s = Some (Inr t) \<Longrightarrow> client_ok s \<Longrightarrow> client_ok t"
  unfolding pause_def
  by (erule fold_run_invariant [where P = client_ok]) (simp_all add: client_ok_thread_step)


section \<open>Handlers\<close>

lemma new_scene_sel [simp]:
  "tetrisBoard (new_InGameScene i) = None" "enemyBoard (new_InGameScene i) = None"
  "m_buttons new_LobbyScene = []"
  by (simp_all add: new_InGameScene_def new_LobbyScene_def)

lemma scene_ok_simps [simp]:
  "scene_ok (InGame g) \<longleftrightarrow> pred_option wf_board (tetrisBoard g) \<and> pred_option wf_board (enemyBoard g)"
  "scene_ok (Lobby l) \<longleftrightarrow> m_buttons l = [] \<or> length (m_buttons l) = 8"
  by (simp_all add: scene_ok_def)

lemma client_ok_scene [simp]:
  "client_ok s \<Longrightarrow> client_ok (set_ingame g s) = scene_ok (InGame g)"
  "client_ok s \<Longrightarrow> client_ok (set_lobby l s) = scene_ok (Lobby l)"
  "client_ok s \<Longrightarrow> client_ok (SetPreservedScene sc s) = pred_option scene_ok sc"
  by (auto simp: client_ok_def set_ingame_def set_lobby_def SetPreservedScene_def)

lemma client_ok_ingame:
  "client_ok s \<Longrightarrow> GetInGameScene s = Some g \<Longrightarrow> scene_ok (InGame g)"
  by (auto simp: client_ok_def GetInGameScene_def simp del: scene_ok_simps split: option.splits Scene.splits)

lemma client_ok_lobby:
  "client_ok s \<Longrightarrow> GetLobbyScene s = Some l \<Longrightarrow> scene_ok (Lobby l)"
  by (auto simp: client_ok_def GetLobbyScene_def simp del: scene_ok_simps split: option.splits Scene.splits)

lemma ingame_ok_AddFallingBlock:
  "AddFallingBlock b g = Inr h \<Longrightarrow> scene_ok (InGame g) \<Longrightarrow> scene_ok (InGame h)"
  by (auto simp: AddFallingBlock_def bind_res_Inr_iff of_option_Inr_iff invs)

lemma ingame_ok_AddFallingBlocks:
  "fold_res AddFallingBlock bs g = Inr h \<Longrightarrow> scene_ok (InGame g) \<Longrightarrow> scene_ok (InGame h)"
  by (erule fold_res_invariant [where P = "\<lambda>g. scene_ok (InGame g)"])
     (simp_all add: ingame_ok_AddFallingBlock del: scene_ok_simps)

lemma ingame_ok_GameStart:
  "scene_GameStart g = Inr h \<Longrightarrow> scene_ok (InGame g) \<Longrightarrow> scene_ok (InGame h)"
  by (auto simp: scene_GameStart_def bind_res_Inr_iff of_option_Inr_iff invs)

lemma wf_board_fold_QueueInput: "wf_board tb \<Longrightarrow> wf_board (fold QueueInput is tb)"
  by (induction "is" arbitrary: tb) (simp_all add: QueueInput_def wf_board_def)

lemma client_ok_on:
  assumes "client_ok s"
  shows "on_ReqLogin r1 s = Inr t \<Longrightarrow> client_ok t"
    and "on_ReqFallingBlock r2 s = Inr t \<Longrightarrow> client_ok t"
    and "on_ReqGameStart r2 s = Inr t \<Longrightarrow> client_ok t"
    and "on_ReqGameInput r3 s = Inr t \<Longrightarrow> client_ok t"
    and "on_ReqRoomCreate r4 s = Inr t \<Longrightarrow> client_ok t"
    and "on_ReqRoomEnter r5 s = Inr t \<Longrightarrow> client_ok t"
    and "on_ReqRoomLeave r6 s = Inr t \<Longrightarrow> client_ok t"
    and "on_ReqRoomList r7 s = Inr t \<Longrightarrow> client_ok t"
    and "on_nothing r6 s = Inr t \<Longrightarrow> client_ok t"
proof -
  note ig = client_ok_ingame [OF assms]
  show "on_ReqLogin r1 s = Inr t \<Longrightarrow> client_ok t" using assms by (auto simp: on_ReqLogin_def)
  show "on_ReqFallingBlock r2 s = Inr t \<Longrightarrow> client_ok t"
    using assms ig by (auto simp: on_ReqFallingBlock_def bind_res_Inr_iff simp del: scene_ok_simps
        split: option.splits dest: ingame_ok_AddFallingBlocks)
  show "on_ReqGameStart r2 s = Inr t \<Longrightarrow> client_ok t"
    using assms ig by (auto simp: on_ReqGameStart_def bind_res_Inr_iff simp del: scene_ok_simps
        split: option.splits dest!: ingame_ok_AddFallingBlocks ingame_ok_GameStart)
  show "on_ReqGameInput r3 s = Inr t \<Longrightarrow> client_ok t"
    using assms ig by (auto simp: on_ReqGameInput_def bind_res_Inr_iff of_option_Inr_iff
        split: option.splits dest!: wf_board_Update_aux intro: wf_board_fold_QueueInput)
  show "on_ReqRoomCreate r4 s = Inr t \<Longrightarrow> client_ok t" using assms by (auto simp: on_ReqRoomCreate_def)
  show "on_ReqRoomEnter r5 s = Inr t \<Longrightarrow> client_ok t"
    using assms ig by (auto simp: on_ReqRoomEnter_def bind_res_Inr_iff of_option_Inr_iff invs
        split: option.splits if_splits)
  show "on_ReqRoomLeave r6 s = Inr t \<Longrightarrow> client_ok t" using assms by (auto simp: on_ReqRoomLeave_def)
  show "on_ReqRoomList r7 s = Inr t \<Longrightarrow> client_ok t"
    using assms by (auto simp: on_ReqRoomList_def SetupRoomPage_def bind_res_Inr_iff split: option.splits if_splits)
  show "on_nothing r6 s = Inr t \<Longrightarrow> client_ok t" using assms by (simp add: on_nothing_def)
qed

lemma client_ok_handler_Response:
  "handler_Response k p s = Inr t \<Longrightarrow> client_ok s \<Longrightarrow> client_ok t"
  by (cases k) (auto simp: handler_Response_def Response_def bind_res_Inr_iff intro: client_ok_on)

lemma client_ok_SetRequest: "SetRequest k p s = Inr t \<Longrightarrow> client_ok s \<Longrightarrow> client_ok t"
  by (auto simp: SetRequest_def bind_res_Inr_iff)

lemma client_ok_pop:
  assumes "client_ok s"
  shows "client_ok (s\<lparr>sendPackets := pq_pop (sendPackets s), recvPackets := pq_pop (recvPackets s)\<rparr>)"
  using client_okD [OF assms] by (cases "sendPackets s")
    (auto simp: client_ok_def requests_ok_def pq_pop_def pq_ok_def sorted_wrt_append map_tl sorted_tl)

lemma client_ok_finish_sync: "client_ok s \<Longrightarrow> client_ok (finish_sync p s)"
  by (simp add: finish_sync_def)

lemma client_ok_handle_response:
  assumes "handle_response s = Inr t" and "client_ok s"
  shows "client_ok t"
proof (cases "t = s")
  case False
  let ?s = "s\<lparr>sendPackets := pq_pop (sendPackets s), recvPackets := pq_pop (recvPackets s)\<rparr>"
  from assms(1) False obtain req p k s2 s3 where "SetRequest k req ?s = Inr s2"
    "handler_Response k p s2 = Inr s3" "t = finish_sync p s3"
    by (auto simp: handle_response_def bind_res_Inr_iff Let_def split: if_splits)
  with client_ok_pop [OF assms(2)] show ?thesis
    using client_ok_SetRequest client_ok_handler_Response client_ok_finish_sync by blast
qed (use assms(2) in simp)

lemma client_ok_handle_notify:
  "handle_notify s = Inr t \<Longrightarrow> client_ok s \<Longrightarrow> client_ok t"
  by (auto simp: handle_notify_def bind_res_Inr_iff of_option_Inr_iff split: list.splits
      dest: client_ok_handler_Response)

lemma client_ok_HandlerThread:
  "HandlerThread s = Inr t \<Longrightarrow> client_ok s \<Longrightarrow> client_ok t"
  by (auto simp: HandlerThread_def bind_res_Inr_iff dest: client_ok_handle_response client_ok_handle_notify)


section \<open>Synchronous requests\<close>

lemma sync_loop_invariant:
  assumes ret: "sync_loop s = Some (Inr t)" and "P s"
    and "\<And>a b. P a \<Longrightarrow> HandlerThread a = Inr b \<Longrightarrow> P b"
    and "\<And>a b. P a \<Longrightarrow> pause a = Some (Inr b) \<Longrightarrow> P b"
  shows "P t \<and> \<not> needSyncPacket t"
proof -
  let ?Q = "\<lambda>s (r :: Client res). \<forall>t. P s \<and> r = Inr t \<longrightarrow> P t \<and> \<not> needSyncPacket t"
  have "?Q s (Inr t)"
  proof (rule sync_loop.raw_induct [where P = ?Q, OF _ ret])
    fix loop s r
    assume IH: "\<And>s r. loop s = Some r \<Longrightarrow> ?Q s r"
      and step: "(if \<not> needSyncPacket s then Some (Inr s)
        else (case HandlerThread s of Inl e \<Rightarrow> Some (Inl e)
              | Inr s1 \<Rightarrow> Option.bind (pause s1) (\<lambda>r. case r of Inl e \<Rightarrow> Some (Inl e) | Inr s2 \<Rightarrow> loop s2)))
        = Some r"
    show "?Q s r"
    proof (intro allI impI)
      fix t assume hyp: "P s \<and> r = Inr t"
      show "P t \<and> \<not> needSyncPacket t"
      proof (cases "needSyncPacket s")
        case False
        with step hyp show ?thesis by simp
      next
        case True
        with step hyp obtain s1 where h: "HandlerThread s = Inr s1" by (auto split: sum.splits)
        with step hyp True obtain s2 where p: "pause s1 = Some (Inr s2)" "loop s2 = Some (Inr t)"
          by (cases "pause s1") (auto split: sum.splits)
        from hyp assms(3) [OF _ h] have "P s1" by simp
        then have "P s2" by (rule assms(4) [OF _ p(1)])
        with IH [OF p(2)] show ?thesis by simp
      qed
    qed
  qed
  with assms(2) show ?thesis by simp
qed

lemma client_ok_SendSync:
  assumes "SendSync pid n enc req m enc_res dec_res answer s = Some (Inr (r, t))" and "client_ok s"
    and "\<And>session seq. request_ok (request_packet pid n enc req session seq)"
  shows "client_ok t"
proof (cases "cl_isConnect s")
  case False
  with assms show ?thesis by (simp add: SendSync_def)
next
  case True
  with assms(1) obtain s1 where s1: "cl_Send pid n enc req s = Inr s1" and
    t: "sync_loop (s1\<lparr>needSyncSequnce := of_int (cl_sequenceIndex s1), needSyncPacket := True\<rparr>) = Some (Inr t)"
    by (auto simp: SendSync_def bind_run_Inr_iff)
  have "client_ok s1" by (rule client_ok_Send [OF s1 assms(2,3)])
  then have "client_ok (s1\<lparr>needSyncSequnce := of_int (cl_sequenceIndex s1), needSyncPacket := True\<rparr>)" by simp
  from sync_loop_invariant [where P = client_ok, OF t this] show ?thesis
    using client_ok_HandlerThread client_ok_pause by blast
qed

lemmas send_sync_ok = client_ok_SendSync [OF _ _ requests_well_formed(1)]
  client_ok_SendSync [OF _ _ requests_well_formed(2)] client_ok_SendSync [OF _ _ requests_well_formed(3)]

lemmas send_ok = client_ok_Send [OF _ _ requests_well_formed(1)]
  client_ok_Send [OF _ _ requests_well_formed(3)] client_ok_Send [OF _ _ input_request_well_formed]

section \<open>Scenes and frames\<close>

lemma client_ok_RoomButton:
  "RoomButton_OnPressed b s = Some (Inr t) \<Longrightarrow> client_ok s \<Longrightarrow> client_ok t"
  by (auto simp: RoomButton_OnPressed_def bind_run_Inr_iff split: if_splits dest!: send_sync_ok)

lemma client_ok_press_buttons:
  "press_buttons hit ep bs s = Some (Inr t) \<Longrightarrow> client_ok s \<Longrightarrow> client_ok t"
proof (induction bs arbitrary: s)
  case (Cons b bs)
  then show ?case by (auto simp: bind_run_Inr_iff split: if_splits dest: client_ok_RoomButton)
qed simp

lemma client_ok_LobbyScene_Start:
  "LobbyScene_Start s = Some (Inr t) \<Longrightarrow> client_ok s \<Longrightarrow> client_ok t"
  by (auto simp: LobbyScene_Start_def bind_run_Inr_iff list_request_def split: if_splits dest!: send_sync_ok)

lemma client_ok_LobbyScene_Update:
  "LobbyScene_Update inp e s = Some (Inr t) \<Longrightarrow> client_ok s \<Longrightarrow> client_ok t"
  by (auto simp: LobbyScene_Update_def Let_def bind_run_Inr_iff list_request_def split: if_splits
      dest!: send_ok client_ok_press_buttons)

lemma client_ok_InGameScene_Start:
  assumes "InGameScene_Start s = Some (Inr t)" and "client_ok s"
  shows "client_ok t"
proof -
  from assms(1) obtain g s2 g2 r where
    s2: "SendSync PID_REQ_ROOM_ENTER sizeof_REQ_ROOM_ENTER enc_REQ_ROOM_ENTER
          (default_REQ_ROOM_ENTER\<lparr>req_roomIndex := ig_roomIndex g\<rparr>) sizeof_RES_ROOM_ENTER
          enc_RES_ROOM_ENTER dec_RES_ROOM_ENTER default_RES_ROOM_ENTER
          (set_ingame (g\<lparr>tetrisBoard := Some (Init (sint (cl_playerSessionIndex s)) new_board),
              enemyBoard := Some (Init 0 new_board)\<rparr>) s) = Some (Inr (r, s2))"
    and g2: "GetInGameScene s2 = Some g2"
    and t: "t = set_ingame (g2\<lparr>gameStartButton := Some (SetPos 700 900 (new_Button 200 75 ''Start'')),
              gameLeaveButton := Some (SetPos 930 900 (new_Button 200 75 ''Leave''))\<rparr>) s2"
    by (auto simp: InGameScene_Start_def Let_def bind_run_Inr_iff of_option_Inr_iff)
  have "client_ok s2"
    by (rule client_ok_SendSync [OF s2 _ requests_well_formed(2)]) (use assms(2) in \<open>simp add: wf_board_new\<close>)
  with client_ok_ingame [OF this g2] show ?thesis by (simp add: t)
qed

lemma client_ok_play_frame:
  assumes "play_frame k e g mine s = Inr t" and "client_ok s" and "wf_board mine"
    and "pred_option wf_board (enemyBoard g)"
  shows "client_ok t"
proof -
  let ?m = "if GetInput k \<noteq> [] then QueueInputs (GetInput k) mine else mine"
  have m: "wf_board ?m" using assms(3) by (simp add: invs)
  from assms(1) obtain s1 mine2 where
    s1: "(if GetRemainFallingBlock ?m < PACKET_FALLING_BLOCK_SIZE
          then cl_Send PID_REQ_FALLING_BLOCK sizeof_BASE enc_BASE default_BASE_PACKET s else Inr s) = Inr s1"
    and up: "Update e ?m = Inr mine2"
    and t: "(let s2 = set_ingame (g\<lparr>tetrisBoard := Some mine2\<rparr>) s1; appliedInputs = GetAppliedInputs mine2
             in if appliedInputs \<noteq> []
                then cl_Send PID_REQ_GAME_INPUT sizeof_REQ_GAME_INPUT enc_REQ_GAME_INPUT
                       (input_request appliedInputs) s2
                else Inr s2) = Inr t"
    unfolding play_frame_def Let_def bind_res_Inr_iff by blast
  from s1 assms(2) have "client_ok s1" by (auto split: if_splits dest: send_ok)
  with wf_board_Update_aux [OF up m] assms(4) have "client_ok (set_ingame (g\<lparr>tetrisBoard := Some mine2\<rparr>) s1)"
    by simp
  with t show ?thesis by (auto simp: Let_def split: if_splits dest: send_ok)
qed

lemma client_ok_press_game_buttons:
  "press_game_buttons hit g s = Inr t \<Longrightarrow> client_ok s \<Longrightarrow> client_ok t"
  by (auto simp: press_game_buttons_def GameStartButton_OnPressed_def GameLeaveButton_OnPressed_def
      bind_res_Inr_iff split: if_splits dest: send_ok)

lemma client_ok_InGameScene_Update:
  assumes "InGameScene_Update inp e s = Inr t" and "client_ok s"
  shows "client_ok t"
proof -
  from assms(1) obtain g s1 mine where g: "GetInGameScene s = Some g" "tetrisBoard g = Some mine"
    and s1: "(if leftButton inp then press_game_buttons (hits inp) g s else Inr s) = Inr s1"
    and t: "(if \<not> IsPlaying mine then Inr s1 else play_frame (pressed inp) e g mine s1) = Inr t"
    by (auto simp: InGameScene_Update_def bind_res_Inr_iff of_option_Inr_iff)
  from s1 assms(2) have "client_ok s1" by (auto split: if_splits dest: client_ok_press_game_buttons)
  with t client_ok_ingame [OF assms(2) g(1)] g(2) show ?thesis
    by (auto split: if_splits dest: client_ok_play_frame)
qed

lemma client_ok_Game_Update:
  assumes "Game_Update inp tm s = Some (Inr t)" and "client_ok s"
  shows "client_ok t"
proof -
  from assms(1) obtain s1 where s1: "HandlerThread s = Inr s1" and
    t: "(if curScene s1 = None then Some (Inr s1)
         else bind_run (scene_Update inp (f32_norm 0 (GetElapsedSeconds tm)) s1) change_scene) = Some (Inr t)"
    by (auto simp: Game_Update_def Let_def bind_run_Inr_iff)
  note ok1 = client_ok_HandlerThread [OF s1 assms(2)]
  show ?thesis
  proof (cases "curScene s1 = None")
    case False
    with t obtain s2 where s2: "scene_Update inp (f32_norm 0 (GetElapsedSeconds tm)) s1 = Some (Inr s2)"
      and c: "change_scene s2 = Some (Inr t)" by (auto simp: bind_run_Inr_iff)
    have ok2: "client_ok s2"
      using s2 ok1 by (auto simp: scene_Update_def split: option.splits Scene.splits
          dest: client_ok_LobbyScene_Update client_ok_InGameScene_Update)
    have "client_ok ((SetPreservedScene None s2)\<lparr>curScene := Some sc\<rparr>)" if "preservedScene s2 = Some sc" for sc
      using ok2 that by (simp add: client_ok_def SetPreservedScene_def)
    with c ok2 show ?thesis
      by (auto simp: change_scene_def scene_Start_def split: option.splits Scene.splits
          dest!: client_ok_LobbyScene_Start client_ok_InGameScene_Start)
  qed (use t ok1 in simp)
qed


lemma client_ok_step:
  assumes "client_step ev st = Some (Inr st')" and "client_ok (snd st)"
  shows "client_ok (snd st')"
proof (cases ev)
  case (Frame inp now)
  with assms(1) have "Tick (Game_Update inp) now (fst st) (snd st) = Some (Inr (fst st', snd st'))"
    by (simp add: client_step_def Game_Tick_def)
  then show ?thesis
    by (rule Tick_invariant [where P = client_ok, OF _ assms(2)]) (rule client_ok_Game_Update)
next
  case (Thread t)
  with assms show ?thesis by (auto simp: client_step_def bind_run_Inr_iff client_ok_thread_step)
qed

lemma client_ok_steps: "client_steps st evs st' \<Longrightarrow> client_ok (snd st) \<Longrightarrow> client_ok (snd st')"
  by (induction rule: client_steps.induct) (auto dest: client_ok_step)

lemma client_ok_Initialize:
  assumes "Initialize b s = Some (Inr t)" and "client_ok s"
  shows "client_ok t"
proof -
  have "client_ok (s\<lparr>cl_isConnect := True, curScene := Some (Lobby new_LobbyScene)\<rparr>)"
    using assms(2) by (simp add: client_ok_def requests_ok_def)
  with assms(1) show ?thesis
    by (auto simp: Initialize_def ConnectServer_def dest: client_ok_LobbyScene_Start split: if_splits)
qed

end
