(* ===== verification/ClientSync.thy ===== *)
theory ClientSync
  imports ClientInv
begin

text \<open>
  How a synchronous request ends: the pauses in which nothing happens, the pause in which the
  answer arrives, the call of \<open>HandlerThread\<close> that handles it, and what a handler leaves alone.
\<close>

section \<open>What a handler leaves alone\<close>

definition scene_change :: "Client \<Rightarrow> Client \<Rightarrow> bool" where
  "scene_change s t \<longleftrightarrow>
     t = s\<lparr>curScene := curScene t, preservedScene := preservedScene t,
           cl_playerSessionIndex := cl_playerSessionIndex t\<rparr>"

lemma scene_changeD:
  assumes "scene_change s t"
  shows "notifyPackets t = notifyPackets s" "recvPackets t = recvPackets s"
    "sendPackets t = sendPackets s" "sendPacketQueue t = sendPacketQueue s"
    "needSyncPacket t = needSyncPacket s" "needSyncSequnce t = needSyncSequnce s"
    "schedule t = schedule s" "rounds t = rounds s" "cl_isRun t = cl_isRun s"
    "cl_isConnect t = cl_isConnect s" "cl_sequenceIndex t = cl_sequenceIndex s"
  using arg_cong [OF assms [unfolded scene_change_def], of notifyPackets]
    arg_cong [OF assms [unfolded scene_change_def], of recvPackets]
    arg_cong [OF assms [unfolded scene_change_def], of sendPackets]
    arg_cong [OF assms [unfolded scene_change_def], of sendPacketQueue]
    arg_cong [OF assms [unfolded scene_change_def], of needSyncPacket]
    arg_cong [OF assms [unfolded scene_change_def], of needSyncSequnce]
    arg_cong [OF assms [unfolded scene_change_def], of schedule]
    arg_cong [OF assms [unfolded scene_change_def], of rounds]
    arg_cong [OF assms [unfolded scene_change_def], of cl_isRun]
    arg_cong [OF assms [unfolded scene_change_def], of cl_isConnect]
    arg_cong [OF assms [unfolded scene_change_def], of cl_sequenceIndex]
  by simp_all

lemma on_frame:
  "on_ReqLogin r1 s = Inr t \<Longrightarrow> scene_change s t"
  "on_ReqFallingBlock r2 s = Inr t \<Longrightarrow> scene_change s t"
  "on_ReqGameStart r2 s = Inr t \<Longrightarrow> scene_change s t"
  "on_ReqGameInput r3 s = Inr t \<Longrightarrow> scene_change s t"
  "on_ReqRoomCreate r4 s = Inr t \<Longrightarrow> scene_change s t"
  "on_ReqRoomEnter r5 s = Inr t \<Longrightarrow> scene_change s t"
  "on_ReqRoomLeave r6 s = Inr t \<Longrightarrow> scene_change s t"
  "on_ReqRoomList r7 s = Inr t \<Longrightarrow> scene_change s t"
  "on_nothing r6 s = Inr t \<Longrightarrow> scene_change s t"
  by (auto simp: on_ReqLogin_def on_ReqFallingBlock_def on_ReqGameStart_def on_ReqGameInput_def
      on_ReqRoomCreate_def on_ReqRoomEnter_def on_ReqRoomLeave_def on_ReqRoomList_def on_nothing_def
      bind_res_Inr_iff set_ingame_def set_lobby_def SetPreservedScene_def scene_change_def
      split: option.splits if_splits)

lemma handler_frame: "handler_Response k p s = Inr t \<Longrightarrow> scene_change s t"
  by (cases k) (auto simp: handler_Response_def Response_def bind_res_Inr_iff intro: on_frame)

section \<open>Quiet pauses\<close>

lemma HandlerThread_idle:
  "recvPackets s = [] \<Longrightarrow> notifyPackets s = [] \<Longrightarrow> HandlerThread s = Inr s"
  by (simp add: HandlerThread_def handle_response_def handle_notify_def)

lemma sync_waits:
  assumes "needSyncPacket s" and "recvPackets s = []" and "notifyPackets s = []"
    and "\<And>j. j < n \<Longrightarrow> schedule s (rounds s + j) = []"
  shows "sync_loop s = sync_loop (s\<lparr>rounds := rounds s + n\<rparr>)"
  using assms
proof (induction n arbitrary: s)
  case (Suc n)
  let ?s = "s\<lparr>rounds := rounds s + 1\<rparr>"
  have p: "pause s = Some (Inr ?s)" using Suc.prems(4) [of 0] by (simp add: pause_def)
  have "sync_loop s = sync_loop ?s"
    using Suc.prems(1-3) p by (subst sync_loop.simps) (simp add: HandlerThread_idle)
  also have "\<dots> = sync_loop (?s\<lparr>rounds := rounds ?s + n\<rparr>)"
  proof (rule Suc.IH)
    fix j assume "j < n"
    with Suc.prems(4) [of "Suc j"] show "schedule ?s (rounds ?s + j) = []" by simp
  qed (use Suc.prems in simp_all)
  finally show ?case by simp
qed simp

section \<open>The pause in which the answer arrives\<close>

definition packet_of :: "bytes \<Rightarrow> ClientPacket" where
  "packet_of a = \<lparr>cp_DataSize = PacketLength (dec_header a), cp_PacketId = PacketId (dec_header a),
     cp_SessionIndex = 0, cp_SequenceIndex = sequenceIndex (dec_header a), cp_data = a\<rparr>"

lemma RecvThread_packet:
  assumes "stream_ok (cl_packetBuffer s)" and "pending (cl_packetBuffer s) = []"
    and "accepts (int (length a)) (cl_packetBuffer s)" and "is_packet PACKET_HEADER_LENGTH a"
  shows "\<exists>b. RecvThread_bytes a s = Some (Inr ((if sequenceIndex (dec_header a) = 0
      then s\<lparr>notifyPackets := notifyPackets s @ [packet_of a]\<rparr>
      else s\<lparr>recvPackets := pq_push (packet_of a) (recvPackets s)\<rparr>)\<lparr>cl_packetBuffer := b\<rparr>)) \<and>
      stream_ok b \<and> pending b = []"
proof -
  let ?t = "if sequenceIndex (dec_header a) = 0
      then s\<lparr>notifyPackets := notifyPackets s @ [packet_of a]\<rparr>
      else s\<lparr>recvPackets := pq_push (packet_of a) (recvPackets s)\<rparr>"
  have "queue_packet a s = Inr ?t"
    using assms(4) by (simp add: queue_packet_def is_packet_def PACKET_HEADER_LENGTH_def packet_of_def Let_def)
  then have "fold_res queue_packet [a] s = Inr ?t" by simp
  from pb.Receive_packets [OF assms(1,3) _ _ _ this, of "[]"] assms(2,4) obtain b where
    "Receive Read write_chunk queue_packet a (cl_packetBuffer s) s = Some (Inr (b, ?t))"
    "stream_ok b" "pending b = []" by (auto simp: partial_packet_def)
  then show ?thesis by (auto simp: RecvThread_bytes_def)
qed

text \<open>The state after the request has been sent and its answer has arrived.\<close>

definition answered_state :: "ClientPacket \<Rightarrow> bytes \<Rightarrow> PacketBuffer \<Rightarrow> Client \<Rightarrow> Client" where
  "answered_state q a b s = s\<lparr>rounds := rounds s + 1, sendPacketQueue := [],
     sendPackets := q # sendPackets s, sockSends := sockSends s @ [cp_data q],
     recvPackets := [packet_of a], cl_packetBuffer := b\<rparr>"

lemma pause_answer:
  assumes "cl_isRun s" "cl_isConnect s" "sendPacketQueue s = [q]" "recvPackets s = []"
    and "\<And>x. x \<in> set (sendPackets s) \<Longrightarrow> pq_key x < pq_key q"
    and "schedule s (rounds s) = [Sending True, Arrived a]"
    and "stream_ok (cl_packetBuffer s)" "pending (cl_packetBuffer s) = []"
      "accepts (int (length a)) (cl_packetBuffer s)" "is_packet PACKET_HEADER_LENGTH a"
    and "sequenceIndex (dec_header a) \<noteq> 0"
  shows "\<exists>b. pause s = Some (Inr (answered_state q a b s)) \<and> stream_ok b \<and> pending b = []"
proof -
  let ?s = "s\<lparr>rounds := rounds s + 1, sendPacketQueue := [], sendPackets := q # sendPackets s,
              sockSends := sockSends s @ [cp_data q]\<rparr>"
  have "thread_step (Sending True) (s\<lparr>rounds := rounds s + 1\<rparr>) = Some (Inr ?s)"
    using assms(1-3) pq_push_newest [OF assms(5)] by (simp add: thread_step_def SendThread_def Let_def)
  moreover have "\<exists>b. thread_step (Arrived a) ?s = Some (Inr (answered_state q a b s)) \<and> stream_ok b \<and> pending b = []"
    using RecvThread_packet [of ?s a] assms(1,2,4,7-11)
    by (simp add: thread_step_def answered_state_def pq_push_def)
  ultimately show ?thesis using assms(6) by (auto simp: pause_def)
qed

lemma handle_answer:
  assumes "sequenceIndex (dec_header a) = cp_SequenceIndex q" and "notifyPackets s = []"
    and "map_of cl_handlers (PacketId (dec_header a)) = Some k"
    and "SetRequest k q (answered_state q a b s\<lparr>sendPackets := sendPackets s, recvPackets := []\<rparr>) = Inr s2"
    and "handler_Response k (packet_of a) s2 = Inr s3"
  shows "HandlerThread (answered_state q a b s) = Inr (finish_sync (packet_of a) s3)"
proof -
  have "notifyPackets s2 = []" using assms(2,4)
    by (auto simp: SetRequest_def bind_res_Inr_iff answered_state_def)
  then have n: "notifyPackets (finish_sync (packet_of a) s3) = []"
    using scene_changeD(1) [OF handler_frame [OF assms(5)]] by (simp add: finish_sync_def)
  have "handle_response (answered_state q a b s) = Inr (finish_sync (packet_of a) s3)"
    using assms(1,3,4,5)
    by (simp add: handle_response_def answered_state_def pq_top_def pq_pop_def packet_of_def)
  with n show ?thesis by (simp add: HandlerThread_def handle_notify_def)
qed


section \<open>A synchronous request that is answered\<close>

text \<open>Nothing is under way, and the answer comes in the \<open>n\<close>-th pause.\<close>

definition quiet_until_answer :: "nat \<Rightarrow> bytes \<Rightarrow> Client \<Rightarrow> bool" where
  "quiet_until_answer n a s \<longleftrightarrow>
     cl_isRun s \<and> cl_isConnect s \<and> sendPacketQueue s = [] \<and> recvPackets s = [] \<and> notifyPackets s = [] \<and>
     pending (cl_packetBuffer s) = [] \<and> accepts (int (length a)) (cl_packetBuffer s) \<and>
     (\<forall>j<n. schedule s (rounds s + j) = []) \<and>
     schedule s (rounds s + n) = [Sending True, Arrived a] \<and> schedule s (rounds s + n + 1) = []"

definition same_scene :: "Client \<Rightarrow> Client \<Rightarrow> bool" where
  "same_scene s t \<longleftrightarrow> curScene t = curScene s \<and> preservedScene t = preservedScene s \<and>
     cl_playerSessionIndex t = cl_playerSessionIndex s"

lemma outstanding_older:
  assumes "client_ok s" and "x \<in> set (sendPackets s)" and "cl_sequenceIndex s + 1 < 2 ^ 31"
  shows "pq_key x < uint (of_int (cl_sequenceIndex s + 1) :: 32 word)"
proof -
  have r: "requests_ok s" by (rule client_okD [OF assms(1)])
  then have n: "uint (of_int (cl_sequenceIndex s + 1) :: 32 word) = cl_sequenceIndex s + 1"
    using assms(3) by (simp only: uint_word_of_int) (simp add: requests_ok_def)
  from r have keys: "set (map pq_key (sendPackets s)) \<subseteq> set (map seq_of (sockSends s))"
    and all: "map seq_of (sockSends s @ map cp_data (sendPacketQueue s)) = [1..cl_sequenceIndex s]"
    by (simp_all add: requests_ok_def)
  have "pq_key x \<in> set (map pq_key (sendPackets s))" using assms(2) by simp
  with keys have "pq_key x \<in> set (map seq_of (sockSends s @ map cp_data (sendPacketQueue s)))" by auto
  also have "\<dots> = set [1..cl_sequenceIndex s]" by (simp only: all)
  finally show ?thesis unfolding n by simp
qed

lemma SendSync_answered:
  assumes ok: "client_ok s" and quiet: "quiet_until_answer n a s"
    and seq: "cl_sequenceIndex s + 1 < 2 ^ 31"
      "sequenceIndex (dec_header a) = of_int (cl_sequenceIndex s + 1)"
    and a: "is_packet PACKET_HEADER_LENGTH a" "map_of cl_handlers (PacketId (dec_header a)) = Some k"
    and req: "\<And>session seq. request_ok (request_packet pid m enc req session seq)"
      "\<And>u session seq. \<exists>v. SetRequest k (request_packet pid m enc req session seq) u = Inr v"
    and handler: "\<And>u. same_scene s u \<Longrightarrow> \<exists>v. handler_Response k (packet_of a) u = Inr v"
    and copy: "copy_answer sizeof_Res enc_res dec_res answer (packet_of a) = Inr r"
  shows "\<exists>u v t. same_scene s u \<and> handler_Response k (packet_of a) u = Inr v \<and>
           SendSync pid m enc req sizeof_Res enc_res dec_res answer s = Some (Inr (r, t)) \<and>
           same_scene v t"
proof -
  let ?n = "cl_sequenceIndex s + 1"
  let ?q = "request_packet pid m enc req (cl_playerSessionIndex s) (of_int ?n)"
  let ?s = "s\<lparr>cl_sequenceIndex := ?n, sendPacketQueue := [?q], needSyncSequnce := of_int ?n,
              needSyncPacket := True\<rparr>"
  let ?w = "?s\<lparr>rounds := rounds s + n\<rparr>"
  note q = quiet [unfolded quiet_until_answer_def]
  have n: "0 < ?n" using client_okD(1) [OF ok] by (simp add: requests_ok_def)
  with seq(1) have int: "int32_res ?n = Inr ?n" by (simp add: int32_res_def)
  have "uint (of_int ?n :: 32 word) = ?n" using n seq(1) by (simp only: uint_word_of_int) simp
  with n have nz: "sequenceIndex (dec_header a) \<noteq> 0" using seq(2) by auto
  have keys: "pq_key x < pq_key ?q" if "x \<in> set (sendPackets ?w)" for x
    using outstanding_older [OF ok _ seq(1)] that by (simp add: pq_key_def request_packet_def)
  have wait: "sync_loop ?s = sync_loop ?w"
    using sync_waits [of ?s n] q by simp
  obtain b where b: "pause ?w = Some (Inr (answered_state ?q a b ?w))" "stream_ok b" "pending b = []"
    using pause_answer [of ?w ?q a] q keys a nz client_okD(3) [OF ok] by auto
  let ?b = "answered_state ?q a b ?w"
  obtain s2 where s2: "SetRequest k ?q (?b\<lparr>sendPackets := sendPackets ?w, recvPackets := []\<rparr>) = Inr s2"
    using req(2) by blast
  then have u: "same_scene s s2" and need: "needSyncPacket s2" "needSyncSequnce s2 = of_int ?n"
    and rest: "schedule s2 = schedule s" "rounds s2 = rounds s + n + 1"
    by (auto simp: SetRequest_def bind_res_Inr_iff same_scene_def answered_state_def)
  obtain s3 where s3: "handler_Response k (packet_of a) s2 = Inr s3" using handler [OF u] by blast
  note fr = scene_changeD [OF handler_frame [OF s3]]
  let ?t = "finish_sync (packet_of a) s3"
  have t: "?t = s3\<lparr>syncPacket := packet_of a, needSyncPacket := False\<rparr>"
    using fr(5,6) need seq(2) by (simp add: finish_sync_def packet_of_def)
  have h: "HandlerThread ?b = Inr ?t"
    by (rule handle_answer [OF _ _ a(2) s2 s3]) (use seq(2) q in \<open>simp_all add: request_packet_def\<close>)
  have p: "pause ?t = Some (Inr (?t\<lparr>rounds := rounds s3 + 1\<rparr>))"
    using q fr(7,8) rest by (simp add: pause_def t)
  have nb: "needSyncPacket ?b" by (simp add: answered_state_def)
  have "sync_loop ?w = sync_loop ?b"
    using b(1) q by (subst sync_loop.simps) (simp add: HandlerThread_idle)
  also have "\<dots> = sync_loop (?t\<lparr>rounds := rounds s3 + 1\<rparr>)"
    using h p nb by (subst sync_loop.simps) simp
  also have "\<dots> = Some (Inr (?t\<lparr>rounds := rounds s3 + 1\<rparr>))"
    by (subst sync_loop.simps) (simp add: t)
  finally have loop: "sync_loop ?s = Some (Inr (?t\<lparr>rounds := rounds s3 + 1\<rparr>))" using wait by simp
  have send: "cl_Send pid m enc req s = Inr (s\<lparr>cl_sequenceIndex := ?n, sendPacketQueue := [?q]\<rparr>)"
    using q int by (simp add: cl_Send_def)
  have "SendSync pid m enc req sizeof_Res enc_res dec_res answer s =
      Some (Inr (r, ?t\<lparr>rounds := rounds s3 + 1\<rparr>))"
    using q send loop copy by (simp add: SendSync_def t)
  moreover have "same_scene s3 (?t\<lparr>rounds := rounds s3 + 1\<rparr>)" by (simp add: same_scene_def t)
  ultimately show ?thesis using u s3 by blast
qed

end
