(* ===== verification/ClientClaims.thy ===== *)
theory ClientClaims
  imports ClientSync
begin

text \<open>
  The properties of the client: what it sends, what its scenes keep, and when its synchronous
  requests end.
\<close>

section \<open>Reachable states\<close>

lemma client_ok_reachable:
  assumes "s0 = new_Client fresh sched \<or> Initialize b (new_Client fresh sched) = Some (Inr s0)"
    and "client_steps (tm, s0) evs (tm', s)"
  shows "client_ok s"
proof -
  have "client_ok s0" using assms(1) client_ok_Initialize client_ok_new by blast
  with client_ok_steps [OF assms(2)] show ?thesis by simp
qed

text \<open>C6: in every state the client can reach, whatever frames, sends and receives interleave, what it
  has sent and what it has queued is a sequence of packets that the server's buffer can cut
  apart, numbered 1, 2, 3 and so on in the order of sending; and the requests that still wait
  for an answer are all different.\<close>

theorem requests_are_numbered_packets:
  assumes "s0 = new_Client fresh sched \<or> Initialize b (new_Client fresh sched) = Some (Inr s0)"
    and "client_steps (tm, s0) evs (tm', s)"
  shows "list_all (is_packet PACKET_HEADER_LENGTH) (sockSends s @ map cp_data (sendPacketQueue s)) \<and>
         map seq_of (sockSends s @ map cp_data (sendPacketQueue s)) = [1..cl_sequenceIndex s] \<and>
         distinct (map pq_key (sendPackets s))"
proof -
  have r: "requests_ok s" by (rule client_okD [OF client_ok_reachable [OF assms]])
  then have "sorted_wrt (<) (rev (map pq_key (sendPackets s)))" by (simp add: requests_ok_def)
  then have "distinct (rev (map pq_key (sendPackets s)))" by (simp add: strict_sorted_iff)
  then have "distinct (map pq_key (sendPackets s))" by simp
  with r show ?thesis
    by (auto simp: requests_ok_def request_ok_def list_all_iff)
qed

definition idle_run :: "client_event list" where
  "idle_run = [Thread (Sending True), Thread PeerClosed, Thread (Arrived [1, 2])]"

lemma idle_run_steps: "client_steps (tm, new_Client fresh sched) idle_run (tm, new_Client fresh sched)"
  by (simp add: idle_run_def client_step_def thread_step_def SendThread_def new_Client_def)

theorem requests_are_numbered_packets_witness:
  "list_all (is_packet PACKET_HEADER_LENGTH) (sockSends (new_Client (\<lambda>_. 0) (\<lambda>_. []))) \<and>
   client_steps (new_StepTimer 10000000 0, new_Client (\<lambda>_. 0) (\<lambda>_. [])) idle_run
     (new_StepTimer 10000000 0, new_Client (\<lambda>_. 0) (\<lambda>_. []))"
  using requests_are_numbered_packets [OF disjI1 [OF refl] idle_run_steps
      [of "new_StepTimer 10000000 0" "\<lambda>_. 0" "\<lambda>_. []"]] idle_run_steps by auto

text \<open>The state in which \<open>Game::Initialize\<close> starts the lobby.\<close>

definition lobby_client :: "(nat \<Rightarrow> 8 word) \<Rightarrow> (nat \<Rightarrow> thread_event list) \<Rightarrow> Client" where
  "lobby_client fresh sched =
     (new_Client fresh sched)\<lparr>cl_isConnect := True, curScene := Some (Lobby new_LobbyScene)\<rparr>"

lemma lobby_client_ok: "client_ok (lobby_client fresh sched)"
  using client_ok_new [of fresh sched] by (simp add: lobby_client_def client_ok_def requests_ok_def)

text \<open>C15: in every state the client can reach, the boards of its scene are well formed and the lobby
  shows no or eight buttons; so does the scene that is about to be entered.\<close>

theorem scenes_stay_well_formed:
  assumes "s0 = new_Client fresh sched \<or> s0 = lobby_client fresh sched \<or>
           Initialize b (new_Client fresh sched) = Some (Inr s0)"
    and "client_steps (tm, s0) evs (tm', s)"
  shows "(curScene s = Some (InGame g) \<or> preservedScene s = Some (InGame g) \<longrightarrow>
            pred_option wf_board (tetrisBoard g) \<and> pred_option wf_board (enemyBoard g)) \<and>
         (curScene s = Some (Lobby l) \<or> preservedScene s = Some (Lobby l) \<longrightarrow>
            length (m_buttons l) \<in> {0, ROOM_CNT_PER_PAGE})"
proof -
  have "client_ok s0"
    using assms(1) client_ok_Initialize client_ok_new lobby_client_ok by blast
  with client_ok_steps [OF assms(2)] have "client_ok s" by simp
  from client_okD(4,5) [OF this] show ?thesis by auto
qed

theorem scenes_stay_well_formed_witness:
  "client_steps (new_StepTimer 10000000 0, lobby_client (\<lambda>_. 0) (\<lambda>_. [])) [Thread (Sending True)]
     (new_StepTimer 10000000 0, lobby_client (\<lambda>_. 0) (\<lambda>_. [])) \<and>
   length (m_buttons new_LobbyScene) \<in> {0, ROOM_CNT_PER_PAGE}"
proof -
  have run: "client_steps (new_StepTimer 10000000 0, lobby_client (\<lambda>_. 0) (\<lambda>_. [])) [Thread (Sending True)]
     (new_StepTimer 10000000 0, lobby_client (\<lambda>_. 0) (\<lambda>_. []))"
    by (simp add: client_step_def thread_step_def SendThread_def lobby_client_def new_Client_def)
  have "curScene (lobby_client (\<lambda>_. 0) (\<lambda>_. [])) = Some (Lobby new_LobbyScene)"
    by (simp add: lobby_client_def)
  with run scenes_stay_well_formed [OF disjI2 [OF disjI1 [OF refl]] run] show ?thesis by blast
qed

section \<open>Synchronous requests\<close>

lemma thread_step_no_bytes:
  assumes "\<And>bs. ev \<noteq> Arrived bs"
  shows "\<exists>t. thread_step ev s = Some (Inr t) \<and> needSyncPacket t = needSyncPacket s \<and>
    recvPackets t = recvPackets s \<and> notifyPackets t = notifyPackets s \<and> schedule t = schedule s"
  using assms by (cases ev) (auto simp: thread_step_def SendThread_def Close_def Let_def
      split: list.splits if_splits)

definition unanswered :: "Client \<Rightarrow> bool" where
  "unanswered s \<longleftrightarrow> needSyncPacket s \<and> recvPackets s = [] \<and> notifyPackets s = [] \<and>
     (\<forall>n bs. Arrived bs \<notin> set (schedule s n))"

lemma unanswered_steps:
  assumes "unanswered s" and "\<And>bs. Arrived bs \<notin> set evs"
  shows "\<exists>t. fold_run thread_step evs s = Some (Inr t) \<and> unanswered t"
  using assms
proof (induction evs arbitrary: s)
  case (Cons ev evs)
  have "ev \<noteq> Arrived bs" for bs using Cons.prems(2) [of bs] by auto
  from thread_step_no_bytes [OF this, of s] obtain u where
    u: "thread_step ev s = Some (Inr u)" "unanswered u"
    using Cons.prems(1) by (auto simp: unanswered_def)
  from Cons.IH [OF u(2)] Cons.prems(2) u(1) show ?case by auto
qed simp

lemma unanswered_loop:
  assumes "unanswered s"
  shows "sync_loop s = None"
proof (rule ccontr)
  assume "sync_loop s \<noteq> None"
  then obtain r where r: "sync_loop s = Some r" by blast
  have "\<not> unanswered s"
  proof (rule sync_loop.raw_induct [where P = "\<lambda>s r. \<not> unanswered s", OF _ r])
    fix loop s r
    assume IH: "\<And>s r. loop s = Some r \<Longrightarrow> \<not> unanswered s"
      and step: "(if \<not> needSyncPacket s then Some (Inr s)
        else (case HandlerThread s of Inl e \<Rightarrow> Some (Inl e)
              | Inr s1 \<Rightarrow> Option.bind (pause s1) (\<lambda>r. case r of Inl e \<Rightarrow> Some (Inl e) | Inr s2 \<Rightarrow> loop s2)))
        = Some r"
    show "\<not> unanswered s"
    proof
      assume u: "unanswered s"
      then have "unanswered (s\<lparr>rounds := rounds s + 1\<rparr>)" by (simp add: unanswered_def)
      moreover have "Arrived bs \<notin> set (schedule s (rounds s))" for bs using u by (simp add: unanswered_def)
      ultimately obtain t where t: "pause s = Some (Inr t)" "unanswered t"
        unfolding pause_def using unanswered_steps by blast
      moreover have "HandlerThread s = Inr s" "needSyncPacket s"
        using u by (simp_all add: HandlerThread_idle unanswered_def)
      ultimately have "loop t = Some r" using step by simp
      with IH t(2) show False by blast
    qed
  qed
  with assms show False by contradiction
qed

text \<open>C36: a synchronous request to a server that has fallen silent never returns.  If the client is
  connected, no received packet waits in either of its queues when the request is made, and no byte
  arrives on the connection from then on, the wait for the answer is endless, whatever else the
  network reports: neither the end of the connection nor an error of the socket ends it.\<close>

theorem lost_answer_hangs:
  assumes "cl_isConnect s" and "0 \<le> cl_sequenceIndex s" and "cl_sequenceIndex s + 1 < 2 ^ 31"
    and "recvPackets s = []" and "notifyPackets s = []"
    and "\<And>n bs. Arrived bs \<notin> set (schedule s n)"
  shows "SendSync pid m enc req sizeof_Res enc_res dec_res answer s = None"
proof -
  let ?n = "cl_sequenceIndex s + 1"
  let ?q = "request_packet pid m enc req (cl_playerSessionIndex s) (of_int ?n)"
  have "cl_Send pid m enc req s = Inr (s\<lparr>cl_sequenceIndex := ?n, sendPacketQueue := sendPacketQueue s @ [?q]\<rparr>)"
    using assms(1-3) by (simp add: cl_Send_def int32_res_def)
  moreover have "sync_loop (s\<lparr>cl_sequenceIndex := ?n, sendPacketQueue := sendPacketQueue s @ [?q],
      needSyncSequnce := of_int ?n, needSyncPacket := True\<rparr>) = None"
    by (rule unanswered_loop) (use assms in \<open>simp add: unanswered_def\<close>)
  ultimately show ?thesis using assms(1) by (simp add: SendSync_def)
qed

definition disconnecting :: "nat \<Rightarrow> thread_event list" where
  "disconnecting n = (if n = 0 then [Sending True] else if n = 1 then [PeerClosed] else [])"

theorem lost_answer_hangs_witness:
  "LobbyScene_Start ((new_Client (\<lambda>_. 0) disconnecting)
     \<lparr>cl_isConnect := True, curScene := Some (Lobby new_LobbyScene)\<rparr>) = None"
proof -
  let ?s = "(new_Client (\<lambda>_. 0) disconnecting)\<lparr>cl_isConnect := True, curScene := Some (Lobby new_LobbyScene)\<rparr>"
  have "SendSync PID_REQ_LOGIN sizeof_BASE enc_BASE default_BASE_PACKET sizeof_RES_LOGIN
      enc_RES_LOGIN dec_RES_LOGIN default_RES_LOGIN ?s = None"
    by (rule lost_answer_hangs) (simp_all add: new_Client_def disconnecting_def)
  then show ?thesis by (simp add: LobbyScene_Start_def new_Client_def)
qed


text \<open>A request struct without members of its own is taken back by every handler for it.\<close>

lemma SetRequest_base:
  "sizeof_Req k = sizeof_BASE \<Longrightarrow>
   \<exists>v. SetRequest k (request_packet pid sizeof_BASE enc_BASE (b :: BASE_PACKET) session seq) u = Inr v"
  by (simp add: SetRequest_def checked_def request_packet_def sizeof_BASE_def)

text \<open>An answer of \<open>n\<close> bytes that announces its size.\<close>

definition answer_ok :: "nat \<Rightarrow> PACKET_ID \<Rightarrow> int \<Rightarrow> bytes \<Rightarrow> bool" where
  "answer_ok n pid seq a \<longleftrightarrow>
     is_packet PACKET_HEADER_LENGTH a \<and> length a = n \<and> PacketLength (dec_header a) = of_nat n \<and>
     PacketId (dec_header a) = packet_id pid \<and> sequenceIndex (dec_header a) = of_int seq"

lemma checked_answer:
  assumes "answer_ok n pid seq a" and "n < 128"
  shows "checked n (packet_of a) = Inr a" "copy_answer n e d r (packet_of a) = Inr (d (a @ drop n (e r)))"
proof -
  have "sint (of_nat n :: 16 word) = int n" "unat (of_nat n :: 16 word) = n"
    using assms(2) by (simp_all add: signed_of_nat signed_take_bit_int_eq_self_iff unat_of_nat)
  with assms(1) show "checked n (packet_of a) = Inr a"
    "copy_answer n e d r (packet_of a) = Inr (d (a @ drop n (e r)))"
    by (simp_all add: checked_def copy_answer_def answer_ok_def packet_of_def)
qed

text \<open>A connected client for the witnesses, which gets the answer \<open>a\<close> in its third pause.\<close>

definition connected_client :: "bytes \<Rightarrow> Client" where
  "connected_client a =
     (new_Client (\<lambda>_. 0) (\<lambda>k. if k = 2 then [Sending True, Arrived a] else []))\<lparr>cl_isConnect := True\<rparr>"

lemma connected_client_ok: "client_ok (connected_client a)"
  by (simp add: connected_client_def invs)

lemma connected_client_quiet:
  "length a < 20000 \<Longrightarrow> quiet_until_answer 2 a (connected_client a)"
  by (auto simp: quiet_until_answer_def connected_client_def new_Client_def wf_buffer_Init
      PACKET_HEADER_LENGTH_def) (simp add: accepts_def buffer_Init_def)

definition login_answer :: RES_LOGIN where
  "login_answer = default_RES_LOGIN\<lparr>resultID := Result_SUCCESS, newSessionID := 7, PacketLength := 51,
     PacketId := packet_id PID_RES_LOGIN, sequenceIndex := 1\<rparr>"

lemma login_answer_ok: "answer_ok sizeof_RES_LOGIN PID_RES_LOGIN 1 (enc_RES_LOGIN login_answer)"
  "dec_RES_LOGIN (enc_RES_LOGIN login_answer) = login_answer"
proof -
  have v: "valid_RES_LOGIN login_answer"
    by (simp add: login_answer_def valid_RES_LOGIN_def valid_BASE_def default_RES_LOGIN_def
        default_BASE_PACKET_def BASE_PACKET.defs RES_LOGIN.defs)
  have h: "header_of login_answer = \<lparr>PacketLength = 51, PacketId = packet_id PID_RES_LOGIN,
      sequenceIndex = 1, sessionIndex = 0\<rparr>"
    by (simp add: header_of_def login_answer_def default_RES_LOGIN_def default_BASE_PACKET_def
        BASE_PACKET.defs RES_LOGIN.defs PACKET_HEADER.defs)
  show "dec_RES_LOGIN (enc_RES_LOGIN login_answer) = login_answer" by (rule res_login.dec_enc [OF v])
  show "answer_ok sizeof_RES_LOGIN PID_RES_LOGIN 1 (enc_RES_LOGIN login_answer)"
    using res_login.enc_is_packet [OF v] res_login.length_enc [OF v] res_login.dec_header_enc [OF v, of "[]"]
    by (simp add: answer_ok_def h sizeof_RES_LOGIN_def)
qed

definition create_answer :: RES_ROOM_CREATE where
  "create_answer = default_RES_ROOM_CREATE\<lparr>newRoomIndex := 4, PacketLength := 18,
     PacketId := packet_id PID_RES_ROOM_CREATE, sequenceIndex := 1\<rparr>"

lemma create_answer_ok: "answer_ok sizeof_RES_ROOM_CREATE PID_RES_ROOM_CREATE 1 (enc_RES_ROOM_CREATE create_answer)"
  "dec_RES_ROOM_CREATE (enc_RES_ROOM_CREATE create_answer) = create_answer"
proof -
  have v: "valid_BASE create_answer"
    by (simp add: create_answer_def valid_BASE_def default_RES_ROOM_CREATE_def
        default_BASE_PACKET_def BASE_PACKET.defs RES_ROOM_CREATE.defs)
  have h: "header_of create_answer = \<lparr>PacketLength = 18, PacketId = packet_id PID_RES_ROOM_CREATE,
      sequenceIndex = 1, sessionIndex = 0\<rparr>"
    by (simp add: header_of_def create_answer_def default_RES_ROOM_CREATE_def default_BASE_PACKET_def
        BASE_PACKET.defs RES_ROOM_CREATE.defs PACKET_HEADER.defs)
  show "dec_RES_ROOM_CREATE (enc_RES_ROOM_CREATE create_answer) = create_answer"
    by (rule res_room_create.dec_enc [OF v])
  show "answer_ok sizeof_RES_ROOM_CREATE PID_RES_ROOM_CREATE 1 (enc_RES_ROOM_CREATE create_answer)"
    using res_room_create.enc_is_packet [OF v] res_room_create.length_enc [OF v]
      res_room_create.dec_header_enc [OF v, of "[]"]
    by (simp add: answer_ok_def h sizeof_RES_ROOM_CREATE_def)
qed

text \<open>A login that is answered completes: whenever the answer comes, the client is given its
  session index and the answer's contents.\<close>

theorem login_completes:
  assumes "client_ok s" and "quiet_until_answer n a s" and "cl_sequenceIndex s + 1 < 2 ^ 31"
    and "answer_ok sizeof_RES_LOGIN PID_RES_LOGIN (cl_sequenceIndex s + 1) a"
  shows "\<exists>t. SendSync PID_REQ_LOGIN sizeof_BASE enc_BASE default_BASE_PACKET sizeof_RES_LOGIN
               enc_RES_LOGIN dec_RES_LOGIN default_RES_LOGIN s = Some (Inr (dec_RES_LOGIN a, t)) \<and>
             cl_playerSessionIndex t = newSessionID (dec_RES_LOGIN a) \<and> curScene t = curScene s"
proof -
  have small: "sizeof_RES_LOGIN < 128" by (simp add: sizeof_RES_LOGIN_def)
  note c = checked_answer [OF assms(4) small]
  have pk: "is_packet PACKET_HEADER_LENGTH a" "sequenceIndex (dec_header a) = of_int (cl_sequenceIndex s + 1)"
    and k: "map_of cl_handlers (PacketId (dec_header a)) = Some RES_Login"
    using assms(4) by (simp_all add: answer_ok_def cl_handlers_def packet_id_def)
  have h: "handler_Response RES_Login (packet_of a) u = Inr (u\<lparr>cl_playerSessionIndex := newSessionID (dec_RES_LOGIN a)\<rparr>)" for u
    by (simp add: handler_Response_def Response_def c(1) on_ReqLogin_def)
  have "length (enc_RES_LOGIN default_RES_LOGIN) = sizeof_RES_LOGIN"
    by (rule res_login.length_enc)
       (simp add: valid_RES_LOGIN_def valid_BASE_def default_RES_LOGIN_def default_BASE_PACKET_def BASE_PACKET.defs RES_LOGIN.defs)
  then have copy: "copy_answer sizeof_RES_LOGIN enc_RES_LOGIN dec_RES_LOGIN default_RES_LOGIN (packet_of a) =
      Inr (dec_RES_LOGIN a)" by (simp add: c(2))
  have set: "\<exists>v. SetRequest RES_Login (request_packet pid sizeof_BASE enc_BASE b session seq) u = Inr v"
    for pid and b :: BASE_PACKET and session seq u by (rule SetRequest_base) (simp add: sizeof_Req_def)
  have run: "\<exists>v. handler_Response RES_Login (packet_of a) u = Inr v" for u using h by blast
  obtain u v t where "same_scene s u" "handler_Response RES_Login (packet_of a) u = Inr v"
    "SendSync PID_REQ_LOGIN sizeof_BASE enc_BASE default_BASE_PACKET sizeof_RES_LOGIN
       enc_RES_LOGIN dec_RES_LOGIN default_RES_LOGIN s = Some (Inr (dec_RES_LOGIN a, t))"
    "same_scene v t"
    using SendSync_answered [where pid = PID_REQ_LOGIN and req = default_BASE_PACKET,
        OF assms(1,2,3) pk(2,1) k requests_well_formed(1) set run copy] by blast
  with h show ?thesis by (auto simp: same_scene_def)
qed

theorem login_completes_witness:
  "\<exists>t. SendSync PID_REQ_LOGIN sizeof_BASE enc_BASE default_BASE_PACKET sizeof_RES_LOGIN
         enc_RES_LOGIN dec_RES_LOGIN default_RES_LOGIN (connected_client (enc_RES_LOGIN login_answer)) =
         Some (Inr (login_answer, t)) \<and> cl_playerSessionIndex t = 7"
proof -
  let ?s = "connected_client (enc_RES_LOGIN login_answer)"
  have seq: "cl_sequenceIndex ?s = 0" by (simp add: connected_client_def new_Client_def)
  have len: "length (enc_RES_LOGIN login_answer) < 20000"
    using login_answer_ok(1) by (simp add: answer_ok_def sizeof_RES_LOGIN_def)
  have "newSessionID login_answer = 7" by (simp add: login_answer_def)
  with login_completes [OF connected_client_ok connected_client_quiet [OF len]] login_answer_ok
  show ?thesis by (auto simp: seq)
qed

text \<open>Pressing the button of an empty slot opens the new room, although the result the server
  sends with it is never a success: the handler of the answer has already chosen the scene.\<close>

theorem creating_a_room_opens_it:
  assumes "client_ok s" and "quiet_until_answer n a s" and "cl_sequenceIndex s + 1 < 2 ^ 31"
    and "answer_ok sizeof_RES_ROOM_CREATE PID_RES_ROOM_CREATE (cl_sequenceIndex s + 1) a"
    and "rb_roomIndex b = 0"
  shows "\<exists>t. RoomButton_OnPressed b s = Some (Inr t) \<and> curScene t = curScene s \<and>
           preservedScene t = Some (InGame (new_InGameScene (newRoomIndex (dec_RES_ROOM_CREATE a))))"
proof -
  let ?r = "dec_RES_ROOM_CREATE a"
  let ?p = "Some (InGame (new_InGameScene (newRoomIndex ?r)))"
  have small: "sizeof_RES_ROOM_CREATE < 128" by (simp add: sizeof_RES_ROOM_CREATE_def)
  note c = checked_answer [OF assms(4) small]
  have pk: "is_packet PACKET_HEADER_LENGTH a" "sequenceIndex (dec_header a) = of_int (cl_sequenceIndex s + 1)"
    and k: "map_of cl_handlers (PacketId (dec_header a)) = Some RES_RoomCreate"
    using assms(4) by (simp_all add: answer_ok_def cl_handlers_def packet_id_def)
  have h: "handler_Response RES_RoomCreate (packet_of a) u = Inr (SetPreservedScene ?p u)" for u
    by (simp add: handler_Response_def Response_def c(1) on_ReqRoomCreate_def)
  have "length (enc_RES_ROOM_CREATE default_RES_ROOM_CREATE) = sizeof_RES_ROOM_CREATE"
    by (rule res_room_create.length_enc)
       (simp add: valid_BASE_def default_RES_ROOM_CREATE_def default_BASE_PACKET_def BASE_PACKET.defs RES_ROOM_CREATE.defs)
  then have copy: "copy_answer sizeof_RES_ROOM_CREATE enc_RES_ROOM_CREATE dec_RES_ROOM_CREATE
      default_RES_ROOM_CREATE (packet_of a) = Inr ?r" by (simp add: c(2))
  have set: "\<exists>v. SetRequest RES_RoomCreate (request_packet pid sizeof_BASE enc_BASE b session seq) u = Inr v"
    for pid and b :: BASE_PACKET and session seq u by (rule SetRequest_base) (simp add: sizeof_Req_def)
  have run: "\<exists>v. handler_Response RES_RoomCreate (packet_of a) u = Inr v" for u using h by blast
  obtain u v t where "same_scene s u" "handler_Response RES_RoomCreate (packet_of a) u = Inr v"
    "SendSync PID_REQ_ROOM_CREATE sizeof_BASE enc_BASE default_BASE_PACKET sizeof_RES_ROOM_CREATE
       enc_RES_ROOM_CREATE dec_RES_ROOM_CREATE default_RES_ROOM_CREATE s = Some (Inr (?r, t))"
    "same_scene v t"
    using SendSync_answered [where pid = PID_REQ_ROOM_CREATE and req = default_BASE_PACKET,
        OF assms(1,2,3) pk(2,1) k requests_well_formed(1) set run copy] by blast
  with h assms(5) show ?thesis
    by (auto simp: RoomButton_OnPressed_def same_scene_def SetPreservedScene_def)
qed


theorem creating_a_room_opens_it_witness:
  "\<exists>t. RoomButton_OnPressed (new_RoomButton 300 150) (connected_client (enc_RES_ROOM_CREATE create_answer)) =
         Some (Inr t) \<and> preservedScene t = Some (InGame (new_InGameScene 4))"
proof -
  let ?s = "connected_client (enc_RES_ROOM_CREATE create_answer)"
  have seq: "cl_sequenceIndex ?s = 0" by (simp add: connected_client_def new_Client_def)
  have len: "length (enc_RES_ROOM_CREATE create_answer) < 20000"
    using create_answer_ok(1) by (simp add: answer_ok_def sizeof_RES_ROOM_CREATE_def)
  have "newRoomIndex create_answer = 4" "rb_roomIndex (new_RoomButton 300 150) = 0"
    by (simp_all add: create_answer_def new_RoomButton_def new_Button_def Button.defs RoomButton.defs)
  with creating_a_room_opens_it [OF connected_client_ok connected_client_quiet [OF len],
      of "new_RoomButton 300 150"] create_answer_ok
  show ?thesis by (auto simp: seq)
qed

end
