(* ===== verification/ClientFaults.thy ===== *)
theory ClientFaults
  imports ClientClaims
begin

text \<open>
  What goes wrong in the client: the order in which answers are handled, and a start of the game
  that arrives too early.
\<close>

section \<open>Answers wait for the newest request\<close>

lemma outstanding_top:
  assumes "client_ok s" and "sendPackets s \<noteq> []"
  shows "\<exists>q. pq_top (sendPackets s) = Inr q \<and> q \<in> set (sendPackets s) \<and>
    (\<forall>x \<in> set (sendPackets s). pq_key x \<le> pq_key q)"
proof -
  obtain q qs where q: "sendPackets s = q # qs" using assms(2) by (cases "sendPackets s") auto
  have "sorted_wrt (<) (rev (map pq_key (q # qs)))"
    using client_okD(1) [OF assms(1)] q by (simp add: requests_ok_def)
  then show ?thesis by (auto simp: q pq_top_def sorted_wrt_append)
qed

text \<open>C37: an answer is handled only when it answers the newest request that is outstanding.  As long as
  no answer to that one has come, the answers to all older requests stay unhandled, so a client
  that keeps sending requests faster than they are answered handles none.\<close>

theorem newest_request_blocks_answers:
  assumes "client_ok s" and "sendPackets s \<noteq> []"
    and "\<forall>p \<in> set (recvPackets s). pq_key p \<noteq> Max (pq_key ` set (sendPackets s))"
  shows "handle_response s = Inr s"
proof (cases "recvPackets s = []")
  case True
  then show ?thesis by (simp add: handle_response_def)
next
  case False
  then obtain p where p: "pq_top (recvPackets s) = Inr p" "p \<in> set (recvPackets s)"
    using pq.top_max [OF client_okD(2) [OF assms(1)]] by auto
  from outstanding_top [OF assms(1,2)] obtain q where
    q: "pq_top (sendPackets s) = Inr q" "q \<in> set (sendPackets s)"
      "\<forall>x \<in> set (sendPackets s). pq_key x \<le> pq_key q" by blast
  have "Max (pq_key ` set (sendPackets s)) = pq_key q"
    by (rule Max_eqI) (use q(2,3) in auto)
  with assms(3) p(2) have "pq_key p \<noteq> pq_key q" by simp
  then have "cp_SequenceIndex q \<noteq> cp_SequenceIndex p" by (auto simp: pq_key_def)
  with False p(1) q(1) show ?thesis by (simp add: handle_response_def)
qed

text \<open>A client that has sent two requests and got the answer to the first.\<close>

definition two_requests :: Client where
  "two_requests =
     (let q1 = request_packet PID_REQ_GAME_START sizeof_BASE enc_BASE default_BASE_PACKET 0 1;
          q2 = request_packet PID_REQ_FALLING_BLOCK sizeof_BASE enc_BASE default_BASE_PACKET 0 2
      in (new_Client (\<lambda>_. 0) (\<lambda>_. []))
           \<lparr>cl_isConnect := True, cl_sequenceIndex := 2, sendPackets := [q2, q1],
             sockSends := [cp_data q1, cp_data q2],
             recvPackets := [packet_of (enc_BASE (default_BASE_PACKET\<lparr>sequenceIndex := 1\<rparr>))]\<rparr>)"

lemma two_requests_ok: "client_ok two_requests"
proof -
  have ok: "request_ok (request_packet pid sizeof_BASE enc_BASE default_BASE_PACKET 0 k)" for pid k
    by (rule requests_well_formed(1))
  note seq = request_ok_key [OF ok]
  have "pq_ok [x]" "pq_key (request_packet pid sizeof_BASE enc_BASE default_BASE_PACKET 0 1) = 1"
    "pq_key (request_packet pid sizeof_BASE enc_BASE default_BASE_PACKET 0 2) = 2" for x pid
    by (simp_all add: pq_ok_def pq_key_def request_packet_def)
  moreover have "[1..2] = [1, 2 :: int]" by (simp add: upto.simps)
  ultimately show ?thesis
    using client_ok_new [of "\<lambda>_. 0" "\<lambda>_. []"] ok [unfolded request_ok_def]
    by (simp add: client_ok_def requests_ok_def two_requests_def Let_def seq ok new_Client_def)
qed

theorem newest_request_blocks_answers_witness:
  "recvPackets two_requests \<noteq> [] \<and> handle_response two_requests = Inr two_requests"
proof -
  have a: "sequenceIndex (dec_header (enc_BASE (default_BASE_PACKET\<lparr>sequenceIndex := 1\<rparr>))) = 1"
    using base.dec_header_enc [of "default_BASE_PACKET\<lparr>sequenceIndex := 1\<rparr>" "[]"]
    by (simp add: valid_BASE_def default_BASE_PACKET_def header_of_def PACKET_HEADER.defs)
  have "handle_response two_requests = Inr two_requests"
    by (rule newest_request_blocks_answers [OF two_requests_ok])
       (simp_all add: two_requests_def Let_def request_packet_def pq_key_def packet_of_def a)
  then show ?thesis by (simp add: two_requests_def Let_def)
qed


section \<open>A game that starts too early\<close>

lemma AddFallingBlocks_total:
  assumes "tetrisBoard g \<noteq> None" and "enemyBoard g \<noteq> None"
  shows "\<exists>h. fold_res AddFallingBlock bs g = Inr h \<and> tetrisBoard h \<noteq> None \<and> enemyBoard h \<noteq> None \<and>
    gameStartButton h = gameStartButton g"
  using assms
proof (induction bs arbitrary: g)
  case (Cons b bs)
  then obtain u where u: "AddFallingBlock b g = Inr u" "tetrisBoard u \<noteq> None" "enemyBoard u \<noteq> None"
    "gameStartButton u = gameStartButton g" by (auto simp: AddFallingBlock_def)
  with Cons.IH [OF u(2,3)] show ?case by auto
qed simp

lemma start_without_button:
  assumes "GetInGameScene s = Some g" and "tetrisBoard g \<noteq> None" and "enemyBoard g \<noteq> None"
    and "gameStartButton g = None"
  shows "on_ReqGameStart r s = Inl NullDeref"
proof -
  obtain h where "fold_res AddFallingBlock (newBlocks r) g = Inr h" "tetrisBoard h \<noteq> None"
    "enemyBoard h \<noteq> None" "gameStartButton h = None"
    using AddFallingBlocks_total [OF assms(2,3), of "newBlocks r"] assms(4) by auto
  then show ?thesis using assms(1) by (auto simp: on_ReqGameStart_def scene_GameStart_def)
qed

text \<open>When the other player starts the game while this client still waits for the answer to its
  entering the room, the client dereferences a null pointer: the buttons of the scene are made
  after the wait, and the start disables one of them.\<close>

theorem early_start_crashes:
  assumes "client_ok s" and "GetInGameScene s = Some g" and "gameStartButton g = None"
    and "quiet_until_answer n a s" and "cl_sequenceIndex s + 1 < 2 ^ 31"
    and "answer_ok sizeof_RES_GAME_START PID_RES_GAME_START 0 a"
  shows "InGameScene_Start s = Some (Inl NullDeref)"
proof -
  let ?g = "g\<lparr>tetrisBoard := Some (Init (sint (cl_playerSessionIndex s)) new_board),
              enemyBoard := Some (Init 0 new_board)\<rparr>"
  let ?req = "default_REQ_ROOM_ENTER\<lparr>req_roomIndex := ig_roomIndex g\<rparr>"
  let ?n = "cl_sequenceIndex s + 1"
  let ?q = "request_packet PID_REQ_ROOM_ENTER sizeof_REQ_ROOM_ENTER enc_REQ_ROOM_ENTER ?req
              (cl_playerSessionIndex s) (of_int ?n)"
  let ?s = "set_ingame ?g s\<lparr>cl_sequenceIndex := ?n, sendPacketQueue := [?q], needSyncSequnce := of_int ?n,
              needSyncPacket := True\<rparr>"
  let ?w = "?s\<lparr>rounds := rounds s + n\<rparr>"
  let ?v = "SendThread True (?w\<lparr>rounds := rounds s + n + 1\<rparr>)"
  note q = assms(4) [unfolded quiet_until_answer_def]
  have "0 < ?n" using client_okD(1) [OF assms(1)] by (simp add: requests_ok_def)
  with q assms(5) have send: "cl_Send PID_REQ_ROOM_ENTER sizeof_REQ_ROOM_ENTER enc_REQ_ROOM_ENTER ?req (set_ingame ?g s) =
      Inr (set_ingame ?g s\<lparr>cl_sequenceIndex := ?n, sendPacketQueue := [?q]\<rparr>)"
    by (simp add: cl_Send_def int32_res_def set_ingame_def)
  have v: "cl_packetBuffer ?v = cl_packetBuffer s" "notifyPackets ?v = []" "recvPackets ?v = []"
    "curScene ?v = Some (InGame ?g)" "cl_isRun ?v" "cl_isConnect ?v" "needSyncPacket ?v"
    using q by (simp_all add: SendThread_def Let_def set_ingame_def)
  have a: "is_packet PACKET_HEADER_LENGTH a" "sequenceIndex (dec_header a) = 0"
    "map_of cl_handlers (PacketId (dec_header a)) = Some RES_GameStart"
    using assms(6) by (simp_all add: answer_ok_def cl_handlers_def packet_id_def)
  obtain b where "RecvThread_bytes a ?v = Some (Inr (?v\<lparr>notifyPackets := [packet_of a], cl_packetBuffer := b\<rparr>))"
    using RecvThread_packet [of ?v a] a(1,2) v q client_okD(3) [OF assms(1)] by auto
  then have p: "pause ?w = Some (Inr (?v\<lparr>notifyPackets := [packet_of a], cl_packetBuffer := b\<rparr>))"
    using q v by (simp add: pause_def thread_step_def set_ingame_def)
  let ?b = "?v\<lparr>notifyPackets := [packet_of a], cl_packetBuffer := b\<rparr>"
  have "sizeof_RES_GAME_START < 128" by (simp add: sizeof_RES_GAME_START_def)
  then have c: "checked sizeof_RES_GAME_START (packet_of a) = Inr a"
    by (rule checked_answer(1) [OF assms(6)])
  have "on_ReqGameStart (dec_RES_GAME_START a) (?b\<lparr>notifyPackets := []\<rparr>) = Inl NullDeref"
    by (rule start_without_button [of _ ?g]) (use v assms(3) in \<open>simp_all add: GetInGameScene_def\<close>)
  then have h: "HandlerThread ?b = Inl NullDeref"
    using v a(3) c by (simp add: HandlerThread_def handle_response_def handle_notify_def
        packet_of_def handler_Response_def Response_def)
  have "sync_loop ?s = sync_loop ?w"
    using sync_waits [of ?s n] q by (simp add: set_ingame_def)
  also have "\<dots> = sync_loop ?b"
    using p q by (subst sync_loop.simps) (simp add: HandlerThread_idle set_ingame_def)
  also have "\<dots> = Some (Inl NullDeref)" using h v by (subst sync_loop.simps) simp
  finally have "sync_loop ?s = Some (Inl NullDeref)" .
  with send q assms(2) show ?thesis
    by (simp add: InGameScene_Start_def SendSync_def Let_def set_ingame_def)
qed

text \<open>The notification of a start, and a client that enters room 1 while it is on its way.\<close>

definition start_notice :: RES_GAME_START where
  "start_notice = default_RES_GAME_START\<lparr>resultID := Result_SUCCESS, PacketLength := 42,
     PacketId := packet_id PID_RES_GAME_START\<rparr>"

lemma start_notice_ok: "answer_ok sizeof_RES_GAME_START PID_RES_GAME_START 0 (enc_RES_GAME_START start_notice)"
proof -
  have v: "valid_RES_GAME_START start_notice"
    by (simp add: start_notice_def valid_RES_GAME_START_def valid_BASE_def default_RES_GAME_START_def
        default_BASE_PACKET_def BASE_PACKET.defs RES_GAME_START.defs list_all_iff)
  have h: "header_of start_notice = \<lparr>PacketLength = 42, PacketId = packet_id PID_RES_GAME_START,
      sequenceIndex = 0, sessionIndex = 0\<rparr>"
    by (simp add: header_of_def start_notice_def default_RES_GAME_START_def default_BASE_PACKET_def
        BASE_PACKET.defs RES_GAME_START.defs PACKET_HEADER.defs)
  show ?thesis
    using res_game_start.enc_is_packet [OF v] res_game_start.length_enc [OF v]
      res_game_start.dec_header_enc [OF v, of "[]"]
    by (simp add: answer_ok_def h sizeof_RES_GAME_START_def)
qed

definition entering_client :: Client where
  "entering_client = (connected_client (enc_RES_GAME_START start_notice))
     \<lparr>curScene := Some (InGame (new_InGameScene 1))\<rparr>"

lemma entering_client_ok: "client_ok entering_client"
  using connected_client_ok [of "enc_RES_GAME_START start_notice"]
  by (simp add: entering_client_def client_ok_def scene_ok_def new_InGameScene_def requests_ok_def)

lemma entering_client_quiet: "quiet_until_answer 2 (enc_RES_GAME_START start_notice) entering_client"
proof -
  have "length (enc_RES_GAME_START start_notice) < 20000"
    using start_notice_ok by (simp add: answer_ok_def sizeof_RES_GAME_START_def)
  from connected_client_quiet [OF this] show ?thesis
    by (simp add: quiet_until_answer_def entering_client_def)
qed

theorem early_start_crashes_witness: "InGameScene_Start entering_client = Some (Inl NullDeref)"
  by (rule early_start_crashes [OF entering_client_ok _ _ entering_client_quiet _ start_notice_ok,
        where g = "new_InGameScene 1"])
     (simp_all add: entering_client_def GetInGameScene_def new_InGameScene_def connected_client_def
        new_Client_def)

end
