(* ===== verification/TimerClaims.thy ===== *)
theory TimerClaims
  imports TimerFacts
begin

text \<open>The properties of the frame timer.\<close>

section \<open>Fixed steps\<close>

text \<open>C20: a tick in fixed-step mode ends, for every positive target and every update that returns: it
  calls the update once per whole target in the accumulated time, each call on the game the one
  before has left and on the timer after its step, counts exactly these calls and carries the
  remainder over to the next tick, so no time is lost.\<close>

theorem fixed_step_tick:
  assumes "m_isFixedTimeStep t" and "0 < m_targetElapsedTicks t"
    and "\<And>t s. update t s = Some (Inr (g t s))"
    and "acc = m_leftOverTicks t + snap_to_target t (clamped_delta t (now - m_qpcLastTime t))"
    and "n = unat (acc div m_targetElapsedTicks t)"
    and "t0 = t\<lparr>m_qpcLastTime := now, m_leftOverTicks := acc,
                m_qpcSecondCounter := m_qpcSecondCounter t + (now - m_qpcLastTime t)\<rparr>"
  shows "\<exists>t'. Tick update now t s = Some (Inr (t', fixed_calls g n t0 s)) \<and>
           m_leftOverTicks t' = acc mod m_targetElapsedTicks t \<and>
           m_frameCount t' = m_frameCount t + of_nat n \<and>
           m_totalTicks t' = m_totalTicks t + of_nat n * m_targetElapsedTicks t"
proof -
  let ?t = "t\<lparr>m_qpcLastTime := now, m_qpcSecondCounter := m_qpcSecondCounter t + (now - m_qpcLastTime t)\<rparr>"
  let ?u = "track_framerate (m_frameCount t) (fixed_updates n t0)"
  have t0: "t0 = ?t\<lparr>m_leftOverTicks := acc\<rparr>" by (simp add: assms(6))
  have acc: "m_leftOverTicks t + snap_to_target ?t (clamped_delta ?t (now - m_qpcLastTime t)) = acc"
    by (simp add: assms(4) snap_to_target_def clamped_delta_def)
  have "0 < m_targetElapsedTicks t0" "n = unat (m_leftOverTicks t0 div m_targetElapsedTicks t0)"
    using assms(2,5) by (simp_all add: assms(6))
  from fixed_loop_runs [OF this(1) assms(3) this(2), where s = s]
  have run: "fixed_loop update t0 s = Some (Inr (fixed_updates n t0, fixed_calls g n t0 s))" .
  have tick: "Tick update now t s = Some (Inr (?u, fixed_calls g n t0 s))"
    using assms(1) run unfolding t0 by (simp add: Tick_def Let_def acc)
  have keep: "m_leftOverTicks (track_framerate c x) = m_leftOverTicks x"
    "m_frameCount (track_framerate c x) = m_frameCount x" "m_totalTicks (track_framerate c x) = m_totalTicks x"
    for c x by (simp_all add: track_framerate_def Let_def)
  have n: "of_nat n = acc div m_targetElapsedTicks t" by (simp add: assms(5))
  have "m_leftOverTicks ?u = acc - acc div m_targetElapsedTicks t * m_targetElapsedTicks t"
    by (simp add: keep fixed_updates_sel n) (simp add: assms(6))
  also have "\<dots> = acc mod m_targetElapsedTicks t" by (simp add: minus_div_mult_eq_mod)
  finally have "m_leftOverTicks ?u = acc mod m_targetElapsedTicks t" .
  moreover have "m_frameCount ?u = m_frameCount t + of_nat n"
    "m_totalTicks ?u = m_totalTicks t + of_nat n * m_targetElapsedTicks t"
    by (simp_all add: keep fixed_updates_sel) (simp_all add: assms(6))
  ultimately show ?thesis using tick by blast
qed

text \<open>A timer with a frequency of ten million, 60 steps a second and 20 ms since its last tick.\<close>

definition sixty :: StepTimer where
  "sixty = SetFixedTimeStep True (new_StepTimer 10000000 0)"

theorem fixed_step_tick_witness:
  "\<exists>t'. Tick (\<lambda>t s. Some (Inr (unat (m_elapsedTicks t) # s))) 400000 sixty [] = Some (Inr (t', [166666, 166666])) \<and>
     m_frameCount t' = 2 \<and> m_leftOverTicks t' = 66668"
proof -
  let ?t = "sixty\<lparr>m_qpcLastTime := 400000, m_leftOverTicks := 400000,
    m_qpcSecondCounter := m_qpcSecondCounter sixty + (400000 - m_qpcLastTime sixty)\<rparr>"
  have d: "m_leftOverTicks sixty + snap_to_target sixty (clamped_delta sixty (400000 - m_qpcLastTime sixty)) = 400000"
    "m_isFixedTimeStep sixty" "0 < m_targetElapsedTicks sixty" "m_targetElapsedTicks sixty = 166666"
    "m_frameCount sixty = 0"
    by (simp_all add: sixty_def SetFixedTimeStep_def new_StepTimer_def snap_to_target_def clamped_delta_def
        TicksPerSecond_def Let_def)
  have "fixed_calls (\<lambda>t. (#) (unat (m_elapsedTicks t))) (Suc (Suc 0)) ?t [] = [166666, 166666]"
    by (simp add: fixed_update_def d(4))
  with fixed_step_tick [OF d(2,3) refl d(1) [symmetric] _ refl, of "Suc (Suc 0)" "\<lambda>t. (#) (unat (m_elapsedTicks t))" "[]"]
  show ?thesis by (auto simp: d(4,5))
qed

section \<open>The time of a frame\<close>

lemma f64_round_ratio_bound:
  assumes "0 < q"
  shows "f64_round_ratio p q * int q * 2 ^ 52 \<le> int p * (2 ^ 52 + 1) + int q * 2 ^ 52"
proof -
  let ?k = "shift_count (p div q) - 29"
  let ?d = "q * 2 ^ ?k"
  have "f64_round_ratio p q \<le> int ((p div ?d + 1) * 2 ^ ?k)"
    by (simp only: f64_round_ratio_def Let_def of_nat_le_iff) simp
  then have "f64_round_ratio p q * int q \<le> int ((p div ?d + 1) * 2 ^ ?k) * int q"
    by (rule mult_right_mono) simp
  also have "\<dots> = int (p div ?d * ?d + ?d)" by (simp add: algebra_simps)
  also have "\<dots> \<le> int (p + ?d)" by (simp only: of_nat_le_iff) (simp add: div_times_less_eq_dividend)
  finally have r: "f64_round_ratio p q * int q \<le> int p + int ?d" by simp
  have "int ?d * 2 ^ 52 \<le> int p + int q * 2 ^ 52"
  proof (cases ?k)
    case 0
    then show ?thesis by simp
  next
    case (Suc n)
    then have "shift_count (p div q) = Suc (n + 29)" by simp
    from shift_count_tight [OF this] have "16777216 * 2 ^ (n + 29) * q \<le> p div q * q" by (rule mult_le_mono1)
    also have "\<dots> \<le> p" by (rule div_times_less_eq_dividend)
    finally have "?d * 2 ^ 52 \<le> p" unfolding Suc by (simp add: power_add algebra_simps)
    then have "int (?d * 2 ^ 52) \<le> int p" by (simp only: of_nat_le_iff)
    then show ?thesis by simp
  qed
  with mult_right_mono [OF r, of "2 ^ 52"] show ?thesis by (simp add: algebra_simps)
qed

lemma f64_round_ratio_nonneg: "0 \<le> f64_round_ratio p q"
  by (simp only: f64_round_ratio_def Let_def of_nat_0_le_iff)

lemma frame_time_bound:
  assumes "unat (m_elapsedTicks t) \<le> 1000000"
  shows "1000 * f32_norm 0 (GetElapsedSeconds t) \<le> 101 * f32_one"
proof -
  define n where "n = unat (m_elapsedTicks t)"
  define x where "x = f64_round_ratio (n * 2 ^ 149) 1"
  define y where "y = f64_round_ratio (nat x) 10000000"
  define e where "e = f32_norm 0 y"
  have nx: "0 \<le> x" "0 \<le> y" by (simp_all add: x_def y_def f64_round_ratio_nonneg)
  have x: "x * 2 ^ 52 \<le> int n * 2 ^ 149 * (2 ^ 52 + 1) + 2 ^ 52"
    using f64_round_ratio_bound [of 1 "n * 2 ^ 149"] unfolding x_def [symmetric] by simp
  have y: "y * 10000000 * 2 ^ 52 \<le> x * (2 ^ 52 + 1) + 10000000 * 2 ^ 52"
    using f64_round_ratio_bound [of 10000000 "nat x"] nx unfolding y_def [symmetric] by simp
  have e: "16777216 * (e - y) \<le> y + 8388608"
  proof -
    have "16777216 * (e - y) \<le> 16777216 * \<bar>e - y\<bar>" by (intro mult_left_mono abs_ge_self) simp
    also have "\<dots> \<le> \<bar>y\<bar> + 8388608" using f32_norm0_error [of y] by (simp only: e_def)
    finally show ?thesis by (simp add: abs_of_nonneg [OF nx(2)])
  qed
  have "n \<le> 1000000" using assms by (simp only: n_def)
  then have n: "int n \<le> 1000000" by simp
  have "int n * (2 ^ 149 * (2 ^ 52 + 1)) \<le> 1000000 * (2 ^ 149 * (2 ^ 52 + 1))"
    by (rule mult_right_mono [OF n]) simp
  with x have "x * 4503599627370496 \<le> 3213876088517981264707770537662265734187390712313158365575691370496" by (simp add: mult.assoc)
  then have x': "x \<le> 713623846352980098985468013253422755279273984000002" by simp
  from y have "y * 45035996273704960000000 \<le> x * 4503599627370497 + 45035996273704960000000" by simp
  with x' have y': "y \<le> 71362384635298025744179304178213312673926350" by simp
  from e y' have "e \<le> 71362388888827612255911986416989053429324188" by simp
  then have "1000 * e \<le> 101 * 713623846352979940529142984724747568191373312" by simp
  moreover have "f32_norm 0 (GetElapsedSeconds t) = e"
    by (simp add: e_def y_def x_def n_def GetElapsedSeconds_def TicksToSeconds_def)
  ultimately show ?thesis by (simp add: f32_one_def)
qed

text \<open>C34: however much time passes between two frames, the update of a frame is called once, and what
  it sees is the time cut off at \<open>m_qpcMaxDelta\<close>, a tenth of a second, and converted exactly, without
  any of the products wrapping around: at most a million ticks, which \<open>GetElapsedSeconds\<close> gives as
  at most 0.101 seconds.  This holds for every frequency of the counter below \<open>2^44\<close>.\<close>

theorem frame_sees_a_tenth_of_a_second:
  assumes "m_qpcMaxDelta t = m_qpcFrequency t div 10" and "m_qpcFrequency t \<noteq> 0"
    and "unat (m_qpcFrequency t) < 2 ^ 44" and "\<not> m_isFixedTimeStep t"
  shows "\<exists>t'. unat (m_elapsedTicks t') =
             min (unat (now - m_qpcLastTime t)) (unat (m_qpcFrequency t) div 10) * 10000000 div unat (m_qpcFrequency t) \<and>
           unat (m_elapsedTicks t') \<le> 1000000 \<and>
           1000 * f32_norm 0 (GetElapsedSeconds t') \<le> 101 * f32_one \<and>
           m_frameCount t' = m_frameCount t + 1 \<and>
           Tick update now t s =
             map_option (\<lambda>r. case r of Inl e \<Rightarrow> Inl e
                                     | Inr s' \<Rightarrow> Inr (track_framerate (m_frameCount t) t', s'))
               (update t' s)"
proof -
  let ?t = "t\<lparr>m_qpcLastTime := now, m_qpcSecondCounter := m_qpcSecondCounter t + (now - m_qpcLastTime t)\<rparr>"
  let ?v = "variable_update (clamped_delta ?t (now - m_qpcLastTime t)) ?t"
  have t: "m_qpcMaxDelta ?t = m_qpcFrequency ?t div 10" "m_qpcFrequency ?t \<noteq> 0" "unat (m_qpcFrequency ?t) < 2 ^ 44"
    using assms by simp_all
  note clamp = clamped_delta_bound [OF t, of "now - m_qpcLastTime t"]
  have "unat (m_qpcMaxDelta t) = unat (m_qpcFrequency t) div 10" using assms(1) by (simp add: unat_div)
  then have ticks: "unat (m_elapsedTicks ?v) =
      min (unat (now - m_qpcLastTime t)) (unat (m_qpcFrequency t) div 10) * 10000000 div unat (m_qpcFrequency t)"
    using clamp(1) by (simp add: variable_update_def)
  have le: "unat (m_elapsedTicks ?v) \<le> 1000000" using clamp(2) by (simp add: variable_update_def)
  moreover have "1000 * f32_norm 0 (GetElapsedSeconds ?v) \<le> 101 * f32_one" by (rule frame_time_bound [OF le])
  moreover have "m_frameCount ?v = m_frameCount t + 1" by (simp add: variable_update_def)
  moreover have "Tick update now t s =
      map_option (\<lambda>r. case r of Inl e \<Rightarrow> Inl e | Inr s' \<Rightarrow> Inr (track_framerate (m_frameCount t) ?v, s'))
        (update ?v s)"
    using assms(4) by (auto simp: Tick_def Let_def option.map_comp intro!: option.map_cong split: sum.split)
  ultimately show ?thesis using ticks by (intro exI [of _ ?v] conjI)
qed

theorem frame_sees_a_tenth_of_a_second_witness:
  "\<exists>t'. unat (m_elapsedTicks t') = 1000000 \<and>
     Tick (\<lambda>t s. Some (Inr (unat (m_elapsedTicks t)))) 900000000 (new_StepTimer 10000000 0) 0 =
       Some (Inr (track_framerate 0 t', 1000000))"
proof -
  let ?t = "new_StepTimer 10000000 0"
  have t: "m_qpcMaxDelta ?t = m_qpcFrequency ?t div 10" "m_qpcFrequency ?t \<noteq> 0"
    "unat (m_qpcFrequency ?t) < 2 ^ 44" "\<not> m_isFixedTimeStep ?t" "m_frameCount ?t = 0"
    "unat (900000000 - m_qpcLastTime ?t) = 900000000" "unat (m_qpcFrequency ?t) = 10000000"
    by (simp_all add: new_StepTimer_def)
  from frame_sees_a_tenth_of_a_second [OF t(1-4), of 900000000 "\<lambda>t s. Some (Inr (unat (m_elapsedTicks t)))" 0] t(5-7)
  show ?thesis by auto
qed

end
