(* ===== verification/ClientView.thy ===== *)
theory ClientView
  imports ClientScenes
begin

text \<open>
  What the client draws: \<open>ResourceLoader\<close> and \<open>Renderer\<close> of \<open>IOCPTetrisClient/System/\<close>, \<open>Render\<close> of
  the scenes and of \<open>Game\<close>.

  \<^item> Drawing a frame gives the list of what is handed to the sprite batch, the primitive batch and
    the font, in order.  A sprite is drawn from the texture and the tile of its resource.
  \<^item> The rectangle of DirectXTK converts itself to a \<open>RECT\<close> and gives its centre: the record
    \<open>RectangleLib\<close> holds these two functions.  Which texture files can be read is the argument
    \<open>readable\<close>.
  \<^item> A position travels as a float and is truncated to a \<open>long\<close> again, as the signatures of the
    source say.  Constants of a call (colour, rotation, origin of the texture, flipping) and the
    extent of a text, which only shift what is drawn as a whole, are left out.
\<close>

section \<open>Floats\<close>

text \<open>The positive quotient \<open>p / q\<close> rounded to 24 significant bits, ties to even.\<close>

definition f32_round_ratio :: "nat \<Rightarrow> nat \<Rightarrow> int" where
  "f32_round_ratio p q =
     (let k = shift_count (p div q);
          d = q * 2 ^ k; m = p div d; r = 2 * (p mod d)
      in int ((if r > d \<or> (r = d \<and> odd m) then m + 1 else m) * 2 ^ k))"

definition f32_div :: "f32 \<Rightarrow> f32 \<Rightarrow> f32" where
  "f32_div a b = sgn a * sgn b * f32_round_ratio (nat \<bar>a\<bar> * 2 ^ 149) (nat \<bar>b\<bar>)"

definition f32_trunc :: "f32 \<Rightarrow> int" where
  "f32_trunc a = sgn a * (\<bar>a\<bar> div f32_one)"

section \<open>Resources\<close>

type_synonym RECT = "int \<times> int \<times> int \<times> int"

record ResourceInfo =
  rect :: RECT
  path :: string

record ResourceObject =
  texture :: string
  tile :: RECT

definition BLOCK :: "int \<Rightarrow> int" where "BLOCK x = x * BLOCKSIZE"

definition RESOURCE_ROOT_PATH :: string where "RESOURCE_ROOT_PATH = ''Resource''"

definition block_tile :: "int \<Rightarrow> int \<Rightarrow> RECT" where
  "block_tile x y = (BLOCK x, BLOCK y, BLOCK (x + 1), BLOCK (y + 1))"

definition RESOURCE_DIC :: "(ResourceID \<times> ResourceInfo) list" where
  "RESOURCE_DIC =
     [(BLOCK_RED, \<lparr>rect = block_tile 0 0, path = ''tetrio.png''\<rparr>),
      (BLOCK_ORANGE, \<lparr>rect = block_tile 1 0, path = ''tetrio.png''\<rparr>),
      (BLOCK_YELLOW, \<lparr>rect = block_tile 2 0, path = ''tetrio.png''\<rparr>),
      (BLOCK_GREEN, \<lparr>rect = block_tile 3 0, path = ''tetrio.png''\<rparr>),
      (BLOCK_MINT, \<lparr>rect = block_tile 4 0, path = ''tetrio.png''\<rparr>),
      (BLOCK_PURPLE, \<lparr>rect = block_tile 0 1, path = ''tetrio.png''\<rparr>),
      (BLOCK_PINK, \<lparr>rect = block_tile 1 1, path = ''tetrio.png''\<rparr>),
      (BLOCK_WALL, \<lparr>rect = block_tile 3 1, path = ''tetrio.png''\<rparr>),
      (Res_EMPTY, \<lparr>rect = block_tile 2 1, path = ''tetrio.png''\<rparr>),
      (Res_EXPECT, \<lparr>rect = block_tile 0 0, path = ''alpha.png''\<rparr>),
      (Res_GRID, \<lparr>rect = (0, 0, 1024, 1024), path = ''grid.png''\<rparr>)]"

text \<open>The ids after \<open>NONE\<close> and before \<open>END\<close>, in the order of the enumeration.\<close>

definition resource_ids :: "ResourceID list" where
  "resource_ids = [BLOCK_RED, BLOCK_ORANGE, BLOCK_YELLOW, BLOCK_GREEN, BLOCK_MINT, BLOCK_PURPLE,
     BLOCK_PINK, BLOCK_WALL, Res_GRID, Res_EMPTY, Res_EXPECT]"

type_synonym resource_map = "ResourceID \<Rightarrow> ResourceObject option"

definition LoadResource ::
    "(string \<Rightarrow> bool) \<Rightarrow> ResourceID \<Rightarrow> string \<Rightarrow> RECT \<Rightarrow> resource_map \<Rightarrow> resource_map res" where
  "LoadResource readable rid p r m =
     (let fullPath = RESOURCE_ROOT_PATH @ ''/'' @ p
      in if \<not> readable fullPath then Inl ComException
         else Inr (m(rid \<mapsto> \<lparr>texture = fullPath, tile = r\<rparr>)))"

definition ResourceLoader_Init :: "(string \<Rightarrow> bool) \<Rightarrow> resource_map res" where
  "ResourceLoader_Init readable =
     fold_res (\<lambda>rid m.
         bind_res (of_option OutOfRange (map_of RESOURCE_DIC rid)) (\<lambda>info.
         LoadResource readable rid (path info) (rect info) m))
       resource_ids Map.empty"

definition GetResource :: "resource_map \<Rightarrow> ResourceID \<Rightarrow> ResourceObject option" where
  "GetResource m rid = m rid"

section \<open>The renderer\<close>

record Scale =
  scale_x :: f32
  scale_y :: f32

datatype draw =
    Sprite ResourceObject f32 f32 Scale
  | Quad "(f32 \<times> f32) list"
  | DrawnText string f32 f32 Scale

record RectangleLib =
  Center :: "Rectangle \<Rightarrow> f32 \<times> f32"
  to_RECT :: "Rectangle \<Rightarrow> RECT"

definition DEFAULT_WIDTH_SIZE :: int where "DEFAULT_WIDTH_SIZE = 1920"
definition DEFAULT_HEIGHT_SIZE :: int where "DEFAULT_HEIGHT_SIZE = 1080"

text \<open>The part of \<open>Begin\<close> that depends on the output size.\<close>

definition Renderer_Begin :: "RECT \<Rightarrow> Scale" where
  "Renderer_Begin sz =
     (case sz of (l, t, r, b) \<Rightarrow>
        \<lparr>scale_x = f32_div (f32_of_int (r - l)) (f32_of_int DEFAULT_WIDTH_SIZE),
         scale_y = f32_div (f32_of_int (b - t)) (f32_of_int DEFAULT_HEIGHT_SIZE)\<rparr>)"

definition Lerp :: "f32 \<Rightarrow> f32 \<Rightarrow> f32 \<Rightarrow> f32" where
  "Lerp a b alpha = f32_add (f32_mul a (f32_sub f32_one alpha)) (f32_mul b alpha)"

definition LerpLine :: "int \<Rightarrow> int \<Rightarrow> f32 \<times> f32" where
  "LerpLine x y =
     (Lerp (f32_neg f32_one) f32_one (f32_div (f32_of_int x) (f32_of_int DEFAULT_WIDTH_SIZE)),
      Lerp f32_one (f32_neg f32_one) (f32_div (f32_of_int y) (f32_of_int DEFAULT_HEIGHT_SIZE)))"

definition LerpPos :: "Scale \<Rightarrow> int \<Rightarrow> int \<Rightarrow> f32 \<times> f32" where
  "LerpPos sc x y = (Lerp 0 (f32_of_int x) (scale_x sc), Lerp 0 (f32_of_int y) (scale_y sc))"

definition PositionToVector2 :: "Vector2D \<Rightarrow> f32 \<times> f32" where
  "PositionToVector2 p = (f32_of_int (BLOCK (vx p)), f32_of_int (BLOCK (vy p)))"

definition Draw :: "Scale \<Rightarrow> Vector2D \<Rightarrow> ResourceObject \<Rightarrow> draw" where
  "Draw sc p r =
     (let (x, y) = PositionToVector2 p; (a, b) = LerpPos sc (f32_trunc x) (f32_trunc y)
      in Sprite r a b sc)"

definition Render_blocks :: "Scale \<Rightarrow> resource_map \<Rightarrow> Vector2D \<Rightarrow> BlockInfo list \<Rightarrow> draw list" where
  "Render_blocks sc m p objects =
     concat (map (\<lambda>object. case GetResource m (resourceID object) of
                             None \<Rightarrow> []
                           | Some r \<Rightarrow> [Draw sc (vec_add (bpos object) p) r]) objects)"

definition GetButtonTexts :: "RectangleLib \<Rightarrow> 'a Button_scheme \<Rightarrow> ButtonText list" where
  "GetButtonTexts lib b =
     (let (cx, cy) = Center lib (collision b)
      in map (\<lambda>t. t\<lparr>text_x := f32_trunc (f32_add (f32_of_int (text_x t)) cx),
                    text_y := f32_trunc (f32_add (f32_of_int (text_y t)) cy)\<rparr>) (buttonTexts b))"

definition DrawRect :: "RECT \<Rightarrow> draw" where
  "DrawRect rc =
     (case rc of (l, t, r, b) \<Rightarrow>
        Quad [LerpLine l t, LerpLine r t, LerpLine r b, LerpLine l b])"

definition DrawText :: "Scale \<Rightarrow> ButtonText \<Rightarrow> draw" where
  "DrawText sc t =
     (let (a, b) = LerpPos sc (f32_trunc (f32_of_int (text_x t))) (f32_trunc (f32_of_int (text_y t)))
      in DrawnText (text_string t) a b sc)"

definition Render_button :: "RectangleLib \<Rightarrow> Scale \<Rightarrow> 'a Button_scheme \<Rightarrow> draw list" where
  "Render_button lib sc b =
     (if \<not> isEnable b then []
      else DrawRect (to_RECT lib (collision b)) # map (DrawText sc) (GetButtonTexts lib b))"

section \<open>Scenes and frames\<close>

definition LobbyScene_Render :: "RectangleLib \<Rightarrow> Scale \<Rightarrow> LobbyScene \<Rightarrow> draw list" where
  "LobbyScene_Render lib sc l = concat (map (Render_button lib sc) (m_buttons l))"

definition InGameScene_Render ::
    "RectangleLib \<Rightarrow> Scale \<Rightarrow> resource_map \<Rightarrow> InGameScene \<Rightarrow> draw list res" where
  "InGameScene_Render lib sc m g =
     bind_res (of_option NullDeref (tetrisBoard g)) (\<lambda>mine.
     bind_res (of_option NullDeref (enemyBoard g)) (\<lambda>enemy.
     bind_res (of_option NullDeref (gameStartButton g)) (\<lambda>b.
     bind_res (of_option NullDeref (gameLeaveButton g)) (\<lambda>l.
     Inr (Render_blocks sc m (vec 4 0) (GetRenderInfo mine) @
          Render_blocks sc m (vec 24 0) (GetRenderInfo enemy) @
          Render_button lib sc b @ Render_button lib sc l)))))"

definition Game_Render ::
    "RectangleLib \<Rightarrow> resource_map \<Rightarrow> RECT \<Rightarrow> StepTimer \<Rightarrow> Client \<Rightarrow> draw list res" where
  "Game_Render lib m output_size timer s =
     (if m_frameCount timer = 0 then Inr []
      else let sc = Renderer_Begin output_size
           in case curScene s of
                None \<Rightarrow> Inr []
              | Some (Lobby l) \<Rightarrow> Inr (LobbyScene_Render lib sc l)
              | Some (InGame g) \<Rightarrow> InGameScene_Render lib sc m g)"

end
