(* ===== verification/DrawFacts.thy ===== *)
theory DrawFacts
  imports ClientView
begin

text \<open>
  Facts about the floats of the drawing: small integers are exact, and so are their products, their
  quotients and the scale of a window that is a multiple of the design size.
\<close>

lemma f32_mul_of_int:
  assumes "\<bar>a * b\<bar> < 16777216"
  shows "f32_mul (a * f32_one) (b * f32_one) = a * b * f32_one"
proof -
  let ?q = "nat \<bar>a * b\<bar>"
  have n: "nat \<bar>a * f32_one * (b * f32_one)\<bar> = ?q * 2 ^ 298"
    by (simp add: f32_one_def abs_mult nat_mult_distrib)
  let ?e = "max 149 (shift_count (?q * 2 ^ 298))"
  have "?e \<le> 298" using shift_count_shifted [of ?q 298] assms by simp
  then have "rne_shift (?q * 2 ^ 298) ?e * 2 ^ (?e - 149) = ?q * 2 ^ (298 - ?e) * 2 ^ (?e - 149)"
    by (simp only: rne_shift_multiple)
  also have "\<dots> = ?q * 2 ^ 149" using \<open>?e \<le> 298\<close> by (simp flip: power_add add: mult.assoc)
  finally have "f32_norm 149 (a * f32_one * (b * f32_one)) =
      sgn (a * f32_one * (b * f32_one)) * int (?q * 2 ^ 149)"
    unfolding f32_norm_def Let_def n by simp
  also have "\<dots> = sgn (a * b) * \<bar>a * b\<bar> * f32_one" by (simp add: sgn_mult f32_one_eq)
  finally show ?thesis by (simp only: f32_mul_def sgn_mult_abs)
qed

lemma f32_div_of_int:
  assumes "0 < b" and "0 < n" and "n < 16777216"
  shows "f32_div (n * b * f32_one) (b * f32_one) = n * f32_one"
proof -
  define q k where "q = nat b * 2 ^ 149" and "k = shift_count (nat n * 2 ^ 149)"
  have p: "nat \<bar>n * b * f32_one\<bar> = nat n * q" "nat \<bar>b * f32_one\<bar> = q"
    using assms by (simp_all add: q_def abs_mult nat_mult_distrib f32_one_def)
  have pos: "0 < q" using assms by (simp add: q_def)
  have k: "k \<le> 149" unfolding k_def using assms by (intro shift_count_shifted) simp
  have split: "(2 :: nat) ^ 149 = 2 ^ (149 - k) * 2 ^ k" using k by (simp flip: power_add)
  have whole: "nat n * q * 2 ^ 149 div q = nat n * 2 ^ 149"
    using pos by (simp only: nonzero_mult_div_cancel_right mult.commute [of _ q] mult.assoc) simp
  have exact: "nat n * q * 2 ^ 149 = (nat n * 2 ^ (149 - k)) * (q * 2 ^ k)"
    unfolding split by (simp only: ac_simps)
  have "f32_round_ratio (nat n * q * 2 ^ 149) q = int (nat n * 2 ^ (149 - k) * 2 ^ k)"
    unfolding f32_round_ratio_def whole k_def [symmetric] Let_def unfolding exact
    using pos by simp
  also have "\<dots> = n * f32_one"
    using assms by (simp only: mult.assoc split [symmetric]) (simp add: f32_one_def)
  finally show ?thesis
    using assms by (simp only: f32_div_def p) (simp add: sgn_mult)
qed

lemma f32_trunc_of_int: "\<bar>n\<bar> < 16777216 \<Longrightarrow> f32_trunc (f32_of_int n) = n"
  by (simp add: f32_of_int_exact f32_trunc_def abs_mult sgn_mult f32_one_def sgn_mult_abs)

lemma f32_trunc_half:
  assumes "0 \<le> m" and "m < 16777216"
  shows "f32_trunc (f32_add (f32_of_int 0) (m * (f32_one div 2))) = m div 2"
proof -
  have half: "f32_one div 2 = 2 ^ 148" by (simp add: f32_one_eq)
  have "f32_norm 0 (int (nat m * 2 ^ 148)) = int (nat m * 2 ^ 148)"
    using assms by (intro f32_norm_representable) simp
  then have "f32_add (f32_of_int 0) (m * (f32_one div 2)) = m * 2 ^ 148"
    using assms unfolding half by (simp add: f32_add_def f32_of_int_def)
  moreover have "m * 2 ^ 148 div 2 ^ 149 = m div 2"
    using div_mult_mult2 [of "2 ^ 148" m "2 :: int"] by simp
  ultimately show ?thesis
    using assms by (cases "m = 0") (simp_all add: f32_trunc_def f32_one_eq abs_mult sgn_mult)
qed

lemma scale_of_multiple:
  assumes "1 \<le> n" and "n \<le> 8000"
  shows "Renderer_Begin (0, 0, n * 1920, n * 1080) = \<lparr>scale_x = n * f32_one, scale_y = n * f32_one\<rparr>"
proof -
  have b: "\<bar>n * 1920\<bar> < 16777216" "\<bar>n * 1080\<bar> < 16777216" using assms by simp_all
  have d: "f32_of_int 1920 = 1920 * f32_one" "f32_of_int 1080 = 1080 * f32_one"
    by (rule f32_of_int_exact; simp)+
  show ?thesis
    using assms f32_div_of_int [of 1920 n] f32_div_of_int [of 1080 n]
    by (simp add: Renderer_Begin_def DEFAULT_WIDTH_SIZE_def DEFAULT_HEIGHT_SIZE_def d
        f32_of_int_exact [OF b(1)] f32_of_int_exact [OF b(2)])
qed

lemma Lerp_of_int:
  assumes "\<bar>a * n\<bar> < 16777216" and "\<bar>a\<bar> < 16777216"
  shows "Lerp 0 (f32_of_int a) (n * f32_one) = f32_of_int (a * n)"
proof -
  have "f32_mul 0 c = 0" for c by (simp add: f32_mul_def)
  then have "Lerp 0 (f32_of_int a) (n * f32_one) = f32_norm 0 (a * n * f32_one)"
    by (simp add: Lerp_def f32_of_int_exact [OF assms(2)] f32_mul_of_int [OF assms(1)] f32_add_def)
  then show ?thesis by (simp add: f32_of_int_def)
qed

end
