(* ===== verification/Rendering.thy ===== *)
theory Rendering
  imports ClientView
begin

text \<open>
  The object \<open>Renderer\<close> of \<open>IOCPTetrisClient/System/Renderer.cpp\<close> around the draw calls of
  \<open>ClientView\<close>: its batches, \<open>Begin\<close> and \<open>End\<close>, and the calls that a frame makes.

  \<^item> A \<open>unique_ptr\<close> is a flag that tells whether it holds an object.  The calls to DirectXTK and to the
    context are logged in \<open>r_calls\<close>, which are items between the begin and the end of the batches.
  \<^item> \<open>GetSystemMetrics(SM_CYCAPTION)\<close> is the argument \<open>caption\<close>.
\<close>

section \<open>State\<close>

datatype batch_call =
    OpaqueBlend | DepthNone | CullNone | ApplyEffect | SetInputLayout
  | SpriteBegin | BatchBegin | Item draw | BatchEnd | SpriteEnd

record Renderer =
  m_effect :: bool
  m_font :: bool
  m_batch :: bool
  m_spriteBatch :: bool
  r_scale :: Scale
  r_center :: "f32 \<times> f32"
  captionSize :: int
  r_calls :: "batch_call list"

text \<open>The constructor; the font is read from a file, and the input layout may be refused.\<close>

definition new_Renderer :: "bool \<Rightarrow> bool \<Rightarrow> Renderer res" where
  "new_Renderer font_read layout_made =
     bind_res (guard_res RuntimeError font_read) (\<lambda>_.
     bind_res (guard_res ComException layout_made) (\<lambda>_.
     Inr \<lparr>m_effect = True, m_font = True, m_batch = True, m_spriteBatch = True,
          r_scale = \<lparr>scale_x = f32_one, scale_y = f32_one\<rparr>, r_center = (0, 0), captionSize = 0,
          r_calls = []\<rparr>))"

definition Renderer_Reset :: "Renderer \<Rightarrow> Renderer" where
  "Renderer_Reset r =
     r\<lparr>m_effect := False, m_font := False, m_batch := False, m_spriteBatch := False\<rparr>"

section \<open>Operations\<close>

definition log_calls :: "batch_call list \<Rightarrow> Renderer \<Rightarrow> Renderer" where
  "log_calls cs r = r\<lparr>r_calls := r_calls r @ cs\<rparr>"

definition Renderer_Begin_frame :: "int \<Rightarrow> RECT \<Rightarrow> Renderer \<Rightarrow> Renderer res" where
  "Renderer_Begin_frame caption sz r =
     (case sz of (left, upper, right, lower) \<Rightarrow>
      let r1 = r\<lparr>r_scale := Renderer_Begin sz\<rparr>;
          r2 = r1\<lparr>r_center := (f32_mul (f32_of_int (right - left)) (f32_one div 2),
                 f32_add (f32_mul (f32_of_int (lower - upper)) (f32_one div 2)) (f32_of_int caption)),
               captionSize := caption\<rparr>;
          r3 = log_calls [OpaqueBlend, DepthNone, CullNone] r2
      in bind_res (guard_res NullDeref (m_effect r3)) (\<lambda>_.
         let r4 = log_calls [ApplyEffect, SetInputLayout] r3 in
         bind_res (guard_res NullDeref (m_spriteBatch r4)) (\<lambda>_.
         let r5 = log_calls [SpriteBegin] r4 in
         bind_res (guard_res NullDeref (m_batch r5)) (\<lambda>_.
         Inr (log_calls [BatchBegin] r5)))))"

definition Renderer_End :: "Renderer \<Rightarrow> Renderer res" where
  "Renderer_End r =
     bind_res (guard_res NullDeref (m_batch r)) (\<lambda>_.
     let r1 = log_calls [BatchEnd] r in
     bind_res (guard_res NullDeref (m_spriteBatch r1)) (\<lambda>_.
     Inr (log_calls [SpriteEnd] r1)))"

text \<open>The overloads of \<open>Render\<close>, \<open>Draw\<close> and \<open>DrawText\<close>.\<close>

definition Render_buttons :: "RectangleLib \<Rightarrow> Scale \<Rightarrow> 'a Button_scheme list \<Rightarrow> draw list" where
  "Render_buttons lib sc objects = concat (map (Render_button lib sc) objects)"

definition Draw_at :: "Scale \<Rightarrow> f32 \<times> f32 \<Rightarrow> ResourceObject \<Rightarrow> draw" where
  "Draw_at sc p r =
     (let (a, b) = LerpPos sc (f32_trunc (fst p)) (f32_trunc (snd p)) in Sprite r a b sc)"

definition DrawTexts :: "Scale \<Rightarrow> ButtonText list \<Rightarrow> draw list" where
  "DrawTexts sc texts = map (DrawText sc) texts"

text \<open>The renderer's part of \<open>Game::Render\<close>.\<close>

definition Render_frame ::
    "RectangleLib \<Rightarrow> resource_map \<Rightarrow> int \<Rightarrow> RECT \<Rightarrow> StepTimer \<Rightarrow> Client \<Rightarrow> Renderer \<Rightarrow> Renderer res" where
  "Render_frame lib m caption sz timer s r =
     (if m_frameCount timer = 0 then Inr r
      else
        bind_res (Renderer_Begin_frame caption sz r) (\<lambda>r1.
        bind_res (Game_Render lib m sz timer s) (\<lambda>ds.
        Renderer_End (log_calls (map Item ds) r1))))"

section \<open>Facts\<close>

lemma r_calls_log [simp]: "r_calls (log_calls cs r) = r_calls r @ cs"
  by (simp add: log_calls_def)

definition renderer_ready :: "Renderer \<Rightarrow> bool" where
  "renderer_ready r \<longleftrightarrow> m_effect r \<and> m_font r \<and> m_batch r \<and> m_spriteBatch r"

lemma renderer_ready_log [simp]: "renderer_ready (log_calls cs r) = renderer_ready r"
  by (simp add: renderer_ready_def log_calls_def)

lemma LobbyScene_Render_buttons: "LobbyScene_Render lib sc l = Render_buttons lib sc (m_buttons l)"
  by (simp add: LobbyScene_Render_def Render_buttons_def)

text \<open>A frame that can be drawn sets the device up, begins both batches, draws, and ends them.\<close>

lemma Render_frame_brackets:
  assumes "renderer_ready r" and "m_frameCount timer \<noteq> 0" and "Game_Render lib m sz timer s = Inr ds"
  shows "\<exists>r'. Render_frame lib m caption sz timer s r = Inr r' \<and> renderer_ready r' \<and>
    r_scale r' = Renderer_Begin sz \<and>
    r_calls r' = r_calls r @ [OpaqueBlend, DepthNone, CullNone, ApplyEffect, SetInputLayout,
      SpriteBegin, BatchBegin] @ map Item ds @ [BatchEnd, SpriteEnd]"
  using assms
  by (cases sz) (simp add: Render_frame_def Renderer_Begin_frame_def Renderer_End_def Let_def
      renderer_ready_def log_calls_def)

end
