(* ===== verification/ViewClaims.thy ===== *)
theory ViewClaims
  imports DrawFacts Rendering ClientClaims
begin

text \<open>
  The properties of drawing: a frame can be drawn in every state the client reaches, and the cells
  of a board appear where they are.
\<close>

section \<open>The pointers of a started scene\<close>

text \<open>The boards exist, and with \<open>k\<close> also the buttons.\<close>

definition scene_ready :: "bool \<Rightarrow> Client \<Rightarrow> bool" where
  "scene_ready k s \<longleftrightarrow>
     (\<forall>g. curScene s = Some (InGame g) \<longrightarrow> tetrisBoard g \<noteq> None \<and> enemyBoard g \<noteq> None \<and>
            (k \<longrightarrow> gameStartButton g \<noteq> None \<and> gameLeaveButton g \<noteq> None))"

lemma scene_ready_simps [simp]:
  "scene_ready k (set_lobby l s)" "scene_ready k (SetPreservedScene sc s) = scene_ready k s"
  by (simp_all add: scene_ready_def set_lobby_def SetPreservedScene_def)

lemma scene_ready_set_ingame:
  "scene_ready k (set_ingame g s) \<longleftrightarrow> tetrisBoard g \<noteq> None \<and> enemyBoard g \<noteq> None \<and>
     (k \<longrightarrow> gameStartButton g \<noteq> None \<and> gameLeaveButton g \<noteq> None)"
  by (auto simp: scene_ready_def set_ingame_def)

lemma scene_ready_ingame:
  assumes "scene_ready k s" and "GetInGameScene s = Some g"
  shows "scene_ready k (set_ingame g s)"
  using assms by (auto simp: scene_ready_def GetInGameScene_def set_ingame_def split: option.splits Scene.splits)

lemma scene_ready_AddFallingBlocks:
  "fold_res AddFallingBlock bs g = Inr h \<Longrightarrow> scene_ready k (set_ingame g s) \<Longrightarrow> scene_ready k (set_ingame h s)"
  by (erule fold_res_invariant [where P = "\<lambda>g. scene_ready k (set_ingame g s)"])
     (auto simp: AddFallingBlock_def bind_res_Inr_iff of_option_Inr_iff scene_ready_set_ingame)

lemma scene_ready_GameStart:
  "scene_GameStart g = Inr h \<Longrightarrow> scene_ready k (set_ingame g s) \<Longrightarrow> scene_ready k (set_ingame h s)"
  by (auto simp: scene_GameStart_def bind_res_Inr_iff of_option_Inr_iff scene_ready_set_ingame)

lemma scene_ready_on:
  assumes "scene_ready k s"
  shows "on_ReqLogin r1 s = Inr t \<Longrightarrow> scene_ready k t"
    and "on_ReqFallingBlock r2 s = Inr t \<Longrightarrow> scene_ready k t"
    and "on_ReqGameStart r2 s = Inr t \<Longrightarrow> scene_ready k t"
    and "on_ReqGameInput r3 s = Inr t \<Longrightarrow> scene_ready k t"
    and "on_ReqRoomCreate r4 s = Inr t \<Longrightarrow> scene_ready k t"
    and "on_ReqRoomEnter r5 s = Inr t \<Longrightarrow> scene_ready k t"
    and "on_ReqRoomLeave r6 s = Inr t \<Longrightarrow> scene_ready k t"
    and "on_ReqRoomList r7 s = Inr t \<Longrightarrow> scene_ready k t"
    and "on_nothing r6 s = Inr t \<Longrightarrow> scene_ready k t"
proof -
  note ig = scene_ready_ingame [OF assms]
  show "on_ReqLogin r1 s = Inr t \<Longrightarrow> scene_ready k t"
    using assms by (auto simp: on_ReqLogin_def scene_ready_def)
  show "on_ReqFallingBlock r2 s = Inr t \<Longrightarrow> scene_ready k t"
    using assms ig by (auto simp: on_ReqFallingBlock_def bind_res_Inr_iff split: option.splits
        intro: scene_ready_AddFallingBlocks)
  show "on_ReqGameStart r2 s = Inr t \<Longrightarrow> scene_ready k t"
    using assms ig by (auto simp: on_ReqGameStart_def bind_res_Inr_iff split: option.splits
        intro: scene_ready_AddFallingBlocks scene_ready_GameStart)
  show "on_ReqGameInput r3 s = Inr t \<Longrightarrow> scene_ready k t"
    using assms ig by (auto simp: on_ReqGameInput_def bind_res_Inr_iff scene_ready_set_ingame split: option.splits)
  show "on_ReqRoomCreate r4 s = Inr t \<Longrightarrow> scene_ready k t" "on_ReqRoomLeave r6 s = Inr t \<Longrightarrow> scene_ready k t"
    using assms by (auto simp: on_ReqRoomCreate_def on_ReqRoomLeave_def)
  show "on_ReqRoomEnter r5 s = Inr t \<Longrightarrow> scene_ready k t"
    using assms ig by (auto simp: on_ReqRoomEnter_def bind_res_Inr_iff scene_ready_set_ingame
        split: option.splits if_splits)
  show "on_ReqRoomList r7 s = Inr t \<Longrightarrow> scene_ready k t"
    using assms by (auto simp: on_ReqRoomList_def bind_res_Inr_iff split: option.splits)
  show "on_nothing r6 s = Inr t \<Longrightarrow> scene_ready k t" using assms by (simp add: on_nothing_def)
qed

lemma scene_ready_handler:
  "handler_Response c p s = Inr t \<Longrightarrow> scene_ready k s \<Longrightarrow> scene_ready k t"
  by (cases c) (auto simp: handler_Response_def Response_def bind_res_Inr_iff intro: scene_ready_on)

lemma curScene_thread_free:
  "SetRequest c p s = Inr t \<Longrightarrow> curScene t = curScene s"
  "curScene (finish_sync p s) = curScene s" "curScene (Close s) = curScene s"
  "curScene (SendThread ok s) = curScene s" "queue_packet bs s = Inr t \<Longrightarrow> curScene t = curScene s"
  "cl_Send pid n enc req s = Inr t \<Longrightarrow> curScene t = curScene s"
  by (auto simp: SetRequest_def bind_res_Inr_iff finish_sync_def Close_def SendThread_def Let_def
      queue_packet_def cl_Send_def split: list.splits if_splits)

lemma scene_ready_HandlerThread:
  assumes "HandlerThread s = Inr t" and "scene_ready k s"
  shows "scene_ready k t"
proof -
  from assms(1) obtain u where u: "handle_response s = Inr u" "handle_notify u = Inr t"
    by (auto simp: HandlerThread_def bind_res_Inr_iff)
  have "scene_ready k u"
  proof (cases "u = s")
    case False
    let ?s = "s\<lparr>sendPackets := pq_pop (sendPackets s), recvPackets := pq_pop (recvPackets s)\<rparr>"
    from u(1) False obtain req p c s2 s3 where s2: "SetRequest c req ?s = Inr s2"
      "handler_Response c p s2 = Inr s3" "u = finish_sync p s3"
      by (auto simp: handle_response_def bind_res_Inr_iff Let_def split: if_splits)
    have "curScene s2 = curScene s" using curScene_thread_free(1) [OF s2(1)] by simp
    with assms(2) have "scene_ready k s2" by (simp add: scene_ready_def)
    from scene_ready_handler [OF s2(2) this] show ?thesis
      by (simp add: s2(3) scene_ready_def curScene_thread_free)
  qed (use assms(2) in simp)
  then have "scene_ready k (u\<lparr>notifyPackets := ps\<rparr>)" for ps by (simp add: scene_ready_def)
  with \<open>scene_ready k u\<close> u(2) show ?thesis
    by (auto simp: handle_notify_def bind_res_Inr_iff split: list.splits intro: scene_ready_handler)
qed

lemma curScene_RecvThread:
  assumes "RecvThread_bytes chunk s = Some (Inr t)"
  shows "curScene t = curScene s"
proof -
  from assms obtain b u pb where l: "ReadLoop Read queue_packet pb s = Some (Inr (b, u))"
    and t: "t = u\<lparr>cl_packetBuffer := b\<rparr>"
    by (auto simp: RecvThread_bytes_def bind_run_Inr_iff Receive_def split: sum.splits)
  have "curScene u = curScene s"
    by (rule ReadLoop_state [where P = "\<lambda>u. curScene u = curScene s", OF l])
       (auto dest: curScene_thread_free(5))
  then show ?thesis by (simp add: t)
qed

lemma curScene_thread_step: "thread_step ev s = Some (Inr t) \<Longrightarrow> curScene t = curScene s"
  by (cases ev) (auto simp: thread_step_def curScene_thread_free split: if_splits dest: curScene_RecvThread)

lemma scene_ready_pause: "pause s = Some (Inr t) \<Longrightarrow> scene_ready k s \<Longrightarrow> scene_ready k t"
  unfolding pause_def
  by (erule fold_run_invariant [where P = "scene_ready k"])
     (simp_all add: scene_ready_def curScene_thread_step)

lemma scene_ready_Send: "cl_Send pid n enc req s = Inr t \<Longrightarrow> scene_ready k s \<Longrightarrow> scene_ready k t"
  by (simp add: scene_ready_def curScene_thread_free)

lemma scene_ready_SendSync:
  assumes "SendSync pid n enc req m enc_res dec_res answer s = Some (Inr (r, t))" and "scene_ready k s"
  shows "scene_ready k t"
proof (cases "cl_isConnect s")
  case False
  with assms show ?thesis by (simp add: SendSync_def)
next
  case True
  with assms(1) obtain s1 where s1: "cl_Send pid n enc req s = Inr s1" and
    t: "sync_loop (s1\<lparr>needSyncSequnce := of_int (cl_sequenceIndex s1), needSyncPacket := True\<rparr>) = Some (Inr t)"
    by (auto simp: SendSync_def bind_run_Inr_iff)
  have "scene_ready k (s1\<lparr>needSyncSequnce := of_int (cl_sequenceIndex s1), needSyncPacket := True\<rparr>)"
    using scene_ready_Send [OF s1 assms(2)] by (simp add: scene_ready_def)
  from sync_loop_invariant [where P = "scene_ready k", OF t this] show ?thesis
    using scene_ready_HandlerThread scene_ready_pause by blast
qed

lemma scene_ready_RoomButton:
  "RoomButton_OnPressed b s = Some (Inr t) \<Longrightarrow> scene_ready k s \<Longrightarrow> scene_ready k t"
  by (auto simp: RoomButton_OnPressed_def bind_run_Inr_iff split: if_splits dest!: scene_ready_SendSync)

lemma scene_ready_press_buttons:
  "press_buttons hit ep bs s = Some (Inr t) \<Longrightarrow> scene_ready k s \<Longrightarrow> scene_ready k t"
proof (induction bs arbitrary: s)
  case (Cons b bs)
  then show ?case by (auto simp: bind_run_Inr_iff split: if_splits dest: scene_ready_RoomButton)
qed simp

lemma scene_ready_LobbyScene_Start:
  "LobbyScene_Start s = Some (Inr t) \<Longrightarrow> scene_ready k s \<Longrightarrow> scene_ready k t"
  by (auto simp: LobbyScene_Start_def bind_run_Inr_iff split: if_splits dest!: scene_ready_SendSync)

lemma scene_ready_LobbyScene_Update:
  assumes "LobbyScene_Update inp e s = Some (Inr t)" and "scene_ready k s"
  shows "scene_ready k t"
proof -
  from assms(1) obtain l :: LobbyScene and s1 l1 where
    s1: "(if leftButton inp then press_buttons (hits inp) (m_epoch l) (m_buttons l) s else Some (Inr s)) = Some (Inr s1)"
    and t: "(let interval = f32_add (updateRoomInfoInterval s1) e
       in if interval > LIST_INTERVAL then
            Some (cl_Send PID_REQ_ROOM_LIST sizeof_REQ_ROOM_LIST enc_REQ_ROOM_LIST (list_request l1)
                   (s1\<lparr>updateRoomInfoInterval := 0\<rparr>))
          else Some (Inr (s1\<lparr>updateRoomInfoInterval := interval\<rparr>))) = Some (Inr t)"
    unfolding LobbyScene_Update_def bind_run_Inr_iff by blast
  from s1 assms(2) have "scene_ready k s1" by (auto split: if_splits dest: scene_ready_press_buttons)
  moreover have "curScene t = curScene s1"
    using t by (auto simp: Let_def split: if_splits dest: curScene_thread_free(6))
  ultimately show ?thesis by (simp add: scene_ready_def)
qed

lemma scene_ready_InGameScene_Start:
  assumes "InGameScene_Start s = Some (Inr t)"
  shows "scene_ready True t"
proof -
  from assms obtain g s1 s2 g2 r n where
    s2: "SendSync PID_REQ_ROOM_ENTER sizeof_REQ_ROOM_ENTER enc_REQ_ROOM_ENTER
          (default_REQ_ROOM_ENTER\<lparr>req_roomIndex := ig_roomIndex g\<rparr>) sizeof_RES_ROOM_ENTER
          enc_RES_ROOM_ENTER dec_RES_ROOM_ENTER default_RES_ROOM_ENTER
          (set_ingame (g\<lparr>tetrisBoard := Some (Init (sint (cl_playerSessionIndex s)) new_board),
              enemyBoard := Some (Init 0 new_board)\<rparr>) s) = Some (Inr (r, s2))"
    and g2: "GetInGameScene s2 = Some g2"
    and t: "t = set_ingame (g2\<lparr>gameStartButton := Some (SetPos 700 900 (new_Button 200 75 ''Start'')),
              gameLeaveButton := Some (SetPos 930 900 (new_Button 200 75 ''Leave''))\<rparr>) s2"
    by (auto simp: InGameScene_Start_def Let_def bind_run_Inr_iff of_option_Inr_iff)
  have "scene_ready False s2"
    by (rule scene_ready_SendSync [OF s2]) (simp add: scene_ready_set_ingame)
  from scene_ready_ingame [OF this g2] show ?thesis by (simp add: t scene_ready_set_ingame)
qed

lemma scene_ready_InGameScene_Update:
  assumes "InGameScene_Update inp e s = Inr t" and "scene_ready True s"
  shows "scene_ready True t"
proof -
  from assms(1) obtain g s1 mine where g: "GetInGameScene s = Some g" "tetrisBoard g = Some mine"
    and s1: "(if leftButton inp then press_game_buttons (hits inp) g s else Inr s) = Inr s1"
    and t: "(if \<not> IsPlaying mine then Inr s1 else play_frame (pressed inp) e g mine s1) = Inr t"
    by (auto simp: InGameScene_Update_def bind_res_Inr_iff of_option_Inr_iff)
  from s1 have c: "curScene s1 = curScene s"
    by (auto simp: press_game_buttons_def GameStartButton_OnPressed_def GameLeaveButton_OnPressed_def
        bind_res_Inr_iff split: if_splits dest: curScene_thread_free(6))
  show ?thesis
  proof (cases "IsPlaying mine")
    case False
    with t c assms(2) show ?thesis by (simp add: scene_ready_def)
  next
    case True
    with t have "play_frame (pressed inp) e g mine s1 = Inr t" by simp
    then obtain mine2 s2 where "curScene t = curScene (set_ingame (g\<lparr>tetrisBoard := Some mine2\<rparr>) s2)"
      by (auto simp: play_frame_def Let_def bind_res_Inr_iff split: if_splits dest: curScene_thread_free(6))
    with scene_ready_ingame [OF assms(2) g(1)] show ?thesis
      by (simp add: scene_ready_def set_ingame_def)
  qed
qed

lemma scene_ready_Game_Update:
  assumes "Game_Update inp tm s = Some (Inr t)" and "scene_ready True s"
  shows "scene_ready True t"
proof -
  from assms(1) obtain s1 where s1: "HandlerThread s = Inr s1" and
    t: "(if curScene s1 = None then Some (Inr s1)
         else bind_run (scene_Update inp (f32_norm 0 (GetElapsedSeconds tm)) s1) change_scene) = Some (Inr t)"
    by (auto simp: Game_Update_def Let_def bind_run_Inr_iff)
  note ok1 = scene_ready_HandlerThread [OF s1 assms(2)]
  show ?thesis
  proof (cases "curScene s1 = None")
    case False
    with t obtain s2 where s2: "scene_Update inp (f32_norm 0 (GetElapsedSeconds tm)) s1 = Some (Inr s2)"
      and c: "change_scene s2 = Some (Inr t)" by (auto simp: bind_run_Inr_iff)
    have ok2: "scene_ready True s2"
      using s2 ok1 by (auto simp: scene_Update_def split: option.splits Scene.splits
          dest: scene_ready_LobbyScene_Update scene_ready_InGameScene_Update)
    have "scene_ready True ((SetPreservedScene None s2)\<lparr>curScene := Some (Lobby l)\<rparr>)" for l
      by (simp add: scene_ready_def)
    with c ok2 show ?thesis
      by (auto simp: change_scene_def scene_Start_def split: option.splits Scene.splits
          dest: scene_ready_LobbyScene_Start scene_ready_InGameScene_Start)
  qed (use t ok1 in simp)
qed

lemma scene_ready_step:
  assumes "client_step ev st = Some (Inr st')" and "scene_ready True (snd st)"
  shows "scene_ready True (snd st')"
proof (cases ev)
  case (Frame inp now)
  with assms(1) have "Tick (Game_Update inp) now (fst st) (snd st) = Some (Inr (fst st', snd st'))"
    by (simp add: client_step_def Game_Tick_def)
  then show ?thesis
    by (rule Tick_invariant [where P = "scene_ready True", OF _ assms(2)]) (rule scene_ready_Game_Update)
next
  case (Thread t)
  with assms show ?thesis
    by (auto simp: client_step_def bind_run_Inr_iff scene_ready_def curScene_thread_step)
qed

lemma scene_ready_steps:
  "client_steps st evs st' \<Longrightarrow> scene_ready True (snd st) \<Longrightarrow> scene_ready True (snd st')"
  by (induction rule: client_steps.induct) (auto dest: scene_ready_step)

text \<open>C31: in every state the client can reach a frame can be drawn: neither the boards nor the
  buttons of the game are null when \<open>Render\<close> uses them, and the renderer draws the frame between
  the begin and the end of its batches.\<close>

theorem frames_can_be_drawn:
  assumes "s0 = new_Client fresh sched \<or> s0 = lobby_client fresh sched \<or>
           Initialize b (new_Client fresh sched) = Some (Inr s0)"
    and "client_steps (tm, s0) evs (tm', s)"
    and "renderer_ready r" and "m_frameCount tm' \<noteq> 0"
  shows "\<exists>ds r'. Game_Render lib m sz tm' s = Inr ds \<and>
    Render_frame lib m caption sz tm' s r = Inr r' \<and> renderer_ready r' \<and>
    r_calls r' = r_calls r @ [OpaqueBlend, DepthNone, CullNone, ApplyEffect, SetInputLayout,
      SpriteBegin, BatchBegin] @ map Item ds @ [BatchEnd, SpriteEnd]"
proof -
  have "scene_ready True s0"
    using assms(1)
    by (auto simp: scene_ready_def new_Client_def lobby_client_def Initialize_def ConnectServer_def split: if_splits
        dest!: scene_ready_LobbyScene_Start [where k = True])
  from scene_ready_steps [OF assms(2)] this have "scene_ready True s" by simp
  then have "\<exists>ds. Game_Render lib m sz tm' s = Inr ds"
    by (auto simp: Game_Render_def InGameScene_Render_def Let_def scene_ready_def
        split: option.splits Scene.splits)
  then obtain ds where ds: "Game_Render lib m sz tm' s = Inr ds" by blast
  from Render_frame_brackets [OF assms(3,4) ds] ds show ?thesis by blast
qed

definition demo_lib :: RectangleLib where
  "demo_lib =
     \<lparr>Center = (\<lambda>r. (f32_of_int (rect_x r), f32_of_int (rect_y r))),
      to_RECT = (\<lambda>r. (rect_x r, rect_y r, rect_x r + rect_width r, rect_y r + rect_height r))\<rparr>"

theorem frames_can_be_drawn_witness:
  "\<exists>r r'. new_Renderer True True = Inr r \<and>
     Render_frame demo_lib (\<lambda>_. None) 23 (0, 0, 800, 600) ((new_StepTimer 10000000 0)\<lparr>m_frameCount := 1\<rparr>)
          (lobby_client (\<lambda>_. 0) (\<lambda>_. [])) r = Inr r'"
proof -
  have "client_steps ((new_StepTimer 10000000 0)\<lparr>m_frameCount := 1\<rparr>, lobby_client (\<lambda>_. 0) (\<lambda>_. []))
          [Thread (Sending True)]
          ((new_StepTimer 10000000 0)\<lparr>m_frameCount := 1\<rparr>, lobby_client (\<lambda>_. 0) (\<lambda>_. []))"
    by (simp add: client_step_def thread_step_def SendThread_def lobby_client_def new_Client_def)
  note run = frames_can_be_drawn [OF disjI2 [OF disjI1 [OF refl]] this]
  obtain r where r: "new_Renderer True True = Inr r" "renderer_ready r"
    by (simp add: new_Renderer_def renderer_ready_def)
  from run [OF r(2), of demo_lib "\<lambda>_. None" "(0, 0, 800, 600)" 23] r(1) show ?thesis by auto
qed

section \<open>Where things are drawn\<close>

lemma resources_loaded:
  assumes "ResourceLoader_Init readable = Inr m" and "rid \<noteq> Res_NONE" and "rid \<noteq> Res_END"
  shows "\<exists>info. map_of RESOURCE_DIC rid = Some info \<and>
           GetResource m rid = Some \<lparr>texture = ''Resource/'' @ path info, tile = rect info\<rparr>"
  using assms
  by (cases rid)
     (auto simp: ResourceLoader_Init_def resource_ids_def RESOURCE_DIC_def LoadResource_def Let_def
        GetResource_def RESOURCE_ROOT_PATH_def split: if_splits)

text \<open>C32: after the resources have been loaded and at the design size of the window every cell of a
  board that has a picture is drawn, in order, from its tile, with its corner at 48 pixels times
  its place on the board, unscaled and without any rounding.\<close>

theorem cells_are_drawn_in_place:
  assumes "ResourceLoader_Init readable = Inr m"
    and "\<And>c. c \<in> set cs \<Longrightarrow> resourceID c \<notin> {Res_NONE, Res_END} \<and>
           \<bar>vx (bpos c) + vx p\<bar> < 300000 \<and> \<bar>vy (bpos c) + vy p\<bar> < 300000"
  shows "Render_blocks (Renderer_Begin (0, 0, 1920, 1080)) m p cs =
           map (\<lambda>c. let info = the (map_of RESOURCE_DIC (resourceID c))
                    in Sprite \<lparr>texture = ''Resource/'' @ path info, tile = rect info\<rparr>
                         (48 * (vx (bpos c) + vx p) * f32_one) (48 * (vy (bpos c) + vy p) * f32_one)
                         \<lparr>scale_x = f32_one, scale_y = f32_one\<rparr>) cs"
proof -
  let ?sc = "Renderer_Begin (0, 0, 1920, 1080)"
  have sc: "scale_x ?sc = 1 * f32_one" "scale_y ?sc = 1 * f32_one"
    using scale_of_multiple [of 1] by simp_all
  then have one: "?sc = \<lparr>scale_x = f32_one, scale_y = f32_one\<rparr>" by (cases ?sc) simp
  have draw: "Draw ?sc q r = Sprite r (48 * vx q * f32_one) (48 * vy q * f32_one)
      \<lparr>scale_x = f32_one, scale_y = f32_one\<rparr>"
    if "\<bar>vx q\<bar> < 300000" "\<bar>vy q\<bar> < 300000" for q r
  proof -
    have b: "\<bar>vx q * 48\<bar> < 16777216" "\<bar>vy q * 48\<bar> < 16777216" using that by (simp_all add: abs_mult)
    show ?thesis
      using Lerp_of_int [of "vx q * 48" 1] Lerp_of_int [of "vy q * 48" 1] b
      by (simp add: Draw_def PositionToVector2_def BLOCK_def BLOCKSIZE_def LerpPos_def sc
          f32_trunc_of_int [OF b(1)] f32_trunc_of_int [OF b(2)])
        (simp add: f32_of_int_exact [OF b(1)] f32_of_int_exact [OF b(2)])
  qed
  show ?thesis
    using assms(2)
  proof (induction cs)
    case (Cons c cs)
    obtain info where "map_of RESOURCE_DIC (resourceID c) = Some info"
      "GetResource m (resourceID c) = Some \<lparr>texture = ''Resource/'' @ path info, tile = rect info\<rparr>"
      using resources_loaded [OF assms(1)] Cons.prems [of c] by auto
    with Cons show ?case by (simp add: Render_blocks_def draw Let_def)
  qed (simp add: Render_blocks_def)
qed

text \<open>The bottom right cell of the own board, in a window of the design size.\<close>

definition corner_cell :: BlockInfo where "corner_cell = mk_block BLOCK_WALL WALL 9 19"

lemma all_readable: "\<exists>m. ResourceLoader_Init (\<lambda>_. True) = Inr m"
  by (simp add: ResourceLoader_Init_def resource_ids_def RESOURCE_DIC_def LoadResource_def)

theorem cells_are_drawn_in_place_witness:
  "\<exists>m. ResourceLoader_Init (\<lambda>_. True) = Inr m \<and>
     Render_blocks (Renderer_Begin (0, 0, 1920, 1080)) m (vec 4 0) [corner_cell] =
       [Sprite \<lparr>texture = ''Resource/tetrio.png'', tile = (144, 48, 192, 96)\<rparr>
          (624 * f32_one) (912 * f32_one) \<lparr>scale_x = f32_one, scale_y = f32_one\<rparr>]"
proof -
  obtain m where m: "ResourceLoader_Init (\<lambda>_. True) = Inr m" using all_readable by blast
  have "Render_blocks (Renderer_Begin (0, 0, 1920, 1080)) m (vec 4 0) [corner_cell] =
       [Sprite \<lparr>texture = ''Resource/tetrio.png'', tile = (144, 48, 192, 96)\<rparr>
          (624 * f32_one) (912 * f32_one) \<lparr>scale_x = f32_one, scale_y = f32_one\<rparr>]"
    by (subst cells_are_drawn_in_place [OF m])
       (auto simp: corner_cell_def mk_block_def RESOURCE_DIC_def block_tile_def BLOCK_def BLOCKSIZE_def Let_def)
  with m show ?thesis by blast
qed

end
