(* ===== verification/Device.thy ===== *)
theory Device
  imports ClientView
begin

unbundle bit_operations_syntax

text \<open>
  The Direct3D device and the swap chain of the client: \<open>DX::DeviceResources\<close> of
  \<open>IOCPTetrisClient/DeviceResources.h\<close> and \<open>DeviceResources.cpp\<close>.

  \<^item> Direct3D and DXGI are the environment, the record \<open>Direct3D\<close>.  Every call that can be
    answered in more than one way is appended to the log \<open>calls\<close>, and the answers are arbitrary
    functions of the log up to that call, so nothing is assumed of them: a device can be lost
    at every call.  An enumeration ends behind the last element, as documented.
  \<^item> A COM pointer is \<open>None\<close> when it is null.  A device is identified by the position in the log
    where it was created; what is made with a device carries its number.
  \<^item> \<open>_DEBUG\<close> and \<open>NDEBUG\<close> are the two values of \<open>debug_build\<close>, the two configurations of the
    project.  Messages to the debugger and the filters of the debug layer are left out.
  \<^item> \<open>m_deviceNotify\<close> is called through the record \<open>IDeviceNotify\<close>, which acts on the state of its
    owner.
\<close>

section \<open>Direct3D\<close>

type_synonym HRESULT = "32 word"

definition SUCCEEDED :: "HRESULT \<Rightarrow> bool" where "SUCCEEDED hr = (0 \<le> sint hr)"

definition E_FAIL :: HRESULT where "E_FAIL = 0x80004005"
definition DXGI_ERROR_DEVICE_REMOVED :: HRESULT where "DXGI_ERROR_DEVICE_REMOVED = 0x887A0005"
definition DXGI_ERROR_DEVICE_RESET :: HRESULT where "DXGI_ERROR_DEVICE_RESET = 0x887A0007"

datatype DXGI_FORMAT =
    FORMAT_UNKNOWN | R8G8B8A8_UNORM_SRGB | R8G8B8A8_UNORM | B8G8R8A8_UNORM_SRGB | B8G8R8A8_UNORM
  | B8G8R8X8_UNORM_SRGB | B8G8R8X8_UNORM | R10G10B10A2_UNORM | R16G16B16A16_FLOAT | D32_FLOAT
  | other_format nat

datatype COLOR_SPACE =
    RGB_FULL_G22_NONE_P709 | RGB_FULL_G2084_NONE_P2020 | RGB_FULL_G10_NONE_P709 | other_space nat

text \<open>The calls; an interface is asked for (\<open>As\<close>) by its name.\<close>

datatype D3DCall =
    SdkLayersAvailable | DXGIGetDebugInterface1 | CreateDXGIFactory1 | CreateDXGIFactory2
  | Factory_As nat | CheckFeatureSupport | Factory_IsCurrent
  | D3D11CreateDevice "nat option" bool nat | Device_As | Context_As | Annotation_As
  | OMSetRenderTargets | Flush
  | ResizeBuffers "32 word" "32 word" "32 word" DXGI_FORMAT bool
  | CreateSwapChainForHwnd nat "32 word" "32 word" DXGI_FORMAT "32 word" bool bool
  | MakeWindowAssociation nat
  | GetBuffer | CreateRenderTargetView DXGI_FORMAT
  | CreateTexture2D DXGI_FORMAT "32 word" "32 word" | CreateDepthStencilView
  | SwapChain_As3 | CheckColorSpaceSupport COLOR_SPACE | SetColorSpace1 COLOR_SPACE
  | GetWindowRect | SwapChain_Present nat bool | DiscardView bool

record Output =
  desc_result :: HRESULT
  DesktopCoordinates :: RECT
  as_Output6 :: HRESULT
  desc1_result :: HRESULT
  out_ColorSpace :: COLOR_SPACE

record Adapter =
  adapter_id :: nat
  adapter_desc1 :: HRESULT
  is_software :: bool
  adapter_outputs :: "Output list"

record Direct3D =
  debug_build :: bool
  hresult :: "D3DCall list \<Rightarrow> HRESULT"
  allow_tearing :: "D3DCall list \<Rightarrow> bool"
  is_current :: "D3DCall list \<Rightarrow> bool"
  adapters_by_preference :: "D3DCall list \<Rightarrow> Adapter list"
  adapters :: "D3DCall list \<Rightarrow> Adapter list"
  created_level :: "D3DCall list \<Rightarrow> int"
  window_rect :: "D3DCall list \<Rightarrow> RECT option"
  color_support :: "D3DCall list \<Rightarrow> 32 word"

section \<open>State\<close>

text \<open>The tearing flag of a swap chain is the one it was created with: resizing cannot change it.\<close>

record SwapChain =
  sc_device :: nat
  sc_width :: "32 word"
  sc_height :: "32 word"
  sc_format :: DXGI_FORMAT
  sc_count :: "32 word"
  sc_flip :: bool
  sc_tearing :: bool

text \<open>A texture or a view of it.\<close>

record Surface =
  sf_device :: nat
  sf_width :: "32 word"
  sf_height :: "32 word"
  sf_format :: DXGI_FORMAT

record DeviceResources =
  m_dxgiFactory :: "nat option"
  m_d3dDevice :: "nat option"
  m_d3dContext :: "nat option"
  m_swapChain :: "SwapChain option"
  m_d3dAnnotation :: "nat option"
  m_renderTarget :: "Surface option"
  m_depthStencil :: "Surface option"
  m_d3dRenderTargetView :: "Surface option"
  m_d3dDepthStencilView :: "Surface option"
  m_screenViewport :: "f32 \<times> f32"
  m_backBufferFormat :: DXGI_FORMAT
  m_depthBufferFormat :: DXGI_FORMAT
  m_backBufferCount :: "32 word"
  m_d3dMinFeatureLevel :: int
  m_window :: "nat option"
  m_d3dFeatureLevel :: int
  m_outputSize :: RECT
  m_colorSpace :: COLOR_SPACE
  m_options :: "32 word"
  m_deviceNotify :: bool
  calls :: "D3DCall list"

definition c_FlipPresent :: "32 word" where "c_FlipPresent = 0x1"
definition c_AllowTearing :: "32 word" where "c_AllowTearing = 0x2"
definition c_EnableHDR :: "32 word" where "c_EnableHDR = 0x4"

definition D3D_FEATURE_LEVEL_9_1 :: int where "D3D_FEATURE_LEVEL_9_1 = 0x9100"
definition D3D_FEATURE_LEVEL_10_0 :: int where "D3D_FEATURE_LEVEL_10_0 = 0xa000"

definition new_DeviceResources ::
    "DXGI_FORMAT \<Rightarrow> DXGI_FORMAT \<Rightarrow> 32 word \<Rightarrow> int \<Rightarrow> 32 word \<Rightarrow> DeviceResources" where
  "new_DeviceResources backBufferFormat depthBufferFormat backBufferCount minFeatureLevel flags =
     \<lparr>m_dxgiFactory = None, m_d3dDevice = None, m_d3dContext = None, m_swapChain = None,
      m_d3dAnnotation = None, m_renderTarget = None, m_depthStencil = None,
      m_d3dRenderTargetView = None, m_d3dDepthStencilView = None, m_screenViewport = (0, 0),
      m_backBufferFormat = backBufferFormat, m_depthBufferFormat = depthBufferFormat,
      m_backBufferCount = backBufferCount, m_d3dMinFeatureLevel = minFeatureLevel,
      m_window = None, m_d3dFeatureLevel = D3D_FEATURE_LEVEL_9_1, m_outputSize = (0, 0, 1, 1),
      m_colorSpace = RGB_FULL_G22_NONE_P709, m_options = flags OR c_FlipPresent,
      m_deviceNotify = False, calls = []\<rparr>"

text \<open>The default arguments of the constructor.\<close>

definition default_DeviceResources :: DeviceResources where
  "default_DeviceResources =
     new_DeviceResources B8G8R8A8_UNORM D32_FLOAT 2 D3D_FEATURE_LEVEL_10_0 c_FlipPresent"

definition RegisterDeviceNotify :: "DeviceResources \<Rightarrow> DeviceResources" where
  "RegisterDeviceNotify d = d\<lparr>m_deviceNotify := True\<rparr>"

definition SetWindow :: "nat \<Rightarrow> int \<Rightarrow> int \<Rightarrow> DeviceResources \<Rightarrow> DeviceResources" where
  "SetWindow window width height d =
     d\<lparr>m_window := Some window, m_outputSize := (0, 0, width, height)\<rparr>"

definition has_option :: "32 word \<Rightarrow> DeviceResources \<Rightarrow> bool" where
  "has_option f d = (m_options d AND f \<noteq> 0)"

definition clear_option :: "32 word \<Rightarrow> DeviceResources \<Rightarrow> DeviceResources" where
  "clear_option f d = d\<lparr>m_options := m_options d AND NOT f\<rparr>"

section \<open>Calls\<close>

definition call :: "D3DCall \<Rightarrow> DeviceResources \<Rightarrow> DeviceResources" where
  "call c d = d\<lparr>calls := calls d @ [c]\<rparr>"

definition attempt :: "Direct3D \<Rightarrow> D3DCall \<Rightarrow> DeviceResources \<Rightarrow> HRESULT \<times> DeviceResources" where
  "attempt sys c d = (hresult sys (calls (call c d)), call c d)"

definition ThrowIfFailed :: "HRESULT \<Rightarrow> unit res" where
  "ThrowIfFailed hr = guard_res ComException (SUCCEEDED hr)"

text \<open>A call inside \<open>ThrowIfFailed\<close>.\<close>

definition must :: "Direct3D \<Rightarrow> D3DCall \<Rightarrow> DeviceResources \<Rightarrow> DeviceResources res" where
  "must sys c d =
     (case attempt sys c d of (hr, d1) \<Rightarrow> bind_res (ThrowIfFailed hr) (\<lambda>_. Inr d1))"

definition is_lost :: "HRESULT \<Rightarrow> bool" where
  "is_lost hr = (hr = DXGI_ERROR_DEVICE_REMOVED \<or> hr = DXGI_ERROR_DEVICE_RESET)"

section \<open>Helpers\<close>

fun NoSRGB :: "DXGI_FORMAT \<Rightarrow> DXGI_FORMAT" where
  "NoSRGB R8G8B8A8_UNORM_SRGB = R8G8B8A8_UNORM"
| "NoSRGB B8G8R8A8_UNORM_SRGB = B8G8R8A8_UNORM"
| "NoSRGB B8G8R8X8_UNORM_SRGB = B8G8R8X8_UNORM"
| "NoSRGB fmt = fmt"

text \<open>\<open>long\<close> has 32 bits on Windows.\<close>

definition ComputeIntersectionArea :: "RECT \<Rightarrow> RECT \<Rightarrow> int res" where
  "ComputeIntersectionArea a b =
     (case (a, b) of ((ax1, ay1, ax2, ay2), (bx1, by1, bx2, by2)) \<Rightarrow>
        bind_res (int32_res (min ax2 bx2 - max ax1 bx1)) (\<lambda>w.
        bind_res (int32_res (min ay2 by2 - max ay1 by1)) (\<lambda>h.
        int32_res (max 0 w * max 0 h))))"

section \<open>Creating the device\<close>

definition set_factory :: "DeviceResources \<Rightarrow> DeviceResources" where
  "set_factory d = d\<lparr>m_dxgiFactory := Some (length (calls d))\<rparr>"

definition CreateFactory :: "Direct3D \<Rightarrow> DeviceResources \<Rightarrow> DeviceResources res" where
  "CreateFactory sys d =
     (if debug_build sys then
        (case attempt sys DXGIGetDebugInterface1 d of (hr, d1) \<Rightarrow>
           bind_res (must sys (if SUCCEEDED hr then CreateDXGIFactory2 else CreateDXGIFactory1) d1)
             (\<lambda>d2. Inr (set_factory d2)))
      else bind_res (must sys CreateDXGIFactory1 d) (\<lambda>d1. Inr (set_factory d1)))"

definition check_tearing :: "Direct3D \<Rightarrow> DeviceResources \<Rightarrow> DeviceResources" where
  "check_tearing sys d =
     (if \<not> has_option c_AllowTearing d then d
      else case attempt sys (Factory_As 5) d of (hr, d1) \<Rightarrow>
        (if \<not> SUCCEEDED hr then clear_option c_AllowTearing d1
         else case attempt sys CheckFeatureSupport d1 of (hr, d2) \<Rightarrow>
           if \<not> SUCCEEDED hr \<or> \<not> allow_tearing sys (calls d2)
           then clear_option c_AllowTearing d2 else d2))"

text \<open>An option that needs an interface of the factory.\<close>

definition check_interface :: "Direct3D \<Rightarrow> 32 word \<Rightarrow> nat \<Rightarrow> DeviceResources \<Rightarrow> DeviceResources" where
  "check_interface sys f i d =
     (if \<not> has_option f d then d
      else case attempt sys (Factory_As i) d of (hr, d1) \<Rightarrow>
        if \<not> SUCCEEDED hr then clear_option f d1 else d1)"

definition s_featureLevels :: "int list" where
  "s_featureLevels = [0xb100, 0xb000, 0xa100, 0xa000, 0x9300, 0x9200, 0x9100]"

definition featLevelCount :: "int \<Rightarrow> nat" where
  "featLevelCount minFeatureLevel =
     length (takeWhile (\<lambda>l. \<not> l < minFeatureLevel) s_featureLevels)"

fun first_hardware :: "Adapter list \<Rightarrow> nat option res" where
  "first_hardware [] = Inr None"
| "first_hardware (a # as) =
     bind_res (ThrowIfFailed (adapter_desc1 a)) (\<lambda>_.
     if is_software a then first_hardware as else Inr (Some (adapter_id a)))"

definition GetHardwareAdapter ::
    "Direct3D \<Rightarrow> DeviceResources \<Rightarrow> (nat option \<times> DeviceResources) res" where
  "GetHardwareAdapter sys d =
     (case attempt sys (Factory_As 6) d of (hr, d1) \<Rightarrow>
        bind_res (if SUCCEEDED hr then first_hardware (adapters_by_preference sys (calls d1))
                  else Inr None) (\<lambda>adapter.
        case adapter of
          Some a \<Rightarrow> Inr (Some a, d1)
        | None \<Rightarrow> bind_res (first_hardware (adapters sys (calls d1))) (\<lambda>a. Inr (a, d1))))"

definition create_device ::
    "Direct3D \<Rightarrow> nat option \<Rightarrow> bool \<Rightarrow> nat \<Rightarrow> DeviceResources \<Rightarrow> (HRESULT \<times> DeviceResources) res" where
  "create_device sys adapter debug_layer n d =
     (let (hr, d1) = (case adapter of
                        None \<Rightarrow> (E_FAIL, d)
                      | Some a \<Rightarrow> attempt sys (D3D11CreateDevice (Some a) debug_layer n) d)
      in if debug_build sys then
           Inr (if SUCCEEDED hr then (hr, d1)
                else attempt sys (D3D11CreateDevice None debug_layer n) d1)
         else if adapter = None then Inl RuntimeError else Inr (hr, d1))"

definition CreateDeviceResources :: "Direct3D \<Rightarrow> DeviceResources \<Rightarrow> DeviceResources res" where
  "CreateDeviceResources sys d =
     (let (hr, d1) = (if debug_build sys then attempt sys SdkLayersAvailable d else (E_FAIL, d));
          debug_layer = (debug_build sys \<and> SUCCEEDED hr)
      in bind_res (CreateFactory sys d1) (\<lambda>d2.
         let d3 = check_interface sys c_FlipPresent 4
                    (check_interface sys c_EnableHDR 5 (check_tearing sys d2));
             n = featLevelCount (m_d3dMinFeatureLevel d3)
         in if n = 0 then Inl OutOfRange
            else
              bind_res (GetHardwareAdapter sys d3) (\<lambda>(adapter, d4).
              bind_res (create_device sys adapter debug_layer n d4) (\<lambda>(hr, d5).
              bind_res (ThrowIfFailed hr) (\<lambda>_.
              let device = length (calls d5);
                  d6 = d5\<lparr>m_d3dFeatureLevel := created_level sys (calls d5)\<rparr>
              in bind_res (must sys Device_As d6) (\<lambda>d7.
                 bind_res (must sys Context_As (d7\<lparr>m_d3dDevice := Some device\<rparr>)) (\<lambda>d8.
                 bind_res (must sys Annotation_As (d8\<lparr>m_d3dContext := Some device\<rparr>)) (\<lambda>d9.
                 Inr (d9\<lparr>m_d3dAnnotation := Some device\<rparr>)))))))))"

section \<open>The colour space\<close>

definition output_step :: "RECT \<Rightarrow> Output \<Rightarrow> Output option \<times> int \<Rightarrow> (Output option \<times> int) res" where
  "output_step window out best =
     bind_res (ThrowIfFailed (desc_result out)) (\<lambda>_.
     bind_res (ComputeIntersectionArea window (DesktopCoordinates out)) (\<lambda>area.
     Inr (if area > snd best then (Some out, area) else best)))"

definition best_output :: "RECT \<Rightarrow> Adapter list \<Rightarrow> (Output option \<times> int) res" where
  "best_output window as =
     fold_res (\<lambda>a best. fold_res (output_step window) (adapter_outputs a) best) as (None, - 1)"

definition display_HDR10 :: "Direct3D \<Rightarrow> DeviceResources \<Rightarrow> (bool \<times> DeviceResources) res" where
  "display_HDR10 sys d =
     (let d1 = call GetWindowRect d in
      bind_res (of_option SystemError (window_rect sys (calls d1))) (\<lambda>windowBounds.
      bind_res (best_output windowBounds (adapters sys (calls d1))) (\<lambda>(bestOutput, _).
      case bestOutput of
        None \<Rightarrow> Inr (False, d1)
      | Some out \<Rightarrow>
          if \<not> SUCCEEDED (as_Output6 out) then Inr (False, d1)
          else bind_res (ThrowIfFailed (desc1_result out)) (\<lambda>_.
               Inr (out_ColorSpace out = RGB_FULL_G2084_NONE_P2020, d1)))))"

definition choose_space :: "DeviceResources \<Rightarrow> bool \<Rightarrow> COLOR_SPACE" where
  "choose_space d isDisplayHDR10 =
     (if has_option c_EnableHDR d \<and> isDisplayHDR10 then
        (case m_backBufferFormat d of
           R10G10B10A2_UNORM \<Rightarrow> RGB_FULL_G2084_NONE_P2020
         | R16G16B16A16_FLOAT \<Rightarrow> RGB_FULL_G10_NONE_P709
         | _ \<Rightarrow> RGB_FULL_G22_NONE_P709)
      else RGB_FULL_G22_NONE_P709)"

definition set_space :: "Direct3D \<Rightarrow> COLOR_SPACE \<Rightarrow> DeviceResources \<Rightarrow> DeviceResources res" where
  "set_space sys colorSpace d =
     (case attempt sys SwapChain_As3 d of (hr, d1) \<Rightarrow>
        if \<not> SUCCEEDED hr then Inr d1
        else case attempt sys (CheckColorSpaceSupport colorSpace) d1 of (hr, d2) \<Rightarrow>
          if SUCCEEDED hr \<and> color_support sys (calls d2) AND 1 \<noteq> 0
          then must sys (SetColorSpace1 colorSpace) d2 else Inr d2)"

definition UpdateColorSpace :: "Direct3D \<Rightarrow> DeviceResources \<Rightarrow> DeviceResources res" where
  "UpdateColorSpace sys d =
     (if m_dxgiFactory d = None then Inr d
      else
        let d1 = call Factory_IsCurrent d in
        bind_res (if is_current sys (calls d1) then Inr d1 else CreateFactory sys d1) (\<lambda>d2.
        bind_res (if m_swapChain d2 = None then Inr (False, d2) else display_HDR10 sys d2)
          (\<lambda>(isDisplayHDR10, d3).
        let colorSpace = choose_space d3 isDisplayHDR10;
            d4 = d3\<lparr>m_colorSpace := colorSpace\<rparr>
        in if m_swapChain d4 = None then Inr d4 else set_space sys colorSpace d4)))"

section \<open>Resources of the size of the window\<close>

definition clear_targets :: "DeviceResources \<Rightarrow> DeviceResources res" where
  "clear_targets d =
     bind_res (of_option NullDeref (m_d3dContext d)) (\<lambda>_.
     Inr (call Flush ((call OMSetRenderTargets d)\<lparr>
            m_d3dRenderTargetView := None, m_d3dDepthStencilView := None,
            m_renderTarget := None, m_depthStencil := None\<rparr>)))"

text \<open>An extent of the output in pixels, at least one; \<open>UINT\<close> wraps.\<close>

definition extent :: "int \<Rightarrow> int \<Rightarrow> (32 word) res" where
  "extent a b = bind_res (int32_res (b - a)) (\<lambda>n. Inr (max (word_of_int n) 1))"

definition backBufferWidth :: "DeviceResources \<Rightarrow> (32 word) res" where
  "backBufferWidth d = (case m_outputSize d of (l, _, r, _) \<Rightarrow> extent l r)"

definition backBufferHeight :: "DeviceResources \<Rightarrow> (32 word) res" where
  "backBufferHeight d = (case m_outputSize d of (_, t, _, b) \<Rightarrow> extent t b)"

definition flip_options :: "DeviceResources \<Rightarrow> bool" where
  "flip_options d = has_option (c_FlipPresent OR c_AllowTearing OR c_EnableHDR) d"

definition backBufferFormat :: "DeviceResources \<Rightarrow> DXGI_FORMAT" where
  "backBufferFormat d =
     (if flip_options d then NoSRGB (m_backBufferFormat d) else m_backBufferFormat d)"

text \<open>A null device is an argument that \<open>CreateSwapChainForHwnd\<close> rejects.\<close>

definition create_swap_chain ::
    "Direct3D \<Rightarrow> nat \<Rightarrow> 32 word \<Rightarrow> 32 word \<Rightarrow> DeviceResources \<Rightarrow> DeviceResources res" where
  "create_swap_chain sys window w h d =
     bind_res (of_option NullDeref (m_dxgiFactory d)) (\<lambda>_.
     bind_res (of_option ComException (m_d3dDevice d)) (\<lambda>device.
     let tearing = has_option c_AllowTearing d in
     bind_res (must sys (CreateSwapChainForHwnd window w h (backBufferFormat d)
                 (m_backBufferCount d) (flip_options d) tearing) d) (\<lambda>d1.
     must sys (MakeWindowAssociation window)
       (d1\<lparr>m_swapChain := Some \<lparr>sc_device = device, sc_width = w, sc_height = h,
          sc_format = backBufferFormat d, sc_count = m_backBufferCount d,
          sc_flip = flip_options d, sc_tearing = tearing\<rparr>\<rparr>))))"

definition create_depth ::
    "Direct3D \<Rightarrow> nat \<Rightarrow> 32 word \<Rightarrow> 32 word \<Rightarrow> DeviceResources \<Rightarrow> DeviceResources res" where
  "create_depth sys device w h d =
     (if m_depthBufferFormat d = FORMAT_UNKNOWN then Inr d
      else
        let s = \<lparr>sf_device = device, sf_width = w, sf_height = h, sf_format = m_depthBufferFormat d\<rparr> in
        bind_res (must sys (CreateTexture2D (m_depthBufferFormat d) w h) d) (\<lambda>d1.
        bind_res (must sys CreateDepthStencilView (d1\<lparr>m_depthStencil := Some s\<rparr>)) (\<lambda>d2.
        Inr (d2\<lparr>m_d3dDepthStencilView := Some s\<rparr>))))"

text \<open>What follows once the swap chain has its size: colour space, views and viewport.\<close>

definition create_views ::
    "Direct3D \<Rightarrow> 32 word \<Rightarrow> 32 word \<Rightarrow> DeviceResources \<Rightarrow> DeviceResources res" where
  "create_views sys w h d =
     bind_res (UpdateColorSpace sys d) (\<lambda>d1.
     bind_res (of_option NullDeref (m_swapChain d1)) (\<lambda>sc.
     bind_res (must sys GetBuffer d1) (\<lambda>d2.
     bind_res (of_option NullDeref (m_d3dDevice d2)) (\<lambda>device.
     bind_res (must sys (CreateRenderTargetView (m_backBufferFormat d2))
       (d2\<lparr>m_renderTarget := Some \<lparr>sf_device = sc_device sc, sf_width = sc_width sc,
              sf_height = sc_height sc, sf_format = sc_format sc\<rparr>\<rparr>)) (\<lambda>d3.
     bind_res (create_depth sys device w h
       (d3\<lparr>m_d3dRenderTargetView := Some \<lparr>sf_device = device, sf_width = sc_width sc,
              sf_height = sc_height sc, sf_format = m_backBufferFormat d2\<rparr>\<rparr>)) (\<lambda>d4.
     Inr (d4\<lparr>m_screenViewport := (f32_of_int (uint w), f32_of_int (uint h))\<rparr>)))))))"

end
