(* ===== verification/DeviceLost.thy ===== *)
theory DeviceLost
  imports Device
begin

text \<open>
  The rest of \<open>DX::DeviceResources\<close>: the resources of the size of the window, recovery from a lost
  device, and presenting a frame.

  \<^item> Creating the sized resources and recovering a lost device call each other.  The proof that
    they end shows that there is one recovery: it drops the swap chain, and only resizing an
    existing one can find the device lost.
  \<^item> Each operation of \<open>Device\<close> first gets a lemma that says which fields its result may differ
    in.
\<close>

section \<open>What the calls change\<close>

lemma attempt_eq [simp]: "attempt sys c d = (hresult sys (calls d @ [c]), d\<lparr>calls := calls d @ [c]\<rparr>)"
  by (simp add: attempt_def call_def)

lemma must_Inr [res_simps]:
  "must sys c d = Inr d' \<longleftrightarrow>
     SUCCEEDED (hresult sys (calls d @ [c])) \<and> d' = d\<lparr>calls := calls d @ [c]\<rparr>"
  by (auto simp: must_def ThrowIfFailed_def guard_res_def)

lemma ThrowIfFailed_Inr [res_simps]: "ThrowIfFailed hr = Inr u \<longleftrightarrow> SUCCEEDED hr"
  by (simp add: ThrowIfFailed_def guard_res_def)

text \<open>Options are only ever cleared.\<close>

definition fewer_options :: "32 word \<Rightarrow> 32 word \<Rightarrow> bool" where
  "fewer_options new old = (\<exists>mask. new = old AND mask)"

lemma fewer_options_refl [simp]: "fewer_options n n"
  unfolding fewer_options_def by (rule exI [of _ "NOT 0"]) simp

lemma fewer_options_trans: "fewer_options a b \<Longrightarrow> fewer_options b c \<Longrightarrow> fewer_options a c"
  unfolding fewer_options_def by (auto simp: and.assoc)

lemma fewer_options_clear [simp]: "fewer_options (n AND NOT f) n"
  unfolding fewer_options_def by auto

text \<open>Creating the device: the swap chain, the window and the sizes stay.\<close>

definition device_step :: "DeviceResources \<Rightarrow> DeviceResources \<Rightarrow> bool" where
  "device_step d d' \<longleftrightarrow>
     d' = d\<lparr>m_dxgiFactory := m_dxgiFactory d', m_d3dDevice := m_d3dDevice d',
            m_d3dContext := m_d3dContext d', m_d3dAnnotation := m_d3dAnnotation d',
            m_d3dFeatureLevel := m_d3dFeatureLevel d', m_options := m_options d', calls := calls d'\<rparr> \<and>
     fewer_options (m_options d') (m_options d) \<and> length (calls d) \<le> length (calls d')"

lemma device_step_refl [simp]: "device_step d d"
  by (simp add: device_step_def)

lemma device_step_trans:
  assumes "device_step a b" and "device_step b c"
  shows "device_step a c"
  using assms unfolding device_step_def
  by (cases a; cases b; cases c) (auto intro: fewer_options_trans)

lemma device_step_frame:
  assumes "device_step d d'"
  shows "m_swapChain d' = m_swapChain d" "m_window d' = m_window d"
    "m_outputSize d' = m_outputSize d" "m_backBufferFormat d' = m_backBufferFormat d"
    "m_depthBufferFormat d' = m_depthBufferFormat d" "m_backBufferCount d' = m_backBufferCount d"
    "m_d3dMinFeatureLevel d' = m_d3dMinFeatureLevel d" "m_deviceNotify d' = m_deviceNotify d"
    "length (calls d) \<le> length (calls d')" "fewer_options (m_options d') (m_options d)"
  using assms unfolding device_step_def by (cases d; cases d'; simp)+

lemma CreateFactory_step:
  assumes "CreateFactory sys d = Inr d'"
  shows "device_step d d'" and "m_dxgiFactory d' \<noteq> None" and "length (calls d) < length (calls d')"
    and "m_options d' = m_options d" and "m_colorSpace d' = m_colorSpace d"
  using assms
  by (auto simp: device_step_def CreateFactory_def set_factory_def res_simps split: if_splits)

lemma check_tearing_step: "device_step d (check_tearing sys d)"
  and check_tearing_factory: "m_dxgiFactory (check_tearing sys d) = m_dxgiFactory d"
  by (auto simp: device_step_def check_tearing_def clear_option_def)

lemma check_interface_step: "device_step d (check_interface sys f i d)"
  and check_interface_factory: "m_dxgiFactory (check_interface sys f i d) = m_dxgiFactory d"
  by (auto simp: device_step_def check_interface_def clear_option_def)

lemma GetHardwareAdapter_step:
  assumes "GetHardwareAdapter sys d = Inr (a, d')"
  shows "device_step d d'" and "m_dxgiFactory d' = m_dxgiFactory d"
  using assms
  by (auto simp: device_step_def GetHardwareAdapter_def res_simps split: if_splits option.splits)

lemma create_device_step:
  assumes "create_device sys a b n d = Inr (hr, d')"
  shows "device_step d d'" and "m_dxgiFactory d' = m_dxgiFactory d"
  using assms
  by (auto simp: device_step_def create_device_def res_simps split: if_splits option.splits)

text \<open>A device that has just been created: everything is made with it, and no other has its number.\<close>

definition fresh_device :: "DeviceResources \<Rightarrow> DeviceResources \<Rightarrow> nat \<Rightarrow> bool" where
  "fresh_device d d' device \<longleftrightarrow>
     m_dxgiFactory d' \<noteq> None \<and> m_d3dDevice d' = Some device \<and> m_d3dContext d' = Some device \<and>
     m_d3dAnnotation d' = Some device \<and> length (calls d) < device \<and> device \<le> length (calls d')"

lemma CreateDeviceResources_result:
  assumes "CreateDeviceResources sys d = Inr d'"
  obtains device where "device_step d d'" and "fresh_device d d' device"
proof -
  from assms obtain hr0 d1 d2 adapter d4 b n hr d5 where
    d1: "(if debug_build sys then attempt sys SdkLayersAvailable d else (E_FAIL, d)) = (hr0, d1)"
    and d2: "CreateFactory sys d1 = Inr d2"
    and d4: "GetHardwareAdapter sys (check_interface sys c_FlipPresent 4
               (check_interface sys c_EnableHDR 5 (check_tearing sys d2))) = Inr (adapter, d4)"
    and d5: "create_device sys adapter b n d4 = Inr (hr, d5)"
    and d': "d' = d5\<lparr>m_d3dFeatureLevel := created_level sys (calls d5),
          m_d3dDevice := Some (length (calls d5)), m_d3dContext := Some (length (calls d5)),
          m_d3dAnnotation := Some (length (calls d5)),
          calls := calls d5 @ [Device_As, Context_As, Annotation_As]\<rparr>"
    unfolding CreateDeviceResources_def
    by (fastforce simp: res_simps Let_def split: if_splits prod.splits)
  have s1: "device_step d d1" using d1 by (auto simp: device_step_def split: if_splits)
  note s2 = CreateFactory_step [OF d2] and s4 = GetHardwareAdapter_step [OF d4]
    and s5 = create_device_step [OF d5]
  have mid: "device_step d1 d5"
    by (meson device_step_trans s2(1) check_tearing_step check_interface_step s4(1) s5(1))
  have "device_step d5 d'" by (simp add: d' device_step_def)
  moreover have "length (calls d1) < length (calls d5)"
    using s2(3) device_step_frame(9) [OF s5(1)] device_step_frame(9) [OF s4(1)]
      device_step_frame(9) [OF check_tearing_step, of d2 sys]
      device_step_frame(9) [OF check_interface_step, of "check_tearing sys d2" sys c_EnableHDR 5]
      device_step_frame(9) [OF check_interface_step,
        of "check_interface sys c_EnableHDR 5 (check_tearing sys d2)" sys c_FlipPresent 4]
    by linarith
  moreover have "m_dxgiFactory d5 \<noteq> None"
    by (simp add: s5(2) s4(2) check_interface_factory check_tearing_factory s2(2))
  ultimately show thesis
    using that [of "length (calls d5)"] s1 mid device_step_frame(9) [OF s1]
    by (auto simp: fresh_device_def d' intro: device_step_trans)
qed

section \<open>Recovery\<close>

text \<open>The state of the object that is notified is the parameter \<open>'g\<close>.\<close>

record 'g IDeviceNotify =
  OnDeviceLost :: "'g \<Rightarrow> 'g res"
  OnDeviceRestored :: "'g \<Rightarrow> 'g res"

definition notify :: "('g \<Rightarrow> 'g res) \<Rightarrow> DeviceResources \<Rightarrow> 'g \<Rightarrow> 'g res" where
  "notify f d g = (if m_deviceNotify d then f g else Inr g)"

definition release_device :: "DeviceResources \<Rightarrow> DeviceResources" where
  "release_device d =
     d\<lparr>m_d3dDepthStencilView := None, m_d3dRenderTargetView := None, m_renderTarget := None,
       m_depthStencil := None, m_swapChain := None, m_d3dContext := None,
       m_d3dAnnotation := None, m_d3dDevice := None, m_dxgiFactory := None\<rparr>"

lemma CreateDeviceResources_swap:
  assumes "CreateDeviceResources sys d = Inr d'"
  shows "m_swapChain d' = m_swapChain d"
  using CreateDeviceResources_result [OF assms] device_step_frame(1) by metis

function (sequential)
      CreateWindowSizeDependentResources ::
        "Direct3D \<Rightarrow> 'g IDeviceNotify \<Rightarrow> DeviceResources \<Rightarrow> 'g \<Rightarrow> (DeviceResources \<times> 'g) res"
  and HandleDeviceLost ::
        "Direct3D \<Rightarrow> 'g IDeviceNotify \<Rightarrow> DeviceResources \<Rightarrow> 'g \<Rightarrow> (DeviceResources \<times> 'g) res"
where
  "CreateWindowSizeDependentResources sys obs d g =
     bind_res (of_option LogicError (m_window d)) (\<lambda>window.
     bind_res (clear_targets d) (\<lambda>d1.
     bind_res (backBufferWidth d1) (\<lambda>w.
     bind_res (backBufferHeight d1) (\<lambda>h.
     case m_swapChain d of
       Some sc \<Rightarrow>
         (case attempt sys (ResizeBuffers (m_backBufferCount d1) w h (backBufferFormat d1)
                 (has_option c_AllowTearing d1)) d1 of (hr, d2) \<Rightarrow>
            if is_lost hr then HandleDeviceLost sys obs d2 g
            else bind_res (ThrowIfFailed hr) (\<lambda>_.
                 bind_res (create_views sys w h
                   (d2\<lparr>m_swapChain := Some (sc\<lparr>sc_width := w, sc_height := h,
                      sc_format := backBufferFormat d1, sc_count := m_backBufferCount d1\<rparr>)\<rparr>))
                   (\<lambda>d3. Inr (d3, g))))
     | None \<Rightarrow>
         bind_res (create_swap_chain sys window w h d1) (\<lambda>d2.
         bind_res (create_views sys w h d2) (\<lambda>d3. Inr (d3, g)))))))"
| "HandleDeviceLost sys obs d g =
     bind_res (notify (OnDeviceLost obs) d g) (\<lambda>g1.
     bind_res (CreateDeviceResources sys (release_device d)) (\<lambda>d1.
     bind_res (CreateWindowSizeDependentResources sys obs d1 g1) (\<lambda>(d2, g2).
     bind_res (notify (OnDeviceRestored obs) d2 g2) (\<lambda>g3.
     Inr (d2, g3)))))"
  by pat_completeness auto

termination
proof (relation "measure (case_sum
    (\<lambda>(sys, obs, d, g). if m_swapChain d = None then 0 else 2) (\<lambda>_. 1))", goal_cases)
  case 1
  then show ?case by simp
next
  case (2 sys obs d g)
  then show ?case by simp
next
  case (3 sys obs d g g1 d1)
  then show ?case by (simp add: CreateDeviceResources_swap release_device_def)
qed

declare CreateWindowSizeDependentResources.simps [simp del] HandleDeviceLost.simps [simp del]

section \<open>Events\<close>

definition WindowSizeChanged ::
    "Direct3D \<Rightarrow> 'g IDeviceNotify \<Rightarrow> int \<Rightarrow> int \<Rightarrow> DeviceResources \<Rightarrow> 'g \<Rightarrow>
     (bool \<times> DeviceResources \<times> 'g) res" where
  "WindowSizeChanged sys obs width height d g =
     (case m_outputSize d of (_, _, r, b) \<Rightarrow>
        if r = width \<and> b = height then
          bind_res (UpdateColorSpace sys d) (\<lambda>d1. Inr (False, d1, g))
        else
          bind_res (CreateWindowSizeDependentResources sys obs
            (d\<lparr>m_outputSize := (0, 0, width, height)\<rparr>) g) (\<lambda>r. Inr (True, r)))"

text \<open>Discarding what was drawn, and what follows a frame that was shown with the result \<open>hr\<close>.\<close>

definition discard_views :: "DeviceResources \<Rightarrow> DeviceResources res" where
  "discard_views d =
     bind_res (of_option NullDeref (m_d3dContext d)) (\<lambda>_.
     let d1 = call (DiscardView False) d
     in Inr (if m_d3dDepthStencilView d1 \<noteq> None then call (DiscardView True) d1 else d1))"

definition after_present ::
    "Direct3D \<Rightarrow> 'g IDeviceNotify \<Rightarrow> HRESULT \<Rightarrow> DeviceResources \<Rightarrow> 'g \<Rightarrow> (DeviceResources \<times> 'g) res" where
  "after_present sys obs hr d g =
     (if is_lost hr then HandleDeviceLost sys obs d g
      else
        bind_res (ThrowIfFailed hr) (\<lambda>_.
        bind_res (of_option NullDeref (m_dxgiFactory d)) (\<lambda>_.
        let d1 = call Factory_IsCurrent d in
        bind_res (if is_current sys (calls d1) then Inr d1 else UpdateColorSpace sys d1)
          (\<lambda>d2. Inr (d2, g)))))"

definition Present ::
    "Direct3D \<Rightarrow> 'g IDeviceNotify \<Rightarrow> DeviceResources \<Rightarrow> 'g \<Rightarrow> (DeviceResources \<times> 'g) res" where
  "Present sys obs d g =
     bind_res (of_option NullDeref (m_swapChain d)) (\<lambda>_.
     case attempt sys (if has_option c_AllowTearing d then SwapChain_Present 0 True
                       else SwapChain_Present 1 False) d of (hr, d1) \<Rightarrow>
     bind_res (discard_views d1) (\<lambda>d2. after_present sys obs hr d2 g))"

text \<open>The markers for a performance tool.\<close>

definition PIXEvent :: "DeviceResources \<Rightarrow> unit res" where
  "PIXEvent d = bind_res (of_option NullDeref (m_d3dAnnotation d)) (\<lambda>_. Inr ())"

end
