(* ===== verification/DeviceInv.thy ===== *)
theory DeviceInv
  imports DeviceLost
begin

text \<open>
  The invariant of \<open>DX::DeviceResources\<close>.

  \<^item> \<open>device_live\<close>: factory, device, context and annotation exist and belong together, and a swap
    chain is one of this device with the flags of the options.
  \<^item> \<open>targets_ok\<close>: in addition swap chain, views and viewport exist, belong to this device and have
    the size of the output.  Creating the sized resources, recovery and every event end in it,
    whatever Direct3D answers.
\<close>

section \<open>The invariant\<close>

definition device_live :: "DeviceResources \<Rightarrow> bool" where
  "device_live d \<longleftrightarrow>
     m_dxgiFactory d \<noteq> None \<and>
     (\<exists>device. m_d3dDevice d = Some device \<and> m_d3dContext d = Some device \<and>
        m_d3dAnnotation d = Some device \<and> device \<le> length (calls d) \<and>
        (\<forall>sc. m_swapChain d = Some sc \<longrightarrow>
           sc_device sc = device \<and> sc_flip sc = flip_options d \<and>
           sc_tearing sc = has_option c_AllowTearing d))"

definition sized :: "DeviceResources \<Rightarrow> nat \<Rightarrow> 32 word \<Rightarrow> 32 word \<Rightarrow> bool" where
  "sized d device w h \<longleftrightarrow>
     m_swapChain d = Some \<lparr>sc_device = device, sc_width = w, sc_height = h,
        sc_format = backBufferFormat d, sc_count = m_backBufferCount d, sc_flip = flip_options d,
        sc_tearing = has_option c_AllowTearing d\<rparr> \<and>
     m_renderTarget d = Some \<lparr>sf_device = device, sf_width = w, sf_height = h,
        sf_format = backBufferFormat d\<rparr> \<and>
     m_d3dRenderTargetView d = Some \<lparr>sf_device = device, sf_width = w, sf_height = h,
        sf_format = m_backBufferFormat d\<rparr> \<and>
     m_depthStencil d = (if m_depthBufferFormat d = FORMAT_UNKNOWN then None
        else Some \<lparr>sf_device = device, sf_width = w, sf_height = h, sf_format = m_depthBufferFormat d\<rparr>) \<and>
     m_d3dDepthStencilView d = m_depthStencil d \<and>
     m_screenViewport d = (f32_of_int (uint w), f32_of_int (uint h))"

definition targets_ok :: "DeviceResources \<Rightarrow> bool" where
  "targets_ok d \<longleftrightarrow> device_live d \<and> m_window d \<noteq> None \<and>
     (\<exists>device w h. m_d3dDevice d = Some device \<and> backBufferWidth d = Inr w \<and>
        backBufferHeight d = Inr h \<and> sized d device w h)"

section \<open>The colour space\<close>

definition color_step :: "DeviceResources \<Rightarrow> DeviceResources \<Rightarrow> bool" where
  "color_step d d' \<longleftrightarrow>
     d' = d\<lparr>m_dxgiFactory := m_dxgiFactory d', m_colorSpace := m_colorSpace d', calls := calls d'\<rparr> \<and>
     (m_dxgiFactory d' = None) = (m_dxgiFactory d = None) \<and> length (calls d) \<le> length (calls d')"

lemma color_step_refl [simp]: "color_step d d"
  by (simp add: color_step_def)

lemma color_step_trans: "color_step a b \<Longrightarrow> color_step b c \<Longrightarrow> color_step a c"
  unfolding color_step_def by (cases a; cases b; cases c) auto

lemma color_step_call [simp]: "color_step d (call c d)"
  by (simp add: color_step_def call_def)

lemma CreateFactory_color:
  assumes "CreateFactory sys d = Inr d'" and "m_dxgiFactory d \<noteq> None"
  shows "color_step d d'"
  using assms
  by (auto simp: color_step_def CreateFactory_def set_factory_def res_simps split: if_splits)

lemma display_HDR10_color:
  assumes "display_HDR10 sys d = Inr (b, d')"
  shows "color_step d d'"
  using assms
  by (auto simp: display_HDR10_def res_simps Let_def split: prod.splits option.splits if_splits)

lemma set_space_color:
  assumes "set_space sys c d = Inr d'"
  shows "color_step d d'"
  using assms by (auto simp: set_space_def res_simps color_step_def split: if_splits)

lemma UpdateColorSpace_color:
  assumes "UpdateColorSpace sys d = Inr d'"
  shows "color_step d d'"
proof (cases "m_dxgiFactory d = None")
  case True
  then show ?thesis using assms by (simp add: UpdateColorSpace_def)
next
  case False
  let ?d1 = "call Factory_IsCurrent d"
  from assms False obtain d2 hdr d3 where
    d2: "(if is_current sys (calls ?d1) then Inr ?d1 else CreateFactory sys ?d1) = Inr d2"
    and d3: "(if m_swapChain d2 = None then Inr (False, d2) else display_HDR10 sys d2) = Inr (hdr, d3)"
    and d': "(let c = choose_space d3 hdr; d4 = d3\<lparr>m_colorSpace := c\<rparr>
              in if m_swapChain d4 = None then Inr d4 else set_space sys c d4) = Inr d'"
    by (auto simp: UpdateColorSpace_def res_simps Let_def)
  have "m_dxgiFactory ?d1 \<noteq> None" using False by (simp add: call_def)
  with d2 have "color_step ?d1 d2" by (auto split: if_splits intro: CreateFactory_color)
  moreover have "color_step d2 d3" using d3 by (auto split: if_splits intro: display_HDR10_color)
  moreover have "color_step d3 (d3\<lparr>m_colorSpace := choose_space d3 hdr\<rparr>)"
    by (simp add: color_step_def)
  moreover have "color_step (d3\<lparr>m_colorSpace := choose_space d3 hdr\<rparr>) d'"
    using d' by (auto simp: Let_def split: if_splits intro: set_space_color)
  ultimately show ?thesis by (meson color_step_call color_step_trans)
qed

lemma color_step_frame:
  assumes "color_step d d'"
  shows "m_swapChain d' = m_swapChain d" "m_d3dDevice d' = m_d3dDevice d"
    "m_d3dContext d' = m_d3dContext d" "m_d3dAnnotation d' = m_d3dAnnotation d"
    "m_window d' = m_window d" "m_outputSize d' = m_outputSize d" "m_options d' = m_options d"
    "m_backBufferFormat d' = m_backBufferFormat d" "m_depthBufferFormat d' = m_depthBufferFormat d"
    "m_backBufferCount d' = m_backBufferCount d" "m_renderTarget d' = m_renderTarget d"
    "m_depthStencil d' = m_depthStencil d" "m_d3dRenderTargetView d' = m_d3dRenderTargetView d"
    "m_d3dDepthStencilView d' = m_d3dDepthStencilView d" "m_screenViewport d' = m_screenViewport d"
    "m_deviceNotify d' = m_deviceNotify d" "(m_dxgiFactory d' = None) = (m_dxgiFactory d = None)"
    "length (calls d) \<le> length (calls d')"
  using assms unfolding color_step_def by (cases d; cases d'; simp)+

lemma color_step_same:
  assumes "color_step d d'"
  shows "has_option f d' = has_option f d" "flip_options d' = flip_options d"
    "backBufferFormat d' = backBufferFormat d" "backBufferWidth d' = backBufferWidth d"
    "backBufferHeight d' = backBufferHeight d"
  by (simp_all add: has_option_def flip_options_def backBufferFormat_def backBufferWidth_def
      backBufferHeight_def color_step_frame [OF assms])

lemma color_step_live [invs]:
  assumes "color_step d d'" and "device_live d"
  shows "device_live d'"
  using assms(2) color_step_frame(18) [OF assms(1)]
  by (auto simp: device_live_def color_step_frame(1-17) [OF assms(1)] color_step_same [OF assms(1)])

lemma color_step_sized:
  assumes "color_step d d'"
  shows "sized d' = sized d"
  by (intro ext) (simp add: sized_def color_step_frame [OF assms] color_step_same [OF assms])

lemma color_step_targets [invs]:
  assumes "color_step d d'" and "targets_ok d"
  shows "targets_ok d'"
  using assms(2) color_step_live [OF assms(1)]
  by (simp add: targets_ok_def color_step_frame [OF assms(1)] color_step_same [OF assms(1)]
      color_step_sized [OF assms(1)])

section \<open>Creating the sized resources\<close>

lemma clear_targets_result:
  assumes "clear_targets d = Inr d'"
  shows "d' = d\<lparr>m_d3dRenderTargetView := None, m_d3dDepthStencilView := None,
      m_renderTarget := None, m_depthStencil := None,
      calls := calls d @ [OMSetRenderTargets, Flush]\<rparr>"
  using assms by (auto simp: clear_targets_def res_simps call_def)

lemma record_options:
  "has_option f (d\<lparr>m_swapChain := sc, calls := cs\<rparr>) = has_option f d"
  "flip_options (d\<lparr>m_swapChain := sc, calls := cs\<rparr>) = flip_options d"
  by (simp_all add: has_option_def flip_options_def)

lemma create_swap_chain_result:
  assumes "create_swap_chain sys window w h d = Inr d'"
  obtains device cs where "m_d3dDevice d = Some device"
    and "d' = d\<lparr>m_swapChain := Some \<lparr>sc_device = device, sc_width = w, sc_height = h,
          sc_format = backBufferFormat d, sc_count = m_backBufferCount d,
          sc_flip = flip_options d, sc_tearing = has_option c_AllowTearing d\<rparr>,
        calls := cs\<rparr>"
    and "length (calls d) \<le> length cs"
  using assms by (auto simp: create_swap_chain_def res_simps Let_def)

text \<open>What is left of the invariant when only the views are missing.\<close>

definition chain_ok :: "nat \<Rightarrow> 32 word \<Rightarrow> 32 word \<Rightarrow> DeviceResources \<Rightarrow> bool" where
  "chain_ok device w h d \<longleftrightarrow>
     m_d3dDevice d = Some device \<and> m_depthStencil d = None \<and> m_d3dDepthStencilView d = None \<and>
     m_swapChain d = Some \<lparr>sc_device = device, sc_width = w, sc_height = h,
        sc_format = backBufferFormat d, sc_count = m_backBufferCount d, sc_flip = flip_options d,
        sc_tearing = has_option c_AllowTearing d\<rparr>"

lemma create_depth_result:
  assumes "create_depth sys device w h d = Inr d'"
  shows "d' = d\<lparr>m_depthStencil := (if m_depthBufferFormat d = FORMAT_UNKNOWN then m_depthStencil d
          else Some \<lparr>sf_device = device, sf_width = w, sf_height = h, sf_format = m_depthBufferFormat d\<rparr>),
        m_d3dDepthStencilView := (if m_depthBufferFormat d = FORMAT_UNKNOWN then m_d3dDepthStencilView d
          else Some \<lparr>sf_device = device, sf_width = w, sf_height = h, sf_format = m_depthBufferFormat d\<rparr>),
        calls := calls d'\<rparr> \<and> length (calls d) \<le> length (calls d')"
  using assms by (auto simp: create_depth_def res_simps Let_def split: if_splits)

lemma create_views_result:
  assumes run: "create_views sys w h d = Inr d'" and ok: "chain_ok device w h d"
    and live: "device_live d"
  shows "device_live d'" and "sized d' device w h" and "m_window d' = m_window d"
    and "m_outputSize d' = m_outputSize d" and "m_deviceNotify d' = m_deviceNotify d"
    and "length (calls d) \<le> length (calls d')" and "m_d3dDevice d' = Some device"
    and "m_options d' = m_options d"
proof -
  from run obtain d1 where d1: "UpdateColorSpace sys d = Inr d1"
    by (auto simp: create_views_def res_simps)
  note c = UpdateColorSpace_color [OF d1]
  note f = color_step_frame [OF c] and same = color_step_same [OF c]
  have ok1: "chain_ok device w h d1" using ok by (simp add: chain_ok_def f same)
  let ?sf = "\<lparr>sf_device = device, sf_width = w, sf_height = h, sf_format = backBufferFormat d1\<rparr>"
  let ?d3 = "d1\<lparr>m_renderTarget := Some ?sf,
     calls := calls d1 @ [GetBuffer, CreateRenderTargetView (m_backBufferFormat d1)],
     m_d3dRenderTargetView := Some (?sf\<lparr>sf_format := m_backBufferFormat d1\<rparr>)\<rparr>"
  from run ok1 obtain d4 where d4: "create_depth sys device w h ?d3 = Inr d4"
    and d': "d' = d4\<lparr>m_screenViewport := (f32_of_int (uint w), f32_of_int (uint h))\<rparr>"
    by (auto simp: create_views_def d1 res_simps chain_ok_def)
  define depth where "depth = (if m_depthBufferFormat d1 = FORMAT_UNKNOWN then None
    else Some \<lparr>sf_device = device, sf_width = w, sf_height = h, sf_format = m_depthBufferFormat d1\<rparr>)"
  from create_depth_result [OF d4] ok1 obtain cs where
    d4': "d4 = ?d3\<lparr>m_depthStencil := depth, m_d3dDepthStencilView := depth, calls := cs\<rparr>"
    and len: "length (calls d1) \<le> length cs"
    by (auto simp: depth_def chain_ok_def split: if_splits)
  show "m_window d' = m_window d" "m_outputSize d' = m_outputSize d" "m_options d' = m_options d"
    "m_deviceNotify d' = m_deviceNotify d"
    by (simp_all add: d' d4' f)
  show "length (calls d) \<le> length (calls d')" using len f(18) by (simp add: d' d4')
  show "m_d3dDevice d' = Some device" using ok1 by (simp add: d' d4' chain_ok_def)
  show "sized d' device w h"
    using ok1 by (simp add: d' d4' depth_def chain_ok_def sized_def backBufferFormat_def
        flip_options_def has_option_def)
  show "device_live d'"
    using color_step_live [OF c live] ok1 len
    by (auto simp: d' d4' chain_ok_def device_live_def flip_options_def has_option_def)
qed

text \<open>The device is the same or a later one.\<close>

definition newer :: "DeviceResources \<Rightarrow> DeviceResources \<Rightarrow> bool" where
  "newer d d' \<longleftrightarrow> (\<exists>device. m_d3dDevice d' = Some device \<and>
     (m_d3dDevice d = Some device \<or> length (calls d) < device))"

lemma newer_same: "m_d3dDevice d' = m_d3dDevice d \<Longrightarrow> device_live d \<Longrightarrow> newer d d'"
  by (auto simp: newer_def device_live_def)

lemma newer_from:
  "newer d d' \<Longrightarrow> m_d3dDevice d = m_d3dDevice e \<Longrightarrow> length (calls e) \<le> length (calls d) \<Longrightarrow> newer e d'"
  by (auto simp: newer_def)

text \<open>The invariant is reached, and window, size and owner stay.\<close>

definition resized :: "DeviceResources \<Rightarrow> DeviceResources \<Rightarrow> bool" where
  "resized d d' \<longleftrightarrow> targets_ok d' \<and> m_window d' = m_window d \<and> m_outputSize d' = m_outputSize d \<and>
     m_deviceNotify d' = m_deviceNotify d \<and> length (calls d) \<le> length (calls d') \<and> newer d d'"

lemma extent_calls:
  "backBufferWidth (d\<lparr>m_swapChain := sc, calls := cs\<rparr>) = backBufferWidth d"
  "backBufferHeight (d\<lparr>m_swapChain := sc, calls := cs\<rparr>) = backBufferHeight d"
  "backBufferFormat (d\<lparr>m_swapChain := sc, calls := cs\<rparr>) = backBufferFormat d"
  by (simp_all add: backBufferWidth_def backBufferHeight_def backBufferFormat_def record_options)

lemma extent_same:
  assumes "m_outputSize d' = m_outputSize d"
  shows "backBufferWidth d' = backBufferWidth d" and "backBufferHeight d' = backBufferHeight d"
  by (simp_all add: backBufferWidth_def backBufferHeight_def assms)

lemma views_resize:
  assumes run: "create_views sys w h d = Inr d'" and ok: "chain_ok device w h d"
    and live: "device_live d" and w: "backBufferWidth d = Inr w" and h: "backBufferHeight d = Inr h"
    and win: "m_window d \<noteq> None"
  shows "resized d d'"
proof -
  note r = create_views_result [OF run ok live]
  have "backBufferWidth d' = Inr w" and "backBufferHeight d' = Inr h"
    using extent_same [OF r(4)] w h by simp_all
  moreover have "newer d d'" using r(7) ok by (simp add: newer_def chain_ok_def)
  ultimately show ?thesis using r win by (auto simp: resized_def targets_ok_def)
qed

lemma clear_targets_live:
  assumes "clear_targets d = Inr d1" and "device_live d"
  shows "device_live d1"
  using assms(2) by (auto simp: clear_targets_result [OF assms(1)] device_live_def flip_options_def
      has_option_def)

text \<open>Without a swap chain there is nothing to recover.\<close>

lemma create_sized_fresh:
  assumes run: "CreateWindowSizeDependentResources sys obs d g = Inr (d', g')"
    and live: "device_live d" and none: "m_swapChain d = None"
  shows "resized d d'" and "g' = g" and "m_d3dDevice d' = m_d3dDevice d"
proof -
  from run none obtain window d1 w h d2 where win: "m_window d = Some window"
    and d1: "clear_targets d = Inr d1" and w: "backBufferWidth d1 = Inr w"
    and h: "backBufferHeight d1 = Inr h" and d2: "create_swap_chain sys window w h d1 = Inr d2"
    and d': "create_views sys w h d2 = Inr d'" and g': "g' = g"
    by (auto simp: CreateWindowSizeDependentResources.simps res_simps)
  note c = clear_targets_result [OF d1]
  from d2 obtain device cs where dev: "m_d3dDevice d1 = Some device" and
    d2': "d2 = d1\<lparr>m_swapChain := Some \<lparr>sc_device = device, sc_width = w, sc_height = h,
          sc_format = backBufferFormat d1, sc_count = m_backBufferCount d1,
          sc_flip = flip_options d1, sc_tearing = has_option c_AllowTearing d1\<rparr>,
        calls := cs\<rparr>"
    and len: "length (calls d1) \<le> length cs"
    by (rule create_swap_chain_result)
  have ok: "chain_ok device w h d2"
    using dev by (simp add: chain_ok_def d2' c backBufferFormat_def flip_options_def has_option_def)
  have "device_live d1" using d1 live by (rule clear_targets_live)
  with dev len have live2: "device_live d2"
    by (auto simp: d2' device_live_def has_option_def flip_options_def)
  have "resized d2 d'"
    by (rule views_resize [OF d' ok live2]) (simp_all add: d2' extent_calls w h, simp add: c win)
  moreover have "m_window d2 = m_window d" "m_outputSize d2 = m_outputSize d"
    "m_deviceNotify d2 = m_deviceNotify d" "m_d3dDevice d2 = m_d3dDevice d"
    by (simp_all add: d2' c)
  moreover have "length (calls d) \<le> length (calls d2)" using len by (simp add: d2' c)
  ultimately show "resized d d'" by (auto simp: resized_def intro: newer_from)
  show "g' = g" by (rule g')
  show "m_d3dDevice d' = m_d3dDevice d"
    using create_views_result(7) [OF d' ok live2] dev by (simp add: c)
qed

lemma HandleDeviceLost_result:
  assumes run: "HandleDeviceLost sys obs d g = Inr (d', g')"
  obtains device g1 where "resized d d'" and "m_d3dDevice d' = Some device"
    and "length (calls d) < device" and "notify (OnDeviceLost obs) d g = Inr g1"
    and "notify (OnDeviceRestored obs) d g1 = Inr g'"
proof -
  from run obtain g1 d1 g2 where g1: "notify (OnDeviceLost obs) d g = Inr g1"
    and d1: "CreateDeviceResources sys (release_device d) = Inr d1"
    and d2: "CreateWindowSizeDependentResources sys obs d1 g1 = Inr (d', g2)"
    and g': "notify (OnDeviceRestored obs) d' g2 = Inr g'"
    by (auto simp: HandleDeviceLost.simps res_simps)
  from d1 obtain device where st: "device_step (release_device d) d1"
    and fresh: "fresh_device (release_device d) d1 device"
    by (rule CreateDeviceResources_result)
  note f = device_step_frame [OF st]
  have none: "m_swapChain d1 = None" by (simp add: f release_device_def)
  have live: "device_live d1" using fresh none by (auto simp: fresh_device_def device_live_def)
  note r = create_sized_fresh [OF d2 live none]
  have dev: "m_d3dDevice d' = Some device" using r(3) fresh by (simp add: fresh_device_def)
  moreover have less: "length (calls d) < device"
    using fresh by (simp add: fresh_device_def release_device_def)
  moreover have "resized d d'"
    using r(1) f(9) dev less by (auto simp: resized_def newer_def f release_device_def)
  moreover have "notify (OnDeviceRestored obs) d g1 = Inr g'"
    using g' r(1,2) by (simp add: resized_def notify_def f release_device_def)
  ultimately show thesis using that g1 by blast
qed

lemma create_sized:
  assumes run: "CreateWindowSizeDependentResources sys obs d g = Inr (d', g')"
    and live: "device_live d"
  shows "resized d d'"
proof (cases "m_swapChain d")
  case None
  with run live show ?thesis by (rule create_sized_fresh(1))
next
  case (Some sc)
  with run obtain window d1 w h where win: "m_window d = Some window"
    and d1: "clear_targets d = Inr d1" and w: "backBufferWidth d1 = Inr w"
    and h: "backBufferHeight d1 = Inr h"
    and rest: "(case attempt sys (ResizeBuffers (m_backBufferCount d1) w h (backBufferFormat d1)
                 (has_option c_AllowTearing d1)) d1 of (hr, d2) \<Rightarrow>
            if is_lost hr then HandleDeviceLost sys obs d2 g
            else bind_res (ThrowIfFailed hr) (\<lambda>_.
                 bind_res (create_views sys w h
                   (d2\<lparr>m_swapChain := Some (sc\<lparr>sc_width := w, sc_height := h,
                      sc_format := backBufferFormat d1, sc_count := m_backBufferCount d1\<rparr>)\<rparr>))
                   (\<lambda>d3. Inr (d3, g)))) = Inr (d', g')"
    by (auto simp: CreateWindowSizeDependentResources.simps bind_res_Inr_iff of_option_Inr_iff)
  note c = clear_targets_result [OF d1] and live1 = clear_targets_live [OF d1 live]
  let ?c = "ResizeBuffers (m_backBufferCount d1) w h (backBufferFormat d1) (has_option c_AllowTearing d1)"
  show ?thesis
  proof (cases "is_lost (hresult sys (calls d1 @ [?c]))")
    case True
    with rest have "HandleDeviceLost sys obs (d1\<lparr>calls := calls d1 @ [?c]\<rparr>) g = Inr (d', g')" by simp
    then obtain device g1 where "resized (d1\<lparr>calls := calls d1 @ [?c]\<rparr>) d'"
      by (rule HandleDeviceLost_result)
    then show ?thesis by (auto simp: resized_def c elim: newer_from)
  next
    case False
    let ?d3 = "d1\<lparr>calls := calls d1 @ [?c], m_swapChain := Some (sc\<lparr>sc_width := w, sc_height := h,
                      sc_format := backBufferFormat d1, sc_count := m_backBufferCount d1\<rparr>)\<rparr>"
    from rest False have d3: "create_views sys w h ?d3 = Inr d'" by (auto simp: bind_res_Inr_iff)
    from live1 Some obtain device where dev: "m_d3dDevice d1 = Some device"
      and "sc_device sc = device" and "sc_flip sc = flip_options d1"
      and "sc_tearing sc = has_option c_AllowTearing d1"
      by (auto simp: device_live_def c)
    with live1 have "chain_ok device w h ?d3" and "device_live ?d3"
      by (auto simp: chain_ok_def c device_live_def backBufferFormat_def flip_options_def has_option_def)
    moreover have "backBufferWidth ?d3 = Inr w" and "backBufferHeight ?d3 = Inr h"
      using w h by (simp_all add: backBufferWidth_def backBufferHeight_def)
    moreover have "m_window ?d3 \<noteq> None" by (simp add: c win)
    ultimately have "resized ?d3 d'" by (rule views_resize [OF d3])
    then show ?thesis by (auto simp: resized_def c elim: newer_from)
  qed
qed

section \<open>Events\<close>

text \<open>What the owner of the device is told: nothing, or that the device was lost and restored.\<close>

definition told :: "'g IDeviceNotify \<Rightarrow> DeviceResources \<Rightarrow> 'g \<Rightarrow> 'g \<Rightarrow> bool" where
  "told obs d g g' \<longleftrightarrow> g' = g \<or>
     (\<exists>g1. notify (OnDeviceLost obs) d g = Inr g1 \<and> notify (OnDeviceRestored obs) d g1 = Inr g')"

lemma told_same: "m_deviceNotify d' = m_deviceNotify d \<Longrightarrow> told obs d' g g' = told obs d g g'"
  by (simp add: told_def notify_def)

lemma HandleDeviceLost_told:
  assumes "HandleDeviceLost sys obs d g = Inr (d', g')"
  shows "told obs d g g'"
  using assms by (rule HandleDeviceLost_result) (auto simp: told_def)

lemma create_sized_told:
  assumes run: "CreateWindowSizeDependentResources sys obs d g = Inr (d', g')"
  shows "told obs d g g'"
proof -
  from run obtain d1 where d1: "clear_targets d = Inr d1"
    by (auto simp: CreateWindowSizeDependentResources.simps res_simps)
  note c = clear_targets_result [OF d1]
  have lost: "told obs d g g'" if "HandleDeviceLost sys obs (d1\<lparr>calls := cs\<rparr>) g = Inr (d', g')" for cs
    using HandleDeviceLost_told [OF that] by (simp add: c told_def notify_def)
  show ?thesis
  proof (cases "m_swapChain d")
    case None
    with run show ?thesis
      by (auto simp: CreateWindowSizeDependentResources.simps res_simps told_def)
  next
    case (Some sc)
    with run d1 lost show ?thesis
      by (auto simp: CreateWindowSizeDependentResources.simps res_simps told_def split: if_splits)
  qed
qed

text \<open>An event keeps the invariant and the size.\<close>

definition shown :: "'g IDeviceNotify \<Rightarrow> DeviceResources \<Rightarrow> 'g \<Rightarrow> DeviceResources \<Rightarrow> 'g \<Rightarrow> bool" where
  "shown obs d g d' g' \<longleftrightarrow> targets_ok d' \<and> m_outputSize d' = m_outputSize d \<and>
     m_deviceNotify d' = m_deviceNotify d \<and> told obs d g g' \<and>
     length (calls d) \<le> length (calls d') \<and> newer d d'"

lemma color_step_shown:
  assumes c: "color_step d d'" and ok: "targets_ok d"
  shows "shown obs d g d' g"
proof -
  have "newer d d'"
    using ok by (intro newer_same) (simp_all add: color_step_frame(2) [OF c] targets_ok_def)
  with color_step_targets [OF c ok] color_step_frame(18) [OF c] show ?thesis
    by (simp add: shown_def color_step_frame(1-16) [OF c] told_def)
qed

lemma resized_shown: "resized d d' \<Longrightarrow> told obs d g g' \<Longrightarrow> shown obs d g d' g'"
  by (simp add: resized_def shown_def)

lemma WindowSizeChanged_shown:
  assumes run: "WindowSizeChanged sys obs width height d g = Inr (changed, d', g')"
    and ok: "targets_ok d" and at0: "m_outputSize d = (0, 0, r, b)"
  shows "shown obs (d\<lparr>m_outputSize := (0, 0, width, height)\<rparr>) g d' g'"
    and "changed = (m_outputSize d \<noteq> (0, 0, width, height))"
proof -
  let ?d = "d\<lparr>m_outputSize := (0, 0, width, height)\<rparr>"
  have "shown obs ?d g d' g' \<and> changed = (m_outputSize d \<noteq> (0, 0, width, height))"
  proof (cases "r = width \<and> b = height")
    case True
    with run at0 have d': "UpdateColorSpace sys d = Inr d'" and "g' = g" and "\<not> changed"
      by (auto simp: WindowSizeChanged_def bind_res_Inr_iff)
    moreover from True at0 have d: "?d = d" by (cases d) simp
    ultimately show ?thesis
      using color_step_shown [OF UpdateColorSpace_color [OF d'] ok] True at0 by (simp only: d) simp
  next
    case False
    from run at0 False have d': "CreateWindowSizeDependentResources sys obs ?d g = Inr (d', g')"
      and "changed"
      by (auto simp: WindowSizeChanged_def bind_res_Inr_iff split: if_splits)
    have "device_live ?d"
      using ok by (auto simp: targets_ok_def device_live_def has_option_def flip_options_def)
    with d' have "resized ?d d'" by (rule create_sized)
    with create_sized_told [OF d'] False \<open>changed\<close> at0 show ?thesis by (simp add: resized_shown)
  qed
  then show "shown obs ?d g d' g'" and "changed = (m_outputSize d \<noteq> (0, 0, width, height))"
    by blast+
qed

lemma calls_targets:
  "targets_ok d \<Longrightarrow> length (calls d) \<le> length cs \<Longrightarrow> targets_ok (d\<lparr>calls := cs\<rparr>)"
  by (rule color_step_targets [of d]) (simp_all add: color_step_def)

lemma shown_after_color:
  assumes c: "color_step d d2" and s: "shown obs d2 g d' g'"
  shows "shown obs d g d' g'"
  using s color_step_frame(18) [OF c]
  by (auto simp: shown_def color_step_frame(1-16) [OF c] told_def notify_def elim: newer_from)

lemma after_present_shown:
  assumes run: "after_present sys obs hr d g = Inr (d', g')" and ok: "targets_ok d"
  shows "shown obs d g d' g'"
proof (cases "is_lost hr")
  case True
  with run have lost: "HandleDeviceLost sys obs d g = Inr (d', g')" by (simp add: after_present_def)
  then obtain device g1 where "resized d d'" by (rule HandleDeviceLost_result)
  with HandleDeviceLost_told [OF lost] show ?thesis by (simp add: resized_shown)
next
  case False
  let ?d1 = "call Factory_IsCurrent d"
  from run False have "(if is_current sys (calls ?d1) then Inr ?d1 else UpdateColorSpace sys ?d1)
      = Inr d'" and "g' = g"
    by (auto simp: after_present_def bind_res_Inr_iff Let_def)
  then have "color_step ?d1 d'" by (auto split: if_splits intro: UpdateColorSpace_color)
  then have "color_step d d'" by (meson color_step_call color_step_trans)
  then show ?thesis using ok \<open>g' = g\<close> by (simp add: color_step_shown)
qed

lemma discard_views_color:
  assumes "discard_views d = Inr d'"
  shows "color_step d d'"
  using assms by (auto simp: discard_views_def res_simps Let_def call_def color_step_def split: if_splits)

lemma Present_parts:
  assumes "Present sys obs d g = Inr (d', g')"
  obtains c d2 where "c = (if has_option c_AllowTearing d then SwapChain_Present 0 True
                       else SwapChain_Present 1 False)"
    and "color_step d d2"
    and "after_present sys obs (hresult sys (calls d @ [c])) d2 g = Inr (d', g')"
proof -
  let ?c = "if has_option c_AllowTearing d then SwapChain_Present 0 True
            else SwapChain_Present 1 False"
  from assms obtain d2 where d2: "discard_views (d\<lparr>calls := calls d @ [?c]\<rparr>) = Inr d2"
    and rest: "after_present sys obs (hresult sys (calls d @ [?c])) d2 g = Inr (d', g')"
    unfolding Present_def by (auto simp: bind_res_Inr_iff split: if_splits)
  from d2 have "color_step (call ?c d) d2" by (simp add: call_def discard_views_color)
  then have "color_step d d2" by (meson color_step_call color_step_trans)
  with rest show thesis using that by blast
qed

lemma Present_shown:
  assumes run: "Present sys obs d g = Inr (d', g')" and ok: "targets_ok d"
  shows "shown obs d g d' g'"
  using run
proof (rule Present_parts)
  fix c d2
  assume c: "color_step d d2"
    and rest: "after_present sys obs (hresult sys (calls d @ [c])) d2 g = Inr (d', g')"
  show "shown obs d g d' g'"
    using c after_present_shown [OF rest color_step_targets [OF c ok]] by (rule shown_after_color)
qed

text \<open>A frame that finds the device lost leaves with another device.\<close>

lemma Present_lost:
  assumes run: "Present sys obs d g = Inr (d', g')" and ok: "targets_ok d"
    and lost: "is_lost (hresult sys (calls d @ [if has_option c_AllowTearing d
                 then SwapChain_Present 0 True else SwapChain_Present 1 False]))"
  obtains device where "m_d3dDevice d' = Some device" and "length (calls d) < device"
  using run
proof (rule Present_parts)
  fix c d2
  assume c: "c = (if has_option c_AllowTearing d then SwapChain_Present 0 True
                  else SwapChain_Present 1 False)" and step: "color_step d d2"
    and "after_present sys obs (hresult sys (calls d @ [c])) d2 g = Inr (d', g')"
  with lost have "HandleDeviceLost sys obs d2 g = Inr (d', g')" by (simp add: after_present_def)
  then obtain device g1 where "m_d3dDevice d' = Some device" and "length (calls d2) < device"
    by (rule HandleDeviceLost_result)
  with color_step_frame(18) [OF step] show thesis using that [of device] by simp
qed

section \<open>The first device\<close>

lemma first_device:
  assumes "CreateDeviceResources sys d = Inr d1" and "m_swapChain d = None"
    and "CreateWindowSizeDependentResources sys obs d1 g = Inr (d', g')"
  shows "targets_ok d'" and "m_outputSize d' = m_outputSize d" and "g' = g"
    and "m_d3dDevice d' = m_d3dDevice d1" and "m_deviceNotify d' = m_deviceNotify d"
proof -
  from assms(1) obtain device where st: "device_step d d1" and fresh: "fresh_device d d1 device"
    by (rule CreateDeviceResources_result)
  note f = device_step_frame [OF st]
  have none: "m_swapChain d1 = None" by (simp add: f assms(2))
  have live: "device_live d1" using fresh none by (auto simp: fresh_device_def device_live_def)
  note r = create_sized_fresh [OF assms(3) live none]
  show "targets_ok d'" "m_outputSize d' = m_outputSize d" "g' = g" "m_d3dDevice d' = m_d3dDevice d1"
    "m_deviceNotify d' = m_deviceNotify d"
    using r by (simp_all add: resized_def f)
qed

end
