(* ===== verification/GameProcess.thy ===== *)
theory GameProcess
  imports DeviceInv
begin

text \<open>
  The object \<open>Game\<close> of \<open>IOCPTetrisClient/Game.cpp\<close> as a whole: its device resources, its timer and
  what the development calls the client (scenes, server connection).

  \<^item> \<open>Game\<close> registers itself with its device resources; \<open>game_notify\<close> is what it does when the
    device is lost or restored.  \<open>Reset\<close> of the scenes is empty, so nothing of the game changes.
  \<^item> The resource loader and the renderer keep the device and the context they were made with:
    \<open>gp_textures\<close> and \<open>gp_renderer\<close> hold the number of that device next to the loaded resources.
  \<^item> \<open>gp_frames\<close> is the ghost list of the frames that were presented: the view and the viewport that
    \<open>Clear\<close> set, the device of the context that the renderer drew with, and the draw calls.
  \<^item> \<open>World\<close> collects the environment: Direct3D, the rectangles of DirectXTK, the files that can be
    read, and whether the objects of the renderer and the connection can be made.
\<close>

record World =
  d3d :: Direct3D
  rectangles :: RectangleLib
  readable_files :: "string \<Rightarrow> bool"
  renderer_made :: bool
  server_found :: bool

record ShownFrame =
  fr_view :: "Surface option"
  fr_viewport :: "f32 \<times> f32"
  fr_context :: nat
  fr_draws :: "draw list"

record GameProcess =
  gp_device :: DeviceResources
  gp_timer :: StepTimer
  gp_client :: Client
  gp_textures :: "(nat \<times> resource_map) option"
  gp_renderer :: "nat option"
  gp_frames :: "ShownFrame list"

section \<open>Creation and initialisation\<close>

text \<open>The constructor.\<close>

definition new_Game :: "StepTimer \<Rightarrow> Client \<Rightarrow> GameProcess" where
  "new_Game timer client =
     \<lparr>gp_device = RegisterDeviceNotify default_DeviceResources, gp_timer = timer,
      gp_client = client, gp_textures = None, gp_renderer = None, gp_frames = []\<rparr>"

definition Game_OnDeviceLost :: "Client \<Rightarrow> Client res" where
  "Game_OnDeviceLost s = bind_res (of_option NullDeref (curScene s)) (\<lambda>_. Inr s)"

text \<open>Recreating what depends on the device and on its size: both functions have an empty body.\<close>

definition CreateDeviceDependentResources :: "Client \<Rightarrow> Client" where
  "CreateDeviceDependentResources s = s"

definition Game_CreateWindowSizeDependentResources :: "Client \<Rightarrow> Client" where
  "Game_CreateWindowSizeDependentResources s = s"

definition Game_OnDeviceRestored :: "Client \<Rightarrow> Client res" where
  "Game_OnDeviceRestored s =
     Inr (Game_CreateWindowSizeDependentResources (CreateDeviceDependentResources s))"

definition game_notify :: "Client IDeviceNotify" where
  "game_notify = \<lparr>OnDeviceLost = Game_OnDeviceLost, OnDeviceRestored = Game_OnDeviceRestored\<rparr>"

text \<open>The device part of \<open>Game::Initialize\<close>; the raw pointers handed on may be null.\<close>

definition init_device :: "World \<Rightarrow> nat \<Rightarrow> int \<Rightarrow> int \<Rightarrow> GameProcess \<Rightarrow> GameProcess res" where
  "init_device w window width height p =
     bind_res (CreateDeviceResources (d3d w) (SetWindow window width height (gp_device p))) (\<lambda>d1.
     bind_res (CreateWindowSizeDependentResources (d3d w) game_notify d1
       (CreateDeviceDependentResources (gp_client p))) (\<lambda>(d2, s2).
     Inr (p\<lparr>gp_device := d2, gp_client := Game_CreateWindowSizeDependentResources s2\<rparr>)))"

definition init_renderer :: "World \<Rightarrow> GameProcess \<Rightarrow> GameProcess res" where
  "init_renderer w p =
     bind_res (of_option NullDeref (m_d3dDevice (gp_device p))) (\<lambda>device.
     bind_res (of_option NullDeref (m_d3dContext (gp_device p))) (\<lambda>context.
     bind_res (ResourceLoader_Init (readable_files w)) (\<lambda>m.
     bind_res (guard_res ComException (renderer_made w)) (\<lambda>_.
     Inr (p\<lparr>gp_textures := Some (device, m), gp_renderer := Some context\<rparr>)))))"

definition Game_Initialize :: "World \<Rightarrow> nat \<Rightarrow> int \<Rightarrow> int \<Rightarrow> GameProcess \<Rightarrow> GameProcess run" where
  "Game_Initialize w window width height p =
     bind_run (Some (init_device w window width height p)) (\<lambda>p1.
     bind_run (Some (init_renderer w p1)) (\<lambda>p2.
     bind_run (Initialize (server_found w) (gp_client p2)) (\<lambda>s. Some (Inr (p2\<lparr>gp_client := s\<rparr>)))))"

text \<open>The destructor.\<close>

definition delete_Game :: "GameProcess \<Rightarrow> GameProcess" where
  "delete_Game p =
     p\<lparr>gp_client := Shutdown ((gp_client p)\<lparr>curScene := None\<rparr>), gp_textures := None,
       gp_renderer := None\<rparr>"

section \<open>A frame\<close>

definition Clear :: "DeviceResources \<Rightarrow> (Surface option \<times> (f32 \<times> f32)) res" where
  "Clear d =
     bind_res (PIXEvent d) (\<lambda>_.
     bind_res (of_option NullDeref (m_d3dContext d)) (\<lambda>_.
     Inr (m_d3dRenderTargetView d, m_screenViewport d)))"

definition Render_process :: "World \<Rightarrow> GameProcess \<Rightarrow> GameProcess res" where
  "Render_process w p =
     (if m_frameCount (gp_timer p) = 0 then Inr p
      else
        bind_res (Clear (gp_device p)) (\<lambda>(target, viewport).
        bind_res (of_option NullDeref (gp_renderer p)) (\<lambda>context.
        bind_res (of_option NullDeref (gp_textures p)) (\<lambda>(_, m).
        bind_res (Game_Render (rectangles w) m (m_outputSize (gp_device p)) (gp_timer p) (gp_client p))
          (\<lambda>dl.
        bind_res (Present (d3d w) game_notify (gp_device p) (gp_client p)) (\<lambda>(d, s).
        Inr (p\<lparr>gp_device := d, gp_client := s,
               gp_frames := gp_frames p @ [\<lparr>fr_view = target, fr_viewport = viewport,
                 fr_context = context, fr_draws = dl\<rparr>]\<rparr>)))))))"

definition Tick_process :: "World \<Rightarrow> FrameInput \<Rightarrow> 64 word \<Rightarrow> GameProcess \<Rightarrow> GameProcess run" where
  "Tick_process w inp now p =
     bind_run (Game_Tick inp now (gp_timer p) (gp_client p)) (\<lambda>(timer, s).
     Some (Render_process w (p\<lparr>gp_timer := timer, gp_client := s\<rparr>)))"

section \<open>Message handlers\<close>

definition OnActivated :: "GameProcess \<Rightarrow> GameProcess" where "OnActivated p = p"
definition OnDeactivated :: "GameProcess \<Rightarrow> GameProcess" where "OnDeactivated p = p"
definition OnSuspending :: "GameProcess \<Rightarrow> GameProcess" where "OnSuspending p = p"

definition OnResuming :: "64 word \<Rightarrow> GameProcess \<Rightarrow> GameProcess" where
  "OnResuming now p = p\<lparr>gp_timer := ResetElapsedTime now (gp_timer p)\<rparr>"

definition size_changed :: "World \<Rightarrow> int \<Rightarrow> int \<Rightarrow> GameProcess \<Rightarrow> (bool \<times> GameProcess) res" where
  "size_changed w width height p =
     bind_res (WindowSizeChanged (d3d w) game_notify width height (gp_device p) (gp_client p))
       (\<lambda>(changed, d, s). Inr (changed, p\<lparr>gp_device := d, gp_client := s\<rparr>))"

definition OnWindowMoved :: "World \<Rightarrow> GameProcess \<Rightarrow> GameProcess res" where
  "OnWindowMoved w p =
     (case m_outputSize (gp_device p) of (_, _, r, b) \<Rightarrow>
        bind_res (size_changed w r b p) (\<lambda>(_, p1). Inr p1))"

definition OnDisplayChange :: "World \<Rightarrow> GameProcess \<Rightarrow> GameProcess res" where
  "OnDisplayChange w p =
     bind_res (UpdateColorSpace (d3d w) (gp_device p)) (\<lambda>d. Inr (p\<lparr>gp_device := d\<rparr>))"

definition OnWindowSizeChanged :: "World \<Rightarrow> int \<Rightarrow> int \<Rightarrow> GameProcess \<Rightarrow> GameProcess res" where
  "OnWindowSizeChanged w width height p =
     bind_res (size_changed w width height p) (\<lambda>(changed, p1).
     if \<not> changed then Inr p1
     else Inr (p1\<lparr>gp_client := Game_CreateWindowSizeDependentResources (gp_client p1)\<rparr>))"

text \<open>The default size of the window.\<close>

definition GetDefaultSize :: "int \<times> int" where
  "GetDefaultSize = (DEFAULT_WIDTH_SIZE, DEFAULT_HEIGHT_SIZE)"

end
