(* ===== verification/Window.thy ===== *)
theory Window
  imports GameProcess
begin

text \<open>
  The window of the client and its message loop: \<open>IOCPTetrisClient/Main.cpp\<close>.

  \<^item> \<open>WndProc\<close> is modelled in two layers, as its code decides first which calls to make:
    \<open>WndProc\<close> gives the new values of its four static variables and the list of calls, and
    \<open>perform\<close> makes them on the game.  A message that a call sends to the window is dispatched
    after the current one; the only code after such calls is the toggling of \<open>s_fullscreen\<close>, which
    no other message reads.
  \<^item> A message carries with it what the system functions would give while it is handled: the
    client rectangle, the performance counter and the input of a frame.
  \<^item> \<open>Platform\<close> is what the start-up asks of Windows.
\<close>

section \<open>Messages\<close>

datatype WM =
    WM_ACTIVATE | WM_INPUT | WM_MOUSEMOVE | WM_LBUTTONDOWN | WM_LBUTTONUP | WM_RBUTTONDOWN
  | WM_RBUTTONUP | WM_MBUTTONDOWN | WM_MBUTTONUP | WM_MOUSEWHEEL | WM_XBUTTONDOWN | WM_XBUTTONUP
  | WM_MOUSEHOVER | WM_KEYDOWN | WM_KEYUP | WM_SYSKEYUP | WM_PAINT | WM_DISPLAYCHANGE | WM_MOVE
  | WM_SIZE | WM_ENTERSIZEMOVE | WM_EXITSIZEMOVE | WM_GETMINMAXINFO | WM_ACTIVATEAPP
  | WM_POWERBROADCAST | WM_DESTROY | WM_SYSKEYDOWN | WM_MENUCHAR | WM_other nat

record Msg =
  message :: WM
  wParam :: "64 word"
  lParam :: "64 word"
  client_rect :: RECT
  counter :: "64 word"
  frame_input :: FrameInput

definition SIZE_MINIMIZED :: "64 word" where "SIZE_MINIMIZED = 1"
definition PBT_APMQUERYSUSPEND :: "64 word" where "PBT_APMQUERYSUSPEND = 0"
definition PBT_APMRESUMESUSPEND :: "64 word" where "PBT_APMRESUMESUSPEND = 7"
definition VK_RETURN :: "64 word" where "VK_RETURN = 0x0D"
definition WS_OVERLAPPEDWINDOW :: "32 word" where "WS_OVERLAPPEDWINDOW = 0x00CF0000"
definition WS_POPUP :: "32 word" where "WS_POPUP = 0x80000000"
definition WS_EX_TOPMOST :: "32 word" where "WS_EX_TOPMOST = 8"
definition SW_SHOWNORMAL :: nat where "SW_SHOWNORMAL = 1"
definition SW_SHOWMAXIMIZED :: nat where "SW_SHOWMAXIMIZED = 3"

definition LOWORD :: "64 word \<Rightarrow> int" where "LOWORD l = uint (l AND 0xFFFF)"
definition HIWORD :: "64 word \<Rightarrow> int" where "HIWORD l = uint (drop_bit 16 l AND 0xFFFF)"

section \<open>The window procedure\<close>

text \<open>The static variables.\<close>

record WndState =
  s_in_sizemove :: bool
  s_in_suspend :: bool
  s_minimized :: bool
  s_fullscreen :: bool

definition new_WndState :: WndState where
  "new_WndState = \<lparr>s_in_sizemove = False, s_in_suspend = False, s_minimized = False,
     s_fullscreen = False\<rparr>"

datatype GameCall =
    do_Tick | do_OnDisplayChange | do_OnWindowMoved | do_OnSuspending | do_OnResuming
  | do_OnWindowSizeChanged int int | do_OnActivated | do_OnDeactivated
  | Mouse_ProcessMessage | Keyboard_ProcessMessage | ValidatePaint | SetMinTrackSize int int
  | PostQuitMessage nat | SetWindowStyle "32 word" "32 word" | ShowWindow nat
  | SetWindowPos "(int \<times> int) option"

datatype LRESULT = Returned "64 word" | DefWindowProc

definition call_if :: "bool \<Rightarrow> GameCall \<Rightarrow> GameCall list" where
  "call_if b c = (if b then [c] else [])"

text \<open>\<open>WM_SIZE\<close>, with the pointer to the game set or not.\<close>

definition on_size :: "bool \<Rightarrow> Msg \<Rightarrow> WndState \<Rightarrow> WndState \<times> GameCall list" where
  "on_size game m v =
     (if wParam m = SIZE_MINIMIZED then
        if \<not> s_minimized v then
          (v\<lparr>s_minimized := True, s_in_suspend := True\<rparr>,
           call_if (\<not> s_in_suspend v \<and> game) do_OnSuspending)
        else (v, [])
      else if s_minimized v then
        (v\<lparr>s_minimized := False, s_in_suspend := False\<rparr>,
         call_if (s_in_suspend v \<and> game) do_OnResuming)
      else (v, call_if (\<not> s_in_sizemove v \<and> game)
                 (do_OnWindowSizeChanged (LOWORD (lParam m)) (HIWORD (lParam m)))))"

text \<open>\<open>WM_POWERBROADCAST\<close>; the third component tells whether it returns \<open>TRUE\<close> at once.\<close>

definition on_power :: "bool \<Rightarrow> Msg \<Rightarrow> WndState \<Rightarrow> WndState \<times> GameCall list \<times> bool" where
  "on_power game m v =
     (if wParam m = PBT_APMQUERYSUSPEND then
        (v\<lparr>s_in_suspend := True\<rparr>, call_if (\<not> s_in_suspend v \<and> game) do_OnSuspending, True)
      else if wParam m = PBT_APMRESUMESUSPEND then
        if \<not> s_minimized v then
          (v\<lparr>s_in_suspend := False\<rparr>, call_if (s_in_suspend v \<and> game) do_OnResuming, True)
        else (v, [], True)
      else (v, [], False))"

text \<open>ALT+ENTER.\<close>

definition toggle_fullscreen :: "bool \<Rightarrow> WndState \<Rightarrow> WndState \<times> GameCall list" where
  "toggle_fullscreen game v =
     (v\<lparr>s_fullscreen := \<not> s_fullscreen v\<rparr>,
      if s_fullscreen v then
        [SetWindowStyle WS_OVERLAPPEDWINDOW 0, ShowWindow SW_SHOWNORMAL,
         SetWindowPos (Some (if game then GetDefaultSize else (800, 600)))]
      else
        [SetWindowStyle WS_POPUP WS_EX_TOPMOST, SetWindowPos None, ShowWindow SW_SHOWMAXIMIZED])"

definition on_syskeydown :: "bool \<Rightarrow> Msg \<Rightarrow> WndState \<Rightarrow> WndState \<times> GameCall list" where
  "on_syskeydown game m v =
     (let (v1, cs) = (if wParam m = VK_RETURN \<and> lParam m AND 0x60000000 = 0x20000000
                      then toggle_fullscreen game v else (v, []))
      in (v1, Keyboard_ProcessMessage # cs))"

definition on_exitsizemove :: "bool \<Rightarrow> Msg \<Rightarrow> WndState \<Rightarrow> WndState \<times> GameCall list" where
  "on_exitsizemove game m v =
     (case client_rect m of (l, t, r, b) \<Rightarrow>
        (v\<lparr>s_in_sizemove := False\<rparr>, call_if game (do_OnWindowSizeChanged (r - l) (b - t))))"

definition mouse_messages :: "WM list" where
  "mouse_messages = [WM_ACTIVATE, WM_INPUT, WM_MOUSEMOVE, WM_LBUTTONDOWN, WM_LBUTTONUP,
     WM_RBUTTONDOWN, WM_RBUTTONUP, WM_MBUTTONDOWN, WM_MBUTTONUP, WM_MOUSEWHEEL, WM_XBUTTONDOWN,
     WM_XBUTTONUP, WM_MOUSEHOVER]"

definition default_proc :: "WndState \<times> GameCall list \<Rightarrow> WndState \<times> GameCall list \<times> LRESULT" where
  "default_proc r = (fst r, snd r, DefWindowProc)"

definition WndProc :: "bool \<Rightarrow> Msg \<Rightarrow> WndState \<Rightarrow> WndState \<times> GameCall list \<times> LRESULT" where
  "WndProc game m v =
     (case message m of
        WM_PAINT \<Rightarrow> default_proc (v, [if s_in_sizemove v \<and> game then do_Tick else ValidatePaint])
      | WM_DISPLAYCHANGE \<Rightarrow> default_proc (v, call_if game do_OnDisplayChange)
      | WM_MOVE \<Rightarrow> default_proc (v, call_if game do_OnWindowMoved)
      | WM_SIZE \<Rightarrow> default_proc (on_size game m v)
      | WM_ENTERSIZEMOVE \<Rightarrow> default_proc (v\<lparr>s_in_sizemove := True\<rparr>, [])
      | WM_EXITSIZEMOVE \<Rightarrow> default_proc (on_exitsizemove game m v)
      | WM_GETMINMAXINFO \<Rightarrow> default_proc (v, call_if (lParam m \<noteq> 0) (SetMinTrackSize 320 200))
      | WM_ACTIVATEAPP \<Rightarrow>
          default_proc (v, call_if game (if wParam m \<noteq> 0 then do_OnActivated else do_OnDeactivated) @
                           [Keyboard_ProcessMessage, Mouse_ProcessMessage])
      | WM_POWERBROADCAST \<Rightarrow>
          (case on_power game m v of (v1, cs, returns) \<Rightarrow>
             (v1, cs, if returns then Returned 1 else DefWindowProc))
      | WM_DESTROY \<Rightarrow> default_proc (v, [PostQuitMessage 0])
      | WM_SYSKEYDOWN \<Rightarrow> default_proc (on_syskeydown game m v)
      | WM_MENUCHAR \<Rightarrow> (v, [], Returned 0x10000)
      | WM_KEYDOWN \<Rightarrow> default_proc (v, [Keyboard_ProcessMessage])
      | WM_KEYUP \<Rightarrow> default_proc (v, [Keyboard_ProcessMessage])
      | WM_SYSKEYUP \<Rightarrow> default_proc (v, [Keyboard_ProcessMessage])
      | k \<Rightarrow> default_proc (v, call_if (k \<in> set mouse_messages) Mouse_ProcessMessage))"

section \<open>Making the calls\<close>

definition perform :: "World \<Rightarrow> Msg \<Rightarrow> GameCall \<Rightarrow> GameProcess \<Rightarrow> GameProcess run" where
  "perform w m c p =
     (case c of
        do_Tick \<Rightarrow> Tick_process w (frame_input m) (counter m) p
      | do_OnDisplayChange \<Rightarrow> Some (OnDisplayChange w p)
      | do_OnWindowMoved \<Rightarrow> Some (OnWindowMoved w p)
      | do_OnSuspending \<Rightarrow> Some (Inr (OnSuspending p))
      | do_OnResuming \<Rightarrow> Some (Inr (OnResuming (counter m) p))
      | do_OnWindowSizeChanged x y \<Rightarrow> Some (OnWindowSizeChanged w x y p)
      | do_OnActivated \<Rightarrow> Some (Inr (OnActivated p))
      | do_OnDeactivated \<Rightarrow> Some (Inr (OnDeactivated p))
      | _ \<Rightarrow> Some (Inr p))"

definition dispatch :: "World \<Rightarrow> Msg \<Rightarrow> WndState \<times> GameProcess \<Rightarrow> (WndState \<times> GameProcess) run" where
  "dispatch w m st =
     (case WndProc True m (fst st) of (v, cs, _) \<Rightarrow>
        bind_run (fold_run (perform w m) cs (snd st)) (\<lambda>p. Some (Inr (v, p))))"

section \<open>Start and message loop\<close>

text \<open>One round of the loop: a message, no message, or \<open>WM_QUIT\<close>; or a step of another thread.\<close>

datatype loop_event =
    Polled Msg
  | Idle FrameInput "64 word"
  | Threads thread_event
  | Quit int

definition loop_step ::
    "World \<Rightarrow> loop_event \<Rightarrow> WndState \<times> GameProcess \<Rightarrow> (WndState \<times> GameProcess) run" where
  "loop_step w ev st =
     (case ev of
        Polled m \<Rightarrow> dispatch w m st
      | Idle inp now \<Rightarrow> bind_run (Tick_process w inp now (snd st)) (\<lambda>p. Some (Inr (fst st, p)))
      | Threads t \<Rightarrow> bind_run (thread_step t (gp_client (snd st)))
                       (\<lambda>s. Some (Inr (fst st, (snd st)\<lparr>gp_client := s\<rparr>)))
      | Quit _ \<Rightarrow> Some (Inr st))"

text \<open>The rounds of the loop for a list of events, with the exit code once it has been left.\<close>

fun message_loop ::
    "World \<Rightarrow> loop_event list \<Rightarrow> WndState \<times> GameProcess \<Rightarrow> (int option \<times> WndState \<times> GameProcess) run" where
  "message_loop w [] st = Some (Inr (None, st))"
| "message_loop w (Quit code # evs) st = Some (Inr (Some code, st))"
| "message_loop w (ev # evs) st = bind_run (loop_step w ev st) (message_loop w evs)"

record Platform =
  cpu_supported :: bool
  co_initialized :: HRESULT
  class_registered :: bool
  adjusted :: "RECT \<Rightarrow> RECT"
  created_window :: "int \<Rightarrow> int \<Rightarrow> nat option"
  sent_messages :: "Msg list"
  first_rect :: RECT

text \<open>Messages that arrive before the window knows the game.\<close>

definition early_messages :: "Msg list \<Rightarrow> WndState \<Rightarrow> WndState" where
  "early_messages ms v = fold (\<lambda>m u. fst (WndProc False m u)) ms v"

text \<open>\<open>wWinMain\<close> up to the loop: an exit code, or the state in which the loop begins.\<close>

definition wWinMain ::
    "World \<Rightarrow> Platform \<Rightarrow> GameProcess \<Rightarrow> (int + WndState \<times> GameProcess) run" where
  "wWinMain w pl p =
     (if \<not> cpu_supported pl then Some (Inr (Inl 1))
      else if \<not> SUCCEEDED (co_initialized pl) then Some (Inr (Inl 1))
      else if \<not> class_registered pl then Some (Inr (Inl 1))
      else
        (case GetDefaultSize of (width, height) \<Rightarrow>
           (case adjusted pl (0, 0, width, height) of (l, t, r, b) \<Rightarrow>
              (case created_window pl (r - l) (b - t) of
                 None \<Rightarrow> Some (Inr (Inl 1))
               | Some hwnd \<Rightarrow>
                   (case first_rect pl of (l, t, r, b) \<Rightarrow>
                      bind_run (Game_Initialize w hwnd (r - l) (b - t) p) (\<lambda>p1.
                      Some (Inr (Inr (early_messages (sent_messages pl) new_WndState, p1)))))))))"

end
