(* ===== verification/ProcessInv.thy ===== *)
theory ProcessInv
  imports Window
begin

text \<open>
  The invariant of the game process: the device resources are complete and every frame was drawn
  to a view that its viewport fills.  Each call that the window procedure or the message loop makes
  keeps it; the relation \<open>process_step\<close> says in addition how the device may change.
\<close>

definition fills_view :: "ShownFrame \<Rightarrow> bool" where
  "fills_view f \<longleftrightarrow> (\<exists>sf. fr_view f = Some sf \<and>
     fr_viewport f = (f32_of_int (uint (sf_width sf)), f32_of_int (uint (sf_height sf))))"

definition process_ok :: "GameProcess \<Rightarrow> bool" where
  "process_ok p \<longleftrightarrow> targets_ok (gp_device p) \<and>
     (\<exists>x y. m_outputSize (gp_device p) = (0, 0, x, y)) \<and> (\<forall>f\<in>set (gp_frames p). fills_view f)"

text \<open>
  The new frames were drawn with the renderer's context to the device of the time, and the device
  is the same or a later one.
\<close>

definition device_number :: "GameProcess \<Rightarrow> nat" where
  "device_number p = (case m_d3dDevice (gp_device p) of None \<Rightarrow> 0 | Some n \<Rightarrow> n)"

definition drawn_on :: "nat option \<Rightarrow> nat \<Rightarrow> ShownFrame \<Rightarrow> bool" where
  "drawn_on renderer n f \<longleftrightarrow>
     Some (fr_context f) = renderer \<and> (\<exists>sf. fr_view f = Some sf \<and> n \<le> sf_device sf)"

definition process_step :: "GameProcess \<Rightarrow> GameProcess \<Rightarrow> bool" where
  "process_step p p' \<longleftrightarrow> process_ok p' \<and> device_number p \<le> device_number p' \<and>
     gp_renderer p' = gp_renderer p \<and>
     (\<exists>fs. gp_frames p' = gp_frames p @ fs \<and>
        (\<forall>f\<in>set fs. drawn_on (gp_renderer p) (device_number p) f))"

lemma process_step_refl [simp]: "process_ok p \<Longrightarrow> process_step p p"
  by (simp add: process_step_def)

lemma process_step_ok [invs]: "process_step p p' \<Longrightarrow> process_ok p'"
  by (simp add: process_step_def)

lemma process_step_trans:
  assumes "process_step a b" and "process_step b c"
  shows "process_step a c"
proof -
  from assms obtain fs gs where
    fs: "gp_frames b = gp_frames a @ fs" "\<forall>f\<in>set fs. drawn_on (gp_renderer a) (device_number a) f"
    and gs: "gp_frames c = gp_frames b @ gs" "\<forall>f\<in>set gs. drawn_on (gp_renderer b) (device_number b) f"
    and n: "device_number a \<le> device_number b" and r: "gp_renderer b = gp_renderer a"
    by (auto simp: process_step_def)
  have "drawn_on (gp_renderer a) (device_number a) f" if "f \<in> set gs" for f
    using gs(2) that n r by (fastforce simp: drawn_on_def)
  with fs gs(1) assms show ?thesis
    by (auto simp: process_step_def intro!: exI [of _ "fs @ gs"])
qed

section \<open>What the events keep\<close>

text \<open>A change of the device and of the client that keeps the device's invariant.\<close>

lemma shown_process:
  assumes "shown obs d g d' g'" and "process_ok p" and "m_d3dDevice d = m_d3dDevice (gp_device p)"
    and "m_outputSize d = (0, 0, x, y)" and "length (calls d) = length (calls (gp_device p))"
  shows "process_step p (p\<lparr>gp_device := d', gp_client := s\<rparr>)"
proof -
  from assms(2) obtain n where n: "m_d3dDevice (gp_device p) = Some n" and "n \<le> length (calls d)"
    using assms(5) by (auto simp: process_ok_def targets_ok_def device_live_def)
  with assms show ?thesis
    by (auto simp: shown_def process_step_def process_ok_def device_number_def newer_def)
qed

lemma process_size:
  assumes "process_ok p"
  obtains x y where "m_outputSize (gp_device p) = (0, 0, x, y)"
  using assms by (auto simp: process_ok_def)

lemma size_changed_step:
  assumes run: "size_changed w x y p = Inr (changed, p')" and ok: "process_ok p"
  shows "process_step p p'" and "m_outputSize (gp_device p') = (0, 0, x, y)"
proof -
  from ok obtain a b where at0: "m_outputSize (gp_device p) = (0, 0, a, b)" by (rule process_size)
  from run obtain d s where
    ws: "WindowSizeChanged (d3d w) game_notify x y (gp_device p) (gp_client p) = Inr (changed, d, s)"
    and p': "p' = p\<lparr>gp_device := d, gp_client := s\<rparr>"
    by (auto simp: size_changed_def bind_res_Inr_iff)
  have "targets_ok (gp_device p)" using ok by (simp add: process_ok_def)
  note sh = WindowSizeChanged_shown(1) [OF ws this at0]
  show "process_step p p'" unfolding p' by (rule shown_process [OF sh ok]) simp_all
  show "m_outputSize (gp_device p') = (0, 0, x, y)" using sh by (simp add: p' shown_def)
qed

lemma OnWindowMoved_step:
  assumes "OnWindowMoved w p = Inr p'" and "process_ok p"
  shows "process_step p p'"
  using assms by (auto simp: OnWindowMoved_def bind_res_Inr_iff split: prod.splits
      intro: size_changed_step(1))

lemma OnWindowSizeChanged_step:
  assumes "OnWindowSizeChanged w x y p = Inr p'" and "process_ok p"
  shows "process_step p p'" and "m_outputSize (gp_device p') = (0, 0, x, y)"
proof -
  from assms(1) obtain changed where "size_changed w x y p = Inr (changed, p')"
    by (auto simp: OnWindowSizeChanged_def Game_CreateWindowSizeDependentResources_def
        bind_res_Inr_iff split: if_splits)
  from size_changed_step [OF this assms(2)]
  show "process_step p p'" and "m_outputSize (gp_device p') = (0, 0, x, y)" .
qed

lemma OnDisplayChange_step:
  assumes run: "OnDisplayChange w p = Inr p'" and ok: "process_ok p"
  shows "process_step p p'" and "m_outputSize (gp_device p') = m_outputSize (gp_device p)"
proof -
  from run obtain d where d: "UpdateColorSpace (d3d w) (gp_device p) = Inr d"
    and p': "p' = p\<lparr>gp_device := d, gp_client := gp_client p\<rparr>"
    by (auto simp: OnDisplayChange_def bind_res_Inr_iff)
  from ok obtain x y where at0: "m_outputSize (gp_device p) = (0, 0, x, y)" by (rule process_size)
  have sh: "shown game_notify (gp_device p) (gp_client p) d (gp_client p)"
    using UpdateColorSpace_color [OF d] ok by (intro color_step_shown) (simp_all add: process_ok_def)
  show "process_step p p'" unfolding p' by (rule shown_process [OF sh ok _ at0]) simp_all
  show "m_outputSize (gp_device p') = m_outputSize (gp_device p)" using sh by (simp add: p' shown_def)
qed

text \<open>The parts of a frame that is presented.\<close>

lemma Render_process_parts:
  assumes run: "Render_process w p = Inr p'" and first: "m_frameCount (gp_timer p) \<noteq> 0"
  obtains ctx dl d s where "gp_renderer p = Some ctx"
    and "Present (d3d w) game_notify (gp_device p) (gp_client p) = Inr (d, s)"
    and "p' = p\<lparr>gp_device := d, gp_client := s,
               gp_frames := gp_frames p @ [\<lparr>fr_view = m_d3dRenderTargetView (gp_device p),
                 fr_viewport = m_screenViewport (gp_device p), fr_context = ctx, fr_draws = dl\<rparr>]\<rparr>"
  using assms by (auto simp: Render_process_def Clear_def bind_res_Inr_iff of_option_Inr_iff)

lemma Render_process_step:
  assumes run: "Render_process w p = Inr p'" and ok: "process_ok p"
  shows "process_step p p'" and "m_outputSize (gp_device p') = m_outputSize (gp_device p)"
proof -
  have "process_step p p' \<and> m_outputSize (gp_device p') = m_outputSize (gp_device p)"
  proof (cases "m_frameCount (gp_timer p) = 0")
    case True
    with run ok show ?thesis by (simp add: Render_process_def)
  next
    case False
    with run obtain ctx dl d s where r: "gp_renderer p = Some ctx"
      and pr: "Present (d3d w) game_notify (gp_device p) (gp_client p) = Inr (d, s)"
      and p': "p' = p\<lparr>gp_device := d, gp_client := s,
               gp_frames := gp_frames p @ [\<lparr>fr_view = m_d3dRenderTargetView (gp_device p),
                 fr_viewport = m_screenViewport (gp_device p), fr_context = ctx, fr_draws = dl\<rparr>]\<rparr>"
      by (rule Render_process_parts)
    let ?f = "\<lparr>fr_view = m_d3dRenderTargetView (gp_device p),
      fr_viewport = m_screenViewport (gp_device p), fr_context = ctx, fr_draws = dl\<rparr>"
    have dev: "targets_ok (gp_device p)" using ok by (simp add: process_ok_def)
    from ok obtain x y where at0: "m_outputSize (gp_device p) = (0, 0, x, y)" by (rule process_size)
    note sh = Present_shown [OF pr dev]
    have "process_step p (p\<lparr>gp_device := d, gp_client := s\<rparr>)"
      by (rule shown_process [OF sh ok _ at0]) simp_all
    moreover have "fills_view ?f" and "drawn_on (gp_renderer p) (device_number p) ?f"
      using dev r by (auto simp: fills_view_def drawn_on_def device_number_def targets_ok_def sized_def)
    ultimately show ?thesis
      using sh by (auto simp: p' process_step_def process_ok_def device_number_def shown_def)
  qed
  then show "process_step p p'" and "m_outputSize (gp_device p') = m_outputSize (gp_device p)"
    by blast+
qed

lemma client_step_process:
  assumes "process_ok p"
  shows "process_step p (p\<lparr>gp_timer := t, gp_client := s\<rparr>)"
  using assms by (simp add: process_step_def process_ok_def device_number_def)

lemma Tick_process_step:
  assumes run: "Tick_process w inp now p = Some (Inr p')" and ok: "process_ok p"
  shows "process_step p p'" and "m_outputSize (gp_device p') = m_outputSize (gp_device p)"
proof -
  from run obtain t s where r: "Render_process w (p\<lparr>gp_timer := t, gp_client := s\<rparr>) = Inr p'"
    by (auto simp: Tick_process_def bind_run_Inr_iff)
  note st = client_step_process [OF ok, where t = t and s = s]
  from Render_process_step [OF r process_step_ok [OF st]] st
  show "process_step p p'" and "m_outputSize (gp_device p') = m_outputSize (gp_device p)"
    by (auto intro: process_step_trans)
qed

lemma OnResuming_step: "process_ok p \<Longrightarrow> process_step p (OnResuming now p)"
  using client_step_process [of p "gp_client p" "ResetElapsedTime now (gp_timer p)"]
  by (simp add: OnResuming_def)

section \<open>Messages and the loop\<close>

lemma perform_step:
  assumes "perform w m c p = Some (Inr p')" and "process_ok p"
  shows "process_step p p'"
  using assms
  by (cases c) (auto simp: perform_def OnSuspending_def OnActivated_def OnDeactivated_def
      intro: Tick_process_step(1) OnDisplayChange_step(1) OnWindowMoved_step OnResuming_step
        OnWindowSizeChanged_step(1))

lemma performs_step:
  assumes run: "fold_run (perform w m) cs p = Some (Inr p')" and ok: "process_ok p"
  shows "process_step p p'"
proof (rule fold_run_invariant [OF run])
  show "process_step p p" using ok by simp
  fix c u v assume "process_step p u" and "perform w m c u = Some (Inr v)"
  then show "process_step p v" using perform_step process_step_ok process_step_trans by blast
qed

lemma dispatch_step:
  assumes "dispatch w m st = Some (Inr st')" and "process_ok (snd st)"
  shows "process_step (snd st) (snd st')"
  using assms by (auto simp: dispatch_def bind_run_Inr_iff intro: performs_step split: prod.splits)

lemma loop_step_step:
  assumes run: "loop_step w ev st = Some (Inr st')" and ok: "process_ok (snd st)"
  shows "process_step (snd st) (snd st')"
proof (cases ev)
  case (Polled m)
  with assms show ?thesis by (auto simp: loop_step_def intro: dispatch_step)
next
  case (Idle inp now)
  with assms show ?thesis by (auto simp: loop_step_def bind_run_Inr_iff intro: Tick_process_step(1))
next
  case (Threads t)
  with run obtain s where "snd st' = (snd st)\<lparr>gp_timer := gp_timer (snd st), gp_client := s\<rparr>"
    by (auto simp: loop_step_def bind_run_Inr_iff)
  then show ?thesis using ok by (simp only: client_step_process)
next
  case (Quit code)
  with assms show ?thesis by (simp add: loop_step_def)
qed

text \<open>A round of the loop; \<open>WM_QUIT\<close> ends it.\<close>

lemma message_loop_Cons:
  assumes "message_loop w (ev # evs) st = Some (Inr (code, st'))"
  obtains c where "ev = Quit c" and "code = Some c" and "st' = st"
  | st1 where "loop_step w ev st = Some (Inr st1)" and "message_loop w evs st1 = Some (Inr (code, st'))"
  using assms by (cases ev) (auto simp: bind_run_Inr_iff)

lemma message_loop_step:
  assumes "message_loop w evs st = Some (Inr (code, st'))" and "process_ok (snd st)"
  shows "process_step (snd st) (snd st')"
  using assms
proof (induction evs arbitrary: st)
  case Nil
  then show ?case by simp
next
  case (Cons ev evs)
  from Cons.prems(1) show ?case
  proof (cases rule: message_loop_Cons)
    case (1 c)
    with Cons.prems(2) show ?thesis by simp
  next
    case (2 st1)
    have st: "process_step (snd st) (snd st1)" using 2(1) Cons.prems(2) by (rule loop_step_step)
    moreover have "process_step (snd st1) (snd st')"
      using 2(2) process_step_ok [OF st] by (rule Cons.IH)
    ultimately show ?thesis by (rule process_step_trans)
  qed
qed

section \<open>The start\<close>

lemma init_device_ok:
  assumes run: "init_device w window x y p = Inr p'" and p: "p = new_Game timer client"
  shows "process_ok p'" and "gp_frames p' = []"
    and "m_outputSize (gp_device p') = (0, 0, x, y)" and "gp_client p' = client"
proof -
  from run obtain d1 d2 s2 where
    d1: "CreateDeviceResources (d3d w) (SetWindow window x y (gp_device p)) = Inr d1"
    and d2: "CreateWindowSizeDependentResources (d3d w) game_notify d1 client = Inr (d2, s2)"
    and p': "p' = p\<lparr>gp_device := d2, gp_client := s2\<rparr>"
    by (auto simp: init_device_def bind_res_Inr_iff CreateDeviceDependentResources_def
        Game_CreateWindowSizeDependentResources_def p new_Game_def)
  have none: "m_swapChain (SetWindow window x y (gp_device p)) = None"
    by (simp add: SetWindow_def p new_Game_def RegisterDeviceNotify_def default_DeviceResources_def
        new_DeviceResources_def)
  note f = first_device [OF d1 none d2]
  show "process_ok p'" "gp_frames p' = []" "m_outputSize (gp_device p') = (0, 0, x, y)"
    "gp_client p' = client"
    using f by (auto simp: process_ok_def p' p new_Game_def SetWindow_def)
qed

text \<open>After the start the renderer uses the context of the current device.\<close>

lemma init_renderer_ok:
  assumes "init_renderer w p = Inr p'" and "process_ok p"
  shows "process_ok p'" and "gp_frames p' = gp_frames p" and "gp_device p' = gp_device p"
    and "gp_renderer p' = Some (device_number p')"
proof -
  from assms(2) obtain device where "m_d3dDevice (gp_device p) = Some device"
    and "m_d3dContext (gp_device p) = Some device"
    by (auto simp: process_ok_def targets_ok_def device_live_def)
  moreover from assms(1) this obtain m where
    "p' = p\<lparr>gp_textures := Some (device, m), gp_renderer := Some device\<rparr>"
    by (auto simp: init_renderer_def res_simps)
  ultimately show "process_ok p'" "gp_frames p' = gp_frames p" "gp_device p' = gp_device p"
    "gp_renderer p' = Some (device_number p')"
    using assms(2) by (simp_all add: process_ok_def device_number_def)
qed

lemma wWinMain_start:
  assumes "wWinMain w pl (new_Game timer client) = Some (Inr (Inr (v, p)))"
  obtains hwnd x y where "Game_Initialize w hwnd x y (new_Game timer client) = Some (Inr p)"
    and "v = early_messages (sent_messages pl) new_WndState"
  using assms unfolding wWinMain_def
  by (auto simp: bind_run_Inr_iff split: if_splits prod.splits option.splits)

text \<open>The game after its device and its renderer have been made, whatever its connection gives.\<close>

inductive drawing_ready :: "World \<Rightarrow> GameProcess \<Rightarrow> bool" for w where
  made: "init_device w hwnd x y (new_Game timer client) = Inr p1 \<Longrightarrow> init_renderer w p1 = Inr p2 \<Longrightarrow>
    drawing_ready w (p2\<lparr>gp_client := s\<rparr>)"

lemma drawing_ready_start:
  assumes "Game_Initialize w hwnd x y (new_Game timer client) = Some (Inr p)"
  shows "drawing_ready w p"
  using assms by (auto simp: Game_Initialize_def bind_run_Inr_iff intro: drawing_ready.made)

lemma drawing_ready_ok:
  assumes "drawing_ready w p"
  shows "process_ok p" and "gp_frames p = []" and "gp_renderer p = Some (device_number p)"
proof -
  have "process_ok p \<and> gp_frames p = [] \<and> gp_renderer p = Some (device_number p)"
    using assms
  proof cases
    case (made hwnd x y timer client p1 p2 s)
    note r = init_renderer_ok [OF made(3) init_device_ok(1) [OF made(2) refl]]
    then show ?thesis
      using init_device_ok(2) [OF made(2) refl] made(1) by (simp add: process_ok_def device_number_def)
  qed
  then show "process_ok p" "gp_frames p = []" "gp_renderer p = Some (device_number p)" by blast+
qed

end
