(* ===== verification/WindowRun.thy ===== *)
theory WindowRun
  imports ProcessInv ViewClaims
begin

text \<open>
  Concrete runs of the game process, evaluated with the definitions: a system on which every call
  succeeds, but which may lose the device when a frame is presented, a game in its lobby, a resized
  window and a frame without input.  The witnesses of the properties are runs of these.
\<close>

section \<open>The system\<close>

text \<open>One adapter drives one output; the \<open>k\<close>-th frame that is presented finds the device lost.\<close>

definition losing :: "nat \<Rightarrow> D3DCall list \<Rightarrow> HRESULT" where
  "losing k l =
     (if last l = SwapChain_Present 1 False \<and>
         length (filter (\<lambda>c. c = SwapChain_Present 1 False) l) = k
      then DXGI_ERROR_DEVICE_REMOVED else 0)"

definition one_output :: Output where
  "one_output = \<lparr>desc_result = 0, DesktopCoordinates = (0, 0, 1920, 1080), as_Output6 = 0,
     desc1_result = 0, out_ColorSpace = RGB_FULL_G22_NONE_P709\<rparr>"

definition one_adapter :: Adapter where
  "one_adapter = \<lparr>adapter_id = 0, adapter_desc1 = 0, is_software = False,
     adapter_outputs = [one_output]\<rparr>"

definition plain_d3d :: "(D3DCall list \<Rightarrow> HRESULT) \<Rightarrow> Direct3D" where
  "plain_d3d results = \<lparr>debug_build = False, hresult = results, allow_tearing = \<lambda>_. False,
     is_current = \<lambda>_. True, adapters_by_preference = \<lambda>_. [one_adapter],
     adapters = \<lambda>_. [one_adapter], created_level = \<lambda>_. 0xb000,
     window_rect = \<lambda>_. Some (100, 100, 900, 700), color_support = \<lambda>_. 1\<rparr>"

definition plain_world :: "nat \<Rightarrow> World" where
  "plain_world k = \<lparr>d3d = plain_d3d (losing k),
     rectangles = \<lparr>Center = \<lambda>_. (0, 0), to_RECT = \<lambda>_. (0, 0, 0, 0)\<rparr>,
     readable_files = \<lambda>_. True, renderer_made = True, server_found = True\<rparr>"

section \<open>The game\<close>

definition no_keys :: FrameInput where
  "no_keys = \<lparr>pressed = \<lparr>key_Down = False, key_Left = False, key_Right = False, key_Z = False,
     key_X = False, key_Up = False, key_C = False, key_Space = False\<rparr>, leftButton = False,
     hits = \<lambda>_. False\<rparr>"

definition one_frame_timer :: StepTimer where
  "one_frame_timer = (new_StepTimer 10000000 0)\<lparr>m_frameCount := 1\<rparr>"

definition ready_device :: DeviceResources where
  "ready_device =
     \<lparr>m_dxgiFactory = Some 1, m_d3dDevice = Some 4, m_d3dContext = Some 4,
      m_swapChain = Some \<lparr>sc_device = 4, sc_width = 800, sc_height = 600,
        sc_format = B8G8R8A8_UNORM, sc_count = 2, sc_flip = True, sc_tearing = False\<rparr>,
      m_d3dAnnotation = Some 4,
      m_renderTarget = Some \<lparr>sf_device = 4, sf_width = 800, sf_height = 600, sf_format = B8G8R8A8_UNORM\<rparr>,
      m_depthStencil = Some \<lparr>sf_device = 4, sf_width = 800, sf_height = 600, sf_format = D32_FLOAT\<rparr>,
      m_d3dRenderTargetView = Some \<lparr>sf_device = 4, sf_width = 800, sf_height = 600, sf_format = B8G8R8A8_UNORM\<rparr>,
      m_d3dDepthStencilView = Some \<lparr>sf_device = 4, sf_width = 800, sf_height = 600, sf_format = D32_FLOAT\<rparr>,
      m_screenViewport = (f32_of_int 800, f32_of_int 600), m_backBufferFormat = B8G8R8A8_UNORM,
      m_depthBufferFormat = D32_FLOAT, m_backBufferCount = 2,
      m_d3dMinFeatureLevel = D3D_FEATURE_LEVEL_10_0, m_window = Some 1, m_d3dFeatureLevel = 0xb000,
      m_outputSize = (0, 0, 800, 600), m_colorSpace = RGB_FULL_G22_NONE_P709, m_options = 1,
      m_deviceNotify = True,
      calls = [CreateDXGIFactory1, Factory_As 4, Factory_As 6, D3D11CreateDevice (Some 0) False 4,
        Device_As, Context_As, Annotation_As, OMSetRenderTargets, Flush,
        CreateSwapChainForHwnd 1 800 600 B8G8R8A8_UNORM 2 True False, MakeWindowAssociation 1,
        Factory_IsCurrent, GetWindowRect, SwapChain_As3,
        CheckColorSpaceSupport RGB_FULL_G22_NONE_P709, SetColorSpace1 RGB_FULL_G22_NONE_P709,
        GetBuffer, CreateRenderTargetView B8G8R8A8_UNORM, CreateTexture2D D32_FLOAT 800 600,
        CreateDepthStencilView]\<rparr>"

definition ready_game :: "resource_map \<Rightarrow> GameProcess" where
  "ready_game m =
     \<lparr>gp_device = ready_device, gp_timer = one_frame_timer,
      gp_client = lobby_client (\<lambda>_. 0) (\<lambda>_. []), gp_textures = Some (4, m), gp_renderer = Some 4,
      gp_frames = []\<rparr>"

section \<open>Evaluation\<close>

lemmas world_eval = plain_world_def plain_d3d_def one_adapter_def one_output_def SUCCEEDED_def
  is_lost_def DXGI_ERROR_DEVICE_REMOVED_def DXGI_ERROR_DEVICE_RESET_def losing_def

lemmas device_eval = CreateDeviceResources_def RegisterDeviceNotify_def default_DeviceResources_def
  new_DeviceResources_def SetWindow_def CreateFactory_def must_def set_factory_def
  ThrowIfFailed_def check_tearing_def check_interface_def has_option_def GetHardwareAdapter_def
  create_device_def clear_option_def c_FlipPresent_def c_AllowTearing_def c_EnableHDR_def
  clear_targets_def backBufferWidth_def backBufferHeight_def extent_def create_swap_chain_def
  Let_def featLevelCount_def s_featureLevels_def D3D_FEATURE_LEVEL_10_0_def int32_res_def call_def
  backBufferFormat_def flip_options_def create_views_def UpdateColorSpace_def display_HDR10_def
  best_output_def output_step_def ComputeIntersectionArea_def choose_space_def set_space_def
  create_depth_def CreateWindowSizeDependentResources.simps HandleDeviceLost.simps

lemmas frame_eval = Tick_process_def Render_process_def Clear_def PIXEvent_def Game_Render_def
  LobbyScene_Render_def Present_def discard_views_def after_present_def notify_def game_notify_def
  Game_OnDeviceLost_def Game_OnDeviceRestored_def Game_CreateWindowSizeDependentResources_def
  CreateDeviceDependentResources_def release_device_def

lemmas message_eval = dispatch_def loop_step_def WndProc_def default_proc_def on_size_def
  call_if_def perform_def OnWindowSizeChanged_def size_changed_def WindowSizeChanged_def LOWORD_def
  HIWORD_def SIZE_MINIMIZED_def

lemma ready_game_drawing:
  assumes "ResourceLoader_Init (\<lambda>_. True) = Inr m"
  shows "drawing_ready (plain_world k) (ready_game m)"
proof -
  let ?p = "(ready_game m)\<lparr>gp_client := new_Client (\<lambda>_. 0) (\<lambda>_. [])\<rparr>"
  have 1: "init_device (plain_world k) 1 800 600
      (new_Game one_frame_timer (new_Client (\<lambda>_. 0) (\<lambda>_. []))) =
    Inr (?p\<lparr>gp_textures := None, gp_renderer := None\<rparr>)"
    by (simp add: init_device_def new_Game_def world_eval device_eval ready_game_def ready_device_def
        CreateDeviceDependentResources_def Game_CreateWindowSizeDependentResources_def)
  have 2: "init_renderer (plain_world k) (?p\<lparr>gp_textures := None, gp_renderer := None\<rparr>) = Inr ?p"
    using assms by (simp add: init_renderer_def plain_world_def ready_game_def ready_device_def)
  from drawing_ready.made [OF 1 2, of "lobby_client (\<lambda>_. 0) (\<lambda>_. [])"]
  show ?thesis by (simp add: ready_game_def)
qed

text \<open>A frame without input in which no time passes.\<close>

definition later_timer :: StepTimer where
  "later_timer = one_frame_timer\<lparr>m_frameCount := 2, m_framesThisSecond := 1\<rparr>"

lemma no_seconds: "f32_norm 0 (TicksToSeconds 0) = 0"
  by (simp add: TicksToSeconds_def f64_round_ratio_def shift_count.simps Let_def f32_norm_def)

lemma quiet_tick:
  "Game_Tick no_keys 0 one_frame_timer (lobby_client (\<lambda>_. 0) (\<lambda>_. [])) =
     Some (Inr (later_timer, lobby_client (\<lambda>_. 0) (\<lambda>_. [])))"
proof -
  have zero: "f32_add 0 0 = 0" by (simp add: f32_add_def f32_norm_def)
  show ?thesis
    by (simp add: later_timer_def one_frame_timer_def Game_Tick_def Tick_def new_StepTimer_def
        clamped_delta_def variable_update_def track_framerate_def Let_def Game_Update_def
        HandlerThread_def handle_response_def handle_notify_def lobby_client_def new_Client_def
        GetElapsedSeconds_def no_seconds scene_Update_def LobbyScene_Update_def GetLobbyScene_def
        no_keys_def zero change_scene_def SetPreservedScene_def LIST_INTERVAL_def f32_one_def)
qed

lemma quiet_facts:
  "m_frameCount one_frame_timer = 1" "m_frameCount later_timer = 2"
  "curScene (lobby_client (\<lambda>_. 0) (\<lambda>_. [])) = Some (Lobby new_LobbyScene)"
  "m_buttons new_LobbyScene = []"
  by (simp_all add: one_frame_timer_def later_timer_def lobby_client_def new_LobbyScene_def)

section \<open>Runs\<close>

text \<open>The window gets the size 1024 times 768.\<close>

definition resize_message :: Msg where
  "resize_message = \<lparr>message = WM_SIZE, wParam = 0, lParam = 0x03000400,
     client_rect = (0, 0, 0, 0), counter = 0, frame_input = no_keys\<rparr>"

lemma resized_run:
  "\<exists>p f. message_loop (plain_world 0) [Polled resize_message, Idle no_keys 0]
       (new_WndState, ready_game m) = Some (Inr (None, new_WndState, p)) \<and> gp_frames p = [f]"
  by (simp add: message_eval resize_message_def new_WndState_def world_eval device_eval frame_eval
      ready_game_def ready_device_def quiet_tick quiet_facts)

lemma lost_run:
  "\<exists>p1 p2 f. Render_process (plain_world 1) (ready_game m) = Inr p1 \<and>
     message_loop (plain_world 1) [Idle no_keys 0] (new_WndState, p1) =
       Some (Inr (None, new_WndState, p2)) \<and>
     gp_frames p2 = gp_frames p1 @ [f]"
  by (simp add: message_eval world_eval device_eval frame_eval ready_game_def ready_device_def
      quiet_tick quiet_facts)

end
