(* ===== verification/WindowClaims.thy ===== *)
theory WindowClaims
  imports WindowRun
begin

text \<open>
  Properties of the window, the device and the frames that the game presents.  The runs start when
  the device and the renderer have been made; \<open>drawing_ready_start\<close> says that \<open>Game::Initialize\<close>
  leads there.
\<close>

section \<open>Frames and the device\<close>

text \<open>C17: however Direct3D answers and whatever messages arrive, as long as the program runs the swap
  chain, the views and the viewport belong to one device and have the size of the output, and
  every frame was drawn to a view that its viewport fills.\<close>

theorem frames_fill_their_view:
  assumes "drawing_ready w p0" and "message_loop w evs (v0, p0) = Some (Inr (code, v, p))"
  shows "targets_ok (gp_device p) \<and>
    (\<forall>f\<in>set (gp_frames p). \<exists>sf. fr_view f = Some sf \<and>
       fr_viewport f = (f32_of_int (uint (sf_width sf)), f32_of_int (uint (sf_height sf))))"
  using process_step_ok [OF message_loop_step [OF assms(2)]] drawing_ready_ok(1) [OF assms(1)]
  by (auto simp: process_ok_def fills_view_def)

theorem frames_fill_their_view_witness:
  "\<exists>m v p f sf. message_loop (plain_world 0) [Polled resize_message, Idle no_keys 0]
       (new_WndState, ready_game m) = Some (Inr (None, v, p)) \<and> targets_ok (gp_device p) \<and>
     gp_frames p = [f] \<and> fr_view f = Some sf \<and>
     fr_viewport f = (f32_of_int (uint (sf_width sf)), f32_of_int (uint (sf_height sf)))"
proof -
  obtain m where m: "ResourceLoader_Init (\<lambda>_. True) = Inr m" using all_readable by blast
  obtain p f where run: "message_loop (plain_world 0) [Polled resize_message, Idle no_keys 0]
       (new_WndState, ready_game m) = Some (Inr (None, new_WndState, p))" and f: "gp_frames p = [f]"
    using resized_run by blast
  have "targets_ok (gp_device p)" and "\<exists>sf. fr_view f = Some sf \<and>
      fr_viewport f = (f32_of_int (uint (sf_width sf)), f32_of_int (uint (sf_height sf)))"
    using frames_fill_their_view [OF ready_game_drawing [OF m] run] by (simp_all add: f)
  with run f show ?thesis by blast
qed

lemma device_number_bound:
  assumes "process_ok p"
  shows "device_number p \<le> length (calls (gp_device p))"
  using assms by (auto simp: process_ok_def targets_ok_def device_live_def device_number_def)

text \<open>C25: a device that is lost while a frame is presented is replaced, but the renderer keeps the
  context of the lost one: every frame from then on is drawn with a context of another device than
  the view it should fill.\<close>

theorem lost_device_draws_elsewhere:
  assumes "drawing_ready w p0" and "message_loop w evs (v0, p0) = Some (Inr (None, v, p))"
    and "m_frameCount (gp_timer p) \<noteq> 0" and "Render_process w p = Inr p1"
    and "is_lost (hresult (d3d w) (calls (gp_device p) @
           [if has_option c_AllowTearing (gp_device p) then SwapChain_Present 0 True
            else SwapChain_Present 1 False]))"
    and "message_loop w evs' (v, p1) = Some (Inr (code, v', p2))"
  shows "\<exists>fs. gp_frames p2 = gp_frames p1 @ fs \<and>
    (\<forall>f\<in>set fs. \<exists>sf. fr_view f = Some sf \<and> fr_context f < sf_device sf)"
proof -
  note start = drawing_ready_ok [OF assms(1)]
  have st: "process_step p0 p" using message_loop_step [OF assms(2)] start(1) by simp
  then have ok: "process_ok p" by (rule process_step_ok)
  from st start(3) have ren: "gp_renderer p = Some (device_number p0)"
    and old: "device_number p0 \<le> length (calls (gp_device p))"
    using device_number_bound [OF ok] by (auto simp: process_step_def)
  from assms(4,3) obtain ctx dl d s where
    pr: "Present (d3d w) game_notify (gp_device p) (gp_client p) = Inr (d, s)"
    and p1: "p1 = p\<lparr>gp_device := d, gp_client := s,
               gp_frames := gp_frames p @ [\<lparr>fr_view = m_d3dRenderTargetView (gp_device p),
                 fr_viewport = m_screenViewport (gp_device p), fr_context = ctx, fr_draws = dl\<rparr>]\<rparr>"
    by (rule Render_process_parts)
  have "targets_ok (gp_device p)" using ok by (simp add: process_ok_def)
  with pr obtain device where "m_d3dDevice d = Some device"
    and "length (calls (gp_device p)) < device"
    using assms(5) by (rule Present_lost)
  with old have new: "device_number p0 < device_number p1" and "gp_renderer p1 = Some (device_number p0)"
    by (simp_all add: p1 device_number_def ren)
  moreover have "process_step p1 p2"
    using message_loop_step [OF assms(6)] process_step_ok [OF Render_process_step(1) [OF assms(4) ok]]
    by simp
  ultimately show ?thesis by (fastforce simp: process_step_def drawn_on_def)
qed

theorem lost_device_draws_elsewhere_witness:
  "\<exists>m p1 p2 f sf. Render_process (plain_world 1) (ready_game m) = Inr p1 \<and>
     message_loop (plain_world 1) [Idle no_keys 0] (new_WndState, p1) =
       Some (Inr (None, new_WndState, p2)) \<and>
     gp_frames p2 = gp_frames p1 @ [f] \<and> fr_view f = Some sf \<and> fr_context f < sf_device sf"
proof -
  obtain m where m: "ResourceLoader_Init (\<lambda>_. True) = Inr m" using all_readable by blast
  obtain p1 p2 f where p1: "Render_process (plain_world 1) (ready_game m) = Inr p1"
    and run: "message_loop (plain_world 1) [Idle no_keys 0] (new_WndState, p1) =
       Some (Inr (None, new_WndState, p2))"
    and f: "gp_frames p2 = gp_frames p1 @ [f]"
    using lost_run by blast
  have "is_lost (hresult (d3d (plain_world 1)) (calls (gp_device (ready_game m)) @
      [if has_option c_AllowTearing (gp_device (ready_game m)) then SwapChain_Present 0 True
       else SwapChain_Present 1 False]))"
    and "m_frameCount (gp_timer (ready_game m)) \<noteq> 0"
    by (simp_all add: world_eval ready_game_def ready_device_def has_option_def c_AllowTearing_def
        quiet_facts)
  note lost = this
  have "message_loop (plain_world 1) [] (new_WndState, ready_game m) =
      Some (Inr (None, new_WndState, ready_game m))" by simp
  from lost_device_draws_elsewhere [OF ready_game_drawing [OF m] this lost(2) p1 lost(1) run]
  obtain sf where "fr_view f = Some sf" and "fr_context f < sf_device sf" by (auto simp: f)
  with p1 run f show ?thesis by blast
qed

section \<open>Suspending and resuming\<close>

text \<open>The calls made for a sequence of messages.\<close>

fun window_calls :: "Msg list \<Rightarrow> WndState \<Rightarrow> WndState \<times> GameCall list" where
  "window_calls [] v = (v, [])"
| "window_calls (m # ms) v =
     (case WndProc True m v of (v1, cs, _) \<Rightarrow>
        (case window_calls ms v1 of (v2, ds) \<Rightarrow> (v2, cs @ ds)))"

definition power_calls :: "GameCall list \<Rightarrow> GameCall list" where
  "power_calls cs = filter (\<lambda>c. c \<in> {do_OnSuspending, do_OnResuming}) cs"

text \<open>The calls a game that is suspended or not may receive, and what it is after them.\<close>

fun power_run :: "bool \<Rightarrow> GameCall list \<Rightarrow> bool option" where
  "power_run b [] = Some b"
| "power_run b (c # cs) =
     (if c = do_OnSuspending then (if b then None else power_run True cs)
      else if c = do_OnResuming then (if b then power_run False cs else None)
      else None)"

lemma power_run_append:
  "power_run b (cs @ ds) = Option.bind (power_run b cs) (\<lambda>b. power_run b ds)"
  by (induction cs arbitrary: b) simp_all

lemma power_calls_append: "power_calls (cs @ ds) = power_calls cs @ power_calls ds"
  by (simp add: power_calls_def)

text \<open>A minimized window is suspended.\<close>

definition window_ok :: "WndState \<Rightarrow> bool" where
  "window_ok v \<longleftrightarrow> (s_minimized v \<longrightarrow> s_in_suspend v)"

lemma WndProc_power:
  assumes "WndProc True m v = (v', cs, r)" and "window_ok v"
  shows "power_run (s_in_suspend v) (power_calls cs) = Some (s_in_suspend v')" and "window_ok v'"
  using assms
  by (cases "message m";
      auto simp: WndProc_def default_proc_def on_size_def on_power_def on_exitsizemove_def
        on_syskeydown_def toggle_fullscreen_def call_if_def power_calls_def window_ok_def
        split: if_splits prod.splits)+

text \<open>C19: whatever messages the window gets, the game is told in turn that it is suspended and that it
  resumes, never twice the same, the window knows which was the last, and a minimized window is
  suspended.\<close>

theorem suspend_and_resume_alternate:
  assumes "window_calls ms v = (v', cs)" and "s_minimized v \<longrightarrow> s_in_suspend v"
  shows "power_run (s_in_suspend v) (power_calls cs) = Some (s_in_suspend v') \<and>
    (s_minimized v' \<longrightarrow> s_in_suspend v')"
proof -
  have "power_run (s_in_suspend v) (power_calls cs) = Some (s_in_suspend v') \<and> window_ok v'"
    if "window_calls ms v = (v', cs)" "window_ok v" for v'
    using that
  proof (induction ms arbitrary: v cs)
    case Nil
    then show ?case by (auto simp: power_calls_def)
  next
    case (Cons m ms)
    then obtain v1 bs r ds where "WndProc True m v = (v1, bs, r)"
      and "window_calls ms v1 = (v', ds)" and "cs = bs @ ds"
      by (auto split: prod.splits)
    with Cons.IH [of v1 ds] Cons.prems(2) WndProc_power [of m v v1 bs r] show ?case
      by (simp add: power_calls_append power_run_append)
  qed
  with assms show ?thesis by (simp add: window_ok_def)
qed

theorem suspend_and_resume_alternate_witness:
  "\<exists>v' cs. window_calls [resize_message\<lparr>wParam := SIZE_MINIMIZED\<rparr>, resize_message] new_WndState = (v', cs) \<and>
     power_calls cs = [do_OnSuspending, do_OnResuming] \<and>
     power_run False (power_calls cs) = Some (s_in_suspend v')"
proof -
  have calls: "window_calls [resize_message\<lparr>wParam := SIZE_MINIMIZED\<rparr>, resize_message] new_WndState =
      (new_WndState, [do_OnSuspending, do_OnResuming])"
    by (simp add: message_eval resize_message_def new_WndState_def)
  moreover have "power_run (s_in_suspend new_WndState) (power_calls [do_OnSuspending, do_OnResuming]) =
      Some (s_in_suspend new_WndState)"
    using suspend_and_resume_alternate [OF calls] by (simp add: new_WndState_def)
  ultimately show ?thesis by (simp add: new_WndState_def power_calls_def)
qed

section \<open>The size of the window\<close>

text \<open>
  The abstract window: whether it is being moved or sized by the user, and the size it was last
  told outside of that or at its end.
\<close>

definition size_step :: "Msg \<Rightarrow> bool \<times> RECT \<Rightarrow> bool \<times> RECT" where
  "size_step m a =
     (case message m of
        WM_ENTERSIZEMOVE \<Rightarrow> (True, snd a)
      | WM_EXITSIZEMOVE \<Rightarrow> (case client_rect m of (l, t, r, b) \<Rightarrow> (False, (0, 0, r - l, b - t)))
      | WM_SIZE \<Rightarrow> (fst a, if fst a then snd a else (0, 0, LOWORD (lParam m), HIWORD (lParam m)))
      | _ \<Rightarrow> a)"

fun size_run :: "loop_event list \<Rightarrow> bool \<times> RECT \<Rightarrow> bool \<times> RECT" where
  "size_run [] a = a"
| "size_run (Polled m # evs) a = size_run evs (size_step m a)"
| "size_run (_ # evs) a = size_run evs a"

definition size_of_window :: "WndState \<times> GameProcess \<Rightarrow> bool \<times> RECT" where
  "size_of_window st = (s_in_sizemove (fst st), m_outputSize (gp_device (snd st)))"

definition minimizes :: "loop_event \<Rightarrow> bool" where
  "minimizes ev \<longleftrightarrow> (\<exists>m. ev = Polled m \<and> message m = WM_SIZE \<and> wParam m = SIZE_MINIMIZED)"

lemma perform_size:
  assumes "perform w m c p = Some (Inr p')" and "process_ok p"
  shows "m_outputSize (gp_device p') =
    (case c of do_OnWindowSizeChanged x y \<Rightarrow> (0, 0, x, y) | _ \<Rightarrow> m_outputSize (gp_device p))"
proof -
  from assms(2) obtain x y where at0: "m_outputSize (gp_device p) = (0, 0, x, y)" by (rule process_size)
  have moved: "m_outputSize (gp_device q) = (0, 0, x, y)" if "OnWindowMoved w p = Inr q" for q
    using that assms(2) at0 by (auto simp: OnWindowMoved_def bind_res_Inr_iff
        dest: size_changed_step(2))
  show ?thesis
    using assms moved
    by (cases c) (auto simp: perform_def OnSuspending_def OnActivated_def OnDeactivated_def
        OnResuming_def at0 Tick_process_step(2) OnDisplayChange_step(2) OnWindowSizeChanged_step(2))
qed

lemma performs_size:
  assumes "fold_run (perform w m) cs p = Some (Inr p')" and "process_ok p"
    and "\<forall>c\<in>set cs. \<forall>x y. c \<noteq> do_OnWindowSizeChanged x y"
  shows "m_outputSize (gp_device p') = m_outputSize (gp_device p)"
  using assms
proof (induction cs arbitrary: p)
  case Nil
  then show ?case by simp
next
  case (Cons c cs)
  then obtain q where q: "perform w m c p = Some (Inr q)"
    and rest: "fold_run (perform w m) cs q = Some (Inr p')"
    by (auto simp: bind_run_Inr_iff)
  have "m_outputSize (gp_device q) = m_outputSize (gp_device p)"
    using perform_size [OF q Cons.prems(2)] Cons.prems(3) by (auto split: GameCall.splits)
  with Cons.IH [OF rest process_step_ok [OF perform_step [OF q Cons.prems(2)]]] Cons.prems(3)
  show ?case by simp
qed

lemma WndProc_size:
  assumes "WndProc True m u = (v, cs, r)" and "\<not> s_minimized u" and "\<not> minimizes (Polled m)"
  shows "\<not> s_minimized v"
    and "(\<forall>c\<in>set cs. \<forall>x y. c \<noteq> do_OnWindowSizeChanged x y) \<and>
           size_step m (s_in_sizemove u, z) = (s_in_sizemove v, z) \<or>
         (\<exists>x y. cs = [do_OnWindowSizeChanged x y] \<and>
           size_step m (s_in_sizemove u, z) = (s_in_sizemove v, (0, 0, x, y)))"
proof -
  note defs = WndProc_def default_proc_def on_size_def on_power_def on_exitsizemove_def
    on_syskeydown_def toggle_fullscreen_def call_if_def minimizes_def size_step_def
  show "\<not> s_minimized v"
    using assms by (cases "message m") (auto simp: defs split: if_splits prod.splits)
  show "(\<forall>c\<in>set cs. \<forall>x y. c \<noteq> do_OnWindowSizeChanged x y) \<and>
           size_step m (s_in_sizemove u, z) = (s_in_sizemove v, z) \<or>
         (\<exists>x y. cs = [do_OnWindowSizeChanged x y] \<and>
           size_step m (s_in_sizemove u, z) = (s_in_sizemove v, (0, 0, x, y)))"
    using assms by (cases "message m") (auto simp: defs split: if_splits prod.splits)
qed

lemma dispatch_size:
  assumes run: "dispatch w m st = Some (Inr st')" and ok: "process_ok (snd st)"
    and up: "\<not> s_minimized (fst st)" and big: "\<not> minimizes (Polled m)"
  shows "size_of_window st' = size_step m (size_of_window st)" and "\<not> s_minimized (fst st')"
proof -
  obtain v cs r where wp: "WndProc True m (fst st) = (v, cs, r)" by (metis prod_cases3)
  with run have cs: "fold_run (perform w m) cs (snd st) = Some (Inr (snd st'))" and v: "v = fst st'"
    by (auto simp: dispatch_def bind_run_Inr_iff)
  note ws = WndProc_size [OF wp up big]
  show "\<not> s_minimized (fst st')" using ws(1) by (simp add: v)
  from ws(2) [where z = "m_outputSize (gp_device (snd st))"]
  show "size_of_window st' = size_step m (size_of_window st)"
  proof (elim disjE conjE exE)
    assume "\<forall>c\<in>set cs. \<forall>x y. c \<noteq> do_OnWindowSizeChanged x y"
    with cs ok have "m_outputSize (gp_device (snd st')) = m_outputSize (gp_device (snd st))"
      by (rule performs_size)
    moreover assume "size_step m (s_in_sizemove (fst st), m_outputSize (gp_device (snd st))) =
      (s_in_sizemove v, m_outputSize (gp_device (snd st)))"
    ultimately show ?thesis by (simp add: size_of_window_def v)
  next
    fix x y
    assume "cs = [do_OnWindowSizeChanged x y]"
    with cs perform_size [OF _ ok] have "m_outputSize (gp_device (snd st')) = (0, 0, x, y)"
      by (auto simp: bind_run_Inr_iff)
    moreover assume "size_step m (s_in_sizemove (fst st), m_outputSize (gp_device (snd st))) =
      (s_in_sizemove v, (0, 0, x, y))"
    ultimately show ?thesis by (simp add: size_of_window_def v)
  qed
qed

lemma loop_step_size:
  assumes run: "loop_step w ev st = Some (Inr st')" and ok: "process_ok (snd st)"
    and up: "\<not> s_minimized (fst st)" and big: "\<not> minimizes ev"
  shows "size_of_window st' = size_run [ev] (size_of_window st)" and "\<not> s_minimized (fst st')"
proof -
  have "size_of_window st' = size_run [ev] (size_of_window st) \<and> \<not> s_minimized (fst st')"
  proof (cases ev)
    case (Polled m)
    with assms dispatch_size [of w m st st'] show ?thesis by (simp add: loop_step_def)
  next
    case (Idle inp now)
    with assms show ?thesis
      by (auto simp: loop_step_def bind_run_Inr_iff size_of_window_def Tick_process_step(2))
  next
    case (Threads t)
    with assms show ?thesis by (auto simp: loop_step_def bind_run_Inr_iff size_of_window_def)
  next
    case (Quit code)
    with assms show ?thesis by (simp add: loop_step_def)
  qed
  then show "size_of_window st' = size_run [ev] (size_of_window st)" and "\<not> s_minimized (fst st')"
    by blast+
qed

lemma size_run_Cons: "size_run (ev # evs) a = size_run evs (size_run [ev] a)"
  by (cases ev) simp_all

text \<open>C18: while the window is not minimized, the output of the device is the size that the window was
  last told, however it is moved, sized, shown in full screen, suspended or drawn in between.\<close>

theorem output_follows_the_window:
  assumes "drawing_ready w p0" and "message_loop w evs (v0, p0) = Some (Inr (None, v, p))"
    and "\<not> s_minimized v0" and "\<forall>ev\<in>set evs. \<not> minimizes ev"
  shows "(s_in_sizemove v, m_outputSize (gp_device p)) =
    size_run evs (s_in_sizemove v0, m_outputSize (gp_device p0))"
proof -
  have "size_of_window (v, p) = size_run evs (size_of_window st)"
    if "message_loop w evs st = Some (Inr (None, v, p))" "process_ok (snd st)"
      "\<not> s_minimized (fst st)" for st
    using that assms(4)
  proof (induction evs arbitrary: st)
    case Nil
    then show ?case by simp
  next
    case (Cons ev evs)
    from Cons.prems(1) obtain st1 where st1: "loop_step w ev st = Some (Inr st1)"
      and rest: "message_loop w evs st1 = Some (Inr (None, v, p))"
      by (cases rule: message_loop_Cons) auto
    have big: "\<not> minimizes ev" and "\<forall>ev\<in>set evs. \<not> minimizes ev" using Cons.prems(4) by auto
    note sz = loop_step_size [OF st1 Cons.prems(2,3) big]
    have "process_ok (snd st1)"
      using loop_step_step [OF st1 Cons.prems(2)] by (rule process_step_ok)
    from Cons.IH [OF rest this sz(2)] \<open>\<forall>ev\<in>set evs. \<not> minimizes ev\<close>
    show ?case by (simp add: sz(1) size_run_Cons [of ev evs])
  qed
  from this [of "(v0, p0)"] assms(2,3) drawing_ready_ok(1) [OF assms(1)]
  show ?thesis by (simp add: size_of_window_def)
qed

theorem output_follows_the_window_witness:
  "\<exists>m v p. message_loop (plain_world 0) [Polled resize_message, Idle no_keys 0]
       (new_WndState, ready_game m) = Some (Inr (None, v, p)) \<and>
     m_outputSize (gp_device p) = (0, 0, 1024, 768)"
proof -
  obtain m where m: "ResourceLoader_Init (\<lambda>_. True) = Inr m" using all_readable by blast
  obtain p f where run: "message_loop (plain_world 0) [Polled resize_message, Idle no_keys 0]
       (new_WndState, ready_game m) = Some (Inr (None, new_WndState, p))" and "gp_frames p = [f]"
    using resized_run by blast
  have "\<not> s_minimized new_WndState"
    and "\<forall>ev\<in>set [Polled resize_message, Idle no_keys 0]. \<not> minimizes ev"
    by (simp_all add: new_WndState_def minimizes_def resize_message_def SIZE_MINIMIZED_def)
  from output_follows_the_window [OF ready_game_drawing [OF m] run this]
  have "m_outputSize (gp_device p) = (0, 0, 1024, 768)"
    by (simp add: new_WndState_def size_step_def resize_message_def LOWORD_def HIWORD_def)
  with run show ?thesis by blast
qed

text \<open>When the window comes back from being minimized, the game only resumes: the size of the message
  is ignored, and if it is another one the output keeps the old size.\<close>

theorem restored_size_is_missed:
  assumes "s_minimized v" and "message m = WM_SIZE" and "wParam m \<noteq> SIZE_MINIMIZED"
  shows "\<exists>p'. dispatch w m (v, p) =
      Some (Inr (v\<lparr>s_minimized := False, s_in_suspend := False\<rparr>, p')) \<and>
    gp_device p' = gp_device p \<and>
    gp_timer p' = (if s_in_suspend v then ResetElapsedTime (counter m) (gp_timer p) else gp_timer p)"
  using assms
  by (cases "s_in_suspend v") (auto simp: dispatch_def WndProc_def default_proc_def on_size_def
      call_if_def perform_def OnResuming_def)

theorem restored_size_is_missed_witness:
  "\<exists>v p'. dispatch (plain_world 0) resize_message
       (new_WndState\<lparr>s_minimized := True, s_in_suspend := True\<rparr>, ready_game Map.empty) = Some (Inr (v, p')) \<and>
     m_outputSize (gp_device p') = (0, 0, 800, 600) \<and>
     (LOWORD (lParam resize_message), HIWORD (lParam resize_message)) = (1024, 768)"
proof -
  have "m_outputSize (gp_device (ready_game Map.empty)) = (0, 0, 800, 600)"
    and "(LOWORD (lParam resize_message), HIWORD (lParam resize_message)) = (1024, 768)"
    by (simp_all add: ready_game_def ready_device_def resize_message_def LOWORD_def HIWORD_def)
  moreover have "s_minimized (new_WndState\<lparr>s_minimized := True, s_in_suspend := True\<rparr>)"
    and "message resize_message = WM_SIZE" and "wParam resize_message \<noteq> SIZE_MINIMIZED"
    by (simp_all add: resize_message_def SIZE_MINIMIZED_def)
  from restored_size_is_missed [OF this, of "plain_world 0" "ready_game Map.empty"]
  obtain v p' where "dispatch (plain_world 0) resize_message
       (new_WndState\<lparr>s_minimized := True, s_in_suspend := True\<rparr>, ready_game Map.empty) = Some (Inr (v, p'))"
    and "gp_device p' = gp_device (ready_game Map.empty)" by blast
  ultimately show ?thesis by auto
qed

end
