(* ===== verification/DeviceClaims.thy ===== *)
theory DeviceClaims
  imports WindowRun
begin

text \<open>
  Properties of the device resources on their own: which output decides about the colour space, and
  how often the owner is told about a lost device.
\<close>

section \<open>The output that shows most of the window\<close>

definition pixels :: "RECT \<Rightarrow> (int \<times> int) set" where
  "pixels r = (case r of (x1, y1, x2, y2) \<Rightarrow> {x1..<x2} \<times> {y1..<y2})"

definition small_rect :: "RECT \<Rightarrow> bool" where
  "small_rect r = (case r of (x1, y1, x2, y2) \<Rightarrow>
     \<bar>x1\<bar> \<le> 16384 \<and> \<bar>y1\<bar> \<le> 16384 \<and> \<bar>x2\<bar> \<le> 16384 \<and> \<bar>y2\<bar> \<le> 16384)"

lemma int32_small: "\<bar>x\<bar> \<le> 2 ^ 30 \<Longrightarrow> int32_res x = Inr x"
  by (auto simp: int32_res_def)

lemma pixels_inter:
  "pixels (ax1, ay1, ax2, ay2) \<inter> pixels (bx1, by1, bx2, by2) =
     {max ax1 bx1..<min ax2 bx2} \<times> {max ay1 by1..<min ay2 by2}"
  by (auto simp: pixels_def)

lemma ComputeIntersectionArea_pixels:
  assumes "small_rect a" and "small_rect b"
  shows "ComputeIntersectionArea a b = Inr (int (card (pixels a \<inter> pixels b)))"
proof -
  obtain ax1 ay1 ax2 ay2 where a: "a = (ax1, ay1, ax2, ay2)" by (metis prod_cases4)
  obtain bx1 by1 bx2 by2 where b: "b = (bx1, by1, bx2, by2)" by (metis prod_cases4)
  let ?w = "min ax2 bx2 - max ax1 bx1" and ?h = "min ay2 by2 - max ay1 by1"
  have span: "\<bar>min x y - max u v\<bar> \<le> 32768"
    if "\<bar>x\<bar> \<le> 16384" "\<bar>y\<bar> \<le> 16384" "\<bar>u\<bar> \<le> 16384" "\<bar>v\<bar> \<le> 16384" for x y u v :: int
    using that by linarith
  have w: "\<bar>?w\<bar> \<le> 32768" and h: "\<bar>?h\<bar> \<le> 32768"
    using assms by (auto simp: a b small_rect_def intro!: span)
  have "max 0 ?w * max 0 ?h \<le> 32768 * 32768" using w h by (intro mult_mono) auto
  moreover have "0 \<le> max 0 ?w * max 0 ?h" by (intro mult_nonneg_nonneg) auto
  ultimately have "int32_res (max 0 ?w * max 0 ?h) = Inr (max 0 ?w * max 0 ?h)"
    by (intro int32_small) simp
  moreover have "int32_res ?w = Inr ?w" and "int32_res ?h = Inr ?h"
    using w h by (auto intro!: int32_small)
  moreover have "max 0 ?w * max 0 ?h = int (card (pixels a \<inter> pixels b))"
    by (simp add: a b pixels_inter card_cartesian_product max_def)
  ultimately show ?thesis by (simp add: ComputeIntersectionArea_def a b)
qed

definition all_outputs :: "Adapter list \<Rightarrow> Output list" where
  "all_outputs as = concat (map adapter_outputs as)"

definition covered :: "RECT \<Rightarrow> Output \<Rightarrow> nat" where
  "covered window out = card (pixels window \<inter> pixels (DesktopCoordinates out))"

definition readable_output :: "Output \<Rightarrow> bool" where
  "readable_output out \<longleftrightarrow> SUCCEEDED (desc_result out) \<and> small_rect (DesktopCoordinates out)"

lemma output_step_covered:
  assumes "small_rect window" and "readable_output out"
  shows "output_step window out best =
    Inr (if int (covered window out) > snd best then (Some out, int (covered window out)) else best)"
  using assms by (simp add: output_step_def readable_output_def ThrowIfFailed_def covered_def
      ComputeIntersectionArea_pixels)

text \<open>The first output among those that cover most of the window.\<close>

definition covers_most :: "RECT \<Rightarrow> Output list \<Rightarrow> Output option \<times> int \<Rightarrow> bool" where
  "covers_most window outs best \<longleftrightarrow>
     (case best of
        (None, area) \<Rightarrow> outs = [] \<and> area = - 1
      | (Some out, area) \<Rightarrow> area = int (covered window out) \<and>
          (\<exists>us vs. outs = us @ out # vs \<and> (\<forall>u\<in>set us. covered window u < covered window out) \<and>
             (\<forall>v\<in>set vs. covered window v \<le> covered window out)))"

lemma covers_most_snoc:
  assumes "covers_most window outs best"
  shows "covers_most window (outs @ [out])
    (if int (covered window out) > snd best then (Some out, int (covered window out)) else best)"
proof (cases "int (covered window out) > snd best")
  case True
  have "\<forall>u\<in>set outs. covered window u < covered window out"
    using assms True by (cases best) (force simp: covers_most_def split: option.splits)
  then show ?thesis
    using True unfolding covers_most_def by (simp, intro exI [of _ outs] exI [of _ "[]"]) simp
next
  case False
  with assms obtain b us vs where "best = (Some b, int (covered window b))"
    and "outs = us @ b # vs" and "\<forall>u\<in>set us. covered window u < covered window b"
    and "\<forall>v\<in>set vs. covered window v \<le> covered window b"
    by (cases best) (auto simp: covers_most_def split: option.splits)
  with False show ?thesis
    unfolding covers_most_def by (simp, intro exI [of _ us] exI [of _ "vs @ [out]"]) auto
qed

text \<open>With every output readable, \<open>UpdateColorSpace\<close> decides by the first output, over all
  adapters, that shows the largest number of pixels of the window, and the area does not overflow.\<close>

theorem best_output_covers_most:
  assumes "small_rect window" and "\<forall>out\<in>set (all_outputs as). readable_output out"
  shows "\<exists>best. best_output window as = Inr best \<and> covers_most window (all_outputs as) best"
proof -
  have "\<exists>best. fold_res (output_step window) outs (None, - 1) = Inr best \<and>
      covers_most window outs best" if "\<forall>out\<in>set outs. readable_output out" for outs
    using that
  proof (induction outs rule: rev_induct)
    case Nil
    then show ?case by (simp add: covers_most_def)
  next
    case (snoc out outs)
    then obtain best where "fold_res (output_step window) outs (None, - 1) = Inr best"
      and "covers_most window outs best" by auto
    with snoc.prems covers_most_snoc [of window outs best out] show ?case
      by (simp add: fold_res_append output_step_covered [OF assms(1)])
  qed
  with assms(2) show ?thesis by (simp add: best_output_def fold_res_concat all_outputs_def)
qed

theorem best_output_covers_most_witness:
  "\<exists>best. best_output (100, 100, 900, 700) [one_adapter, one_adapter] = Inr best \<and>
     covers_most (100, 100, 900, 700) [one_output, one_output] best"
proof -
  have outs: "all_outputs [one_adapter, one_adapter] = [one_output, one_output]"
    by (simp add: all_outputs_def one_adapter_def)
  have "small_rect (100, 100, 900, 700)" by (simp add: small_rect_def)
  moreover have "\<forall>out\<in>set (all_outputs [one_adapter, one_adapter]). readable_output out"
    by (simp add: outs readable_output_def one_output_def SUCCEEDED_def small_rect_def)
  ultimately show ?thesis
    using best_output_covers_most [of "(100, 100, 900, 700)" "[one_adapter, one_adapter]"]
    by (simp only: outs)
qed

section \<open>Recovery\<close>

text \<open>The call that resizes an existing swap chain, and whether its answer is that the device is lost.\<close>

definition resize_call :: "DeviceResources \<Rightarrow> D3DCall option" where
  "resize_call d =
     (case (backBufferWidth d, backBufferHeight d) of
        (Inr w, Inr h) \<Rightarrow> Some (ResizeBuffers (m_backBufferCount d) w h (backBufferFormat d)
                                 (has_option c_AllowTearing d))
      | _ \<Rightarrow> None)"

definition lost_at_resize :: "Direct3D \<Rightarrow> DeviceResources \<Rightarrow> bool" where
  "lost_at_resize sys d \<longleftrightarrow> m_swapChain d \<noteq> None \<and>
     (case resize_call d of
        Some c \<Rightarrow> is_lost (hresult sys (calls d @ [OMSetRenderTargets, Flush, c]))
      | None \<Rightarrow> False)"

lemma HandleDeviceLost_stages:
  assumes run: "HandleDeviceLost sys obs d g = Inr (d', g')"
  obtains g1 d1 where "notify (OnDeviceLost obs) d g = Inr g1"
    and "CreateDeviceResources sys (release_device d) = Inr d1"
    and "CreateWindowSizeDependentResources sys obs d1 g1 = Inr (d', g1)"
    and "notify (OnDeviceRestored obs) d g1 = Inr g'"
proof -
  from run obtain g1 d1 g2 where g1: "notify (OnDeviceLost obs) d g = Inr g1"
    and d1: "CreateDeviceResources sys (release_device d) = Inr d1"
    and d2: "CreateWindowSizeDependentResources sys obs d1 g1 = Inr (d', g2)"
    and g': "notify (OnDeviceRestored obs) d' g2 = Inr g'"
    by (auto simp: HandleDeviceLost.simps res_simps)
  from run have "resized d d'" by (rule HandleDeviceLost_result)
  moreover have "g2 = g1"
    using d2 CreateDeviceResources_swap [OF d1]
    by (auto simp: CreateWindowSizeDependentResources.simps res_simps release_device_def)
  ultimately show thesis using that g1 d1 d2 g' by (simp add: resized_def notify_def)
qed

text \<open>C21: resizing and recovery call each other, but there is at most one recovery.  When there is a
  swap chain and Direct3D answers to its resizing that the device is lost, then the owner of the device is
  told once that it was lost, a device is created, its resources of the size of the window are made
  without telling the owner anything, and then the owner is told once that the device is restored.
  In every other case the owner is told nothing.\<close>

theorem recovery_happens_once:
  assumes "CreateWindowSizeDependentResources sys obs d g = Inr (d', g')" and "m_deviceNotify d"
  shows "if lost_at_resize sys d
    then \<exists>g1 d1 d2. OnDeviceLost obs g = Inr g1 \<and> CreateDeviceResources sys (release_device d1) = Inr d2 \<and>
      CreateWindowSizeDependentResources sys obs d2 g1 = Inr (d', g1) \<and> OnDeviceRestored obs g1 = Inr g'
    else g' = g"
proof -
  from assms(1) obtain d1 w h where d1: "clear_targets d = Inr d1" "backBufferWidth d1 = Inr w" "backBufferHeight d1 = Inr h"
    by (auto simp: CreateWindowSizeDependentResources.simps res_simps)
  note c = clear_targets_result [OF d1(1)]
  have size: "resize_call d = Some (ResizeBuffers (m_backBufferCount d1) w h (backBufferFormat d1) (has_option c_AllowTearing d1))"
    using d1(2,3) by (simp add: c resize_call_def backBufferWidth_def backBufferHeight_def has_option_def backBufferFormat_def flip_options_def)
  let ?c = "the (resize_call d)"
  have lost: "lost_at_resize sys d \<longleftrightarrow> m_swapChain d \<noteq> None \<and> is_lost (hresult sys (calls d1 @ [?c]))"
    by (simp add: lost_at_resize_def size c)
  show ?thesis
  proof (cases "lost_at_resize sys d")
    case True
    then have "HandleDeviceLost sys obs (d1\<lparr>calls := calls d1 @ [?c]\<rparr>) g = Inr (d', g')"
      using assms(1) d1 lost by (auto simp: CreateWindowSizeDependentResources.simps res_simps size)
    with True assms(2) show ?thesis
      by (elim HandleDeviceLost_stages) (auto simp: notify_def c)
  next
    case False
    then have "g' = g"
      using assms(1) d1 lost
      by (auto simp: CreateWindowSizeDependentResources.simps res_simps size split: option.splits)
    with False show ?thesis by simp
  qed
qed

text \<open>A system that loses the device at every resizing, and an owner that counts.\<close>

definition lost_on_resize :: "D3DCall list \<Rightarrow> HRESULT" where
  "lost_on_resize l =
     (if last l = ResizeBuffers 2 800 600 B8G8R8A8_UNORM False then DXGI_ERROR_DEVICE_RESET else 0)"

definition counting :: "(nat \<times> nat) IDeviceNotify" where
  "counting = \<lparr>OnDeviceLost = \<lambda>(a, b). Inr (a + 1, b), OnDeviceRestored = \<lambda>(a, b). Inr (a, b + 1)\<rparr>"

theorem recovery_happens_once_witness:
  "(\<exists>d'. CreateWindowSizeDependentResources (plain_d3d lost_on_resize) counting ready_device (0, 0) =
     Inr (d', (1, 1))) \<and> lost_at_resize (plain_d3d lost_on_resize) ready_device"
proof -
  obtain d' g where run: "CreateWindowSizeDependentResources (plain_d3d lost_on_resize) counting
      ready_device (0, 0) = Inr (d', g)"
  proof -
    have "\<exists>d' g. CreateWindowSizeDependentResources (plain_d3d lost_on_resize) counting ready_device
        (0, 0) = Inr (d', g)"
      by (simp add: world_eval device_eval frame_eval lost_on_resize_def counting_def ready_device_def)
    with that show thesis by blast
  qed
  moreover have "m_deviceNotify ready_device" by (simp add: ready_device_def)
  moreover have lost: "lost_at_resize (plain_d3d lost_on_resize) ready_device"
    by (simp add: lost_at_resize_def resize_call_def world_eval device_eval frame_eval lost_on_resize_def ready_device_def)
  ultimately have "g = (1, 1)" using recovery_happens_once [OF run] by (auto simp: counting_def)
  with run lost show ?thesis by blast
qed

end
