(* ===== verification/ServerStream.thy ===== *)
theory ServerStream
  imports ServerFaults
begin

text \<open>
  What arrives at the server: the receive completions of one client slot, which write their bytes
  into the slot's buffer and queue the packets that are complete.  However the stream is cut, the
  queue of the packet thread gets exactly its packets, in their order and with the session of the
  slot.
\<close>

section \<open>The receive loop of a slot\<close>

text \<open>The entry of the queue for a packet from the session \<open>i\<close>.\<close>

definition received :: "int \<Rightarrow> bytes \<Rightarrow> PacketInfo" where
  "received i p =
     \<lparr>DataSize = dec16 (fld 0 2 p), pi_PacketId = dec16 (fld 2 2 p), pi_SessionIndex = i, pDataPtr = p\<rparr>"

definition slot_received :: "nat \<Rightarrow> PacketBuffer \<Rightarrow> PacketInfo list \<Rightarrow> Server \<Rightarrow> Server" where
  "slot_received c pb ps s =
     s\<lparr>recvPackets := recvPackets s @ ps, clients := (clients s)[c := (clients s ! c)\<lparr>packetBuffer := pb\<rparr>]\<rparr>"

lemma slot_received_sel [simp]:
  "recvPackets (slot_received c pb ps s) = recvPackets s @ ps"
  "length (clients (slot_received c pb ps s)) = length (clients s)"
  "c < length (clients s) \<Longrightarrow> clients (slot_received c pb ps s) ! c = (clients s ! c)\<lparr>packetBuffer := pb\<rparr>"
  "d \<noteq> c \<Longrightarrow> clients (slot_received c pb ps s) ! d = clients s ! d"
  "sessions (slot_received c pb ps s) = sessions s"
  "rooms (slot_received c pb ps s) = rooms s"
  "heap (slot_received c pb ps s) = heap s"
  "allPlayers (slot_received c pb ps s) = allPlayers s"
  by (simp_all add: slot_received_def)

lemma slot_received_append:
  "c < length (clients s) \<Longrightarrow>
     slot_received c q hs (slot_received c pb gs s) = slot_received c q (gs @ hs) s"
  by (simp add: slot_received_def)

lemma slot_received_same:
  "c < length (clients s) \<Longrightarrow> slot_received c (packetBuffer (clients s ! c)) [] s = s"
  by (simp add: slot_received_def)

lemma fold_receive_packet:
  assumes "list_all (is_packet PACKET_HEADER_LENGTH) fs"
  shows "fold_res (receive_packet i) fs s = Inr (s\<lparr>recvPackets := recvPackets s @ map (received i) fs\<rparr>)"
  using assms
proof (induction fs arbitrary: s)
  case (Cons p fs)
  then have "receive_packet i p s = Inr (s\<lparr>recvPackets := recvPackets s @ [received i p]\<rparr>)"
    by (simp add: receive_packet_def OnReceive_def QueueRecvPacket_def received_def is_packet_def
        PACKET_HEADER_LENGTH_def)
  with Cons show ?case by simp
qed simp

lemma Received_packets:
  assumes "c < length (clients s)" and "c_sessionIndex (clients s ! c) \<noteq> 0"
    and "stream_ok (packetBuffer (clients s ! c))"
    and "accepts (int (length b)) (packetBuffer (clients s ! c))"
    and "pending (packetBuffer (clients s ! c)) @ b = concat fs @ r"
    and "list_all (is_packet PACKET_HEADER_LENGTH) fs" and "partial_packet PACKET_HEADER_LENGTH r"
  shows "\<exists>pb. WorkerThread now (Received c b) s =
           Some (Inr (slot_received c pb (map (received (c_sessionIndex (clients s ! c))) fs) s)) \<and>
           stream_ok pb \<and> pending pb = r"
proof -
  let ?i = "c_sessionIndex (clients s ! c)"
  from pb.push_room [OF assms(3,4)] obtain b1 where
    b1: "Write (Some b) (int (length b)) (packetBuffer (clients s ! c)) = Inr b1"
      "stream_ok b1" "pending b1 = concat fs @ r"
    using assms(5) by (auto simp: write_chunk_def)
  let ?s1 = "s\<lparr>clients := (clients s)[c := (clients s ! c)\<lparr>packetBuffer := b1\<rparr>]\<rparr>"
  have "OnRecv c b s = Inr ?s1" using assms(1) b1(1) by (simp add: OnRecv_def set_client_def)
  moreover from pb.ReadLoop_packets [OF b1(2,3) assms(6,7) fold_receive_packet [OF assms(6)]] obtain q where
    "ReadLoop Read (receive_packet ?i) b1 ?s1 =
       Some (Inr (q, ?s1\<lparr>recvPackets := recvPackets ?s1 @ map (received ?i) fs\<rparr>))"
    "stream_ok q" "pending q = r" by blast
  ultimately show ?thesis using assms(1,2)
    by (intro exI [of _ q])
       (simp add: WorkerThread_def work_received_def set_client_def slot_received_def)
qed

section \<open>A stream of completions\<close>

lemma all_accepted_single: "all_accepted buf step [b] s = accepts (int (length b)) (buf s)"
  by (simp split: option.split sum.split)

definition slot_step :: "int \<Rightarrow> nat \<Rightarrow> bytes \<Rightarrow> Server \<Rightarrow> Server res option" where
  "slot_step now c b s = WorkerThread now (Received c b) s"

definition slot_buffer :: "nat \<Rightarrow> Server \<Rightarrow> PacketBuffer" where
  "slot_buffer c s = packetBuffer (clients s ! c)"

text \<open>The slot \<open>c\<close> has the session \<open>i\<close>.\<close>

definition slot_ready :: "nat \<Rightarrow> int \<Rightarrow> Server \<Rightarrow> bool" where
  "slot_ready c i s \<longleftrightarrow> c < length (clients s) \<and> c_sessionIndex (clients s ! c) = i \<and> i \<noteq> 0"

interpretation slot: packet_reader "slot_buffer c" "slot_step now c"
  "\<lambda>fs q. slot_received c q (map (received i) fs)" "slot_ready c i" for now c i
proof
  show "\<exists>q. slot_step now c b s = Some (Inr (slot_received c q (map (received i) fs) s)) \<and>
          stream_ok q \<and> pending q = r"
    if "slot_ready c i s" "stream_ok (slot_buffer c s)" "accepts (int (length b)) (slot_buffer c s)"
      "pending (slot_buffer c s) @ b = concat fs @ r" "list_all (is_packet PACKET_HEADER_LENGTH) fs"
      "partial_packet PACKET_HEADER_LENGTH r" for s b fs r
    using Received_packets [of c s b fs r now] that
    by (auto simp: slot_ready_def slot_buffer_def slot_step_def)
qed (auto simp: slot_ready_def slot_buffer_def slot_received_append slot_received_same)

text \<open>A run of completions as steps of the server.\<close>

lemma steps_Cons:
  assumes "server_step sh e s = Some (Inr t)" and "steps sh t es u"
  shows "steps sh s (e # es) u"
  using assms(2,1)
proof (induction rule: steps.induct)
  case (steps_refl t)
  from steps.steps_step [OF steps.steps_refl steps_refl] show ?case by simp
next
  case (steps_step t es u e' v)
  from steps.steps_step [OF steps_step.IH [OF steps_step.prems] steps_step.hyps(2)] show ?case by simp
qed

lemma steps_append: "steps sh t fs u \<Longrightarrow> steps sh s es t \<Longrightarrow> steps sh s (es @ fs) u"
  by (induction rule: steps.induct) (auto simp flip: append_assoc intro: steps.steps_step)

lemma steps_received:
  assumes "fold_run (slot_step now c) cs s = Some (Inr t)"
  shows "steps sh s (map (\<lambda>b. Completion now (Received c b)) cs) t"
  using assms
proof (induction cs arbitrary: s)
  case Nil
  then show ?case by (simp add: steps.steps_refl)
next
  case (Cons b cs)
  then obtain u where u: "slot_step now c b s = Some (Inr u)" "fold_run (slot_step now c) cs u = Some (Inr t)"
    by (auto simp: bind_run_Inr_iff)
  have "server_step sh (Completion now (Received c b)) s = Some (Inr u)"
    using u(1) by (simp add: server_step_def slot_step_def)
  from steps_Cons [OF this Cons.IH [OF u(2)]] show ?case by simp
qed

lemma chunks_are_received:
  assumes "slot_ready c i s" and "stream_ok (slot_buffer c s)" and "pending (slot_buffer c s) = []"
    and "concat cs = concat fs" and "list_all (is_packet PACKET_HEADER_LENGTH) fs"
    and "all_accepted (slot_buffer c) (slot_step now c) cs s"
  shows "\<exists>q. steps sh s (map (\<lambda>b. Completion now (Received c b)) cs)
               (slot_received c q (map (received i) fs) s) \<and> stream_ok q \<and> pending q = []"
proof -
  from slot.reads_stream [OF assms(1,2) _ assms(5) _ _ assms(6), of "[]"] assms(3,4) obtain q where
    "fold_run (slot_step now c) cs s = Some (Inr (slot_received c q (map (received i) fs) s))"
    "stream_ok q" "pending q = []"
    by (auto simp: partial_packet_def)
  with steps_received show ?thesis by blast
qed

section \<open>The first chunk of a connection\<close>

text \<open>What \<open>OnConnect\<close> makes of the state: a player and a session for the slot.\<close>

definition new_session :: "Server \<Rightarrow> int" where
  "new_session s = int (first_unused (sessions s)) + 1"

definition connected :: "nat \<Rightarrow> Server \<Rightarrow> Server" where
  "connected c s =
     (let a = nextAddress s; m = first_null (allPlayers s); k = first_unused (sessions s); i = new_session s;
          x = \<lparr>playerInfo = Some a, clientInfo = Some c, s_sessionIndex = i, isUse = True\<rparr>
      in s\<lparr>nextAddress := a + 1,
           allPlayers := (if m < length (allPlayers s) then (allPlayers s)[m := Some a] else allPlayers s @ [Some a]),
           heap := (heap s)(a := Some (new_Player\<lparr>p_playerUID := int m, p_sessionIndex := i\<rparr>)),
           clients := (clients s)[c := (clients s ! c)\<lparr>c_playerUID := int m, c_sessionIndex := i\<rparr>],
           sessions := (if k < length (sessions s) then (sessions s)[k := x] else sessions s @ [x])\<rparr>)"

lemma first_unused_le: "first_unused xs \<le> length xs"
  by (induction xs) auto

lemma session_filled:
  "s_sessionIndex y = i \<Longrightarrow> y\<lparr>playerInfo := p, clientInfo := q, isUse := u\<rparr> =
     \<lparr>playerInfo = p, clientInfo = q, s_sessionIndex = i, isUse = u\<rparr>" for y :: Session
  by (cases y) simp

lemma OnConnect_connected:
  assumes "sessions_ok s" and "c < length (clients s)"
  shows "OnConnect c s = Inr (connected c s)"
proof -
  let ?k = "first_unused (sessions s)"
  have "s_sessionIndex (sessions s ! ?k) = int ?k + 1" if "?k < length (sessions s)"
    using assms(1) that by (simp add: sessions_ok_def)
  moreover have "?k = length (sessions s)" if "\<not> ?k < length (sessions s)"
    using first_unused_le [of "sessions s"] that by simp
  ultimately show ?thesis using assms(2)
    by (auto simp: session_filled OnConnect_def GetEmptyPlayer_def AddSession_def SetSession_def Let_def set_client_def
        set_player_def connected_def new_session_def new_Session_def)
qed

lemma connected_sel [simp]:
  "recvPackets (connected c s) = recvPackets s" "length (clients (connected c s)) = length (clients s)"
  "c < length (clients s) \<Longrightarrow> c_sessionIndex (clients (connected c s) ! c) = new_session s"
  "c < length (clients s) \<Longrightarrow> slot_buffer c (connected c s) = slot_buffer c s"
  "new_session s \<noteq> 0"
  by (simp_all add: connected_def new_session_def Let_def slot_buffer_def)

lemma connected_buffer:
  assumes "c < length (clients s)"
  shows "connected c (s\<lparr>clients := (clients s)[c := (clients s ! c)\<lparr>packetBuffer := b\<rparr>]\<rparr>) =
    (connected c s)\<lparr>clients := (clients (connected c s))[c := (clients (connected c s) ! c)\<lparr>packetBuffer := b\<rparr>]\<rparr>"
proof -
  obtain x where x: "clients s ! c = x" by blast
  with assms show ?thesis
    by (cases s; cases x) (simp add: connected_def new_session_def Let_def)
qed

text \<open>A chunk on a slot without a session does what it does after \<open>OnConnect\<close>.\<close>

lemma first_chunk:
  assumes "sessions_ok s" and "c < length (clients s)" and "c_sessionIndex (clients s ! c) = 0"
  shows "slot_step now c b s = slot_step now c b (connected c s)"
proof -
  have buf: "packetBuffer (clients (connected c s) ! c) = packetBuffer (clients s ! c)"
    using connected_sel(4) [OF assms(2)] by (simp add: slot_buffer_def)
  show ?thesis
  proof (cases "Write (Some b) (int (length b)) (packetBuffer (clients s ! c))")
    case (Inl e)
    then show ?thesis using assms(2) buf
      by (simp add: slot_step_def WorkerThread_def work_received_def OnRecv_def)
  next
    case (Inr q)
    let ?s = "s\<lparr>clients := (clients s)[c := (clients s ! c)\<lparr>packetBuffer := q\<rparr>]\<rparr>"
    have w: "OnRecv c b s = Inr ?s" using Inr assms(2) by (simp add: OnRecv_def set_client_def)
    have "OnRecv c b (connected c s) = Inr (connected c ?s)"
      using Inr assms(2) buf connected_buffer [OF assms(2), of q] by (simp add: OnRecv_def set_client_def)
    moreover have "OnConnect c ?s = Inr (connected c ?s)"
      by (rule OnConnect_connected) (use assms(1,2) in \<open>simp_all add: sessions_ok_def\<close>)
    moreover have "c_sessionIndex (clients ?s ! c) = 0" using assms(2,3) by simp
    moreover have "c_sessionIndex (clients (connected c ?s) ! c) \<noteq> 0"
      using connected_sel(3) [of c ?s] assms(2) by simp
    ultimately show ?thesis using w by (simp add: slot_step_def WorkerThread_def work_received_def)
  qed
qed

text \<open>The state of the slot in which its first chunk is read.\<close>

definition introduced :: "nat \<Rightarrow> Server \<Rightarrow> Server" where
  "introduced c s = (if c_sessionIndex (clients s ! c) = 0 then connected c s else s)"

lemma introduced_ready:
  assumes "c < length (clients s)"
  shows "slot_ready c (c_sessionIndex (clients (introduced c s) ! c)) (introduced c s)"
    "slot_buffer c (introduced c s) = slot_buffer c s" "recvPackets (introduced c s) = recvPackets s"
  using assms by (simp_all add: slot_ready_def introduced_def)

lemma stream_is_received:
  assumes "sessions_ok s" and "c < length (clients s)" and "cs \<noteq> []"
    and "stream_ok (slot_buffer c s)" and "pending (slot_buffer c s) = []"
    and "concat cs = concat fs" and "list_all (is_packet PACKET_HEADER_LENGTH) fs"
    and "all_accepted (slot_buffer c) (slot_step now c) cs s"
  shows "\<exists>q. steps sh s (map (\<lambda>b. Completion now (Received c b)) cs)
               (slot_received c q (map (received (c_sessionIndex (clients (introduced c s) ! c))) fs)
                  (introduced c s)) \<and> stream_ok q \<and> pending q = []"
proof -
  obtain b bs where cs: "cs = b # bs" using assms(3) by (cases cs) auto
  have same: "slot_step now c b (introduced c s) = slot_step now c b s"
    using first_chunk [OF assms(1,2)] by (simp add: introduced_def)
  note r = introduced_ready [OF assms(2)]
  have "all_accepted (slot_buffer c) (slot_step now c) cs (introduced c s)"
    using assms(8) by (simp add: cs same r(2))
  with slot.reads_stream [OF r(1) _ _ assms(7), of cs "[]" now] assms(4-6) obtain q where
    q: "fold_run (slot_step now c) cs (introduced c s) = Some (Inr (slot_received c q
          (map (received (c_sessionIndex (clients (introduced c s) ! c))) fs) (introduced c s)))"
      "stream_ok q" "pending q = []"
    by (auto simp: partial_packet_def r(2))
  have "fold_run (slot_step now c) cs s = fold_run (slot_step now c) cs (introduced c s)"
    by (simp add: cs same)
  with q steps_received [of now c cs s] show ?thesis by auto
qed

section \<open>What a slot sends\<close>

text \<open>The messages that were handed to the system or wait for it, and the completions of all of them.\<close>

definition outgoing :: "ClientInfo \<Rightarrow> OverlappedEx list" where
  "outgoing c = wsaSends c @ drop 1 (sendDataQueue c)"

lemma outgoing_SendMsg: "outgoing (SendMsg_client m op c) = outgoing c @ [\<lparr>wsaBuf = m, operation = op\<rparr>]"
  by (cases "sendDataQueue c") (simp_all add: outgoing_def SendMsg_client_def SendIO_def Let_def)

lemma outgoing_irrelevant [simp]: "outgoing (c\<lparr>packetBuffer := q\<rparr>) = outgoing c"
  by (simp add: outgoing_def)

lemma sends_complete:
  assumes "d < length (clients s)"
  shows "\<exists>c. steps sh s (replicate (length (sendDataQueue (clients s ! d))) (Completion now (Sent d)))
               (s\<lparr>clients := (clients s)[d := c]\<rparr>) \<and>
             sendDataQueue c = [] \<and> wsaSends c = outgoing (clients s ! d)"
  using assms
proof (induction "sendDataQueue (clients s ! d)" arbitrary: s)
  case Nil
  then show ?case
    by (intro exI [of _ "clients s ! d"]) (simp add: steps.steps_refl outgoing_def flip: Nil(1))
next
  case (Cons m ms)
  have q: "sendDataQueue (clients s ! d) = m # ms" using Cons(2) by simp
  from sender.complete_waiting [OF q] obtain x where
    x: "SendCompleted (clients s ! d) = Inr x" "sendDataQueue x = ms" "wsaSends x = wsaSends (clients s ! d) @ take 1 ms"
    by blast
  let ?t = "s\<lparr>clients := (clients s)[d := x]\<rparr>"
  have "ms = sendDataQueue (clients ?t ! d)" "d < length (clients ?t)" using x(2) Cons(3) by simp_all
  from Cons(1) [OF this] Cons(3) x obtain c where
    c: "steps sh ?t (replicate (length ms) (Completion now (Sent d))) (?t\<lparr>clients := (clients ?t)[d := c]\<rparr>)"
    "sendDataQueue c = []" "wsaSends c = outgoing x" by auto
  have "server_step sh (Completion now (Sent d)) s = Some (Inr ?t)"
    using x(1) Cons(3) by (simp add: server_step_def WorkerThread_def work_sent_def)
  from steps_Cons [OF this c(1)] Cons(3) have
    "steps sh s (replicate (length (m # ms)) (Completion now (Sent d))) (s\<lparr>clients := (clients s)[d := c]\<rparr>)"
    by simp
  moreover have "outgoing x = outgoing (clients s ! d)"
    using x(2,3) q by (simp add: outgoing_def)
  ultimately show ?case using c(2,3) unfolding q by (intro exI [of _ c]) simp
qed

section \<open>Messages to a session\<close>

definition session_slot :: "int \<Rightarrow> nat \<Rightarrow> Server \<Rightarrow> bool" where
  "session_slot i c s \<longleftrightarrow>
     1 \<le> i \<and> i \<le> int (length (sessions s)) \<and> clientInfo (sessions s ! nat (i - 1)) = Some c \<and>
     c < length (clients s)"

lemma SendNotify_slot:
  assumes "session_slot j d s"
  shows "SendNotify j pid n enc res s =
    Inr (s\<lparr>clients := (clients s)[d := SendMsg_client (enc (stamp j pid n res)) NOTIFY (clients s ! d)]\<rparr>)"
  using assms by (simp add: SendNotify_def FindSession_def at_res_def session_slot_def SendMsg_def set_client_def)

lemma SendPacketFunc_slot:
  assumes "session_slot i c s"
  shows "SendPacketFunc i m s = Inr (s\<lparr>clients := (clients s)[c := SendMsg_client m SEND (clients s ! c)]\<rparr>)"
  using assms by (simp add: SendPacketFunc_def FindSession_def at_res_def session_slot_def SendMsg_def set_client_def)

end
