(* ===== verification/ServerLogin.thy ===== *)
theory ServerLogin
  imports ServerStream
begin

text \<open>
  The login of a new connection: the first bytes on a slot create a player and a session, and the
  handler answers with the number of the session.  The answer is well formed because no operation
  of the server touches the array of characters in the \<open>res\<close> of the login handler.
\<close>

section \<open>The array of the login handler\<close>

definition login_id :: "Server \<Rightarrow> bytes" where
  "login_id s = UserID (resLogin s)"

lemma login_id_answers: "answers t = answers s \<Longrightarrow> login_id t = login_id s"
  by (simp add: answers_def login_id_def)

lemma login_id_irrelevant [simp]:
  "login_id (s\<lparr>clients := cs\<rparr>) = login_id s" "login_id (s\<lparr>recvPackets := ps\<rparr>) = login_id s"
  "login_id (s\<lparr>heap := h\<rparr>) = login_id s" "login_id (s\<lparr>allPlayers := qs\<rparr>) = login_id s"
  "login_id (s\<lparr>sessions := ss\<rparr>) = login_id s" "login_id (s\<lparr>isRun := b\<rparr>) = login_id s"
  "login_id (s\<lparr>clientNumber := n\<rparr>) = login_id s" "login_id (s\<lparr>packetQueue := pq\<rparr>) = login_id s"
  "login_id (resFallingBlock_update f2 s) = login_id s" "login_id (resGameInput_update f3 s) = login_id s"
  "login_id (resGameStart_update f2 s) = login_id s" "login_id (resGameStop_update f5 s) = login_id s"
  "login_id (resRoomCanEnter_update f5 s) = login_id s" "login_id (resRoomCreate_update f6 s) = login_id s"
  "login_id (resRoomEnter_update f7 s) = login_id s" "login_id (resRoomLeave_update f5 s) = login_id s"
  "login_id (resRoomList_update f8 s) = login_id s"
  "login_id (resLogin_update (answer_header n' req) s) = login_id s"
  by (simp_all add: login_id_def answer_header_def)

lemmas login_id_frames = frames [THEN login_id_answers]

lemma login_id_logic:
  "ReqLogin r0 p s = Inr t \<Longrightarrow> login_id t = login_id s"
  "ReqFallingBlock sh r0 p s = Inr t \<Longrightarrow> login_id t = login_id s"
  "ReqGameInput r1 p s = Inr t \<Longrightarrow> login_id t = login_id s"
  "ReqGameStart sh r0 p s = Inr t \<Longrightarrow> login_id t = login_id s"
  "ReqGameStop r0 p s = Inr t \<Longrightarrow> login_id t = login_id s"
  "ReqRoomCanEnter r2 p s = Inr t \<Longrightarrow> login_id t = login_id s"
  "ReqRoomCreate r0 p s = Inr t \<Longrightarrow> login_id t = login_id s"
  "ReqRoomEnter r2 p s = Inr t \<Longrightarrow> login_id t = login_id s"
  "ReqRoomLeave r0 p s = Inr t \<Longrightarrow> login_id t = login_id s"
  "ReqRoomList r3 p s = Inr t \<Longrightarrow> login_id t = login_id s"
  subgoal by (auto simp: ReqLogin_def bind_res_Inr_iff login_id_def)
  subgoal by (auto simp: ReqFallingBlock_def bind_res_Inr_iff split: option.splits dest!: login_id_frames)
  subgoal by (auto simp: ReqGameInput_def bind_res_Inr_iff split: option.splits dest!: login_id_frames)
  subgoal by (auto simp: ReqGameStart_def bind_res_Inr_iff split: option.splits dest!: login_id_frames)
  subgoal by (auto simp: ReqGameStop_def bind_res_Inr_iff split: option.splits dest!: login_id_frames)
  subgoal by (auto simp: ReqRoomCanEnter_def split: option.splits)
  subgoal by (auto simp: ReqRoomCreate_def bind_res_Inr_iff dest!: login_id_frames)
  subgoal by (auto simp: ReqRoomEnter_def bind_res_Inr_iff split: option.splits dest!: login_id_frames)
  subgoal using login_id_answers [OF answers_RemoveRoom]
    by (auto simp: ReqRoomLeave_def bind_res_Inr_iff split: option.splits if_splits dest!: login_id_frames)
  subgoal by (auto simp: ReqRoomList_def bind_res_Inr_iff split: if_splits)
  done

lemma login_id_Handle:
  assumes "Handle n dec m enc get upd logic i p s = Inr t"
    and "\<And>bs u. login_id (upd (answer_header m (dec bs)) u) = login_id u"
    and "\<And>req q u v. logic req q u = Inr v \<Longrightarrow> login_id v = login_id u"
  shows "login_id t = login_id s"
  using assms(1)
  by (auto simp: Handle_def ReadReq_def Let_def bind_res_Inr_iff SendPacketFunc_def assms(2)
      split: if_splits option.splits dest!: assms(3) login_id_answers [OF answers_SendMsg])

lemma login_id_run_handler:
  assumes "run_handler sh k i p s = Inr t" shows "login_id t = login_id s"
proof -
  have "run_handler sh k i p s = Inr t \<longrightarrow> login_id t = login_id s"
    by (cases k; simp add: run_handler_def; intro impI; erule login_id_Handle)
       (simp_all add: login_id_logic)
  with assms show ?thesis by blast
qed

lemma login_id_PacketThread: "PacketThread sh s = Inr t \<Longrightarrow> login_id t = login_id s"
  by (auto simp: PacketThread_def DequeRecvPacket_def ProcessPacket_def bind_res_Inr_iff
      split: list.splits dest!: login_id_run_handler)

section \<open>The other threads\<close>

lemma login_id_SetSession: "SetSession i p c s = Inr t \<Longrightarrow> login_id t = login_id s"
  by (auto simp: SetSession_def Let_def bind_res_Inr_iff set_player_Inr_iff set_client_Inr_iff)

lemma login_id_GetEmptyPlayer: "GetEmptyPlayer s = (a, t) \<Longrightarrow> login_id t = login_id s"
  by (auto simp: GetEmptyPlayer_def Let_def login_id_def split: if_splits)

lemma login_id_OnConnect: "OnConnect c s = Inr t \<Longrightarrow> login_id t = login_id s"
  by (auto simp: OnConnect_def AddSession_def Let_def bind_res_Inr_iff set_client_Inr_iff
      split: prod.splits if_splits dest!: login_id_SetSession login_id_GetEmptyPlayer)

lemma login_id_OnClose: "OnClose i s = Inr t \<Longrightarrow> login_id t = login_id s"
  by (auto simp: OnClose_def Let_def bind_res_Inr_iff RemoveSession_def CloseSession_def
      RemovePlayer_manager_def set_player_Inr_iff set_client_Inr_iff split: option.splits)

lemma login_id_CloseSocket: "CloseSocket now c s = Inr t \<Longrightarrow> login_id t = login_id s"
  by (auto simp: CloseSocket_def Let_def bind_res_Inr_iff set_client_Inr_iff split: if_splits
      dest!: login_id_OnClose)

lemma login_id_received:
  assumes "work_received c b s = Some (Inr t)" shows "login_id t = login_id s"
proof -
  from assms obtain s1 s2 pb s3 where
    s1: "OnRecv c b s = Inr s1"
    and s2: "(if c_sessionIndex (clients s1 ! c) = 0 then OnConnect c s1 else Inr s1) = Inr s2"
    and loop: "ReadLoop Read (receive_packet (c_sessionIndex (clients s2 ! c)))
                 (packetBuffer (clients s2 ! c)) s2 = Some (Inr (pb, s3))"
    and t: "set_client (Some c) (\<lambda>ci. ci\<lparr>packetBuffer := pb\<rparr>) s3 = Inr t"
    by (auto simp: work_received_def bind_res_Inr_iff split: sum.splits option.splits)
  have "login_id s3 = login_id s2"
    by (rule ReadLoop_state [OF loop, where P = "\<lambda>u. login_id u = login_id s2"])
       (auto simp: receive_packet_def OnReceive_def QueueRecvPacket_def split: if_splits)
  with s1 s2 t show ?thesis
    by (auto simp: OnRecv_def bind_res_Inr_iff set_client_Inr_iff split: if_splits dest!: login_id_OnConnect)
qed

lemma login_id_ProcessThread:
  assumes "ProcessThread s = Inr t" shows "login_id t = login_id s"
proof (cases "packetQueue s")
  case Nil
  with assms show ?thesis by (simp add: ProcessThread_def DequePacketData_def)
next
  case (Cons d ds)
  show ?thesis
  proof (cases "PacketData_Set d")
    case (Inr x)
    with assms Cons show ?thesis
      by (auto simp: ProcessThread_def DequePacketData_def split: if_splits option.splits
          dest!: login_id_answers [OF answers_SendMsg])
  qed (use assms Cons in \<open>simp add: ProcessThread_def DequePacketData_def\<close>)
qed

lemma login_id_step: "server_step sh e s = Some (Inr t) \<Longrightarrow> login_id t = login_id s"
  by (cases e)
     (auto simp: server_step_def AcceptThread_def WorkerThread_def work_accepted_def work_sent_def
       Let_def bind_res_Inr_iff set_client_Inr_iff
       split: completion.splits option.splits list.splits if_splits prod.splits
       dest!: login_id_received login_id_PacketThread login_id_CloseSocket login_id_ProcessThread)

lemma login_id_steps: "steps sh s es t \<Longrightarrow> login_id t = login_id s"
  by (induction rule: steps.induct) (auto dest: login_id_step)

lemma login_id_reachable: "steps sh (new_Server g n) es s \<Longrightarrow> length (UserID (resLogin s)) = 33"
  using login_id_steps [of sh "new_Server g n" es s]
  by (simp add: login_id_def new_Server_def default_RES_LOGIN_def default_BASE_PACKET_def BASE_PACKET.defs RES_LOGIN.defs)

section \<open>The login of a new connection\<close>

lemma before_first_null: "j < first_null xs \<Longrightarrow> xs ! j \<noteq> None"
  by (induction xs arbitrary: j) (auto simp: nth_Cons' split: if_splits)

text \<open>No player has the number of the session that comes next.\<close>

definition next_is_new :: "Server \<Rightarrow> bool" where
  "next_is_new s \<longleftrightarrow> (\<forall>a x. heap s a = Some x \<longrightarrow> p_sessionIndex x \<noteq> new_session s)"

lemma FindPlayer_cong:
  "heap t = heap s \<Longrightarrow> allPlayers t = allPlayers s \<Longrightarrow>
     FindPlayerBySessionIndex i t = FindPlayerBySessionIndex i s"
  by (simp add: FindPlayerBySessionIndex_def cong: option.case_cong)

lemma find_new_player:
  assumes "players_ok s" and "next_is_new s"
  shows "FindPlayerBySessionIndex (new_session s) (connected c s) = Inr (Some (nextAddress s))"
proof -
  let ?m = "first_null (allPlayers s)" and ?t = "connected c s"
  have len: "?m < length (allPlayers ?t)" using first_null_le [of "allPlayers s"]
    by (auto simp: connected_def Let_def)
  have at: "allPlayers ?t ! ?m = Some (nextAddress s)" using first_null_le [of "allPlayers s"]
    by (auto simp: connected_def Let_def nth_append)
  have "find_player (\<lambda>p. p_sessionIndex p = new_session s) (heap ?t) (allPlayers ?t) 0 = Inr (Some (0 + ?m))"
  proof (rule find_player_finds [OF len])
    fix j assume j: "j \<le> ?m"
    show "\<exists>b q. allPlayers ?t ! j = Some b \<and> heap ?t b = Some q \<and> (p_sessionIndex q = new_session s \<longleftrightarrow> j = ?m)"
    proof (cases "j = ?m")
      case True
      with at show ?thesis by (simp add: connected_def Let_def)
    next
      case False
      with j have j: "j < ?m" by simp
      then have "j < length (allPlayers s)" using first_null_le [of "allPlayers s"] by simp
      moreover obtain b where b: "allPlayers s ! j = Some b" using before_first_null [OF j] by auto
      ultimately obtain q where q: "heap s b = Some q" using assms(1) by (fastforce simp: players_ok_def)
      then have "b \<noteq> nextAddress s" using assms(1) by (auto simp: players_ok_def)
      with q b j assms(2) \<open>j < length (allPlayers s)\<close> show ?thesis
        by (auto simp: connected_def Let_def nth_append next_is_new_def)
    qed
  qed
  with at show ?thesis by (simp add: FindPlayerBySessionIndex_def)
qed

definition login_bytes :: "bytes \<Rightarrow> bool" where
  "login_bytes p \<longleftrightarrow> is_packet PACKET_HEADER_LENGTH p \<and>
     (\<exists>r :: BASE_PACKET. p = enc_BASE r \<and> PacketId r = packet_id PID_REQ_LOGIN)"

lemma login_answer_bytes:
  fixes r :: RES_LOGIN and i :: int and p :: bytes
  defines "m \<equiv> enc_RES_LOGIN ((answer_header sizeof_RES_LOGIN (dec_BASE p) r)
             \<lparr>newSessionID := of_int i, resultID := Result_SUCCESS\<rparr>)"
  assumes "length (UserID r) = 33"
  shows "is_packet PACKET_HEADER_LENGTH m" "length m = sizeof_RES_LOGIN"
    "dec_header m = answer_to sizeof_RES_LOGIN (dec_header p)" "newSessionID (dec_RES_LOGIN m) = of_int i"
proof -
  let ?r = "(answer_header sizeof_RES_LOGIN (dec_BASE p) r)\<lparr>newSessionID := of_int i, resultID := Result_SUCCESS\<rparr>"
  have valid: "valid_RES_LOGIN ?r"
    using assms(2) by (simp add: valid_RES_LOGIN_def valid_BASE_def answer_header_def proper_result_def
        ResultID_word_def word_ResultID_def)
  have head: "header_of ?r = answer_to sizeof_RES_LOGIN (dec_header p)"
    by (simp add: header_of_answer header_of_dec)
  show "is_packet PACKET_HEADER_LENGTH m" unfolding m_def
    by (rule res_login.enc_is_packet [OF valid], unfold head) (simp add: answer_to_def)
  show "length m = sizeof_RES_LOGIN" unfolding m_def by (rule res_login.length_enc [OF valid])
  show "dec_header m = answer_to sizeof_RES_LOGIN (dec_header p)"
    using res_login.dec_header_enc [OF valid, of "[]"] head by (simp add: m_def)
  show "newSessionID (dec_RES_LOGIN m) = of_int i" unfolding m_def res_login.dec_enc [OF valid] by simp
qed

text \<open>What a login adds to the server: a player of its own, that the search by the new session's
  number finds, and the session, which joins the player with the slot.\<close>

definition logged_in :: "nat \<Rightarrow> Server \<Rightarrow> Server \<Rightarrow> bool" where
  "logged_in c s t \<longleftrightarrow>
     heap s (nextAddress s) = None \<and>
     heap t = (heap s)(nextAddress s \<mapsto>
       new_Player\<lparr>p_playerUID := int (first_null (allPlayers s)), p_sessionIndex := new_session s\<rparr>) \<and>
     FindPlayerBySessionIndex (new_session s) t = Inr (Some (nextAddress s)) \<and>
     first_unused (sessions s) < length (sessions t) \<and>
     sessions t ! first_unused (sessions s) =
       \<lparr>playerInfo = Some (nextAddress s), clientInfo = Some c, s_sessionIndex = new_session s, isUse = True\<rparr> \<and>
     c_sessionIndex (clients t ! c) = new_session s"

text \<open>A login on a fresh slot is answered with the number of the session it gets.\<close>

lemma login_served:
  assumes "server_ok s" and "c < length (clients s)" and "c_sessionIndex (clients s ! c) = 0"
    and "pending (slot_buffer c s) = []" and "accepts (int (length p)) (slot_buffer c s)"
    and "recvPackets s = []" and "login_bytes p" and "length (UserID (resLogin s)) = 33"
    and "next_is_new s"
  shows "\<exists>u m. steps sh s [Completion now (Received c p), PacketStep] u \<and> length (clients u) = length (clients s) \<and>
     outgoing (clients u ! c) = outgoing (clients s ! c) @ [\<lparr>wsaBuf = m, operation = SEND\<rparr>] \<and>
     logged_in c s u \<and> is_packet PACKET_HEADER_LENGTH m \<and>
     length m = sizeof_RES_LOGIN \<and> dec_header m = answer_to sizeof_RES_LOGIN (dec_header p) \<and>
     newSessionID (dec_RES_LOGIN m) = of_int (new_session s)"
proof -
  let ?i = "new_session s" and ?a = "nextAddress s"
  from assms(7) obtain r :: BASE_PACKET where r: "p = enc_BASE r" "PacketId r = packet_id PID_REQ_LOGIN"
    and pk: "is_packet PACKET_HEADER_LENGTH p" by (auto simp: login_bytes_def)
  have ok: "sessions_ok s" "players_ok s" "stream_ok (slot_buffer c s)"
    using assms(1,2) by (auto simp: server_ok_def clients_ok_def connection_ok_def slot_buffer_def)
  have "introduced c s = connected c s" using assms(3) by (simp add: introduced_def)
  moreover have "all_accepted (slot_buffer c) (slot_step now c) [p] s"
    using assms(5) by (rule all_accepted_single [THEN iffD2])
  ultimately obtain q where
    q: "steps sh s [Completion now (Received c p)] (slot_received c q [received ?i p] (connected c s))"
    using stream_is_received [OF ok(1) assms(2) _ ok(3) assms(4), of "[p]" "[p]" now sh] assms(2) pk
    by (auto simp del: all_accepted.simps)
  let ?u = "slot_received c q [received ?i p] (connected c s)"
  let ?u1 = "resLogin_update (answer_header sizeof_RES_LOGIN (dec_BASE p)) (?u\<lparr>recvPackets := []\<rparr>)"
  let ?u2 = "?u1\<lparr>resLogin := (resLogin ?u1)\<lparr>newSessionID := of_int ?i, resultID := Result_SUCCESS\<rparr>\<rparr>"
  let ?m = "enc_RES_LOGIN (resLogin ?u2)"
  let ?u3 = "?u2\<lparr>clients := (clients ?u2)[c := SendMsg_client ?m SEND (clients ?u2 ! c)]\<rparr>"
  have res: "resLogin ?u = resLogin s" by (simp add: slot_received_def connected_def Let_def)
  have find: "FindPlayerBySessionIndex ?i ?u1 = Inr (Some ?a)"
    by (rule trans [OF FindPlayer_cong find_new_player [OF ok(2) assms(9)]]) simp_all
  have logic: "ReqLogin (dec_BASE p) (Some ?a) ?u1 = Inr ?u2"
    by (simp add: ReqLogin_def slot_received_def connected_def Let_def)
  have "session_slot ?i c ?u2"
    using first_unused_le [of "sessions s"] assms(2)
    by (auto simp: session_slot_def slot_received_def connected_def Let_def new_session_def nth_append)
  from SendPacketFunc_slot [OF this] have send: "SendPacketFunc ?i ?m ?u2 = Inr ?u3" .
  have h: "dec_header p = header_of r" unfolding r(1)
    using enc_prefix(1) [of r] dec_header_prefix by metis
  have id: "pi_PacketId (received ?i p) = packet_id PID_REQ_LOGIN"
    using arg_cong [OF h, of PacketId] r(2)
    by (simp add: received_def dec_header_def) (simp add: header_of_def PACKET_HEADER.defs)
  have "run_handler sh H_Login ?i p (?u\<lparr>recvPackets := []\<rparr>) = Inr ?u3"
    using find logic send by (simp add: run_handler_def Handle_def ReadReq_def r(1) sizeof_BASE_def Let_def)
  moreover have "map_of handlers (packet_id PID_REQ_LOGIN) = Some H_Login" by (simp add: handlers_def packet_id_def)
  moreover have "recvPackets ?u = [received ?i p]" using assms(6) by simp
  ultimately have "PacketThread sh ?u = Inr ?u3" using id
    by (simp add: PacketThread_def DequeRecvPacket_def ProcessPacket_def) (simp add: received_def)
  then have "steps sh s ([Completion now (Received c p)] @ [PacketStep]) ?u3"
    by (intro steps.steps_step [OF q]) (simp add: server_step_def)
  then have run: "steps sh s [Completion now (Received c p), PacketStep] ?u3" by simp
  note ans = login_answer_bytes [where r = "resLogin ?u" and p = p and i = ?i]
  from ans assms(8) res have "is_packet PACKET_HEADER_LENGTH ?m" "length ?m = sizeof_RES_LOGIN"
    "dec_header ?m = answer_to sizeof_RES_LOGIN (dec_header p)" "newSessionID (dec_RES_LOGIN ?m) = of_int ?i"
    by simp_all
  moreover have "length (clients ?u2) = length (clients s)" "c < length (clients ?u2)" using assms(2) by simp_all
  moreover have "outgoing (clients ?u2 ! c) = outgoing (clients s ! c)" "c_sessionIndex (clients ?u2 ! c) = ?i"
    using assms(2) by (simp_all add: slot_received_def connected_def Let_def outgoing_def)
  moreover have "c_sessionIndex (SendMsg_client m op x) = c_sessionIndex x" for m op x
    by (simp add: SendMsg_client_def SendIO_def Let_def)
  moreover have "FindPlayerBySessionIndex ?i ?u3 = Inr (Some ?a)"
    by (rule trans [OF FindPlayer_cong find_new_player [OF ok(2) assms(9)]]) simp_all
  moreover have "heap s ?a = None" using ok(2) by (auto simp: players_ok_def)
  moreover have "heap ?u3 = heap (connected c s)" "sessions ?u3 = sessions (connected c s)"
    by simp_all
  moreover have "first_unused (sessions s) < length (sessions (connected c s))"
    "sessions (connected c s) ! first_unused (sessions s) =
       \<lparr>playerInfo = Some ?a, clientInfo = Some c, s_sessionIndex = ?i, isUse = True\<rparr>"
    "heap (connected c s) = (heap s)(?a \<mapsto>
       new_Player\<lparr>p_playerUID := int (first_null (allPlayers s)), p_sessionIndex := ?i\<rparr>)"
    using first_unused_le [of "sessions s"] by (auto simp: connected_def Let_def nth_append)
  ultimately show ?thesis using run
    by (intro exI [of _ ?u3] exI [of _ ?m]) (simp add: outgoing_SendMsg logged_in_def)
qed

end
