(* ===== verification/ServerTraffic.thy ===== *)
theory ServerTraffic
  imports ServerLogin "HOL-Library.Sublist"
begin

text \<open>
  Everything the server hands to the system is a packet: the invariant \<open>lines_ok\<close> of the connections
  and \<open>res_ok\<close> of the handlers' answers, whose arrays keep their lengths, and their preservation by
  every operation.
\<close>

section \<open>Framing\<close>

lemma framed:
  assumes "\<exists>q. enc x = enc_header (header_of x) @ q" and "length (enc x) = n"
    and "PacketLength (header_of x) = of_nat n" and "12 \<le> n" and "n < 128"
  shows "is_packet PACKET_HEADER_LENGTH (enc x)"
proof -
  from assms(1) obtain q where q: "enc x = enc_header (header_of x) @ q" by blast
  have w: "uint (of_nat n :: 16 word) = int n" "uint (of_nat n :: 8 word) = int n"
    using assms(5) by (simp_all add: unsigned_of_nat take_bit_nat_eq_self_iff)
  have "hd (enc16 w) = word_of_int (uint w)" "enc16 w \<noteq> []" for w
    by (simp_all add: enc16_def numeral_2_eq_2)
  then have "hd (enc x) = word_of_int (uint (of_nat n :: 16 word))"
    unfolding q by (simp add: enc_header_def assms(3))
  then have "dataSize (hd (enc x)) = int n" using assms(5) w by (simp add: dataSize_eq)
  with assms(2,4) show ?thesis by (auto simp: is_packet_def PACKET_HEADER_LENGTH_def)
qed

lemma length_answers:
  "length (enc_BASE p) = sizeof_BASE"
  "length (UserID q1) = 33 \<Longrightarrow> length (enc_RES_LOGIN q1) = sizeof_RES_LOGIN"
  "length (enc_RES_ROOM_CREATE q2) = sizeof_RES_ROOM_CREATE"
  "length (enc_RES_ROOM_ENTER q3) = sizeof_RES_ROOM_ENTER"
  "length (roomInfo q4) = ROOM_CNT_PER_PAGE \<Longrightarrow> length (enc_RES_ROOM_LIST q4) = sizeof_RES_ROOM_LIST"
  "length (newBlocks q5) = PACKET_FALLING_BLOCK_SIZE \<Longrightarrow> length (enc_RES_GAME_START q5) = sizeof_RES_GAME_START"
  "length (res_inputs q6) = PACKET_KEY_INPUT_SIZE \<Longrightarrow> length (enc_RES_GAME_INPUT q6) = sizeof_RES_GAME_INPUT"
  using length_array [of "roomInfo q4" 8 enc_RoomInfo 13]
    length_array [of "newBlocks q5" 14 "\<lambda>s. enc16 (ShapeType_word s)" 2]
    length_array [of "res_inputs q6" 30 "\<lambda>i. enc16 (InputType_word i)" 2]
  by (simp_all add: sizeof_BASE_def sizeof_RES_LOGIN_def sizeof_RES_ROOM_CREATE_def sizeof_RES_ROOM_ENTER_def
      sizeof_RES_ROOM_LIST_def sizeof_RES_GAME_START_def sizeof_RES_GAME_INPUT_def enc_RES_LOGIN_def
      enc_RES_ROOM_CREATE_def enc_RES_ROOM_ENTER_def enc_RES_ROOM_LIST_def enc_RES_GAME_START_def
      enc_RES_GAME_INPUT_def RoomInfo_codec)

lemma sizes:
  "12 \<le> sizeof_BASE" "sizeof_BASE < 128" "12 \<le> sizeof_RES_LOGIN" "sizeof_RES_LOGIN < 128"
  "12 \<le> sizeof_RES_ROOM_CREATE" "sizeof_RES_ROOM_CREATE < 128"
  "12 \<le> sizeof_RES_ROOM_ENTER" "sizeof_RES_ROOM_ENTER < 128"
  "12 \<le> sizeof_RES_ROOM_LIST" "sizeof_RES_ROOM_LIST < 128"
  "12 \<le> sizeof_RES_GAME_START" "sizeof_RES_GAME_START < 128"
  "12 \<le> sizeof_RES_GAME_INPUT" "sizeof_RES_GAME_INPUT < 128"
  by (simp_all add: sizeof_BASE_def sizeof_RES_LOGIN_def sizeof_RES_ROOM_CREATE_def sizeof_RES_ROOM_ENTER_def
      sizeof_RES_ROOM_LIST_def sizeof_RES_GAME_START_def sizeof_RES_GAME_INPUT_def)

lemma PacketLength_stamp [simp]: "PacketLength (header_of (stamp i pid n r)) = of_nat n"
  by (simp add: stamp_def header_of_def PACKET_HEADER.defs)

section \<open>The connections\<close>

definition is_message :: "bytes \<Rightarrow> bool" where
  "is_message m \<longleftrightarrow> is_packet PACKET_HEADER_LENGTH m"

text \<open>
  A connection holds packets only, and goes on from the history \<open>h\<close>: what had been handed to the
  system, and what had been queued in all, comes first and in the same order.
\<close>

record history =
  handed :: "OverlappedEx list"
  queued :: "OverlappedEx list"

definition history_of :: "ClientInfo \<Rightarrow> history" where
  "history_of c = \<lparr>handed = wsaSends c, queued = outgoing c\<rparr>"

definition goes_on :: "history \<Rightarrow> ClientInfo \<Rightarrow> bool" where
  "goes_on h c \<longleftrightarrow> prefix (handed h) (wsaSends c) \<and> prefix (queued h) (outgoing c)"

definition line_ok :: "history \<Rightarrow> ClientInfo \<Rightarrow> bool" where
  "line_ok h c \<longleftrightarrow> list_all (\<lambda>x. is_message (wsaBuf x)) (wsaSends c @ sendDataQueue c) \<and> goes_on h c"

definition lines_ok :: "history list \<Rightarrow> Server \<Rightarrow> bool" where
  "lines_ok hs s \<longleftrightarrow> list_all2 line_ok hs (clients s) \<and> packetQueue s = []"

lemma line_ok_new: "line_ok \<lparr>handed = [], queued = []\<rparr> (new_ClientInfo fresh k)"
  by (simp add: line_ok_def goes_on_def new_ClientInfo_def)

lemma line_ok_irrelevant [simp]:
  "line_ok h (c_sessionIndex_update f c) = line_ok h c" "line_ok h (c_playerUID_update f c) = line_ok h c"
  "line_ok h (isConnect_update b c) = line_ok h c" "line_ok h (latestClosedTimeSec_update f c) = line_ok h c"
  "line_ok h (sock_update f c) = line_ok h c" "line_ok h (packetBuffer_update g c) = line_ok h c"
  by (simp_all add: line_ok_def goes_on_def outgoing_def)

lemma line_ok_SendMsg: "line_ok h c \<Longrightarrow> is_message m \<Longrightarrow> line_ok h (SendMsg_client m op c)"
  using outgoing_SendMsg [of m op c]
  by (auto simp: line_ok_def goes_on_def SendMsg_client_def SendIO_def Let_def)

lemma line_ok_SendCompleted: "SendCompleted c = Inr d \<Longrightarrow> line_ok h c \<Longrightarrow> line_ok h d"
  by (cases "sendDataQueue c"; cases "tl (sendDataQueue c)")
    (auto simp: line_ok_def goes_on_def outgoing_def SendCompleted_def SendIO_def Let_def)

lemma lines_ok_irrelevant [simp]:
  "lines_ok hs (s\<lparr>recvPackets := ps\<rparr>) = lines_ok hs s" "lines_ok hs (s\<lparr>heap := h\<rparr>) = lines_ok hs s"
  "lines_ok hs (s\<lparr>allPlayers := qs\<rparr>) = lines_ok hs s" "lines_ok hs (s\<lparr>sessions := ss\<rparr>) = lines_ok hs s"
  "lines_ok hs (s\<lparr>isRun := b\<rparr>) = lines_ok hs s" "lines_ok hs (s\<lparr>clientNumber := n\<rparr>) = lines_ok hs s"
  "lines_ok hs (s\<lparr>nextAddress := a\<rparr>) = lines_ok hs s" "lines_ok hs (s\<lparr>rooms := rs\<rparr>) = lines_ok hs s"
  "lines_ok hs (s\<lparr>roomIndex := i\<rparr>) = lines_ok hs s" "lines_ok hs (s\<lparr>shuffles := z\<rparr>) = lines_ok hs s"
  "lines_ok hs (resLogin_update f1 s) = lines_ok hs s" "lines_ok hs (resFallingBlock_update f2 s) = lines_ok hs s"
  "lines_ok hs (resGameInput_update f3 s) = lines_ok hs s" "lines_ok hs (resGameStart_update f4 s) = lines_ok hs s"
  "lines_ok hs (resGameStop_update f5 s) = lines_ok hs s" "lines_ok hs (resRoomCanEnter_update f5 s) = lines_ok hs s"
  "lines_ok hs (resRoomCreate_update f6 s) = lines_ok hs s" "lines_ok hs (resRoomEnter_update f7 s) = lines_ok hs s"
  "lines_ok hs (resRoomLeave_update f5 s) = lines_ok hs s" "lines_ok hs (resRoomList_update f8 s) = lines_ok hs s"
  "lines_ok hs (set_room k g s) = lines_ok hs s"
  by (simp_all add: lines_ok_def set_room_def)

named_theorems lines "the operation hands over packets only"

lemma lines_set_player [lines]: "set_player p g s = Inr t \<Longrightarrow> lines_ok hs s \<Longrightarrow> lines_ok hs t"
  by (auto simp: set_player_Inr_iff)

lemma lines_update: "lines_ok hs s \<Longrightarrow> (i < length (clients s) \<Longrightarrow> line_ok (hs ! i) c) \<Longrightarrow> lines_ok hs (s\<lparr>clients := (clients s)[i := c]\<rparr>)"
  by (auto simp: lines_ok_def list_all2_conv_all_nth nth_list_update_if)

lemma lines_at: "lines_ok hs s \<Longrightarrow> i < length (clients s) \<Longrightarrow> line_ok (hs ! i) (clients s ! i)"
  by (simp add: lines_ok_def list_all2_conv_all_nth)

lemma lines_set_client:
  assumes "set_client p g s = Inr t" and "lines_ok hs s" and "\<And>h c. line_ok h c \<Longrightarrow> line_ok h (g c)"
  shows "lines_ok hs t"
  using assms by (auto simp: set_client_Inr_iff intro!: lines_update lines_at)

lemma lines_SendMsg: "SendMsg c m op s = Inr t \<Longrightarrow> is_message m \<Longrightarrow> lines_ok hs s \<Longrightarrow> lines_ok hs t"
  unfolding SendMsg_def by (erule lines_set_client) (simp_all add: line_ok_SendMsg)

lemma lines_SendNotify:
  "SendNotify i pid n enc r s = Inr t \<Longrightarrow> is_message (enc (stamp i pid n r)) \<Longrightarrow> lines_ok hs s \<Longrightarrow> lines_ok hs t"
  by (auto simp: SendNotify_def bind_res_Inr_iff intro: lines_SendMsg)

section \<open>Notifications\<close>

lemma notifications:
  "is_message (enc_RES_ROOM_ENTER (stamp i pid sizeof_RES_ROOM_ENTER r3))"
  "is_message (enc_BASE (stamp i pid sizeof_BASE r))"
  "length (newBlocks r5) = PACKET_FALLING_BLOCK_SIZE \<Longrightarrow>
     is_message (enc_RES_GAME_START (stamp i pid sizeof_RES_GAME_START r5))"
  "length (res_inputs r6) = PACKET_KEY_INPUT_SIZE \<Longrightarrow>
     is_message (enc_RES_GAME_INPUT (stamp i pid sizeof_RES_GAME_INPUT r6))"
  unfolding is_message_def
  subgoal by (rule framed [OF enc_prefix(4) length_answers(4)]) (simp_all add: sizes)
  subgoal by (rule framed [OF enc_prefix(1) length_answers(1)]) (simp_all add: sizes)
  subgoal by (rule framed [OF enc_prefix(6) length_answers(6)], simp add: stamp_def) (simp_all add: sizes)
  subgoal by (rule framed [OF enc_prefix(7) length_answers(7)], simp add: stamp_def) (simp_all add: sizes)
  done

lemma lines_fold:
  assumes "fold_res f xs s = Inr t" and "lines_ok hs s" and "\<And>x u v. f x u = Inr v \<Longrightarrow> lines_ok hs u \<Longrightarrow> lines_ok hs v"
  shows "lines_ok hs t"
  using assms(1) by (rule fold_res_invariant [where P = "lines_ok hs"]) (use assms(2,3) in auto)

lemma lines_AddPlayer [lines]:
  assumes "AddPlayer i e s = Inr t" and "lines_ok hs s" shows "lines_ok hs t"
proof -
  have "lines_ok hs v" if "greet e res r u = Inr v" "lines_ok hs u" for res r u v
    using that by (auto simp: greet_def bind_res_Inr_iff Let_def notifications dest!: lines_SendNotify)
  note fold = lines_fold [where f = "greet e res" for res, OF _ _ this]
  from assms show ?thesis
    by (auto simp: AddPlayer_def bind_res_Inr_iff Let_def split: if_splits dest!: fold lines_set_player)
qed

lemma lines_RemovePlayer [lines]: "RemovePlayer i k s = Inr t \<Longrightarrow> lines_ok hs s \<Longrightarrow> lines_ok hs t"
  by (auto simp: RemovePlayer_def bind_res_Inr_iff split: option.splits dest!: lines_set_player)

lemma lines_fill_blocks [simp]: "lines_ok hs (fill_blocks sh i index s) = lines_ok hs s"
proof (induction sh i index s rule: fill_blocks.induct)
  case (1 sh i index s)
  then show ?case by (subst fill_blocks.simps) (simp add: GenerateFallingBlocks_def)
qed

lemma lines_GetFallingBlock [lines]: "GetFallingBlock sh i p cnt s = Inr (bs, t) \<Longrightarrow> lines_ok hs s \<Longrightarrow> lines_ok hs t"
  by (auto simp: GetFallingBlock_def bind_res_Inr_iff Let_def split: if_splits dest!: lines_set_player)

lemma copy_blocks_length: "copy_blocks bs = Inr cs \<Longrightarrow> length cs = PACKET_FALLING_BLOCK_SIZE"
  by (auto simp: copy_blocks_def split: if_splits)

lemma lines_GameStart [lines]:
  assumes "GameStart sh i k s = Inr t" and "lines_ok hs s" shows "lines_ok hs t"
proof -
  have "lines_ok hs v" if "start_player sh i k r u = Inr v" "lines_ok hs u" for r u v
    using that
    by (auto simp: start_player_def bind_res_Inr_iff notifications split: if_splits
        dest!: copy_blocks_length lines_SendNotify lines_GetFallingBlock lines_set_player)
  note fold = lines_fold [where f = "start_player sh i k", OF _ _ this]
  let ?s = "GenerateFallingBlocks sh i (set_room i (\<lambda>r. r\<lparr>r_isPlaying := True, fallingBlocks := []\<rparr>) s)"
  have "fold_res (start_player sh i k) (players (rooms ?s ! i)) ?s = Inr t"
    using assms(1) by (simp add: GameStart_def Let_def)
  from fold [OF this] assms(2) show ?thesis by (simp add: GenerateFallingBlocks_def)
qed

lemma lines_notify:
  assumes "fold_res (notify_other k pid n enc r) rs s = Inr t" and "lines_ok hs s"
    and "\<And>i. is_message (enc (stamp i pid n r))"
  shows "lines_ok hs t"
  using assms(1,2)
  by (rule lines_fold)
     (use assms(3) in \<open>auto simp: notify_other_def bind_res_Inr_iff split: if_splits intro: lines_SendNotify\<close>)

lemma lines_GameStop [lines]: "GameStop i k s = Inr t \<Longrightarrow> lines_ok hs s \<Longrightarrow> lines_ok hs t"
  unfolding GameStop_def Let_def by (erule lines_notify) (simp_all add: notifications)

lemma lines_AddKeyInput [lines]:
  assumes "AddKeyInput i k is cnt s = Inr t" and "lines_ok hs s" shows "lines_ok hs t"
proof (cases "cnt = 0")
  case False
  have len: "length (res_inputs (key_inputs is cnt)) = PACKET_KEY_INPUT_SIZE"
    if "0 \<le> cnt" "cnt \<le> int (length is)" "cnt \<le> int PACKET_KEY_INPUT_SIZE"
    using that by (simp add: key_inputs_def default_RES_GAME_INPUT_def BASE_PACKET.defs RES_GAME_INPUT.defs)
  from False assms show ?thesis
    by (auto simp: AddKeyInput_def split: if_splits elim!: lines_notify intro!: notifications len)
qed (use assms in \<open>simp add: AddKeyInput_def\<close>)

lemma lines_CreateRoom [lines]: "CreateRoom s = Inr (k, t) \<Longrightarrow> lines_ok hs s \<Longrightarrow> lines_ok hs t"
  by (auto simp: CreateRoom_def bind_res_Inr_iff)

lemma lines_RemoveRoom [simp]: "lines_ok hs (RemoveRoom k s) = lines_ok hs s"
  by (simp add: RemoveRoom_def split: option.split)

section \<open>Answers\<close>

text \<open>The arrays of the handlers' \<open>res\<close> have their lengths.\<close>

definition res_ok :: "Server \<Rightarrow> bool" where
  "res_ok s \<longleftrightarrow>
     length (UserID (resLogin s)) = 33 \<and>
     length (newBlocks (resFallingBlock s)) = PACKET_FALLING_BLOCK_SIZE \<and>
     length (res_inputs (resGameInput s)) = PACKET_KEY_INPUT_SIZE \<and>
     length (newBlocks (resGameStart s)) = PACKET_FALLING_BLOCK_SIZE \<and>
     length (roomInfo (resRoomList s)) = ROOM_CNT_PER_PAGE"

lemma res_ok_answers: "answers t = answers s \<Longrightarrow> res_ok t = res_ok s"
  by (simp add: answers_def res_ok_def)

lemmas res_frames = frames [THEN res_ok_answers]

lemma res_ok_header [simp]:
  "res_ok (resLogin_update (answer_header n req1) s) = res_ok s"
  "res_ok (resFallingBlock_update (answer_header n req2) s) = res_ok s"
  "res_ok (resGameInput_update (answer_header n req3) s) = res_ok s"
  "res_ok (resGameStart_update (answer_header n req4) s) = res_ok s"
  "res_ok (resRoomList_update (answer_header n req5) s) = res_ok s"
  "res_ok (resGameStop_update f s) = res_ok s" "res_ok (resRoomCanEnter_update f s) = res_ok s"
  "res_ok (resRoomCreate_update f1 s) = res_ok s" "res_ok (resRoomEnter_update f2 s) = res_ok s"
  "res_ok (resRoomLeave_update f s) = res_ok s"
  by (simp_all add: res_ok_def answer_header_def)

definition traffic_ok :: "history list \<Rightarrow> Server \<Rightarrow> bool" where
  "traffic_ok hs s \<longleftrightarrow> lines_ok hs s \<and> res_ok s"

lemma traffic_dealing:
  "GetFallingBlock sh i p cnt s = Inr (bs, t) \<Longrightarrow> traffic_ok hs s \<Longrightarrow> traffic_ok hs t"
  "GameStart sh i k s = Inr t \<Longrightarrow> traffic_ok hs s \<Longrightarrow> traffic_ok hs t"
  "set_player p g s = Inr t \<Longrightarrow> traffic_ok hs s \<Longrightarrow> traffic_ok hs t"
  "RemovePlayer i k s = Inr t \<Longrightarrow> traffic_ok hs s \<Longrightarrow> traffic_ok hs t"
  by (auto simp: traffic_ok_def dest: lines_GetFallingBlock lines_GameStart lines_set_player
      lines_RemovePlayer res_frames)

lemma traffic_RemoveRoom [simp]: "traffic_ok hs (RemoveRoom k s) = traffic_ok hs s"
  by (simp add: traffic_ok_def res_ok_answers [OF answers_RemoveRoom])

lemma traffic_blocks:
  "copy_blocks bs = Inr cs \<Longrightarrow> traffic_ok hs s \<Longrightarrow>
     traffic_ok hs (s\<lparr>resFallingBlock := (resFallingBlock s)\<lparr>newBlocks := cs\<rparr>\<rparr>)"
  "copy_blocks bs = Inr cs \<Longrightarrow> traffic_ok hs s \<Longrightarrow>
     traffic_ok hs (s\<lparr>resGameStart := (resGameStart s)\<lparr>newBlocks := cs\<rparr>\<rparr>)"
  by (simp_all add: traffic_ok_def res_ok_def copy_blocks_length)

lemma traffic_logic:
  "ReqLogin r0 p s = Inr t \<Longrightarrow> traffic_ok hs s \<Longrightarrow> traffic_ok hs t"
  "ReqFallingBlock sh r0 p s = Inr t \<Longrightarrow> traffic_ok hs s \<Longrightarrow> traffic_ok hs t"
  "ReqGameInput r1 p s = Inr t \<Longrightarrow> traffic_ok hs s \<Longrightarrow> traffic_ok hs t"
  "ReqGameStart sh r0 p s = Inr t \<Longrightarrow> traffic_ok hs s \<Longrightarrow> traffic_ok hs t"
  "ReqGameStop r0 p s = Inr t \<Longrightarrow> traffic_ok hs s \<Longrightarrow> traffic_ok hs t"
  "ReqRoomCanEnter r2 p s = Inr t \<Longrightarrow> traffic_ok hs s \<Longrightarrow> traffic_ok hs t"
  "ReqRoomCreate r0 p s = Inr t \<Longrightarrow> traffic_ok hs s \<Longrightarrow> traffic_ok hs t"
  "ReqRoomEnter r2 p s = Inr t \<Longrightarrow> traffic_ok hs s \<Longrightarrow> traffic_ok hs t"
  "ReqRoomLeave r0 p s = Inr t \<Longrightarrow> traffic_ok hs s \<Longrightarrow> traffic_ok hs t"
  "ReqRoomList r3 p s = Inr t \<Longrightarrow> traffic_ok hs s \<Longrightarrow> traffic_ok hs t"
  subgoal by (auto simp: ReqLogin_def bind_res_Inr_iff traffic_ok_def res_ok_def)
  subgoal by (auto simp: ReqFallingBlock_def bind_res_Inr_iff split: option.splits
      dest: traffic_dealing intro!: traffic_blocks)
  subgoal by (auto simp: ReqGameInput_def traffic_ok_def bind_res_Inr_iff split: option.splits
        dest: lines_AddKeyInput res_frames)
  subgoal by (auto simp: ReqGameStart_def bind_res_Inr_iff split: option.splits
      dest!: traffic_dealing intro!: traffic_blocks)
  subgoal by (auto simp: ReqGameStop_def traffic_ok_def bind_res_Inr_iff split: option.splits dest: lines_GameStop res_frames)
  subgoal by (auto simp: ReqRoomCanEnter_def traffic_ok_def split: option.splits)
  subgoal by (auto simp: ReqRoomCreate_def traffic_ok_def bind_res_Inr_iff dest: lines_CreateRoom res_frames)
  subgoal by (auto simp: ReqRoomEnter_def traffic_ok_def bind_res_Inr_iff split: option.splits dest: lines_AddPlayer res_frames)
  subgoal by (auto simp: ReqRoomLeave_def bind_res_Inr_iff split: option.splits if_splits
      dest!: traffic_dealing(4))
  subgoal by (auto simp: ReqRoomList_def traffic_ok_def bind_res_Inr_iff res_ok_def split: if_splits)
  done

lemma traffic_SendPacketFunc:
  "SendPacketFunc i m s = Inr t \<Longrightarrow> is_message m \<Longrightarrow> traffic_ok hs s \<Longrightarrow> traffic_ok hs t"
  by (auto simp: SendPacketFunc_def bind_res_Inr_iff traffic_ok_def split: option.splits
      dest: lines_SendMsg res_ok_answers [OF answers_SendMsg])

text \<open>The answer of a handler is a packet: its header holds the size that its arrays give it.\<close>

lemma traffic_Handle:
  assumes "Handle n dec m enc get upd logic k packet s = Inr t" and "traffic_ok hs s"
    and "\<And>f u. get (upd f u) = f (get u)"
    and "\<And>req p u v. logic req p u = Inr v \<Longrightarrow> header_of (get v) = header_of (get u)"
    and "\<And>req p u v. logic req p u = Inr v \<Longrightarrow> traffic_ok hs u \<Longrightarrow> traffic_ok hs v"
    and "\<And>bs u. traffic_ok hs (upd (answer_header m (dec bs)) u) = traffic_ok hs u"
    and "\<And>u. res_ok u \<Longrightarrow> length (enc (get u)) = m" and "\<And>x. \<exists>r. enc x = enc_header (header_of x) @ r"
    and "12 \<le> m" and "m < 128"
  shows "traffic_ok hs t"
proof -
  from assms(1) obtain req p u where req: "req = dec (take n packet)"
    and u: "logic req p (upd (answer_header m req) s) = Inr u"
    and t: "SendPacketFunc k (enc (get u)) u = Inr t"
    by (auto simp: Handle_def ReadReq_def bind_res_Inr_iff Let_def split: if_splits)
  have ok: "traffic_ok hs u" using assms(5) [OF u] assms(2,6) req by simp
  have "PacketLength (header_of (get u)) = of_nat m"
    using assms(4) [OF u] assms(3) by (simp add: header_of_answer answer_to_def)
  then have "is_packet PACKET_HEADER_LENGTH (enc (get u))"
    by (intro framed [OF assms(8)]) (use ok assms(7,9,10) in \<open>simp_all add: traffic_ok_def\<close>)
  with traffic_SendPacketFunc [OF t _ ok] show ?thesis by (simp add: is_message_def)
qed

lemma traffic_header [simp]:
  "traffic_ok hs (resLogin_update (answer_header n req1) s) = traffic_ok hs s"
  "traffic_ok hs (resFallingBlock_update (answer_header n req2) s) = traffic_ok hs s"
  "traffic_ok hs (resGameInput_update (answer_header n req3) s) = traffic_ok hs s"
  "traffic_ok hs (resGameStart_update (answer_header n req4) s) = traffic_ok hs s"
  "traffic_ok hs (resRoomList_update (answer_header n req5) s) = traffic_ok hs s"
  "traffic_ok hs (resGameStop_update f s) = traffic_ok hs s" "traffic_ok hs (resRoomCanEnter_update f s) = traffic_ok hs s"
  "traffic_ok hs (resRoomCreate_update f1 s) = traffic_ok hs s" "traffic_ok hs (resRoomEnter_update f2 s) = traffic_ok hs s"
  "traffic_ok hs (resRoomLeave_update f s) = traffic_ok hs s"
  by (simp_all add: traffic_ok_def)

lemma traffic_run_handler:
  assumes "run_handler sh k i p s = Inr t" and "traffic_ok hs s" shows "traffic_ok hs t"
proof -
  have "run_handler sh k i p s = Inr t \<longrightarrow> traffic_ok hs t"
    by (cases k; simp add: run_handler_def; intro impI; erule traffic_Handle [OF _ assms(2)])
       (simp_all add: logic_header traffic_logic enc_prefix length_answers sizes res_ok_def, simp_all add: sizeof_BASE_def)
  with assms(1) show ?thesis by blast
qed

lemma traffic_irrelevant [simp]:
  "traffic_ok hs (s\<lparr>recvPackets := ps\<rparr>) = traffic_ok hs s" "traffic_ok hs (s\<lparr>heap := h\<rparr>) = traffic_ok hs s"
  "traffic_ok hs (s\<lparr>allPlayers := qs\<rparr>) = traffic_ok hs s" "traffic_ok hs (s\<lparr>sessions := ss\<rparr>) = traffic_ok hs s"
  "traffic_ok hs (s\<lparr>isRun := b\<rparr>) = traffic_ok hs s" "traffic_ok hs (s\<lparr>clientNumber := n\<rparr>) = traffic_ok hs s"
  "traffic_ok hs (s\<lparr>nextAddress := a\<rparr>) = traffic_ok hs s"
  by (simp_all add: traffic_ok_def res_ok_def)

lemma traffic_PacketThread: "PacketThread sh s = Inr t \<Longrightarrow> traffic_ok hs s \<Longrightarrow> traffic_ok hs t"
  by (auto simp: PacketThread_def DequeRecvPacket_def ProcessPacket_def bind_res_Inr_iff
      split: list.splits dest!: traffic_run_handler)

section \<open>The other threads\<close>

lemma traffic_update:
  "traffic_ok hs s \<Longrightarrow> (i < length (clients s) \<Longrightarrow> line_ok (hs ! i) c) \<Longrightarrow> traffic_ok hs (s\<lparr>clients := (clients s)[i := c]\<rparr>)"
  by (simp add: traffic_ok_def lines_update) (simp add: res_ok_def)

lemma traffic_line: "traffic_ok hs s \<Longrightarrow> i < length (clients s) \<Longrightarrow> line_ok (hs ! i) (clients s ! i)"
  by (simp add: traffic_ok_def lines_at)

lemma traffic_set_client:
  assumes "set_client p g s = Inr t" and "traffic_ok hs s" and "\<And>h c. line_ok h c \<Longrightarrow> line_ok h (g c)"
  shows "traffic_ok hs t"
  using assms by (auto simp: set_client_Inr_iff intro!: traffic_update traffic_line)

lemma traffic_SetSession: "SetSession i p c s = Inr t \<Longrightarrow> traffic_ok hs s \<Longrightarrow> traffic_ok hs t"
  by (auto simp: SetSession_def Let_def bind_res_Inr_iff dest!: traffic_dealing(3) elim!: traffic_set_client)

lemma traffic_GetEmptyPlayer: "GetEmptyPlayer s = (a, t) \<Longrightarrow> traffic_ok hs s \<Longrightarrow> traffic_ok hs t"
  by (auto simp: GetEmptyPlayer_def Let_def split: if_splits)

lemma traffic_playerUID:
  "set_client p (c_playerUID_update f) s = Inr t \<Longrightarrow> traffic_ok hs s \<Longrightarrow> traffic_ok hs t"
  by (erule traffic_set_client) simp_all

lemma traffic_OnConnect:
  assumes "OnConnect c s = Inr t" and "traffic_ok hs s" shows "traffic_ok hs t"
proof -
  obtain a s1 where s1: "GetEmptyPlayer s = (a, s1)" by (cases "GetEmptyPlayer s")
  with traffic_GetEmptyPlayer assms(2) have "traffic_ok hs s1" by blast
  with assms(1) s1 show ?thesis
    by (auto simp: OnConnect_def bind_res_Inr_iff AddSession_def Let_def split: if_splits
        dest!: traffic_playerUID traffic_SetSession)
qed

lemma traffic_CloseSession:
  assumes "CloseSession i s = Inr t" and "traffic_ok hs s" shows "traffic_ok hs t"
  using assms
  by (auto simp: CloseSession_def bind_res_Inr_iff dest!: traffic_dealing(3) elim!: traffic_set_client)

lemma traffic_OnClose: "OnClose i s = Inr t \<Longrightarrow> traffic_ok hs s \<Longrightarrow> traffic_ok hs t"
  by (auto simp: OnClose_def Let_def bind_res_Inr_iff RemoveSession_def RemovePlayer_manager_def
      split: option.splits dest!: traffic_CloseSession)

lemma traffic_disconnect:
  "set_client p (Disconnect_client now) s = Inr t \<Longrightarrow> traffic_ok hs s \<Longrightarrow> traffic_ok hs t"
  by (erule traffic_set_client) (simp_all add: Disconnect_client_def)

lemma traffic_CloseSocket: "CloseSocket now c s = Inr t \<Longrightarrow> traffic_ok hs s \<Longrightarrow> traffic_ok hs t"
  by (auto simp: CloseSocket_def Let_def bind_res_Inr_iff split: if_splits
      dest!: traffic_OnClose traffic_disconnect)

lemma traffic_accepted:
  assumes "work_accepted now i bp br s = Inr t" and "traffic_ok hs s" shows "traffic_ok hs t"
proof (cases "FindClientInfo i s")
  case (Some c)
  obtain ok ci where ci: "AcceptCompletion bp br (clients s ! c) = (ok, ci)" by (cases "AcceptCompletion bp br (clients s ! c)")
  have "line_ok h ci" if "line_ok h (clients s ! c)" for h
    using ci that by (auto simp: AcceptCompletion_def Connect_def Clear_def Let_def split: if_splits)
  then have "traffic_ok hs (s\<lparr>clients := (clients s)[c := ci]\<rparr>)"
    using assms(2) by (auto intro!: traffic_update traffic_line)
  with assms(1) Some ci show ?thesis
    by (auto simp: work_accepted_def Let_def split: if_splits dest!: traffic_CloseSocket)
qed (use assms in \<open>simp add: work_accepted_def\<close>)

lemma traffic_received:
  assumes "work_received c b s = Some (Inr t)" and "traffic_ok hs s" shows "traffic_ok hs t"
proof -
  from assms obtain s1 s2 pb s3 where
    s1: "OnRecv c b s = Inr s1"
    and s2: "(if c_sessionIndex (clients s1 ! c) = 0 then OnConnect c s1 else Inr s1) = Inr s2"
    and loop: "ReadLoop Read (receive_packet (c_sessionIndex (clients s2 ! c)))
                 (packetBuffer (clients s2 ! c)) s2 = Some (Inr (pb, s3))"
    and t: "set_client (Some c) (\<lambda>ci. ci\<lparr>packetBuffer := pb\<rparr>) s3 = Inr t"
    by (auto simp: work_received_def bind_res_Inr_iff split: sum.splits option.splits)
  have "traffic_ok hs s1" using s1 assms(2)
    by (auto simp: OnRecv_def bind_res_Inr_iff split: if_splits elim!: traffic_set_client)
  then have "traffic_ok hs s2" using s2 by (auto split: if_splits dest!: traffic_OnConnect)
  then have "traffic_ok hs s3"
    by (rule ReadLoop_state [OF loop])
       (auto simp: receive_packet_def OnReceive_def QueueRecvPacket_def split: if_splits)
  with t show ?thesis by (auto elim!: traffic_set_client)
qed

lemma traffic_sent:
  assumes "work_sent c s = Inr t" and "traffic_ok hs s" shows "traffic_ok hs t"
proof -
  from assms(1) obtain d where d: "c < length (clients s)" "SendCompleted (clients s ! c) = Inr d"
    and t: "t = s\<lparr>clients := (clients s)[c := d]\<rparr>"
    by (auto simp: work_sent_def bind_res_Inr_iff split: if_splits)
  have "line_ok (hs ! c) d" by (rule line_ok_SendCompleted [OF d(2) traffic_line [OF assms(2) d(1)]])
  with assms(2) show ?thesis unfolding t by (intro traffic_update)
qed

lemma traffic_ProcessThread: "ProcessThread s = Inr t \<Longrightarrow> traffic_ok hs s \<Longrightarrow> traffic_ok hs t"
  by (simp add: ProcessThread_def DequePacketData_def traffic_ok_def lines_ok_def)

lemma traffic_AcceptThread: "traffic_ok hs s \<Longrightarrow> traffic_ok hs (AcceptThread now env s)"
proof -
  have "line_ok h (accept_slot now e c)" if "line_ok h c" for e c h
    using that by (simp add: accept_slot_def PostAccept_def Let_def)
  then show "traffic_ok hs s \<Longrightarrow> traffic_ok hs (AcceptThread now env s)"
    by (auto simp: AcceptThread_def traffic_ok_def lines_ok_def list_all2_conv_all_nth res_ok_def)
qed

lemma traffic_step: "server_step sh e s = Some (Inr t) \<Longrightarrow> traffic_ok hs s \<Longrightarrow> traffic_ok hs t"
  by (cases e)
     (auto simp: server_step_def WorkerThread_def traffic_AcceptThread
       split: completion.splits option.splits
       dest!: traffic_accepted traffic_received traffic_sent traffic_PacketThread traffic_disconnect traffic_ProcessThread)

lemma traffic_steps: "steps sh s es t \<Longrightarrow> traffic_ok hs s \<Longrightarrow> traffic_ok hs t"
  by (induction rule: steps.induct) (auto dest: traffic_step)

lemma traffic_new: "traffic_ok (replicate n \<lparr>handed = [], queued = []\<rparr>) (new_Server fresh n)"
  by (simp add: traffic_ok_def lines_ok_def res_ok_def new_Server_def line_ok_new list_all2_conv_all_nth
      default_RES_LOGIN_def default_RES_GAME_START_def default_RES_GAME_INPUT_def default_RES_ROOM_LIST_def
      default_BASE_PACKET_def BASE_PACKET.defs RES_LOGIN.defs RES_GAME_START.defs RES_GAME_INPUT.defs
      RES_ROOM_LIST.defs del: upt_Suc)

lemma reachable_messages:
  assumes "steps sh (new_Server fresh n) es s" and "c < length (clients s)"
  shows "list_all (is_packet PACKET_HEADER_LENGTH) (map wsaBuf (wsaSends (clients s ! c) @ sendDataQueue (clients s ! c)))"
  using traffic_line [OF traffic_steps [OF assms(1) traffic_new] assms(2)]
  by (auto simp: line_ok_def is_message_def list_all_iff)

section \<open>The order of the messages\<close>

text \<open>Every reachable state is the start of a history.\<close>

lemma traffic_now:
  assumes "steps sh (new_Server fresh n) es s"
  shows "traffic_ok (map history_of (clients s)) s"
proof -
  note ok = traffic_steps [OF assms traffic_new]
  from ok have "line_ok (history_of c) c" if "c \<in> set (clients s)" for c
    using that
    by (auto simp: traffic_ok_def lines_ok_def list_all2_conv_all_nth in_set_conv_nth line_ok_def
        goes_on_def history_of_def)
  with ok show ?thesis
    by (auto simp: traffic_ok_def lines_ok_def list_all2_conv_all_nth in_set_conv_nth)
qed

lemma new_server_slots:
  assumes "c < 2"
  shows "c < length (clients start_server)" "c_sessionIndex (clients start_server ! c) = 0"
    "pending (slot_buffer c start_server) = []" "n \<le> 1000 \<Longrightarrow> accepts (int n) (slot_buffer c start_server)"
    "outgoing (clients start_server ! c) = []"
proof -
  have "clients start_server = [new_ClientInfo (\<lambda>_. 0) 1, new_ClientInfo (\<lambda>_. 0) 2]"
    by (simp add: new_Server_def upt_rec numeral_3_eq_3)
  moreover have "c = 0 \<or> c = 1" using assms by auto
  ultimately show "c < length (clients start_server)" "c_sessionIndex (clients start_server ! c) = 0"
    "pending (slot_buffer c start_server) = []" "n \<le> 1000 \<Longrightarrow> accepts (int n) (slot_buffer c start_server)"
    "outgoing (clients start_server ! c) = []"
    by (auto simp: slot_buffer_def new_ClientInfo_def wf_buffer_Init accepts_def outgoing_def)
      (simp_all add: buffer_Init_def)
qed

lemma start_login:
  defines "p \<equiv> enc_BASE (default_BASE_PACKET\<lparr>PacketId := packet_id PID_REQ_LOGIN, PacketLength := 14\<rparr>)"
  shows "\<exists>t m. steps keep_order start_server [Completion 0 (Received 1 p), PacketStep] t \<and>
    1 < length (clients t) \<and> outgoing (clients t ! 1) = [\<lparr>wsaBuf = m, operation = SEND\<rparr>]"
proof -
  have one: "(1::nat) < 2" by simp
  have pk: "is_packet PACKET_HEADER_LENGTH p" unfolding p_def
    by (rule framed [OF enc_prefix(1) length_answers(1)])
       (simp_all add: sizes sizeof_BASE_def header_of_def PACKET_HEADER.defs)
  have new: "next_is_new start_server" "recvPackets start_server = []"
    by (simp_all add: next_is_new_def new_session_def new_Server_def)
  have "length p = 14" by (simp add: p_def length_answers sizeof_BASE_def)
  then have acc: "accepts (int (length p)) (slot_buffer 1 start_server)"
    by (intro new_server_slots(4)) simp_all
  have "PacketId (default_BASE_PACKET\<lparr>PacketId := packet_id PID_REQ_LOGIN, PacketLength := 14\<rparr>) = packet_id PID_REQ_LOGIN"
    by simp
  with pk have "login_bytes p" by (auto simp: login_bytes_def p_def)
  from login_served [OF server_ok_new new_server_slots(1-3) [OF one] acc new(2) this
        login_id_reachable [OF steps.steps_refl] new(1), of keep_order 0] new_server_slots(1,5) [OF one]
  show ?thesis by auto
qed

text \<open>C16: the messages of each client leave in the order in which they were queued.  In every reachable
  state what has been handed to the system is what is complete, followed by the first message that
  still waits, and the slot's number and packet buffer are well formed.  Whatever the server does
  from there on, everything that has been handed over stays as it was, and the messages that
  waited follow next and in their order: nothing is lost, repeated, overtaken or put in between.  And
  \<open>SendMsg\<close> puts a message behind all others.\<close>

theorem reachable_clients:
  assumes "is_shuffle sh" and "steps sh (new_Server fresh n) es s" and "steps sh s es' t" and "i < length (clients s)"
  shows "clientIndex (clients t ! i) = int i + 1 \<and> wf_buffer (packetBuffer (clients t ! i)) \<and>
    (\<exists>done done' more.
       wsaSends (clients s ! i) = done @ take 1 (sendDataQueue (clients s ! i)) \<and>
       wsaSends (clients t ! i) = done' @ take 1 (sendDataQueue (clients t ! i)) \<and>
       done' @ sendDataQueue (clients t ! i) = done @ sendDataQueue (clients s ! i) @ more \<and>
       prefix (wsaSends (clients s ! i)) (wsaSends (clients t ! i)) \<and>
       (\<forall>m op. \<exists>u. SendMsg (Some i) m op t = Inr u \<and>
          wsaSends (clients u ! i) = done' @ take 1 (sendDataQueue (clients u ! i)) \<and>
          sendDataQueue (clients u ! i) = sendDataQueue (clients t ! i) @ [\<lparr>wsaBuf = m, operation = op\<rparr>]))"
proof -
  let ?q = "\<lambda>u. sendDataQueue (clients u ! i)" and ?w = "\<lambda>u. wsaSends (clients u ! i)"
  note ok = server_ok_steps [OF assms(2,1) server_ok_new]
  note traffic = traffic_steps [OF assms(3) traffic_now [OF assms(2)]]
  then have t: "i < length (clients t)" using assms(4)
    by (auto simp: traffic_ok_def lines_ok_def dest: list_all2_lengthD)
  from traffic_line [OF traffic this] assms(4)
  have goes: "prefix (?w s) (?w t)" "prefix (outgoing (clients s ! i)) (outgoing (clients t ! i))"
    by (simp_all add: line_ok_def goes_on_def history_of_def)
  from server_ok_steps [OF assms(3,1) ok] ok t assms(4)
  have "connection_ok (clients s ! i)" "connection_ok (clients t ! i)" "clientIndex (clients t ! i) = int i + 1"
    by (simp_all add: server_ok_def clients_ok_def)
  then obtain ds dt where
    d: "?w s = ds @ take 1 (?q s)" "?w t = dt @ take 1 (?q t)" and
    c: "clientIndex (clients t ! i) = int i + 1" "wf_buffer (packetBuffer (clients t ! i))"
    by (auto simp: connection_ok_def stream_ok_def)
  then have "outgoing (clients s ! i) = ds @ ?q s" "outgoing (clients t ! i) = dt @ ?q t"
    by (simp_all add: outgoing_def)
  with goes(2) obtain more where "dt @ ?q t = ds @ ?q s @ more" by (auto elim: prefixE)
  moreover have "\<exists>u. SendMsg (Some i) m op t = Inr u \<and> ?w u = dt @ take 1 (?q u) \<and>
      ?q u = ?q t @ [\<lparr>wsaBuf = m, operation = op\<rparr>]" for m op
    using t d(2)
    by (cases "?q t") (simp_all add: SendMsg_def set_client_def SendMsg_client_def SendIO_def Let_def)
  ultimately show ?thesis using c d goes(1) by blast
qed

text \<open>After the first login of a new server its answer is the only message of the slot; a message that is sent
  then comes behind it.\<close>

theorem reachable_clients_witness:
  "\<exists>es t m u. steps keep_order start_server es t \<and> outgoing (clients t ! 1) = [\<lparr>wsaBuf = m, operation = SEND\<rparr>] \<and>
     SendMsg (Some 1) [7] NOTIFY t = Inr u \<and>
     outgoing (clients u ! 1) = [\<lparr>wsaBuf = m, operation = SEND\<rparr>, \<lparr>wsaBuf = [7], operation = NOTIFY\<rparr>]"
proof -
  from start_login obtain es t m where
    t: "steps keep_order start_server es t" "outgoing (clients t ! 1) = [\<lparr>wsaBuf = m, operation = SEND\<rparr>]" by blast
  have "(1::nat) < 2" by simp
  from reachable_clients [OF is_shuffle_keep_order steps.steps_refl t(1) new_server_slots(1) [OF this]]
  obtain dt u where "wsaSends (clients t ! 1) = dt @ take 1 (sendDataQueue (clients t ! 1))"
    "SendMsg (Some 1) [7] NOTIFY t = Inr u" "wsaSends (clients u ! 1) = dt @ take 1 (sendDataQueue (clients u ! 1))"
    "sendDataQueue (clients u ! 1) = sendDataQueue (clients t ! 1) @ [\<lparr>wsaBuf = [7], operation = NOTIFY\<rparr>]"
    by blast
  moreover from this have "outgoing (clients u ! 1) = outgoing (clients t ! 1) @ [\<lparr>wsaBuf = [7], operation = NOTIFY\<rparr>]"
    by (simp add: outgoing_def del: take_append drop_append)
  ultimately show ?thesis using t by (intro exI [of _ es] exI [of _ t] exI [of _ m] exI [of _ u]) simp
qed

end
