(* ===== verification/BadRequests.thy ===== *)
theory BadRequests
  imports ServerTraffic
begin

text \<open>
  Packets that the server does not survive, from the bytes on the connection to the failure of the
  packet thread.
\<close>

section \<open>What the packet thread fails on\<close>

text \<open>The size of the request a handler reads: \<open>sizeof(Req)\<close>.\<close>

definition request_size :: "HandlerKind \<Rightarrow> nat" where
  "request_size h =
     (if h = H_GameInput then 78 else if h \<in> {H_RoomCanEnter, H_RoomEnter, H_RoomList} then 18 else 14)"

text \<open>The error that the packet \<open>p\<close> of the session \<open>i\<close> causes in the state \<open>s\<close>.\<close>

definition fatal :: "int \<Rightarrow> bytes \<Rightarrow> Server \<Rightarrow> cpp_error \<Rightarrow> bool" where
  "fatal i p s e \<longleftrightarrow>
     (case map_of handlers (PacketId (dec_header p)) of
        None \<Rightarrow> e = OutOfRange
      | Some h \<Rightarrow>
          length p < request_size h \<and> e = OutOfBounds \<or>
          request_size h \<le> length p \<and>
          (\<exists>a q. FindPlayerBySessionIndex i s = Inr (Some a) \<and> heap s a = Some q \<and>
             (h = H_GameInput \<and> FindRoom (p_roomIndex q) s \<noteq> None \<and>
                (sint (inputCnt (dec_REQ_GAME_INPUT (take 78 p))) < 0 \<or>
                 30 < sint (inputCnt (dec_REQ_GAME_INPUT (take 78 p)))) \<and> e = OutOfBounds \<or>
              h \<in> {H_GameStart, H_GameStop} \<and> FindRoom (p_roomIndex q) s = None \<and> e = NullDeref)))"

lemma run_handler_short:
  assumes "length p < request_size h" shows "run_handler sh h i p s = Inl OutOfBounds"
  using assms
  by (cases h) (simp_all add: run_handler_def Handle_def ReadReq_def request_size_def sizeof_BASE_def
      sizeof_REQ_GAME_INPUT_def sizeof_REQ_ROOM_ENTER_def sizeof_REQ_ROOM_LIST_def)

lemma Handle_error:
  assumes "n \<le> length p"
    and "FindPlayerBySessionIndex i (upd (answer_header m (dec (take n p))) s) = Inr (Some a)"
    and "logic (dec (take n p)) (Some a) (upd (answer_header m (dec (take n p))) s) = Inl e"
  shows "Handle n dec m enc get upd logic i p s = Inl e"
  using assms by (simp add: Handle_def ReadReq_def Let_def)

text \<open>The player lookup sees the same players after \<open>ReadReq\<close>, which writes the header of an answer.\<close>

lemma fatal_run_handler:
  assumes "fatal i p s e" and "map_of handlers (PacketId (dec_header p)) = Some h"
  shows "run_handler sh h i p s = Inl e"
proof (cases "length p < request_size h")
  case True
  with assms run_handler_short [OF True] show ?thesis by (simp add: fatal_def)
next
  case False
  with assms obtain a q where q: "FindPlayerBySessionIndex i s = Inr (Some a)" "heap s a = Some q"
    and c: "h = H_GameInput \<and> FindRoom (p_roomIndex q) s \<noteq> None \<and>
         (sint (inputCnt (dec_REQ_GAME_INPUT (take 78 p))) < 0 \<or>
          30 < sint (inputCnt (dec_REQ_GAME_INPUT (take 78 p)))) \<and> e = OutOfBounds \<or>
       h \<in> {H_GameStart, H_GameStop} \<and> FindRoom (p_roomIndex q) s = None \<and> e = NullDeref"
    by (auto simp: fatal_def)
  have find: "FindPlayerBySessionIndex i t = Inr (Some a)" if "heap t = heap s" "allPlayers t = allPlayers s" for t
    using FindPlayer_cong [OF that] q(1) by simp
  have room: "FindRoom k t = FindRoom k s" if "rooms t = rooms s" for k t
    using that by (simp add: FindRoom_def)
  show ?thesis
  proof (cases "h = H_GameInput")
    case True
    with c obtain j where j: "FindRoom (p_roomIndex q) s = Some j" and e: "e = OutOfBounds"
      and bad: "sint (inputCnt (dec_REQ_GAME_INPUT (take 78 p))) < 0 \<or>
        30 < sint (inputCnt (dec_REQ_GAME_INPUT (take 78 p)))" by auto
    have "AddKeyInput j k is n t = Inl OutOfBounds" if "n < 0 \<or> 30 < n" for k "is" n t
      using that by (auto simp: AddKeyInput_def PACKET_KEY_INPUT_SIZE_def)
    with bad have logic: "ReqGameInput (dec_REQ_GAME_INPUT (take 78 p)) (Some a) t = Inl OutOfBounds"
      if "heap t = heap s" "rooms t = rooms s" for t
      using that q j room [of t] by (simp add: ReqGameInput_def)
    have "78 \<le> length p" using False True by (simp add: request_size_def)
    with True e show ?thesis unfolding run_handler_def sizeof_REQ_GAME_INPUT_def
      by simp (rule Handle_error [where a = a]; simp add: find logic)
  next
    case other: False
    with c have h: "h = H_GameStart \<or> h = H_GameStop" and r: "FindRoom (p_roomIndex q) s = None"
      and e: "e = NullDeref" by auto
    have logic: "ReqGameStart sh req (Some a) t = Inl NullDeref" "ReqGameStop req (Some a) t = Inl NullDeref"
      if "heap t = heap s" "rooms t = rooms s" for req t
      using that q r room [of t] by (simp_all add: ReqGameStart_def ReqGameStop_def)
    have "14 \<le> length p" using False h by (auto simp: request_size_def)
    with h e show ?thesis unfolding run_handler_def sizeof_BASE_def
      by (elim disjE; simp) (rule Handle_error [where a = a]; simp add: find logic)+
  qed
qed

lemma fatal_cong:
  assumes "heap t = heap s" and "allPlayers t = allPlayers s" and "rooms t = rooms s"
  shows "fatal i p t e = fatal i p s e"
  using FindPlayer_cong [OF assms(1,2), of i] assms(1,3)
  by (simp add: fatal_def FindRoom_def cong: option.case_cong)

section \<open>From the connection to the failure\<close>

text \<open>C40: the server does not check what its peers send.  Take any state the server can reach, in which
  no request waits and nothing of a slot's stream is unread, and let one correctly framed packet
  arrive on that slot, in any cut for which every chunk finds room.  The workers accept it; then
  the packet thread fails when it takes it: with the exception of \<open>map::at\<close> if no handler has the
  packet's id; by reading past the packet's end if it is shorter than the request that its id
  announces; by using a count of key inputs below 0 or above the 30 of the array, from a player in
  a room; by following the null pointer of the missing room if a player outside any room starts or
  stops a game.  \<open>introduced\<close> is the state after the new connection's player is made, if the slot
  has no session yet.\<close>

theorem malformed_packet_stops_the_server:
  assumes "is_shuffle sh" and "steps sh (new_Server g n) es s" and "c < length (clients s)"
    and "recvPackets s = []" and "pending (slot_buffer c s) = []"
    and "well_framed p" and "concat cs = p" and "all_accepted (slot_buffer c) (slot_step now c) cs s"
    and "fatal (c_sessionIndex (clients (introduced c s) ! c)) p (introduced c s) e"
  shows "\<exists>t. steps sh s (map (\<lambda>b. Completion now (Received c b)) cs) t \<and>
           server_step sh PacketStep t = Some (Inl e)"
proof -
  let ?u = "introduced c s" and ?i = "c_sessionIndex (clients (introduced c s) ! c)"
  have ok: "server_ok s" by (rule server_ok_steps [OF assms(2,1) server_ok_new])
  then have "sessions_ok s" "stream_ok (slot_buffer c s)" using assms(3)
    by (auto simp: server_ok_def clients_ok_def connection_ok_def slot_buffer_def)
  moreover have pk: "is_packet PACKET_HEADER_LENGTH p" by (rule well_framed_packet [OF assms(6)])
  moreover have "cs \<noteq> []" using assms(7) pk by (auto simp: is_packet_def)
  ultimately obtain q where
    q: "steps sh s (map (\<lambda>b. Completion now (Received c b)) cs) (slot_received c q [received ?i p] ?u)"
    using stream_is_received [of s c cs "[p]" now sh] assms(3,5,7,8) by auto
  let ?t = "slot_received c q [received ?i p] ?u"
  have "recvPackets ?t = [received ?i p]"
    using introduced_ready(3) [OF assms(3)] assms(4) by simp
  moreover have "fatal ?i p (?t\<lparr>recvPackets := []\<rparr>) e"
    using fatal_cong [of "?t\<lparr>recvPackets := []\<rparr>" ?u ?i p e] assms(9) by simp
  moreover have "dec16 (fld 2 2 p) = PacketId (dec_header p)" by (simp add: dec_header_def)
  ultimately have "PacketThread sh ?t = Inl e"
    using fatal_run_handler [of ?i p "?t\<lparr>recvPackets := []\<rparr>" e]
    by (cases "map_of handlers (PacketId (dec_header p))")
       (simp_all add: PacketThread_def DequeRecvPacket_def ProcessPacket_def received_def fatal_def)
  with q show ?thesis by (intro exI [of _ ?t]) (simp add: server_step_def)
qed

text \<open>The first bytes of a fresh connection: a packet of an unknown kind, and the start of a game.\<close>

definition bare_packet :: "16 word \<Rightarrow> bytes" where
  "bare_packet pid = enc_BASE (default_BASE_PACKET\<lparr>PacketLength := 14, PacketId := pid, sequenceIndex := 1\<rparr>)"

lemma bare_packet_facts:
  "length (bare_packet pid) = 14" "PacketId (dec_header (bare_packet pid)) = pid" "well_framed (bare_packet pid)"
proof -
  show len: "length (bare_packet pid) = 14" and "PacketId (dec_header (bare_packet pid)) = pid"
    by (simp_all add: bare_packet_def enc_BASE_def enc_header_def dec_header_def fld_def default_BASE_PACKET_def)
  have "packet_length (bare_packet pid) = 14"
    by (simp only: bare_packet_def enc_BASE_def enc_header_def enc16_def numeral_2_eq_2 le_bytes.simps append_Cons
        packet_length.simps) (simp add: default_BASE_PACKET_def)
  then show "well_framed (bare_packet pid)" by (simp add: well_framed_def PACKET_HEADER_LENGTH_def len)
qed

theorem malformed_packet_stops_the_server_witness:
  "(\<exists>t. steps keep_order start_server [Completion 5 (Received 0 (bare_packet 4711))] t \<and>
        server_step keep_order PacketStep t = Some (Inl OutOfRange)) \<and>
   (\<exists>t. steps keep_order start_server [Completion 5 (Received 0 (bare_packet (packet_id PID_REQ_GAME_START)))] t \<and>
        server_step keep_order PacketStep t = Some (Inl NullDeref))"
proof -
  let ?s = start_server
  have two: "(0::nat) < 2" by simp
  note slot = new_server_slots [OF two]
  have new: "next_is_new ?s" "recvPackets ?s = []" "new_session ?s = 1" "nextAddress ?s = 0" "rooms ?s = []"
    by (simp_all add: next_is_new_def new_session_def new_Server_def)
  have i: "introduced 0 ?s = connected 0 ?s" "c_sessionIndex (clients (connected 0 ?s) ! 0) = 1"
    using slot(1,2) new(3) by (simp_all add: introduced_def)
  have player: "FindPlayerBySessionIndex 1 (connected 0 ?s) = Inr (Some 0)"
    "heap (connected 0 ?s) 0 = Some (new_Player\<lparr>p_playerUID := int (first_null (allPlayers ?s)), p_sessionIndex := 1\<rparr>)"
    "FindRoom 0 (connected 0 ?s) = None"
    using find_new_player [of ?s 0] server_ok_new new
    by (auto simp: server_ok_def connected_def Let_def FindRoom_def)
  have run: "\<exists>t. steps keep_order ?s [Completion 5 (Received 0 (bare_packet pid))] t \<and>
      server_step keep_order PacketStep t = Some (Inl e)"
    if "fatal 1 (bare_packet pid) (connected 0 ?s) e" for pid e
  proof -
    have "all_accepted (slot_buffer 0) (slot_step 5 0) [bare_packet pid] ?s"
      by (rule all_accepted_single [THEN iffD2], unfold bare_packet_facts(1), rule slot(4)) simp
    from malformed_packet_stops_the_server [OF is_shuffle_keep_order steps.steps_refl slot(1) new(2) slot(3)
        bare_packet_facts(3) _ this, where e = e] that i
    show ?thesis by (simp del: all_accepted.simps)
  qed
  have "fatal 1 (bare_packet 4711) (connected 0 ?s) OutOfRange"
    by (simp add: fatal_def bare_packet_facts handlers_def packet_id_def)
  moreover have "fatal 1 (bare_packet (packet_id PID_REQ_GAME_START)) (connected 0 ?s) NullDeref"
    using player by (simp add: fatal_def bare_packet_facts request_size_def handlers_def packet_id_def new_Player_def)
  ultimately show ?thesis using run by blast
qed

end
