(* ===== verification/Controls.thy ===== *)
theory Controls
  imports ClientView
begin

text \<open>
  Keyboard and mouse: the class \<open>Input\<close> of \<open>IOCPTetrisClient/System/Input.h\<close>.

  \<^item> The trackers of DirectXTK are not part of the sources: \<open>Toolkit\<close> holds their operations, over any
    types of tracker states.  \<open>toolkit_ok\<close> is what their documentation says: a key is pressed when it
    is down and was not down at the last update.
  \<^item> The state of the devices is what \<open>GetState\<close> returns: the keys that are down, the left button and
    the position of the mouse in pixels of the window.
\<close>

section \<open>Operations\<close>

record ('k, 'm) Toolkit =
  keys_Update :: "Keys \<Rightarrow> 'k \<Rightarrow> 'k"
  keys_pressed :: "'k \<Rightarrow> Keys"
  keys_last :: "'k \<Rightarrow> Keys"
  keys_Reset :: "'k \<Rightarrow> 'k"
  mouse_Update :: "bool \<Rightarrow> 'm \<Rightarrow> 'm"
  mouse_left_pressed :: "'m \<Rightarrow> bool"
  mouse_last_left :: "'m \<Rightarrow> bool"
  mouse_Reset :: "'m \<Rightarrow> 'm"

datatype Key = Key_None | Key_Down | Key_Left | Key_Right | Key_Z | Key_X | Key_Up | Key_C | Key_Space

record ('k, 'm) Input =
  m_keys :: 'k
  m_mouseButtons :: 'm
  lastKey :: Key

definition new_Input :: "'k \<Rightarrow> 'm \<Rightarrow> ('k, 'm) Input" where
  "new_Input keys buttons = \<lparr>m_keys = keys, m_mouseButtons = buttons, lastKey = Key_None\<rparr>"

definition pressed_key :: "Keys \<Rightarrow> Key option" where
  "pressed_key k =
     (if key_Down k then Some Key_Down
      else if key_Left k then Some Key_Left
      else if key_Right k then Some Key_Right
      else if key_Z k then Some Key_Z
      else if key_X k then Some Key_X
      else if key_Up k then Some Key_Up
      else if key_C k then Some Key_C
      else if key_Space k then Some Key_Space
      else None)"

definition Input_GetInput ::
    "('k, 'm) Toolkit \<Rightarrow> Keys \<Rightarrow> ('k, 'm) Input \<Rightarrow> InputType list \<times> ('k, 'm) Input" where
  "Input_GetInput tk kb i =
     (let i1 = i\<lparr>m_keys := keys_Update tk kb (m_keys i)\<rparr>;
          p = keys_pressed tk (m_keys i1)
      in (GetInput p,
          case pressed_key p of None \<Rightarrow> i1 | Some key \<Rightarrow> i1\<lparr>lastKey := key\<rparr>))"

definition GetMousePos :: "int \<Rightarrow> int \<Rightarrow> f32 \<times> f32" where
  "GetMousePos x y = (f32_of_int x, f32_of_int y)"

definition IsPressLeftButton :: "('k, 'm) Toolkit \<Rightarrow> bool \<Rightarrow> ('k, 'm) Input \<Rightarrow> bool \<times> ('k, 'm) Input" where
  "IsPressLeftButton tk down i =
     (let i1 = i\<lparr>m_mouseButtons := mouse_Update tk down (m_mouseButtons i)\<rparr>
      in if mouse_left_pressed tk (m_mouseButtons i1) then (True, i1) else (False, i1))"

text \<open>\<open>OnActivate\<close> and \<open>OnResuming\<close> do the same; nothing calls them.\<close>

definition Input_OnActivate :: "('k, 'm) Toolkit \<Rightarrow> ('k, 'm) Input \<Rightarrow> ('k, 'm) Input" where
  "Input_OnActivate tk i =
     i\<lparr>m_keys := keys_Reset tk (m_keys i), m_mouseButtons := mouse_Reset tk (m_mouseButtons i)\<rparr>"

definition Input_OnResuming :: "('k, 'm) Toolkit \<Rightarrow> ('k, 'm) Input \<Rightarrow> ('k, 'm) Input" where
  "Input_OnResuming tk i =
     i\<lparr>m_keys := keys_Reset tk (m_keys i), m_mouseButtons := mouse_Reset tk (m_mouseButtons i)\<rparr>"

section \<open>The keys in the order in which they are asked\<close>

fun held_down :: "Keys \<Rightarrow> Key \<Rightarrow> bool" where
  "held_down k Key_None = False"
| "held_down k Key_Down = key_Down k"
| "held_down k Key_Left = key_Left k"
| "held_down k Key_Right = key_Right k"
| "held_down k Key_Z = key_Z k"
| "held_down k Key_X = key_X k"
| "held_down k Key_Up = key_Up k"
| "held_down k Key_C = key_C k"
| "held_down k Key_Space = key_Space k"

definition asked_keys :: "Key list" where
  "asked_keys = [Key_Down, Key_Left, Key_Right, Key_Z, Key_X, Key_Up, Key_C, Key_Space]"

fun input_of :: "Key \<Rightarrow> InputType option" where
  "input_of Key_None = None"
| "input_of Key_Down = Some DOWN"
| "input_of Key_Left = Some LEFT"
| "input_of Key_Right = Some RIGHT"
| "input_of Key_Z = Some ROTATELEFT"
| "input_of Key_X = Some ROTATERIGHT"
| "input_of Key_Up = Some ROTATERIGHT"
| "input_of Key_C = Some HOLD"
| "input_of Key_Space = Some DROP"

lemma pressed_key_find: "pressed_key k = find (held_down k) asked_keys"
  by (simp add: pressed_key_def asked_keys_def)

lemma GetInput_pressed_key:
  "GetInput k = (case pressed_key k of None \<Rightarrow> [] | Some q \<Rightarrow> [the (input_of q)])"
  by (simp add: GetInput_def pressed_key_def)

lemma all_Keys_eq: "k = k' \<longleftrightarrow> (\<forall>q. held_down k q = held_down k' q)"
proof
  assume same: "\<forall>q. held_down k q = held_down k' q"
  show "k = k'"
    using same [rule_format, of Key_Down] same [rule_format, of Key_Left]
      same [rule_format, of Key_Right] same [rule_format, of Key_Z] same [rule_format, of Key_X]
      same [rule_format, of Key_Up] same [rule_format, of Key_C] same [rule_format, of Key_Space]
    by (cases k, cases k') simp
qed simp

section \<open>Runs\<close>

text \<open>What the documentation of the trackers says.\<close>

definition toolkit_ok :: "('k, 'm) Toolkit \<Rightarrow> bool" where
  "toolkit_ok tk \<longleftrightarrow>
     (\<forall>kb t. keys_last tk (keys_Update tk kb t) = kb \<and>
        (\<forall>q. held_down (keys_pressed tk (keys_Update tk kb t)) q \<longleftrightarrow>
          held_down kb q \<and> \<not> held_down (keys_last tk t) q)) \<and>
     (\<forall>b t. mouse_last_left tk (mouse_Update tk b t) = b \<and>
        mouse_left_pressed tk (mouse_Update tk b t) = (b \<and> \<not> mouse_last_left tk t))"

text \<open>The inputs of a run of frames in which the keys that are down are given.\<close>

fun input_run :: "('k, 'm) Toolkit \<Rightarrow> Keys list \<Rightarrow> ('k, 'm) Input \<Rightarrow> InputType list" where
  "input_run tk [] i = []"
| "input_run tk (kb # kbs) i =
     (let (inputs, i1) = Input_GetInput tk kb i in inputs @ input_run tk kbs i1)"

text \<open>The clicks of a run of frames.\<close>

fun click_run :: "('k, 'm) Toolkit \<Rightarrow> bool list \<Rightarrow> ('k, 'm) Input \<Rightarrow> bool list" where
  "click_run tk [] i = []"
| "click_run tk (b # bs) i =
     (let (clicked, i1) = IsPressLeftButton tk b i in clicked # click_run tk bs i1)"

text \<open>The first key asked for that goes down between two frames.\<close>

definition going_down :: "Keys \<Rightarrow> Keys \<Rightarrow> Key list" where
  "going_down before now = filter (\<lambda>q. held_down now q \<and> \<not> held_down before q) asked_keys"

definition frame_inputs :: "Keys \<Rightarrow> Keys \<Rightarrow> InputType list" where
  "frame_inputs before now = map (the \<circ> input_of) (take 1 (going_down before now))"

lemma find_filter: "find P xs = (case filter P xs of [] \<Rightarrow> None | x # _ \<Rightarrow> Some x)"
  by (induction xs) auto

lemma Input_GetInput_frame:
  assumes "toolkit_ok tk"
  shows "fst (Input_GetInput tk kb i) = frame_inputs (keys_last tk (m_keys i)) kb"
    and "keys_last tk (m_keys (snd (Input_GetInput tk kb i))) = kb"
proof -
  have "held_down (keys_pressed tk (keys_Update tk kb (m_keys i))) =
      (\<lambda>q. held_down kb q \<and> \<not> held_down (keys_last tk (m_keys i)) q)"
    using assms by (simp add: toolkit_ok_def fun_eq_iff)
  then show "fst (Input_GetInput tk kb i) = frame_inputs (keys_last tk (m_keys i)) kb"
    by (simp add: Input_GetInput_def Let_def GetInput_pressed_key pressed_key_find find_filter
        frame_inputs_def going_down_def split: list.split)
  show "keys_last tk (m_keys (snd (Input_GetInput tk kb i))) = kb"
    using assms by (simp add: Input_GetInput_def Let_def toolkit_ok_def split: option.split)
qed

lemma input_run_frames:
  assumes "toolkit_ok tk"
  shows "input_run tk kbs i =
    concat (map (\<lambda>(before, now). frame_inputs before now) (zip (keys_last tk (m_keys i) # kbs) kbs))"
proof (induction kbs arbitrary: i)
  case (Cons kb kbs)
  show ?case
    using Input_GetInput_frame [OF assms, of kb i] Cons [of "snd (Input_GetInput tk kb i)"]
    by (simp add: split_beta)
qed simp

lemma click_run_frames:
  assumes "toolkit_ok tk"
  shows "click_run tk bs i =
    map (\<lambda>(before, now). now \<and> \<not> before) (zip (mouse_last_left tk (m_mouseButtons i) # bs) bs)"
  using assms
proof (induction bs arbitrary: i)
  case (Cons b bs)
  then show ?case
    by (simp add: IsPressLeftButton_def Let_def toolkit_ok_def split_beta)
qed simp

end
