(* ===== verification/ControlsClaims.thy ===== *)
theory ControlsClaims
  imports Controls DrawFacts
begin

text \<open>
  Properties of the controls: which presses of keys become inputs, and where a click on a button
  must go.
\<close>

section \<open>Keys\<close>

text \<open>The keys that go down in each frame of a run.\<close>

definition presses :: "Keys \<Rightarrow> Keys list \<Rightarrow> Key list list" where
  "presses held kbs = map (\<lambda>(before, now). going_down before now) (zip (held # kbs) kbs)"

lemma input_run_presses:
  assumes "toolkit_ok tk"
  shows "input_run tk kbs i =
    map (the \<circ> input_of) (concat (map (take 1) (presses (keys_last tk (m_keys i)) kbs)))"
  unfolding input_run_frames [OF assms] presses_def
  by (auto simp: map_concat frame_inputs_def intro!: arg_cong [where f = concat])

lemma length_concat_take1:
  "length (concat (map (take 1) xss)) = length (concat xss) \<longleftrightarrow> (\<forall>xs \<in> set xss. length xs \<le> 1)"
proof -
  have le: "length (concat (map (take 1) xss)) \<le> length (concat xss)" for xss :: "'a list list"
    by (induction xss) auto
  show ?thesis
  proof (induction xss)
    case (Cons xs xss)
    then show ?case using le [of xss] by (cases xs) auto
  qed simp
qed

text \<open>C33: however the keys are held, a frame gives the input of the first key, in the order of the
  source, that has gone down since the frame before.  So every press becomes an input, in order,
  exactly when no two keys go down in the same frame; of several only one is ever seen.\<close>

theorem presses_become_inputs:
  assumes "toolkit_ok tk"
  shows "input_run tk kbs i =
      map (the \<circ> input_of) (concat (map (take 1) (presses (keys_last tk (m_keys i)) kbs))) \<and>
    (input_run tk kbs i = map (the \<circ> input_of) (concat (presses (keys_last tk (m_keys i)) kbs)) \<longleftrightarrow>
      (\<forall>ks \<in> set (presses (keys_last tk (m_keys i)) kbs). length ks \<le> 1))"
proof -
  let ?ps = "presses (keys_last tk (m_keys i)) kbs"
  have "concat (map (take 1) ?ps) = concat ?ps" if "\<forall>ks \<in> set ?ps. length ks \<le> 1"
    using that by (auto intro!: arg_cong [where f = concat] simp: map_idI)
  moreover have "\<forall>ks \<in> set ?ps. length ks \<le> 1"
    if "map (the \<circ> input_of) (concat (map (take 1) ?ps)) = map (the \<circ> input_of) (concat ?ps)"
    using map_eq_imp_length_eq [OF that] length_concat_take1 [of ?ps] by simp
  ultimately have "map (the \<circ> input_of) (concat (map (take 1) ?ps)) =
      map (the \<circ> input_of) (concat ?ps) \<longleftrightarrow> (\<forall>ks \<in> set ?ps. length ks \<le> 1)"
    by auto
  then show ?thesis by (simp only: input_run_presses [OF assms] simp_thms)
qed

text \<open>A keyboard tracker that keeps the last two states, and a mouse tracker alike.\<close>

definition no_keys :: Keys where
  "no_keys = \<lparr>key_Down = False, key_Left = False, key_Right = False, key_Z = False, key_X = False,
     key_Up = False, key_C = False, key_Space = False\<rparr>"

definition both_pressed :: "Keys \<Rightarrow> Keys \<Rightarrow> Keys" where
  "both_pressed before now =
     \<lparr>key_Down = key_Down now \<and> \<not> key_Down before, key_Left = key_Left now \<and> \<not> key_Left before,
      key_Right = key_Right now \<and> \<not> key_Right before, key_Z = key_Z now \<and> \<not> key_Z before,
      key_X = key_X now \<and> \<not> key_X before, key_Up = key_Up now \<and> \<not> key_Up before,
      key_C = key_C now \<and> \<not> key_C before, key_Space = key_Space now \<and> \<not> key_Space before\<rparr>"

definition pair_toolkit :: "(Keys \<times> Keys, bool \<times> bool) Toolkit" where
  "pair_toolkit =
     \<lparr>keys_Update = (\<lambda>kb t. (snd t, kb)), keys_pressed = (\<lambda>t. both_pressed (fst t) (snd t)),
      keys_last = snd, keys_Reset = (\<lambda>_. (no_keys, no_keys)),
      mouse_Update = (\<lambda>b t. (snd t, b)), mouse_left_pressed = (\<lambda>t. snd t \<and> \<not> fst t),
      mouse_last_left = snd, mouse_Reset = (\<lambda>_. (False, False))\<rparr>"

lemma pair_toolkit_ok: "toolkit_ok pair_toolkit"
proof -
  have "held_down (both_pressed before now) q \<longleftrightarrow> held_down now q \<and> \<not> held_down before q" for before now q
    by (cases q) (simp_all add: both_pressed_def)
  then show ?thesis by (simp add: toolkit_ok_def pair_toolkit_def)
qed

text \<open>Left and Z go down together and stay down: the block moves and never turns.\<close>

theorem presses_become_inputs_witness:
  "input_run pair_toolkit
     [no_keys\<lparr>key_Left := True, key_Z := True\<rparr>, no_keys\<lparr>key_Left := True, key_Z := True\<rparr>,
      no_keys\<lparr>key_Z := True\<rparr>, no_keys, no_keys\<lparr>key_C := True\<rparr>]
     (new_Input (no_keys, no_keys) (False, False)) = [LEFT, HOLD]"
  using presses_become_inputs [OF pair_toolkit_ok,
    of "[no_keys\<lparr>key_Left := True, key_Z := True\<rparr>, no_keys\<lparr>key_Left := True, key_Z := True\<rparr>,
      no_keys\<lparr>key_Z := True\<rparr>, no_keys, no_keys\<lparr>key_C := True\<rparr>]"
    "new_Input (no_keys, no_keys) (False, False)"]
  by (simp add: presses_def going_down_def asked_keys_def no_keys_def new_Input_def pair_toolkit_def)

section \<open>Buttons\<close>

text \<open>What the documentation of DirectXTK says of a rectangle with small coordinates: its centre,
  and the points that it contains.\<close>

definition rectangles_ok :: "RectangleLib \<Rightarrow> (Rectangle \<Rightarrow> f32 \<times> f32 \<Rightarrow> bool) \<Rightarrow> bool" where
  "rectangles_ok lib contains \<longleftrightarrow>
     (\<forall>x y w h. 0 \<le> x \<and> 0 \<le> y \<and> 0 < w \<and> 0 < h \<and> 2 * x + w < 16777216 \<and> 2 * y + h < 16777216 \<longrightarrow>
       Center lib \<lparr>rect_x = x, rect_y = y, rect_width = w, rect_height = h\<rparr> =
         ((2 * x + w) * (f32_one div 2), (2 * y + h) * (f32_one div 2)) \<and>
       (\<forall>a b. contains \<lparr>rect_x = x, rect_y = y, rect_width = w, rect_height = h\<rparr> (a, b) \<longleftrightarrow>
         f32_of_int x \<le> a \<and> a < f32_of_int (x + w) \<and> f32_of_int y \<le> b \<and> b < f32_of_int (y + h)))"

lemma below_multiple: "1 \<le> n \<Longrightarrow> 0 \<le> m \<Longrightarrow> m \<le> n * m" for m n :: int
  using mult_right_mono [of 1 n m] by simp

lemma half_multiple:
  fixes m n x :: int
  assumes "1 \<le> n" and "0 \<le> x" and "0 < m" and "n * (2 * x + m) < 16777216"
  shows "\<bar>(x + m div 2) * n\<bar> < 16777216" and "\<bar>x + m div 2\<bar> < 16777216"
proof -
  have "(x + m div 2) * n \<le> (2 * x + m) * n" and nonneg: "0 \<le> (x + m div 2) * n"
    using assms by (auto intro!: mult_right_mono)
  then have "(x + m div 2) * n < 16777216" using assms(4) by (simp only: mult.commute [of n])
  with nonneg show "\<bar>(x + m div 2) * n\<bar> < 16777216" by linarith
  show "\<bar>x + m div 2\<bar> < 16777216"
    using assms below_multiple [of n "2 * x + m"] by linarith
qed

lemma button_label:
  assumes ok: "rectangles_ok lib contains" and n: "1 \<le> n" "n \<le> 8000"
    and r: "0 < x" "0 < y" "0 < w" "0 < h" "n * (2 * x + w) < 16777216" "n * (2 * y + h) < 16777216"
  shows "DrawnText txt (f32_of_int ((x + w div 2) * n)) (f32_of_int ((y + h div 2) * n))
      (Renderer_Begin (0, 0, n * 1920, n * 1080))
    \<in> set (Render_button lib (Renderer_Begin (0, 0, n * 1920, n * 1080)) (SetPos x y (new_Button w h txt)))"
proof -
  have small: "2 * x + w < 16777216" "2 * y + h < 16777216"
    using below_multiple [OF n(1), of "2 * x + w"] below_multiple [OF n(1), of "2 * y + h"] r
    by linarith+
  note cx = half_multiple [of n x w] and cy = half_multiple [of n y h]
  have "Center lib \<lparr>rect_x = x, rect_y = y, rect_width = w, rect_height = h\<rparr> =
      ((2 * x + w) * (f32_one div 2), (2 * y + h) * (f32_one div 2))"
    using ok small r by (simp add: rectangles_ok_def)
  then show ?thesis
    using small r
    by (simp add: Render_button_def SetPos_def new_Button_def GetButtonTexts_def DrawText_def LerpPos_def
        scale_of_multiple [OF n] f32_trunc_half f32_trunc_of_int Lerp_of_int n cx cy)
qed

text \<open>In a window of \<open>n\<close> times the design size the label of a button is drawn at \<open>n\<close> times the
  middle of its rectangle; a click on it presses the button only at the design size, since the
  position of the mouse is compared with the rectangle as it is.\<close>

theorem labels_answer_at_design_size:
  assumes "rectangles_ok lib contains" and "1 \<le> n" and "n \<le> 8000"
    and "0 < x" and "0 < y" and "0 < w" and "0 < h"
    and "n * (2 * x + w) < 16777216" and "n * (2 * y + h) < 16777216"
  shows "\<exists>a b. DrawnText txt (f32_of_int a) (f32_of_int b) (Renderer_Begin (0, 0, n * 1920, n * 1080))
      \<in> set (Render_button lib (Renderer_Begin (0, 0, n * 1920, n * 1080)) (SetPos x y (new_Button w h txt))) \<and>
    (IsPressed (\<lambda>r. contains r (GetMousePos a b)) (SetPos x y (new_Button w h txt)) \<longleftrightarrow> n = 1)"
proof -
  let ?a = "(x + w div 2) * n" and ?b = "(y + h div 2) * n"
  note label = button_label [OF assms]
  have small: "2 * x + w < 16777216" "2 * y + h < 16777216"
    using assms below_multiple [of n "2 * x + w"] below_multiple [of n "2 * y + h"] by linarith+
  have big: "\<bar>?a\<bar> < 16777216" "\<bar>?b\<bar> < 16777216"
    using half_multiple [of n x w] half_multiple [of n y h] assms by simp_all
  have hit: "IsPressed (\<lambda>r. contains r (GetMousePos ?a ?b)) (SetPos x y (new_Button w h txt)) \<longleftrightarrow>
      x \<le> ?a \<and> ?a < x + w \<and> y \<le> ?b \<and> ?b < y + h"
    using assms small big
    by (simp add: IsPressed_def SetPos_def new_Button_def GetMousePos_def rectangles_ok_def
        f32_of_int_exact)
  have "n = 1" if "?a < x + w"
  proof (rule ccontr)
    assume "n \<noteq> 1"
    then have "(x + w div 2) * 2 \<le> ?a" using assms by (intro mult_left_mono) simp_all
    with that assms(4) show False by simp
  qed
  with hit assms label show ?thesis by fastforce
qed

text \<open>The button that starts a game, with the rectangles of DirectXTK: a click on its label in a
  window of twice the design size goes nowhere.\<close>

definition exact_lib :: RectangleLib where
  "exact_lib =
     \<lparr>Center = (\<lambda>r. ((2 * rect_x r + rect_width r) * (f32_one div 2),
        (2 * rect_y r + rect_height r) * (f32_one div 2))),
      to_RECT = (\<lambda>r. (rect_x r, rect_y r, rect_x r + rect_width r, rect_y r + rect_height r))\<rparr>"

definition exact_contains :: "Rectangle \<Rightarrow> f32 \<times> f32 \<Rightarrow> bool" where
  "exact_contains r p =
     (f32_of_int (rect_x r) \<le> fst p \<and> fst p < f32_of_int (rect_x r + rect_width r) \<and>
      f32_of_int (rect_y r) \<le> snd p \<and> snd p < f32_of_int (rect_y r + rect_height r))"

theorem labels_answer_at_design_size_witness:
  "\<exists>a b. DrawnText ''Start'' (f32_of_int a) (f32_of_int b) (Renderer_Begin (0, 0, 3840, 2160))
      \<in> set (Render_button exact_lib (Renderer_Begin (0, 0, 3840, 2160))
          (SetPos 700 900 (new_Button 200 75 ''Start''))) \<and>
    \<not> IsPressed (\<lambda>r. exact_contains r (GetMousePos a b)) (SetPos 700 900 (new_Button 200 75 ''Start''))"
proof -
  have "rectangles_ok exact_lib exact_contains"
    by (simp add: rectangles_ok_def exact_lib_def exact_contains_def)
  from labels_answer_at_design_size [OF this, of 2 700 900 200 75 "''Start''"] show ?thesis by simp
qed

end
