(* ===== verification/GameRequests.thy ===== *)
theory GameRequests
  imports AnswerFacts
begin

text \<open>
  The traffic of a game as bytes: the requests that the frames of a player send, for more blocks and
  with the inputs they have applied, and the notification that the other player gets for inputs.
\<close>

section \<open>Requests\<close>

text \<open>The notification for the session \<open>j\<close> that a request with inputs leads to.\<close>

definition relay :: "int \<Rightarrow> bytes \<Rightarrow> bytes" where
  "relay j p = enc_RES_GAME_INPUT (stamp j PID_RES_GAME_INPUT sizeof_RES_GAME_INPUT (relayed p))"

text \<open>The requests of a game, as bytes.\<close>

definition input_bytes :: "bytes \<Rightarrow> bool" where
  "input_bytes p \<longleftrightarrow> (\<exists>r. p = enc_REQ_GAME_INPUT r \<and> valid_REQ_GAME_INPUT r \<and>
     PacketId r = packet_id PID_REQ_GAME_INPUT \<and>
     0 < sint (inputCnt r) \<and> sint (inputCnt r) \<le> int PACKET_KEY_INPUT_SIZE)"

definition block_bytes :: "bytes \<Rightarrow> bool" where
  "block_bytes p \<longleftrightarrow> (\<exists>r :: BASE_PACKET. p = enc_BASE r \<and> PacketId r = packet_id PID_REQ_FALLING_BLOCK)"

definition game_bytes :: "bytes \<Rightarrow> bool" where
  "game_bytes p \<longleftrightarrow> input_bytes p \<or> block_bytes p"

lemma PacketId_fld: "PacketId (dec_header p) = dec16 (fld 2 2 p)"
  by (simp add: dec_header_def)

lemma PacketId_bytes:
  "input_bytes p \<Longrightarrow> dec16 (fld 2 2 p) = packet_id PID_REQ_GAME_INPUT"
  "block_bytes p \<Longrightarrow> dec16 (fld 2 2 p) = packet_id PID_REQ_FALLING_BLOCK"
proof -
  have id: "PacketId (header_of r) = PacketId r" for r :: "'a PACKET_HEADER_scheme"
    by (simp add: header_of_def PACKET_HEADER.defs)
  show "dec16 (fld 2 2 p) = packet_id PID_REQ_GAME_INPUT" if "input_bytes p"
    using that req_game_input.dec_header_enc [where r = "[]"]
    by (auto simp: input_bytes_def simp flip: PacketId_fld) (simp add: header_of_def PACKET_HEADER.defs)
  show "dec16 (fld 2 2 p) = packet_id PID_REQ_FALLING_BLOCK" if "block_bytes p"
  proof -
    from that obtain r :: BASE_PACKET where r: "p = enc_BASE r" "PacketId r = packet_id PID_REQ_FALLING_BLOCK"
      by (auto simp: block_bytes_def)
    from enc_prefix(1) [of r] obtain q where "p = enc_header (header_of r) @ q" using r(1) by blast
    then have "dec_header p = header_of r" by (simp add: dec_header_prefix)
    with r(2) show ?thesis by (simp add: header_of_def PACKET_HEADER.defs flip: PacketId_fld)
  qed
qed

section \<open>Notifications\<close>

lemma relayed_valid:
  assumes "input_bytes p"
  shows "valid_RES_GAME_INPUT (stamp j pid n (relayed p))"
proof -
  from assms obtain r where r: "p = enc_REQ_GAME_INPUT r" "valid_REQ_GAME_INPUT r"
    "0 < sint (inputCnt r)" "sint (inputCnt r) \<le> int PACKET_KEY_INPUT_SIZE" by (auto simp: input_bytes_def)
  let ?c = "nat (sint (inputCnt r))"
  have "relayed p = key_inputs (req_inputs r) (sint (inputCnt r))"
    using req_game_input.dec_enc [OF r(2)] by (simp add: relayed_def r(1))
  moreover have "length (req_inputs r) = PACKET_KEY_INPUT_SIZE" "list_all proper_input (req_inputs r)"
    using r(2) by (simp_all add: valid_REQ_GAME_INPUT_def)
  moreover have "list_all proper_input (take ?c (req_inputs r))"
    using calculation(3) by (auto simp: list_all_iff dest: in_set_takeD)
  moreover have "?c \<le> PACKET_KEY_INPUT_SIZE" using r(4) by simp
  ultimately show ?thesis
    by (simp add: valid_RES_GAME_INPUT_def valid_BASE_def stamp_def key_inputs_def min_def
        default_RES_GAME_INPUT_def default_BASE_PACKET_def BASE_PACKET.defs RES_GAME_INPUT.defs
        list_all_iff in_set_replicate ball_Un)
qed

lemma header_relay:
  assumes "input_bytes p"
  shows "dec_header (relay j p) = \<lparr>PacketLength = of_nat sizeof_RES_GAME_INPUT,
    PacketId = packet_id PID_RES_GAME_INPUT, sequenceIndex = 0, sessionIndex = of_int j\<rparr>"
  using res_game_input.dec_header_enc [OF relayed_valid [OF assms], of j PID_RES_GAME_INPUT sizeof_RES_GAME_INPUT "[]"]
  by (simp add: relay_def) (simp add: stamp_def header_of_def PACKET_HEADER.defs)

lemma relay_is_packet:
  assumes "input_bytes p"
  shows "is_packet PACKET_HEADER_LENGTH (relay j p)" "length (relay j p) = sizeof_RES_GAME_INPUT"
proof -
  note v = relayed_valid [OF assms, of j PID_RES_GAME_INPUT sizeof_RES_GAME_INPUT]
  show "length (relay j p) = sizeof_RES_GAME_INPUT"
    unfolding relay_def by (rule res_game_input.length_enc [OF v])
  show "is_packet PACKET_HEADER_LENGTH (relay j p)"
    unfolding relay_def by (rule res_game_input.enc_is_packet [OF v])
      (simp add: stamp_def header_of_def PACKET_HEADER.defs)
qed

lemma dec_relay:
  assumes "input_bytes p"
  shows "res_inputs (dec_RES_GAME_INPUT (relay j p)) = res_inputs (relayed p)"
  unfolding relay_def res_game_input.dec_enc [OF relayed_valid [OF assms]] by (simp add: stamp_def)

end
