(* ===== verification/Duel.thy ===== *)
theory Duel
  imports ServerStream GameRequests
begin

text \<open>
  Two players in a room, as the packet thread sees them: the requests of one of them, for blocks
  and with inputs, are served one after the other, and the slot of the other gets the inputs of
  every request as one notification, in their order.
\<close>

section \<open>Two players in a room\<close>

text \<open>
  The player with the session \<open>i\<close> and the slot \<open>c\<close> shares a room with nobody but the one with the
  session \<open>j\<close> and the slot \<open>d\<close>.  It can ask \<open>n\<close> times for blocks before its counter overflows.
\<close>

definition duel :: "int \<Rightarrow> nat \<Rightarrow> int \<Rightarrow> nat \<Rightarrow> nat \<Rightarrow> Server \<Rightarrow> bool" where
  "duel i c j d n s \<longleftrightarrow>
     i \<noteq> j \<and> c \<noteq> d \<and> session_slot i c s \<and> session_slot j d s \<and>
     (\<exists>a b p q k. FindPlayerBySessionIndex i s = Inr (Some a) \<and> heap s a = Some p \<and> heap s b = Some q \<and>
        p_sessionIndex p = i \<and> p_sessionIndex q = j \<and> FindRoom (p_roomIndex p) s = Some k \<and>
        players (rooms s ! k) \<in> {[a, b], [b, a]} \<and>
        0 \<le> p_fallingBlockIndex p \<and> p_fallingBlockIndex p + int (PACKET_FALLING_BLOCK_SIZE * n) < 2 ^ 31)"

section \<open>What keeps it\<close>

definition identity :: "Player option \<Rightarrow> (int \<times> int) option" where
  "identity x = map_option (\<lambda>p. (p_sessionIndex p, p_roomIndex p)) x"

lemma find_player_cong:
  assumes "\<And>x. map_option P (h' x) = map_option P (h x)"
  shows "find_player P h' xs m = find_player P h xs m"
proof (induction xs arbitrary: m)
  case (Cons x xs)
  show ?case
  proof (cases x)
    case (Some a)
    with assms [of a] Cons.IH show ?thesis by (cases "h a"; cases "h' a") auto
  qed simp
qed simp

lemma find_room_cong: "map r_roomIndex rs = map r_roomIndex rs' \<Longrightarrow> find_room k rs = find_room k rs'"
proof (induction rs arbitrary: rs')
  case (Cons r rs)
  then obtain r' rs'' where "rs' = r' # rs''" "r_roomIndex r' = r_roomIndex r"
    "map r_roomIndex rs = map r_roomIndex rs''" by (cases rs') auto
  with Cons.IH show ?case by simp
qed simp

text \<open>All that a duel needs of a state.\<close>

definition stage :: "Server \<Rightarrow> (nat option list \<times> (nat \<Rightarrow> (int \<times> int) option) \<times> (int \<times> nat list) list \<times>
    Session list \<times> nat)" where
  "stage s = (allPlayers s, (\<lambda>x. identity (heap s x)),
     map (\<lambda>r. (r_roomIndex r, players r)) (rooms s), sessions s, length (clients s))"

lemma stage_irrelevant [simp]:
  "stage (s\<lparr>recvPackets := ps\<rparr>) = stage s"
  "stage (resGameInput_update f s) = stage s" "stage (resFallingBlock_update g s) = stage s"
  "stage (s\<lparr>clients := (clients s)[m := x]\<rparr>) = stage s"
  "stage (slot_received m q qs s) = stage s"
  by (simp_all add: stage_def slot_received_def)

lemma stageD:
  assumes "stage t = stage s"
  shows "FindPlayerBySessionIndex i t = FindPlayerBySessionIndex i s" "FindRoom k t = FindRoom k s"
    "session_slot i c t = session_slot i c s"
    "k' < length (rooms s) \<Longrightarrow> players (rooms t ! k') = players (rooms s ! k')"
    "identity (heap t x) = identity (heap s x)" "length (rooms t) = length (rooms s)"
proof -
  have h: "identity (heap t y) = identity (heap s y)" for y
    using assms unfolding stage_def by (auto dest: fun_cong)
  then show "identity (heap t x) = identity (heap s x)" .
  have "map_option (\<lambda>p. p_sessionIndex p = i) (heap t y) = map_option (\<lambda>p. p_sessionIndex p = i) (heap s y)" for y
    using h [of y] by (cases "heap t y"; cases "heap s y") (simp_all add: identity_def)
  from find_player_cong [of "\<lambda>p. p_sessionIndex p = i" "heap t" "heap s", OF this] assms
  show "FindPlayerBySessionIndex i t = FindPlayerBySessionIndex i s"
    by (simp add: FindPlayerBySessionIndex_def stage_def cong: option.case_cong)
  have r: "map (\<lambda>r. (r_roomIndex r, players r)) (rooms t) = map (\<lambda>r. (r_roomIndex r, players r)) (rooms s)"
    using assms by (simp add: stage_def)
  from arg_cong [OF this, of "map fst"] show "FindRoom k t = FindRoom k s"
    unfolding FindRoom_def by (intro find_room_cong) (simp add: comp_def)
  from arg_cong [OF r, of length] show l: "length (rooms t) = length (rooms s)" by simp
  from arg_cong [OF r, of "\<lambda>xs. snd (xs ! k')"] l
  show "k' < length (rooms s) \<Longrightarrow> players (rooms t ! k') = players (rooms s ! k')" by simp
  show "session_slot i c t = session_slot i c s" using assms by (simp add: stage_def session_slot_def)
qed

lemma duel_keep:
  assumes "duel i c j d n s" and "stage t = stage s"
    and "\<And>a p. heap s a = Some p \<Longrightarrow> 0 \<le> p_fallingBlockIndex p \<Longrightarrow>
           p_fallingBlockIndex p + int (PACKET_FALLING_BLOCK_SIZE * n) < 2 ^ 31 \<Longrightarrow>
           0 \<le> p_fallingBlockIndex (the (heap t a)) \<and>
           p_fallingBlockIndex (the (heap t a)) + int (PACKET_FALLING_BLOCK_SIZE * m) < 2 ^ 31"
  shows "duel i c j d m t"
proof -
  from assms(1) obtain a b p q k where d: "FindPlayerBySessionIndex i s = Inr (Some a)"
    "heap s a = Some p" "heap s b = Some q" "p_sessionIndex p = i" "p_sessionIndex q = j"
    "FindRoom (p_roomIndex p) s = Some k" "players (rooms s ! k) \<in> {[a, b], [b, a]}"
    "0 \<le> p_fallingBlockIndex p" "p_fallingBlockIndex p + int (PACKET_FALLING_BLOCK_SIZE * n) < 2 ^ 31"
    by (auto simp: duel_def)
  note e = stageD [OF assms(2)]
  from d(2,3) e(5) [of a] e(5) [of b] obtain p' q' where
    p': "heap t a = Some p'" "heap t b = Some q'" "p_sessionIndex p' = p_sessionIndex p"
      "p_roomIndex p' = p_roomIndex p" "p_sessionIndex q' = p_sessionIndex q"
    by (cases "heap t a"; cases "heap t b") (simp_all add: identity_def)
  have "0 \<le> p_fallingBlockIndex p' \<and> p_fallingBlockIndex p' + int (PACKET_FALLING_BLOCK_SIZE * m) < 2 ^ 31"
    using assms(3) [OF d(2,8,9)] p'(1) by simp
  moreover have "players (rooms t ! k) \<in> {[a, b], [b, a]}"
    using d(7) e(4) [of k] FindRoom_Some [OF d(6)] by metis
  moreover have "FindPlayerBySessionIndex i t = Inr (Some a)" "FindRoom (p_roomIndex p') t = Some k"
    "p_sessionIndex p' = i" "p_sessionIndex q' = j"
    using d(1,4-6) e(1) [of i] e(2) [of "p_roomIndex p"] p'(3-5) by simp_all
  moreover have "i \<noteq> j" "c \<noteq> d" "session_slot i c t" "session_slot j d t"
    using assms(1) e(3) [of i c] e(3) [of j d] by (simp_all add: duel_def)
  ultimately show ?thesis unfolding duel_def using p'(1,2) by metis
qed

section \<open>Requests\<close>

text \<open>What everybody else gets, between \<open>s\<close> and \<open>t\<close>: the slot \<open>c\<close> that has asked gets \<open>n\<close> more
  messages, all of them answers and no notification among them; no slot but \<open>c\<close> and \<open>d\<close> gets
  anything.\<close>

definition only_answers :: "nat \<Rightarrow> nat \<Rightarrow> nat \<Rightarrow> Server \<Rightarrow> Server \<Rightarrow> bool" where
  "only_answers c d n s t \<longleftrightarrow>
     length (clients t) = length (clients s) \<and>
     (\<exists>as. outgoing (clients t ! c) = outgoing (clients s ! c) @ as \<and> length as = n \<and>
        (\<forall>a \<in> set as. operation a = SEND)) \<and>
     (\<forall>e. e \<noteq> c \<longrightarrow> e \<noteq> d \<longrightarrow> outgoing (clients t ! e) = outgoing (clients s ! e))"

lemma only_answers_refl: "only_answers c d 0 s s"
  by (simp add: only_answers_def)

lemma only_answers_trans:
  "only_answers c d m s t \<Longrightarrow> only_answers c d n t u \<Longrightarrow> only_answers c d (m + n) s u"
  by (auto simp: only_answers_def)

lemma only_answers_cong:
  "(\<And>e. e \<noteq> d \<Longrightarrow> outgoing (clients t' ! e) = outgoing (clients t ! e)) \<Longrightarrow>
   length (clients t') = length (clients t) \<Longrightarrow> c \<noteq> d \<Longrightarrow>
   only_answers c d n s t \<Longrightarrow> only_answers c d n s t'"
  by (simp add: only_answers_def)

lemma duel_input:
  assumes "duel i c j d n s" and "input_bytes p"
  shows "\<exists>t. run_handler sh H_GameInput i p s = Inr t \<and> recvPackets t = recvPackets s \<and> duel i c j d n t \<and>
     outgoing (clients t ! d) = outgoing (clients s ! d) @ [\<lparr>wsaBuf = relay j p, operation = NOTIFY\<rparr>] \<and>
     only_answers c d 1 s t"
proof -
  from assms(2) obtain r where r: "p = enc_REQ_GAME_INPUT r" "valid_REQ_GAME_INPUT r"
    "0 < sint (inputCnt r)" "sint (inputCnt r) \<le> int PACKET_KEY_INPUT_SIZE" by (auto simp: input_bytes_def)
  note len = req_game_input.length_enc [OF r(2)] and dec = req_game_input.dec_enc [OF r(2)]
  from assms(1) obtain a b x y k where slots: "i \<noteq> j" "c \<noteq> d" "session_slot i c s" "session_slot j d s"
    and a: "FindPlayerBySessionIndex i s = Inr (Some a)" "heap s a = Some x" "heap s b = Some y"
    "p_sessionIndex x = i" "p_sessionIndex y = j" "FindRoom (p_roomIndex x) s = Some k"
    "players (rooms s ! k) = [a, b] \<or> players (rooms s ! k) = [b, a]" by (auto simp: duel_def)
  let ?s = "resGameInput_update (answer_header sizeof_RES_GAME_INPUT r) s"
  let ?t = "?s\<lparr>clients := (clients s)[d := SendMsg_client (relay j p) NOTIFY (clients s ! d)]\<rparr>"
  let ?u = "?t\<lparr>clients := (clients ?t)[c := SendMsg_client (enc_RES_GAME_INPUT (resGameInput ?t)) SEND (clients ?t ! c)]\<rparr>"
  have s: "stage ?s = stage s" and t: "stage ?t = stage s" and u: "stage ?u = stage s"
    using stage_irrelevant(4) [of ?s d] stage_irrelevant(4) [of ?t c] by simp_all
  have inputs: "length (req_inputs r) = PACKET_KEY_INPUT_SIZE" using r(2) by (simp add: valid_REQ_GAME_INPUT_def)
  have "session_slot j d ?s" using slots(4) stageD(3) [OF s] by simp
  from SendNotify_slot [OF this, of PID_RES_GAME_INPUT sizeof_RES_GAME_INPUT enc_RES_GAME_INPUT
      "key_inputs (req_inputs r) (sint (inputCnt r))"]
  have send: "SendNotify j PID_RES_GAME_INPUT sizeof_RES_GAME_INPUT enc_RES_GAME_INPUT
      (key_inputs (req_inputs r) (sint (inputCnt r))) ?s = Inr ?t"
    by (simp add: relay_def relayed_def r(1) dec)
  have "fold_res (notify_other i PID_RES_GAME_INPUT sizeof_RES_GAME_INPUT enc_RES_GAME_INPUT
      (key_inputs (req_inputs r) (sint (inputCnt r)))) (players (rooms s ! k)) ?s = Inr ?t"
    using a slots(1) send by (auto simp: notify_other_def)
  then have "AddKeyInput k i (req_inputs r) (sint (inputCnt r)) ?s = Inr ?t"
    using r(3,4) inputs by (simp add: AddKeyInput_def)
  then have "ReqGameInput r (Some a) ?s = Inr ?t"
    using a stageD(2) [OF s] by (simp add: ReqGameInput_def)
  moreover have "SendPacketFunc i (enc_RES_GAME_INPUT (resGameInput ?t)) ?t = Inr ?u"
    by (rule SendPacketFunc_slot) (simp only: stageD(3) [OF t] slots(3))
  ultimately have "run_handler sh H_GameInput i p s = Inr ?u"
    using a(1) stageD(1) [OF s, of i] len dec
    by (simp add: run_handler_def Handle_def ReadReq_def Let_def r(1))
  moreover have "duel i c j d n ?u" by (rule duel_keep [OF assms(1) u]) simp_all
  moreover have "d < length (clients s)" "c < length (clients s)"
    using slots(3,4) by (simp_all add: session_slot_def)
  moreover have "only_answers c d 1 s ?u"
    using slots(2) calculation(4) by (simp add: only_answers_def outgoing_SendMsg)
  ultimately show ?thesis using slots(2)
    by (intro exI [of _ ?u]) (simp add: outgoing_SendMsg)
qed

lemma stage_extend_blocks:
  assumes "k < length (rooms s)"
  shows "stage (extend_blocks k ext n (advance a x s)) = stage s"
proof -
  have "map (\<lambda>r. (r_roomIndex r, players r)) (rooms (extend_blocks k ext n (advance a x s))) =
      map (\<lambda>r. (r_roomIndex r, players r)) (rooms s)"
    using assms by (simp add: extend_blocks_def set_room_def advance_def map_update list_update_same_conv)
  moreover have "identity (heap (advance a x s) y) = identity (heap s y)" for y
    by (cases "heap s y") (auto simp: advance_def identity_def)
  ultimately show ?thesis
    using assms by (simp add: stage_def extend_blocks_def set_room_def) (simp add: advance_def)
qed

lemma duel_block:
  assumes "duel i c j d (Suc n) s" and "block_bytes p"
  shows "\<exists>t. run_handler sh H_FallingBlock i p s = Inr t \<and> recvPackets t = recvPackets s \<and>
     duel i c j d n t \<and> outgoing (clients t ! d) = outgoing (clients s ! d) \<and> only_answers c d 1 s t"
proof -
  from assms(2) obtain r :: BASE_PACKET where r: "p = enc_BASE r" by (auto simp: block_bytes_def)
  from assms(1) obtain a b x k where slots: "c \<noteq> d" "session_slot i c s"
    and a: "FindPlayerBySessionIndex i s = Inr (Some a)" "heap s a = Some x"
    "FindRoom (p_roomIndex x) s = Some k" "0 \<le> p_fallingBlockIndex x"
    "p_fallingBlockIndex x + int (PACKET_FALLING_BLOCK_SIZE * Suc n) < 2 ^ 31" by (auto simp: duel_def)
  let ?s = "resFallingBlock_update (answer_header sizeof_RES_GAME_START (dec_BASE p)) s"
  have s: "stage ?s = stage s" by simp
  have k: "k < length (rooms s)" using FindRoom_Some [OF a(3)] by simp
  obtain m where m: "p_fallingBlockIndex x = int m" using a(4) nonneg_int_cases by blast
  with a(5) have "int m + int PACKET_FALLING_BLOCK_SIZE < 2 ^ 31" by simp
  from GetFallingBlock_spec [of k ?s a x m PACKET_FALLING_BLOCK_SIZE sh, OF _ _ m this] k a(2)
  obtain ext z where g: "GetFallingBlock sh k (Some a) (int PACKET_FALLING_BLOCK_SIZE) ?s =
      Inr (take PACKET_FALLING_BLOCK_SIZE (drop m (fallingBlocks (rooms s ! k) @ ext)),
           extend_blocks k ext z (advance a (int m + int PACKET_FALLING_BLOCK_SIZE) ?s))"
    "m + PACKET_FALLING_BLOCK_SIZE < length (fallingBlocks (rooms s ! k) @ ext)" by auto
  let ?t = "extend_blocks k ext z (advance a (int m + int PACKET_FALLING_BLOCK_SIZE) ?s)"
  let ?bs = "take PACKET_FALLING_BLOCK_SIZE (drop m (fallingBlocks (rooms s ! k) @ ext))"
  have "length ?bs = PACKET_FALLING_BLOCK_SIZE" using g(2) by (simp del: drop_append take_append)
  then have "copy_blocks ?bs = Inr ?bs" by (simp add: copy_blocks_def del: drop_append take_append)
  let ?u = "?t\<lparr>resFallingBlock := (resFallingBlock ?t)\<lparr>newBlocks := ?bs\<rparr>\<rparr>"
  have logic: "ReqFallingBlock sh (dec_BASE p) (Some a) ?s = Inr ?u"
    using g(1) a stageD(2) [OF s] \<open>copy_blocks ?bs = Inr ?bs\<close>
    by (simp add: ReqFallingBlock_def del: drop_append take_append)
  have u: "stage ?u = stage s" using stage_extend_blocks [of k ?s] k by simp
  let ?m = "enc_RES_GAME_START (resFallingBlock ?u)"
  let ?v = "?u\<lparr>clients := (clients ?u)[c := SendMsg_client ?m SEND (clients ?u ! c)]\<rparr>"
  have "SendPacketFunc i ?m ?u = Inr ?v"
    by (rule SendPacketFunc_slot) (simp only: stageD(3) [OF u] slots(2))
  with logic have "run_handler sh H_FallingBlock i p s = Inr ?v"
    using a(1) stageD(1) [OF s, of i]
    by (simp add: run_handler_def Handle_def ReadReq_def Let_def r sizeof_BASE_def)
  moreover have "duel i c j d n ?v"
  proof (rule duel_keep [OF assms(1)])
    show "stage ?v = stage s" by (rule trans [OF stage_irrelevant(4) u])
    fix y q assume "heap s y = Some q" "0 \<le> p_fallingBlockIndex q"
      "p_fallingBlockIndex q + int (PACKET_FALLING_BLOCK_SIZE * Suc n) < 2 ^ 31"
    with m a(2) show "0 \<le> p_fallingBlockIndex (the (heap ?v y)) \<and>
        p_fallingBlockIndex (the (heap ?v y)) + int (PACKET_FALLING_BLOCK_SIZE * n) < 2 ^ 31"
      by (auto simp: extend_blocks_def set_room_def advance_def)
  qed
  moreover have "clients ?t = clients s" by (simp add: extend_blocks_def set_room_def advance_def)
  moreover have "recvPackets ?t = recvPackets s" by (simp add: extend_blocks_def set_room_def advance_def)
  moreover have "c < length (clients s)" using slots(2) by (simp add: session_slot_def)
  ultimately show ?thesis using slots(1)
    by (intro exI [of _ ?v]) (simp add: only_answers_def outgoing_SendMsg)
qed

section \<open>The packet thread\<close>

definition notification :: "int \<Rightarrow> bytes \<Rightarrow> OverlappedEx" where
  "notification j p = \<lparr>wsaBuf = relay j p, operation = NOTIFY\<rparr>"

lemma duel_step:
  assumes "duel i c j d (Suc n) s" and "recvPackets s = received i p # ps" and "game_bytes p"
  shows "\<exists>t. PacketThread sh s = Inr t \<and> recvPackets t = ps \<and> duel i c j d n t \<and>
     outgoing (clients t ! d) =
       outgoing (clients s ! d) @ map (notification j) (filter input_bytes [p]) \<and>
     only_answers c d 1 s t"
proof -
  have same: "only_answers c d m (s\<lparr>recvPackets := qs\<rparr>) t \<longleftrightarrow> only_answers c d m s t" for m qs t
    by (simp add: only_answers_def)
  let ?s = "s\<lparr>recvPackets := ps\<rparr>"
  have keep: "duel i c j d m ?s" if "m \<le> Suc n" for m
  proof (rule duel_keep [OF assms(1)])
    fix a q assume "heap s a = Some q" "0 \<le> p_fallingBlockIndex q"
      "p_fallingBlockIndex q + int (PACKET_FALLING_BLOCK_SIZE * Suc n) < 2 ^ 31"
    then show "0 \<le> p_fallingBlockIndex (the (heap ?s a)) \<and>
        p_fallingBlockIndex (the (heap ?s a)) + int (PACKET_FALLING_BLOCK_SIZE * m) < 2 ^ 31"
      using that by auto
  qed simp
  have ids: "packet_id PID_REQ_GAME_INPUT \<noteq> packet_id PID_REQ_FALLING_BLOCK"
    "map_of handlers (packet_id PID_REQ_GAME_INPUT) = Some H_GameInput"
    "map_of handlers (packet_id PID_REQ_FALLING_BLOCK) = Some H_FallingBlock"
    by (simp_all add: handlers_def packet_id_def)
  show ?thesis
  proof (cases "input_bytes p")
    case True
    from duel_input [OF keep True, where n = n and sh = sh] obtain t where
      "run_handler sh H_GameInput i p ?s = Inr t" "recvPackets t = ps" "duel i c j d n t"
      "outgoing (clients t ! d) = outgoing (clients s ! d) @ [notification j p]" "only_answers c d 1 s t"
      by (auto simp: notification_def same)
    with True ids PacketId_bytes(1) [OF True] assms(2) show ?thesis
      by (simp add: PacketThread_def DequeRecvPacket_def ProcessPacket_def received_def)
  next
    case False
    with assms(3) have b: "block_bytes p" by (simp add: game_bytes_def)
    from duel_block [OF keep b, where sh = sh] obtain t where
      "run_handler sh H_FallingBlock i p ?s = Inr t" "recvPackets t = ps" "duel i c j d n t"
      "outgoing (clients t ! d) = outgoing (clients s ! d)" "only_answers c d 1 s t" by (auto simp: same)
    with False ids PacketId_bytes(2) [OF b] assms(2) show ?thesis
      by (simp add: PacketThread_def DequeRecvPacket_def ProcessPacket_def received_def)
  qed
qed

lemma duel_run:
  assumes "duel i c j d (length ps) s" and "recvPackets s = map (received i) ps @ qs" and "list_all game_bytes ps"
  shows "\<exists>t. steps sh s (replicate (length ps) PacketStep) t \<and> recvPackets t = qs \<and> duel i c j d 0 t \<and>
     outgoing (clients t ! d) = outgoing (clients s ! d) @ map (notification j) (filter input_bytes ps) \<and>
     only_answers c d (length ps) s t"
  using assms
proof (induction ps arbitrary: s)
  case Nil
  then show ?case by (intro exI [of _ s]) (simp add: steps.steps_refl only_answers_refl)
next
  case (Cons p ps)
  from duel_step [of i c j d "length ps" s p "map (received i) ps @ qs" sh] Cons.prems obtain u where
    u: "PacketThread sh s = Inr u" "recvPackets u = map (received i) ps @ qs" "duel i c j d (length ps) u"
    "outgoing (clients u ! d) = outgoing (clients s ! d) @ map (notification j) (filter input_bytes [p])"
    "only_answers c d 1 s u" by auto
  from Cons.IH [OF u(3,2)] Cons.prems(3) obtain t where
    t: "steps sh u (replicate (length ps) PacketStep) t" "recvPackets t = qs" "duel i c j d 0 t"
    "outgoing (clients t ! d) = outgoing (clients u ! d) @ map (notification j) (filter input_bytes ps)"
    "only_answers c d (length ps) u t" by auto
  have "only_answers c d (length (p # ps)) s t" using only_answers_trans [OF u(5) t(5)] by simp
  moreover have "server_step sh PacketStep s = Some (Inr u)" using u(1) by (simp add: server_step_def)
  ultimately show ?case using steps_Cons [OF _ t(1)] t(2-4) u(4) by (intro exI [of _ t]) simp
qed

end
