(* ===== verification/ClientMirror.thy ===== *)
theory ClientMirror
  imports ClientClaims GameServer BoardClaims
begin

text \<open>
  The two boards of a game.  A client updates its own board with the keys and the time of its
  frames and sends the inputs that took effect; the other client of the room replays them on the
  enemy board, without time.  The theory shows when the replay keeps the two boards equal, and
  when not.
\<close>

section \<open>The inputs of a frame\<close>

lemma finish_queues: "finish a = Inr b \<Longrightarrow> applyQueue b = applyQueue a \<and> inputQueue b = inputQueue a"
  by (auto simp: finish_def Let_def bind_res_Inr_iff UpdateExpectBlock_def split: option.splits)

lemma inputQueue_Gravity: "UpdateFallingBlock e tb = Inr u \<Longrightarrow> spawned tb \<Longrightarrow> inputQueue u = inputQueue tb"
  by (cases "nextFallingBlockQueue tb")
     (auto simp: UpdateFallingBlock_def Let_def bind_res_Inr_iff MoveFallingBlock_def push_applied_def
        FallingBlockToWall_def spawned_def NextFallingBlock_def DequeNextBlock_def SetFallingBlock_def
        split: option.splits if_splits)

text \<open>What a frame applies: the queued inputs, then at most one step of gravity.\<close>

lemma Update_applied:
  assumes "isPlaying own" and "Update e own = Inr own'"
  obtains gravity where "gravity \<in> {[], [DOWN], [DROP]}" and "inputQueue own' = []"
    and "applyQueue own' = filter (\<lambda>i. i \<noteq> Input_NONE) (inputQueue own) @ gravity"
proof -
  let ?a = "spawn (own\<lparr>applyQueue := []\<rparr>)"
  from assms obtain a b where a: "InputLoop e ?a = Inr a" and b: "UpdateFallingBlock e a = Inr b"
    and own': "finish b = Inr own'"
    by (auto simp: Update_finish bind_res_Inr_iff)
  have "spawned a" by (rule spawned_InputLoop [OF a]) simp
  from b this obtain g where "g \<in> {[], [DOWN], [DROP]}" "applyQueue b = applyQueue a @ g"
    by (cases rule: UpdateFallingBlock_cases) auto
  moreover have "inputQueue b = []"
    using inputQueue_Gravity [OF b \<open>spawned a\<close>] InputLoop_applied [OF a] by simp
  ultimately show ?thesis
    using InputLoop_applied [OF a] finish_queues [OF own'] by (intro that [of g]) simp_all
qed

lemma QueueInputs_eq: "QueueInputs is tb = tb\<lparr>inputQueue := inputQueue tb @ is\<rparr>"
  by (induction "is" tb rule: QueueInputs.induct) simp_all

lemma fold_QueueInput: "fold QueueInput is tb = tb\<lparr>inputQueue := inputQueue tb @ is\<rparr>"
  by (induction "is" arbitrary: tb) (simp_all add: QueueInput_def)

lemma GetInput_cases:
  "GetInput k = [] \<or> (\<exists>i. GetInput k = [i] \<and> proper_input i \<and> i \<noteq> Input_NONE)"
  by (simp add: GetInput_def)

text \<open>The inputs a frame applies fit into a packet.\<close>

definition sendable :: "InputType list \<Rightarrow> bool" where
  "sendable is \<longleftrightarrow> length is \<le> PACKET_KEY_INPUT_SIZE \<and> Input_NONE \<notin> set is \<and> list_all proper_input is"

lemma frame_inputs_sendable:
  assumes "isPlaying own" and "inputQueue own = GetInput k" and "Update e own = Inr own'"
  shows "sendable (applyQueue own')" "inputQueue own' = []"
proof -
  from Update_applied [OF assms(1,3)] obtain g where g: "g \<in> {[], [DOWN], [DROP]}" "inputQueue own' = []"
    "applyQueue own' = filter (\<lambda>i. i \<noteq> Input_NONE) (inputQueue own) @ g" .
  with assms(2) GetInput_cases [of k] show "sendable (applyQueue own')"
    by (auto simp: sendable_def)
  show "inputQueue own' = []" by (rule g(2))
qed

section \<open>From the request to the notification\<close>

lemma relayed_inputs:
  assumes "sendable is"
  shows "takeWhile (\<lambda>i. i \<noteq> Input_NONE)
           (res_inputs (relayed (cp_data (request_packet pid n enc_REQ_GAME_INPUT (input_request is) session seq)))) = is"
proof -
  let ?pad = "replicate (PACKET_KEY_INPUT_SIZE - length is) Input_NONE"
  let ?r = "input_request is\<lparr>sessionIndex := session, PacketId := packet_id pid,
    sequenceIndex := seq, PacketLength := of_nat n\<rparr>"
  have r: "req_inputs ?r = is @ ?pad" "inputCnt ?r = of_nat (length is)"
    using assms by (simp_all add: input_request_def Let_def default_REQ_GAME_INPUT_def sendable_def
        default_BASE_PACKET_def BASE_PACKET.defs REQ_GAME_INPUT.defs)
  have "resultID (input_request is) = resultID default_BASE_PACKET"
    by (simp add: input_request_def Let_def default_REQ_GAME_INPUT_def default_BASE_PACKET_def
        BASE_PACKET.defs REQ_GAME_INPUT.defs)
  then have "valid_REQ_GAME_INPUT ?r"
    using assms r by (auto simp: valid_REQ_GAME_INPUT_def valid_BASE_def sendable_def list_all_iff
        default_BASE_PACKET_def in_set_replicate)
  from req_game_input.dec_enc [OF this]
  have "dec_REQ_GAME_INPUT (cp_data (request_packet pid n enc_REQ_GAME_INPUT (input_request is) session seq)) = ?r"
    by (simp add: request_packet_def)
  moreover have "sint (of_nat (length is) :: 32 word) = int (length is)"
    using assms by (simp add: sendable_def signed_of_nat signed_take_bit_int_eq_self_iff)
  ultimately have "res_inputs (relayed (cp_data (request_packet pid n enc_REQ_GAME_INPUT (input_request is) session seq)))
      = is @ drop (length is) (replicate PACKET_KEY_INPUT_SIZE Input_NONE)"
    using r by (simp add: relayed_def key_inputs_def default_RES_GAME_INPUT_def BASE_PACKET.defs
        RES_GAME_INPUT.defs)
  moreover have "takeWhile (\<lambda>i. i \<noteq> Input_NONE) (is @ replicate m Input_NONE) = is" for m
    using assms by (subst takeWhile_append2) (auto simp: sendable_def takeWhile_eq_Nil_iff)
  ultimately show ?thesis by simp
qed

section \<open>Frames without inputs\<close>

lemma core_forget: "core k a = core k b \<Longrightarrow> core False a = core False b"
  by (rule core_eqI) (use core_eqD [of k a b] in \<open>auto simp: ghost_def split: if_splits\<close>)

lemma core_finish:
  assumes "finish a = Inr b" and "RemoveWall (board a) = Inr (board a, n)"
  shows "core False b = core False a" "spawned b = spawned a"
proof -
  have "board (UpdateExpectBlock a) = board a"
    by (simp add: UpdateExpectBlock_def Let_def split: option.split)
  with assms have b: "b = UpdateExpectBlock a\<lparr>board := board a\<rparr>" by (simp add: finish_def)
  show "core False b = core False a"
    by (rule core_eqI) (simp_all add: b UpdateExpectBlock_def Let_def ghost_def falling_assign_def
        SetResourceID_def SetBlockType_def split: option.split)
  show "spawned b = spawned a"
    by (simp add: b spawned_def UpdateExpectBlock_def Let_def split: option.split)
qed

lemma idle_frame:
  assumes "isPlaying own" and "Update e own = Inr own'" and "applyQueue own' = []"
  obtains b where "bind_res (InputLoop e (spawn (own\<lparr>applyQueue := []\<rparr>))) (UpdateFallingBlock e) = Inr b"
    and "finish b = Inr own'" and "core True b = core True (spawn own)" and "spawned b"
proof -
  let ?a = "spawn (own\<lparr>applyQueue := []\<rparr>)"
  from assms(1,2) obtain a b where a: "InputLoop e ?a = Inr a" and b: "UpdateFallingBlock e a = Inr b"
    and own': "finish b = Inr own'"
    by (auto simp: Update_finish bind_res_Inr_iff)
  have sa: "spawned a" by (rule spawned_InputLoop [OF a]) simp
  have none: "applyQueue b = []" using finish_queues [OF own'] assms(3) by simp
  from b sa have ba: "core True b = core True a" and ab: "applyQueue b = applyQueue a"
    by (cases rule: UpdateFallingBlock_cases; use none in auto)+
  have "filter (\<lambda>i. i \<noteq> Input_NONE) (inputQueue ?a) = []"
    using InputLoop_applied [OF a] ab none by simp
  then have "fold_res (ApplyInput e) (inputQueue ?a) ?a = Inr ?a"
    using fold_skip_NONE [of e "inputQueue ?a" ?a] by simp
  then have aa: "core True a = core True ?a" using core_InputLoop [of e ?a] a by simp
  have "core True ?a = core True (spawn own)" by (rule core_spawn) simp
  with that [of b] a b own' ba aa spawned_cong [OF ba] sa show thesis by simp
qed

lemma mirror_idle:
  assumes "mirrors k own enemy" and "isPlaying own" and "Update e own = Inr own'"
    and "applyQueue own' = []" and "RemoveWall (board own) = Inr (board own, n)"
  shows "mirrors False own' enemy"
proof -
  from idle_frame [OF assms(2-4)] obtain b where own': "finish b = Inr own'"
    and b: "core True b = core True (spawn own)" "spawned b" by blast
  have "board b = board own" using core_eqD(1) [OF b(1)] by simp
  then have "core False own' = core False b" "spawned own'"
    using core_finish [OF own', of n] assms(5) b(2) by simp_all
  moreover have "core False (spawn own) = core False (spawn enemy)"
    using assms(1) by (intro core_forget [of k]) (simp add: mirrors_def)
  ultimately have "core False (spawn own') = core False (spawn enemy)"
    using core_forget [OF b(1)] core_spawned [of own' False] by simp
  with assms(1) show ?thesis by (simp add: mirrors_def)
qed

section \<open>A frame of the client and its replay\<close>

lemma play_frame_sends:
  assumes "play_frame keys e g mine s = Inr s'" and "isPlaying mine" and "inputQueue mine = []"
    and "cl_isConnect s"
  obtains own' where "Update e (mine\<lparr>inputQueue := GetInput keys\<rparr>) = Inr own'"
    and "GetInGameScene s' = Some (g\<lparr>tetrisBoard := Some own'\<rparr>)"
    and "sendable (applyQueue own')" and "inputQueue own' = []"
    and "applyQueue own' \<noteq> [] \<Longrightarrow> \<exists>ps session seq. sendPacketQueue s' =
           ps @ [request_packet PID_REQ_GAME_INPUT sizeof_REQ_GAME_INPUT enc_REQ_GAME_INPUT
                   (input_request (applyQueue own')) session seq]"
proof -
  let ?m = "mine\<lparr>inputQueue := GetInput keys\<rparr>"
  have m: "(if GetInput keys \<noteq> [] then QueueInputs (GetInput keys) mine else mine) = ?m"
    using assms(3) by (cases mine) (simp add: QueueInputs_eq)
  from assms(1) [unfolded play_frame_def Let_def m] obtain s1 own' where
    s1: "(if GetRemainFallingBlock ?m < PACKET_FALLING_BLOCK_SIZE
          then cl_Send PID_REQ_FALLING_BLOCK sizeof_BASE enc_BASE default_BASE_PACKET s else Inr s) = Inr s1"
    and upd: "Update e ?m = Inr own'"
    and snd: "(if GetAppliedInputs own' \<noteq> []
               then cl_Send PID_REQ_GAME_INPUT sizeof_REQ_GAME_INPUT enc_REQ_GAME_INPUT
                      (input_request (GetAppliedInputs own')) (set_ingame (g\<lparr>tetrisBoard := Some own'\<rparr>) s1)
               else Inr (set_ingame (g\<lparr>tetrisBoard := Some own'\<rparr>) s1)) = Inr s'"
    by (auto simp: bind_res_Inr_iff)
  have c: "cl_isConnect s1" using s1 assms(4)
    by (auto simp: cl_Send_def bind_res_Inr_iff split: if_splits)
  have "isPlaying ?m" "inputQueue ?m = GetInput keys" using assms(2) by simp_all
  note sendable = frame_inputs_sendable [OF this upd]
  show ?thesis
  proof (rule that [OF upd _ sendable])
    show "GetInGameScene s' = Some (g\<lparr>tetrisBoard := Some own'\<rparr>)"
      using snd by (auto simp: GetInGameScene_def set_ingame_def cl_Send_def bind_res_Inr_iff split: if_splits)
    assume "applyQueue own' \<noteq> []"
    with snd c show "\<exists>ps session seq. sendPacketQueue s' =
           ps @ [request_packet PID_REQ_GAME_INPUT sizeof_REQ_GAME_INPUT enc_REQ_GAME_INPUT
                   (input_request (applyQueue own')) session seq]"
      by (auto simp: set_ingame_def cl_Send_def bind_res_Inr_iff GetAppliedInputs_def) blast
  qed
qed

lemma mirrors_input_queue [simp]: "mirrors k (own\<lparr>inputQueue := q\<rparr>) enemy = mirrors k own enemy"
proof -
  have "core k (spawn (own\<lparr>inputQueue := q\<rparr>)) = core k (spawn own)" by (rule core_spawn) simp
  then show ?thesis by (simp add: mirrors_def)
qed

text \<open>The frames of a player are replayed faithfully on the other player's enemy board: the inputs
  a frame has applied leave the client in one packet, and when the packet the server relays
  for it arrives, the handler leaves the two boards equal, up to the ghost when no block is
  falling.  A frame without inputs sends nothing and keeps them equal up to the ghost.  A hard
  drop needs equal ghosts.\<close>

theorem inputs_replay_on_the_enemy_board:
  assumes "mirrors k mine enemy" and "isPlaying mine" and "inputQueue mine = []"
    and "RemoveWall (board mine) = Inr (board mine, 0)"
    and "cl_isConnect s" and "play_frame keys e g mine s = Inr s'"
    and "GetInGameScene t = Some h" and "enemyBoard h = Some enemy"
  shows "\<exists>mine'. GetInGameScene s' = Some (g\<lparr>tetrisBoard := Some mine'\<rparr>) \<and> inputQueue mine' = [] \<and>
           (if applyQueue mine' = [] then mirrors False mine' enemy
            else \<exists>ps p. sendPacketQueue s' = ps @ [p] \<and> cp_PacketId p = packet_id PID_REQ_GAME_INPUT \<and>
              ((DROP \<in> set (applyQueue mine') \<longrightarrow> k) \<longrightarrow>
               (\<exists>enemy'. on_ReqGameInput (relayed (cp_data p)) t =
                           Inr (set_ingame (h\<lparr>enemyBoard := Some enemy'\<rparr>) t) \<and>
                         mirrors (fallingBlock mine' \<noteq> None) mine' enemy')))"
proof -
  from play_frame_sends [OF assms(6,2,3,5)] obtain own' where
    upd: "Update e (mine\<lparr>inputQueue := GetInput keys\<rparr>) = Inr own'"
    and own': "GetInGameScene s' = Some (g\<lparr>tetrisBoard := Some own'\<rparr>)" "sendable (applyQueue own')"
      "inputQueue own' = []"
    and sent: "applyQueue own' \<noteq> [] \<Longrightarrow> \<exists>ps session seq. sendPacketQueue s' =
           ps @ [request_packet PID_REQ_GAME_INPUT sizeof_REQ_GAME_INPUT enc_REQ_GAME_INPUT
                   (input_request (applyQueue own')) session seq]" by blast
  have m: "mirrors k (mine\<lparr>inputQueue := GetInput keys\<rparr>) enemy" using assms(1) by simp
  have play: "isPlaying (mine\<lparr>inputQueue := GetInput keys\<rparr>)" using assms(2) by simp
  show ?thesis
  proof (cases "applyQueue own' = []")
    case True
    with mirror_idle [OF m play upd True] assms(4) own' show ?thesis by auto
  next
    case False
    from sent [OF this] obtain ps session seq where ps: "sendPacketQueue s' =
        ps @ [request_packet PID_REQ_GAME_INPUT sizeof_REQ_GAME_INPUT enc_REQ_GAME_INPUT
                (input_request (applyQueue own')) session seq]" (is "_ = ps @ [?p]") by blast
    have id: "cp_PacketId ?p = packet_id PID_REQ_GAME_INPUT" by (simp add: request_packet_def)
    have "\<exists>enemy'. on_ReqGameInput (relayed (cp_data ?p)) t =
                     Inr (set_ingame (h\<lparr>enemyBoard := Some enemy'\<rparr>) t) \<and>
                   mirrors (fallingBlock own' \<noteq> None) own' enemy'"
      if k: "DROP \<in> set (applyQueue own') \<longrightarrow> k"
    proof -
      have "fold QueueInput (applyQueue own') enemy = enemy\<lparr>inputQueue := applyQueue own'\<rparr>"
        using assms(1) by (simp add: fold_QueueInput mirrors_def)
      with mirror_frame [OF m play upd] k assms(7,8) show ?thesis
        by (auto simp: on_ReqGameInput_def relayed_inputs [OF own'(2)])
    qed
    with own' False ps id show ?thesis by auto
  qed
qed

text \<open>Two players whose boards hold the same falling block, and a press of the left key.\<close>

definition left_key :: Keys where
  "left_key = \<lparr>key_Down = False, key_Left = True, key_Right = False, key_Z = False, key_X = False,
     key_Up = False, key_C = False, key_Space = False\<rparr>"

definition demo_scene :: InGameScene where
  "demo_scene = (new_InGameScene 1)\<lparr>tetrisBoard := Some demo, enemyBoard := Some demo\<rparr>"

definition demo_player :: Client where
  "demo_player = (new_Client (\<lambda>_. 0) (\<lambda>_. []))\<lparr>cl_isConnect := True, curScene := Some (InGame demo_scene)\<rparr>"

lemma demo_facts: "isPlaying demo" "lastFallingTime demo = 0" "RemoveWall (board demo) = Inr (board demo, 0)"
  by code_simp+

lemma play_frame_demo: "\<exists>s'. play_frame left_key e demo_scene demo demo_player = Inr s'"
proof -
  have "\<exists>own'. Update e (demo\<lparr>inputQueue := [LEFT]\<rparr>) = Inr own'"
  proof (rule Update_total)
    show "wf_board (demo\<lparr>inputQueue := [LEFT]\<rparr>)" using wf_demo by (simp add: wf_board_def)
  qed (simp_all add: expect_demo falling_demo)
  then obtain own' where "Update e (demo\<lparr>inputQueue := [LEFT]\<rparr>) = Inr own'" ..
  then show ?thesis
    by (simp add: play_frame_def left_key_def GetInput_def QueueInputs_eq inputQueue_demo Let_def
        cl_Send_def demo_player_def new_Client_def set_ingame_def int32_res_def)
qed

lemma demo_applies:
  assumes "play_frame left_key e demo_scene demo demo_player = Inr s'"
    and "GetInGameScene s' = Some (demo_scene\<lparr>tetrisBoard := Some m\<rparr>)"
  shows "applyQueue m \<noteq> []"
proof -
  have "cl_isConnect demo_player" by (simp add: demo_player_def)
  from play_frame_sends [OF assms(1) demo_facts(1) inputQueue_demo this] obtain own' where
    "Update e (demo\<lparr>inputQueue := [LEFT]\<rparr>) = Inr own'"
    and "GetInGameScene s' = Some (demo_scene\<lparr>tetrisBoard := Some own'\<rparr>)"
    by (auto simp: left_key_def GetInput_def)
  moreover from this(2) assms(2) have "m = own'"
    by (metis InGameScene.select_convs(1) InGameScene.surjective InGameScene.update_convs(1) option.inject)
  ultimately show ?thesis
    using demo_facts(1) by (auto elim: Update_applied [rotated])
qed

theorem inputs_replay_on_the_enemy_board_witness:
  "\<exists>s' enemy' p ps. play_frame left_key 0 demo_scene demo demo_player = Inr s' \<and>
     sendPacketQueue s' = ps @ [p] \<and>
     on_ReqGameInput (relayed (cp_data p)) demo_player =
       Inr (set_ingame (demo_scene\<lparr>enemyBoard := Some enemy'\<rparr>) demo_player)"
proof -
  from play_frame_demo obtain s' where s': "play_frame left_key 0 demo_scene demo demo_player = Inr s'" ..
  have "mirrors True demo demo" by (simp add: mirrors_def demo_facts inputQueue_demo)
  from inputs_replay_on_the_enemy_board [OF this demo_facts(1) inputQueue_demo demo_facts(3) _ s',
      where t = demo_player and h = demo_scene] demo_applies [OF s']
  show ?thesis using s'
    by (auto simp: demo_player_def demo_scene_def GetInGameScene_def split: if_splits)
qed

end
