(* ===== verification/MirrorFaults.thy ===== *)
theory MirrorFaults
  imports ClientMirror
begin

text \<open>
  Where the two boards of a game drift apart: the ghost is computed before full lines are removed
  and is corrected only by the next frame, which the enemy board does not see.
\<close>

section \<open>Frames without gravity\<close>

text \<open>What a frame does to the part of a board that the other client replays, without gravity.\<close>

definition calm_step :: "InputType list \<Rightarrow> TetrisBoard \<Rightarrow> TetrisBoard res" where
  "calm_step is tb = bind_res (fold_res (ApplyInput 0) is (spawn tb)) finish"

lemma finish_cong: "core True a = core True b \<Longrightarrow> map_res (core True) (finish a) = map_res (core True) (finish b)"
proof (cases "finish a"; cases "finish b")
  fix x y assume c: "core True a = core True b" and "finish a = Inl x" "finish b = Inl y"
  moreover have "board (UpdateExpectBlock t) = board t" for t
    by (simp add: UpdateExpectBlock_def Let_def split: option.split)
  ultimately show ?thesis using core_eqD(1) [OF c]
    by (cases "RemoveWall (board b)") (auto simp: finish_def Let_def)
next
  fix x y assume c: "core True a = core True b" and r: "finish a = Inl x" "finish b = Inr y"
  from finish_core [OF c [symmetric] r(2)] r show ?thesis by auto
next
  fix x y assume c: "core True a = core True b" and r: "finish a = Inr x" "finish b = Inl y"
  from finish_core [OF c r(1)] r show ?thesis by auto
next
  fix x y assume c: "core True a = core True b" and r: "finish a = Inr x" "finish b = Inr y"
  from finish_core [OF c r(1)] r show ?thesis by auto
qed

lemma bind_cong_core:
  assumes "map_res (core True) x = map_res (core True) y"
    and "\<And>a b. core True a = core True b \<Longrightarrow> map_res f (g a) = map_res f (g b)"
  shows "map_res f (bind_res x g) = map_res f (bind_res y g)"
proof (cases x)
  case (Inl e)
  with assms(1) show ?thesis by (cases y) simp_all
next
  case (Inr a)
  with assms(1) obtain b where "y = Inr b" "core True a = core True b" by (cases y) simp_all
  with Inr assms(2) [OF this(2)] show ?thesis by simp
qed

lemma calm_step_cong:
  assumes "core True a = core True b"
  shows "map_res (core True) (calm_step is a) = map_res (core True) (calm_step is b)"
proof -
  have "map_res (core True) (fold_res (ApplyInput 0) is (spawn a)) =
        map_res (core True) (fold_res (ApplyInput 0) is (spawn b))"
    by (rule core_fold [OF core_spawn [OF assms]]) simp
  then show ?thesis unfolding calm_step_def by (rule bind_cong_core) (rule finish_cong)
qed

lemma InputLoop_calm:
  assumes "core True a = core True b"
  shows "map_res (core True) (InputLoop e a) = map_res (core True) (fold_res (ApplyInput 0) (inputQueue a) b)"
proof -
  note core_InputLoop [of e a]
  also have "map_res (core True) (fold_res (ApplyInput e) (inputQueue a) a) =
      map_res (core True) (fold_res (ApplyInput 0) (inputQueue a) b)"
    by (rule core_fold [OF assms]) simp
  finally show ?thesis .
qed

text \<open>A frame in which gravity does nothing, of the own board or of the enemy board.\<close>

lemma calm_frame:
  assumes "isPlaying tb" and "Update e tb = Inr u"
    and "applyQueue u = filter (\<lambda>i. i \<noteq> Input_NONE) (inputQueue tb) \<or> e = 0 \<and> lastFallingTime tb = 0"
  shows "map_res (core True) (calm_step (inputQueue tb) tb) = Inr (core True u)"
proof -
  let ?a = "spawn (tb\<lparr>applyQueue := []\<rparr>)"
  from assms(1,2) obtain a b where a: "InputLoop e ?a = Inr a" and b: "UpdateFallingBlock e a = Inr b"
    and u: "finish b = Inr u"
    by (auto simp: Update_finish bind_res_Inr_iff)
  have sa: "spawned a" by (rule spawned_InputLoop [OF a]) simp
  have q: "applyQueue a = filter (\<lambda>i. i \<noteq> Input_NONE) (inputQueue tb)"
    using InputLoop_applied [OF a] by simp
  have qb: "applyQueue u = applyQueue b"
    using finish_core [OF refl u, of True] by blast
  have ba: "core True b = core True a"
    using assms(3)
  proof
    assume "applyQueue u = filter (\<lambda>i. i \<noteq> Input_NONE) (inputQueue tb)"
    with b sa q qb show ?thesis by (cases rule: UpdateFallingBlock_cases) auto
  next
    assume z: "e = 0 \<and> lastFallingTime tb = 0"
    then have "lastFallingTime ?a = 0" by (intro spawn_timer) simp
    moreover from z a have "InputLoop 0 ?a = Inr a" by simp
    ultimately have "lastFallingTime a = 0" by (rule timer_InputLoop_0 [rotated])
    with b z have "b = spawn a" by (simp add: UpdateFallingBlock_0)
    with core_spawned [OF sa] show ?thesis by simp
  qed
  have "core True ?a = core True (spawn tb)" by (rule core_spawn) simp
  from InputLoop_calm [OF this, of e] a
  have "map_res (core True) (fold_res (ApplyInput 0) (inputQueue tb) (spawn tb)) = map_res (core True) (Inr b)"
    using ba by simp
  then have "map_res (core True) (calm_step (inputQueue tb) tb) = map_res (core True) (bind_res (Inr b) finish)"
    unfolding calm_step_def by (rule bind_cong_core) (rule finish_cong)
  with u show ?thesis by simp
qed

text \<open>A frame of no time is such a frame.\<close>

lemma zero_frame:
  assumes "isPlaying tb" and "lastFallingTime tb = 0" and "\<not> isl (calm_step (inputQueue tb) tb)"
  shows "\<exists>u. Update 0 tb = Inr u \<and> applyQueue u = filter (\<lambda>i. i \<noteq> Input_NONE) (inputQueue tb) \<and>
    lastFallingTime u = 0 \<and> inputQueue u = []"
proof -
  let ?a = "spawn (tb\<lparr>applyQueue := []\<rparr>)"
  have c: "core True ?a = core True (spawn tb)" by (rule core_spawn) simp
  from assms(3) obtain f y where f: "fold_res (ApplyInput 0) (inputQueue tb) (spawn tb) = Inr f"
    "finish f = Inr y"
    by (cases "fold_res (ApplyInput 0) (inputQueue tb) (spawn tb)"; cases "calm_step (inputQueue tb) tb")
       (auto simp: calm_step_def)
  with InputLoop_calm [OF c, of 0] obtain a where a: "InputLoop 0 ?a = Inr a" "core True a = core True f"
    by (cases "InputLoop 0 ?a") auto
  have t: "lastFallingTime a = 0"
    by (rule timer_InputLoop_0 [OF a(1) spawn_timer]) (use assms(2) in simp)
  have sa: "spawned a" by (rule spawned_InputLoop [OF a(1)]) simp
  have "core True (spawn a) = core True f" using core_spawned [OF sa] a(2) by simp
  with finish_cong [OF this] f(2) obtain u where u: "finish (spawn a) = Inr u"
    by (cases "finish (spawn a)") auto
  have "Update 0 tb = Inr u" using assms(1) a(1) u UpdateFallingBlock_0 [OF t] by (simp add: Update_finish)
  moreover have "lastFallingTime u = 0" using u spawn_timer [OF t]
    by (auto simp: finish_def Let_def bind_res_Inr_iff UpdateExpectBlock_def split: option.splits)
  ultimately show ?thesis using finish_queues [OF u] InputLoop_applied [OF a(1)] by auto
qed

section \<open>A drop after a line clear\<close>

text \<open>The two bottom lines are full but for the columns 4 and 5; three O blocks are to come.\<close>

definition two_gaps :: cells where
  "two_gaps = map (map (\<lambda>c. if vy (bpos c) < 18 \<or> vx (bpos c) = 4 \<or> vx (bpos c) = 5 then c
                            else c\<lparr>blockType := WALL\<rparr>)) (init_cells raw_cells)"

definition clearing :: TetrisBoard where
  "clearing = UpdateExpectBlock (NextFallingBlock
     (QueueNextBlock Shape_O (QueueNextBlock Shape_O (QueueNextBlock Shape_O
       (Start ((Init 1 new_board)\<lparr>board := two_gaps\<rparr>))))))"

text \<open>The state after the first drop, after the idle frame, and after a second drop in each.\<close>

definition cleared :: TetrisBoard where "cleared = projr (calm_step [DROP] clearing)"
definition refreshed :: TetrisBoard where "refreshed = projr (calm_step [] cleared)"
definition own_end :: TetrisBoard where "own_end = projr (calm_step [DROP] refreshed)"
definition enemy_end :: TetrisBoard where "enemy_end = projr (calm_step [DROP] cleared)"

lemma clearing_facts:
  "isPlaying clearing" "lastFallingTime clearing = 0" "inputQueue clearing = []"
  "isPlaying cleared" "\<not> Option.is_none (fallingBlock cleared)" "isPlaying refreshed"
  by code_simp+

lemma clearing_steps:
  "\<not> isl (calm_step [DROP] clearing)" "\<not> isl (calm_step [] cleared)"
  "\<not> isl (calm_step [DROP] refreshed)" "\<not> isl (calm_step [DROP] cleared)"
  by code_simp+

lemma clearing_run:
  "calm_step [DROP] clearing = Inr cleared" "calm_step [] cleared = Inr refreshed"
  "calm_step [DROP] refreshed = Inr own_end" "calm_step [DROP] cleared = Inr enemy_end"
  using clearing_steps by (simp_all add: cleared_def refreshed_def own_end_def enemy_end_def)

lemma wf_clearing: "wf_board clearing"
proof -
  have "wf_cells two_gaps" by code_simp
  then have "wf_board ((Init 1 new_board)\<lparr>board := two_gaps\<rparr>)"
    using wf_board_new [of 1] by (simp add: wf_board_def)
  then show ?thesis by (simp add: clearing_def invs)
qed

lemma cleared_facts:
  "\<not> Option.is_none (fallingBlock cleared)" "fits (board cleared) (the (fallingBlock cleared))"
  "fpos (expectBlock cleared) \<noteq> fpos (expectBlock (UpdateExpectBlock cleared))"
  by code_simp+

lemma clearing_ends: "IsAnyBlock (board own_end) 19" "\<not> IsAnyBlock (board enemy_end) 19"
  by code_simp+

lemma calm_frame_to:
  assumes "Update e tb = Inr u" and "isPlaying tb" and "core True tb = core True a" and "inputQueue tb = is"
    and "calm_step is a = Inr b"
    and "applyQueue u = filter (\<lambda>i. i \<noteq> Input_NONE) is \<or> e = 0 \<and> lastFallingTime tb = 0"
  shows "core True u = core True b"
  using calm_frame [OF assms(2,1)] calm_step_cong [OF assms(3), of "is"] assms(4-6) by auto

text \<open>Such a frame exists when the calm step does.\<close>

lemma zero_frame_to:
  assumes "core True t = core True a" and "isPlaying a" and "lastFallingTime t = 0"
    and "inputQueue t = is" and "calm_step is a = Inr b"
  shows "\<exists>u. Update 0 t = Inr u \<and> applyQueue u = filter (\<lambda>i. i \<noteq> Input_NONE) is \<and> lastFallingTime u = 0 \<and>
      inputQueue u = [] \<and> core True u = core True b"
proof -
  have p: "isPlaying t" using core_eqD(6) [OF assms(1)] assms(2) by simp
  have "\<not> isl (calm_step (inputQueue t) t)"
    using calm_step_cong [OF assms(1), of "is"] assms(4,5) by (cases "calm_step is t") auto
  from zero_frame [OF p assms(3) this] obtain u where u: "Update 0 t = Inr u"
    "applyQueue u = filter (\<lambda>i. i \<noteq> Input_NONE) is" "lastFallingTime u = 0" "inputQueue u = []"
    using assms(4) by auto
  with calm_frame_to [OF u(1) p assms(1,4,5)] show ?thesis using assms(3) by blast
qed

text \<open>No operation of a frame stops the game.\<close>

lemma isPlaying_blocks:
  "isPlaying (NextFallingBlock tb) = isPlaying tb"
  "isPlaying (SetFallingBlock p tb) = isPlaying tb"
  "isPlaying (snd (DequeNextBlock tb)) = isPlaying tb"
  "FallingBlockToWall tb = Inr u \<Longrightarrow> isPlaying u = isPlaying tb"
  "MoveFallingBlock i tb = Inr u \<Longrightarrow> isPlaying u = isPlaying tb"
proof -
  show deque: "isPlaying (snd (DequeNextBlock tb)) = isPlaying tb" for tb
    by (simp add: DequeNextBlock_def split: list.split)
  show set: "isPlaying (SetFallingBlock p tb) = isPlaying tb" for p tb
    by (simp add: SetFallingBlock_def split: option.split)
  show "isPlaying (NextFallingBlock tb) = isPlaying tb"
    by (simp add: NextFallingBlock_def DequeNextBlock_def SetFallingBlock_def split: list.split)
  show wall: "isPlaying u = isPlaying tb" if "FallingBlockToWall tb = Inr u" for u tb
    using that by (auto simp: FallingBlockToWall_def bind_res_Inr_iff split: option.splits)
  show "MoveFallingBlock i tb = Inr u \<Longrightarrow> isPlaying u = isPlaying tb"
  proof -
    assume m: "MoveFallingBlock i tb = Inr u"
    show "isPlaying u = isPlaying tb"
    proof (cases "i = DROP")
      case True
      with m obtain x where x: "FallingBlockToWall tb = Inr x"
        "u = SetFallingBlock (fst (DequeNextBlock x)) (snd (DequeNextBlock x))"
        by (auto simp: MoveFallingBlock_def bind_res_Inr_iff Let_def split_beta)
      then show ?thesis using wall [OF x(1)] by (simp add: set deque)
    qed (use m in \<open>auto simp: MoveFallingBlock_def split: option.splits if_splits\<close>)
  qed
qed

lemma isPlaying_ApplyInput: "ApplyInput e i tb = Inr u \<Longrightarrow> isPlaying u = isPlaying tb"
  by (auto simp: ApplyInput_def bind_res_Inr_iff push_applied_def HoldBlock_def swap_hold_def Let_def
      isPlaying_blocks split: option.splits if_splits dest!: isPlaying_blocks(5))

lemma isPlaying_Update:
  assumes "Update e own = Inr own'" and "isPlaying own"
  shows "isPlaying own'"
proof -
  from assms obtain a b where a: "InputLoop e (spawn (own\<lparr>applyQueue := []\<rparr>)) = Inr a"
    and b: "UpdateFallingBlock e a = Inr b" and own': "finish b = Inr own'"
    by (auto simp: Update_finish bind_res_Inr_iff)
  have "isPlaying a"
    by (rule InputLoop_invariant [OF a]) (use assms(2) in \<open>auto dest: isPlaying_ApplyInput\<close>)
  then have "isPlaying b"
    using b by (auto simp: UpdateFallingBlock_def Let_def bind_res_Inr_iff push_applied_def isPlaying_blocks
        split: option.splits if_splits dest!: isPlaying_blocks(4,5))
  with own' show ?thesis
    by (auto simp: finish_def Let_def bind_res_Inr_iff UpdateExpectBlock_def split: option.splits)
qed

section \<open>The ghost of a frame\<close>

lemma board_UpdateExpectBlock [simp]: "board (UpdateExpectBlock t) = board t"
  by (simp add: UpdateExpectBlock_def Let_def split: option.split)

lemma RemoveWall_snd: "RemoveWall b = Inr (c, n) \<Longrightarrow> n = 0"
  by (auto simp: RemoveWall_def bind_res_Inr_iff)

lemma RemoveWall_no_full:
  assumes "wf_cells b" and "list_all (\<lambda>r. \<not> full_row r) (view b)"
  shows "RemoveWall b = Inr (b, 0)"
proof -
  have "wallCount b h \<noteq> TETRIS_BOARD_WIDTH" if "h < 20" for h
  proof -
    have "h < length b" using assms(1) that by (simp add: wf_cells_def)
    with assms(2) have "\<not> full_row (view b ! h)" by (auto simp: list_all_length simp del: view_nth)
    with wallCount_view [OF assms(1) that] show ?thesis by blast
  qed
  then have "fold_res RemoveWallAt [0..<n] b = Inr b" if "n \<le> 20" for n
    using that by (induction n) (simp_all add: fold_res_append RemoveWallAt_def)
  then show ?thesis by (simp add: RemoveWall_def)
qed

lemma RemoveWall_again:
  assumes "wf_cells b" and "RemoveWall b = Inr (c, n)"
  shows "wf_cells c" and "list_all (\<lambda>r. \<not> full_row r) (view c)"
proof -
  obtain d where d: "RemoveWall b = Inr (d, 0)" "wf_cells d" "view d = clear_rows 20 (view b)"
    using assms(1) by (rule RemoveWall_view)
  have "length (view b) = 20" using assms(1) by (simp add: wf_cells_def)
  with clear_rows_split [of 20 "view b"] d assms(2) show "wf_cells c" "list_all (\<lambda>r. \<not> full_row r) (view c)"
    by auto
qed

text \<open>The ghost is computed on the board as it is before the full lines are removed.\<close>

lemma Update_ghost:
  assumes "isPlaying tb" and "wf_board tb" and "Update e tb = Inr u" and "fallingBlock u = Some f"
  shows "\<exists>c. RemoveWall c = Inr (board u, 0) \<and> list_all (\<lambda>r. \<not> full_row r) (view (board u)) \<and>
    fpos (expectBlock u) = vec_add (fpos f) (vec 0 (land_distance c f)) \<and>
    map bpos (blockInfo (expectBlock u)) = map bpos (blockInfo f)"
proof -
  from assms(1,3) obtain a b where a: "InputLoop e (spawn (tb\<lparr>applyQueue := []\<rparr>)) = Inr a"
    and b: "UpdateFallingBlock e a = Inr b" and u: "finish b = Inr u"
    by (auto simp: Update_finish bind_res_Inr_iff)
  from u obtain c n where c: "RemoveWall (board b) = Inr (c, n)" and u': "u = (UpdateExpectBlock b)\<lparr>board := c\<rparr>"
    by (auto simp: finish_def Let_def bind_res_Inr_iff)
  have "wf_board (tb\<lparr>applyQueue := []\<rparr>)" using assms(2) by (simp add: wf_board_def)
  then have "wf_board (spawn (tb\<lparr>applyQueue := []\<rparr>))"
    by (simp add: spawn_def wf_board_NextFallingBlock)
  then have "wf_board b" using a b by (metis wf_board_InputLoop wf_board_UpdateFallingBlock)
  then have "wf_cells (board b)" by (rule wf_boardD)
  note w = RemoveWall_again [OF this c]
  have "fallingBlock b = Some f" using assms(4) u' by simp
  from UpdateExpectBlock_eq [OF this] c RemoveWall_snd [OF c] w u' show ?thesis
    by (intro exI [of _ "board b"]) (simp add: comp_def)
qed

text \<open>A hard drop locks at the ghost.\<close>

lemma calm_lock:
  assumes "wf_board t" and "fallingBlock t = Some f" and "calm_step [DROP] t = Inr v"
  shows "on_board (expectBlock t)"
    and "\<exists>b. walled (expectBlock t) f 4 (board t) b \<and> RemoveWall b = Inr (board v, 0)"
proof -
  have s: "spawn t = t" using assms(2) by (simp add: spawn_def)
  have step: "bind_res (bind_res (FallingBlockToWall t) (\<lambda>u. Inr (push_applied DROP (after_drop u)))) finish = Inr v"
    using assms(3) by (simp add: calm_step_def s ApplyInput_def MoveFallingBlock_DROP bind_res_assoc)
  show on: "on_board (expectBlock t)"
    using FallingBlockToWall_off_board [OF assms(2)] step by (cases "on_board (expectBlock t)") simp_all
  from FallingBlockToWall_total [OF assms(1,2) on] obtain b where
    b: "FallingBlockToWall t = Inr (t\<lparr>board := b, fallingBlock := None, canHold := True\<rparr>)"
      "walled (expectBlock t) f 4 (board t) b" by blast
  with step obtain n where "RemoveWall b = Inr (board v, n)"
    by (auto simp: finish_def Let_def bind_res_Inr_iff)
  with b(2) RemoveWall_snd show "\<exists>b. walled (expectBlock t) f 4 (board t) b \<and> RemoveWall b = Inr (board v, 0)"
    by blast
qed

text \<open>Two ghosts of a block at different heights lock at different cells.\<close>

lemma extremal_cell:
  fixes h :: "nat \<Rightarrow> int"
  assumes "d \<noteq> 0"
  obtains i where "i < 4" and "\<And>j. j < 4 \<Longrightarrow> h j + d \<noteq> h i"
proof (cases "0 < d")
  case True
  let ?m = "Min (h ` {..<4})"
  have "?m \<in> h ` {..<4}" by (rule Min_in) (auto simp: lessThan_empty_iff)
  then obtain i where "i < 4" "h i = ?m" by auto
  moreover have "?m \<le> h j" if "j < 4" for j using that by (intro Min_le) auto
  ultimately show thesis using True that [of i] by fastforce
next
  case False
  let ?m = "Max (h ` {..<4})"
  have "?m \<in> h ` {..<4}" by (rule Max_in) (auto simp: lessThan_empty_iff)
  then obtain i where "i < 4" "h i = ?m" by auto
  moreover have "h j \<le> ?m" if "j < 4" for j using that by (intro Max_ge) auto
  ultimately show thesis using False assms that [of i] by fastforce
qed

lemma locked_apart:
  assumes "walled e f 4 c b" and "walled g f 4 c b'" and "on_board e" and "fits c e"
    and "map bpos (blockInfo g) = map bpos (blockInfo e)" and "length (blockInfo e) = 4"
    and "fpos g = vec_add (fpos e) (vec 0 d)" and "d \<noteq> 0"
  shows "\<exists>y<20. \<exists>x<10. blockType (b ! y ! x) = WALL \<and> blockType (b' ! y ! x) \<noteq> WALL"
proof -
  have len: "length (blockInfo g) = 4" using assms(5,6) by (metis length_map)
  have g: "cell_x g j = cell_x e j" "cell_y g j = cell_y e j + d" if "j < 4" for j
  proof -
    have "bpos (blockInfo g ! j) = bpos (blockInfo e ! j)"
      using arg_cong [OF assms(5), of "\<lambda>xs. xs ! j"] that len assms(6) by simp
    then show "cell_x g j = cell_x e j" "cell_y g j = cell_y e j + d"
      using assms(7) by (simp_all add: cell_x_def cell_y_def)
  qed
  obtain i where i: "i < 4" "\<And>j. j < 4 \<Longrightarrow> cell_y e j + d \<noteq> cell_y e i"
    using extremal_cell [OF assms(8), of "cell_y e"] by blast
  let ?x = "nat (cell_x e i)" and ?y = "nat (cell_y e i)"
  from assms(3) i(1) have on: "0 \<le> cell_x e i" "cell_x e i < 10" "0 \<le> cell_y e i" "cell_y e i < 20"
    by (auto simp: on_board_def)
  have yx: "?y < 20" "?x < 10" using on by auto
  have "(int ?x, int ?y) \<in> cell_set e 4" using on i(1) by (auto simp: cell_set_def)
  then have "blockType (b ! ?y ! ?x) = WALL" using assms(1) yx unfolding walled_def by fastforce
  moreover have "(int ?x, int ?y) \<notin> cell_set g 4" using on i(2) g by (force simp: cell_set_def)
  then have "b' ! ?y ! ?x = c ! ?y ! ?x" using assms(2) yx unfolding walled_def by metis
  moreover have "blockType (c ! ?y ! ?x) \<noteq> WALL"
    using assms(4) i(1) on by (simp add: fits_def CanMoveFallingBlock_iff)
  ultimately show ?thesis using yx by metis
qed

lemma map_res_Inr_iff: "map_res f r = Inr y \<longleftrightarrow> (\<exists>x. r = Inr x \<and> f x = y)"
  by (cases r) auto

lemma calm_step_spawn: "spawn t = t' \<Longrightarrow> spawn t' = t' \<Longrightarrow> calm_step is t = calm_step is t'"
  by (simp add: calm_step_def)

lemma spawn_spawn: "fallingBlock (spawn t) \<noteq> None \<Longrightarrow> spawn (spawn t) = spawn t"
  by (cases "spawn t = t") (auto simp: spawn_def [of "spawn t"])

lemma expectBlock_spawn [simp]: "expectBlock (spawn t) = expectBlock t"
  by (simp add: spawn_def)

lemma wf_board_core: "core True a = core True b \<Longrightarrow> wf_board a = wf_board b"
  using core_eqD [of True a b] by (simp add: wf_board_def)

text \<open>C24: a line clear makes the two boards of a game diverge.  In the frame in which the full lines are
  removed the ghost of the falling block is computed on the board as it was before, on both boards
  alike.  If the removal moves the block's landing place, the ghost is stale.  The player's next
  frame corrects the own ghost; when it applies no input nothing is sent, so the enemy board keeps
  the stale one.  A hard drop in the frame after that locks at the landing place on the own board
  and at the stale ghost on the enemy board: some cell becomes a wall on the one that does not
  on the other, and the two boards differ unless one of the drops completes a line.\<close>

theorem line_clear_desynchronises:
  assumes "wf_board own" and "mirrors True own enemy" and "isPlaying own"
    and "Update e1 own = Inr own1" and "Update 0 (enemy\<lparr>inputQueue := applyQueue own1\<rparr>) = Inr enemy1"
    and "fallingBlock own1 = Some f" and "fits (board own1) f"
    and "fpos (expectBlock own1) \<noteq> fpos (expectBlock (UpdateExpectBlock own1))"
    and "Update e2 own1 = Inr own2" and "applyQueue own2 = []"
    and "Update e3 (QueueInput DROP own2) = Inr own3" and "applyQueue own3 = [DROP]"
    and "Update 0 (enemy1\<lparr>inputQueue := applyQueue own3\<rparr>) = Inr enemy3"
  shows "expectBlock enemy1 = expectBlock own1 \<and> board enemy1 = board own1 \<and>
    (\<exists>c. RemoveWall c = Inr (board own1, 0) \<and>
       fpos (expectBlock own1) = vec_add (fpos f) (vec 0 (land_distance c f))) \<and>
    board own2 = board own1 \<and> expectBlock own2 = expectBlock (UpdateExpectBlock own1) \<and>
    (\<exists>b b'. walled (expectBlock own2) f 4 (board own1) b \<and> RemoveWall b = Inr (board own3, 0) \<and>
       walled (expectBlock own1) f 4 (board own1) b' \<and> RemoveWall b' = Inr (board enemy3, 0) \<and>
       (\<exists>y<20. \<exists>x<10. blockType (b ! y ! x) = WALL \<and> blockType (b' ! y ! x) \<noteq> WALL) \<and>
       (list_all (\<lambda>r. \<not> full_row r) (view b) \<and> list_all (\<lambda>r. \<not> full_row r) (view b') \<longrightarrow>
          board own3 \<noteq> board enemy3))"
proof -
  let ?t = "UpdateExpectBlock own1" and ?g = "expectBlock own1" and ?l = "expectBlock (UpdateExpectBlock own1)"
  have wf1: "wf_board own1" by (rule wf_board_Update_aux [OF assms(4,1)])
  obtain c where c: "RemoveWall c = Inr (board own1, 0)" "list_all (\<lambda>r. \<not> full_row r) (view (board own1))"
    "fpos ?g = vec_add (fpos f) (vec 0 (land_distance c f))" "map bpos (blockInfo ?g) = map bpos (blockInfo f)"
    using Update_ghost [OF assms(3,1,4,6)] by blast
  note same = RemoveWall_no_full [OF wf_boardD(1) [OF wf1] c(2)]
  have q1: "inputQueue own1 = []" using Update_applied [OF assms(3,4)] by blast
  from mirror_frame [OF assms(2-4)] assms(5,6) have m1: "mirrors True own1 enemy1" by simp
  have s1: "spawn own1 = own1" using assms(6) by (simp add: spawn_def)
  with m1 have core1: "core True own1 = core True (spawn enemy1)" and z1: "lastFallingTime enemy1 = 0"
    by (simp_all add: mirrors_def)
  note e1 = core_eqD [OF core1]
  have play1: "isPlaying own1" "isPlaying enemy1"
    using isPlaying_Update [OF assms(4)] assms(3) e1(6) by simp_all
  have "calm_step [] own1 = Inr ?t" using same by (simp add: calm_step_def s1 finish_def Let_def)
  with calm_frame [OF play1(1) assms(9)] assms(10) q1 have core2: "core True own2 = core True ?t" by simp
  note e2 = core_eqD [OF core2]
  have own2: "expectBlock own2 = ?l" "board own2 = board own1" using e2 by simp_all
  have play2: "isPlaying own2" using isPlaying_Update [OF assms(9)] play1 by simp
  have q2: "inputQueue own2 = []" using Update_applied [OF play1(1) assms(9)] by blast
  let ?d = "QueueInput DROP own2"
  have d: "isPlaying ?d" "inputQueue ?d = [DROP]" using play2 q2 by (simp_all add: QueueInput_def)
  have "core True ?d = core True ?t" using core2 by (simp add: QueueInput_def)
  from calm_step_cong [OF this, of "[DROP]"] calm_frame [OF d(1) assms(11)] assms(12) d(2)
  have "map_res (core True) (calm_step [DROP] ?t) = Inr (core True own3)" by simp
  then obtain v where v: "calm_step [DROP] ?t = Inr v" "core True own3 = core True v"
    by (auto simp: map_res_Inr_iff)
  have "wf_board ?t" using wf1 by (rule wf_board_UpdateExpectBlock)
  from calm_lock [OF this _ v(1), of f] assms(6) core_eqD(1) [OF v(2)] obtain b where
    b: "on_board ?l" "walled ?l f 4 (board own1) b" "RemoveWall b = Inr (board own3, 0)" by auto
  let ?e = "enemy1\<lparr>inputQueue := applyQueue own3\<rparr>"
  have "core True (spawn ?e) = core True (spawn enemy1)" by (rule core_spawn) simp
  with core1 have se: "core True (spawn ?e) = core True own1" by simp
  then have "fallingBlock (spawn ?e) \<noteq> None" using core_eqD(3) [OF se] assms(6) by simp
  note ee = calm_step_spawn [OF refl spawn_spawn [OF this], of "[DROP]"]
  have "map_res (core True) (calm_step [DROP] ?e) = Inr (core True enemy3)"
    using calm_frame [OF _ assms(13)] play1(2) z1 assms(12) by simp
  with calm_step_cong [OF se, of "[DROP]"] ee
  have "map_res (core True) (calm_step [DROP] own1) = Inr (core True enemy3)" by simp
  then obtain v' where v': "calm_step [DROP] own1 = Inr v'" "core True enemy3 = core True v'"
    by (auto simp: map_res_Inr_iff)
  from calm_lock [OF wf1 assms(6) v'(1)] core_eqD(1) [OF v'(2)] obtain b' where
    b': "walled ?g f 4 (board own1) b'" "RemoveWall b' = Inr (board enemy3, 0)" by auto
  let ?n = "land_distance (board own1) f"
  have wf: "length (blockInfo f) = 4"
    using wf_boardD(4) [OF wf1 assms(6)] by (simp add: wf_falling_def wf_offsets_def)
  have l: "fpos ?l = vec_add (fpos f) (vec 0 ?n)" "map bpos (blockInfo ?l) = map bpos (blockInfo f)"
    "length (blockInfo ?l) = 4"
    using wf by (simp_all add: UpdateExpectBlock_eq [OF assms(6)] comp_def)
  have "0 \<le> ?n" using land_distance_spec(1,2) [of "board own1" f] assms(7)
    by (cases "?n = - 1") (auto simp: fits_def)
  from land_distance_spec(3) [OF this order_refl] have free: "fits (board own1) (moved f (vec 0 ?n))"
    by (simp add: CanMove_fits)
  have "cell_x ?l j = cell_x (moved f (vec 0 ?n)) j" "cell_y ?l j = cell_y (moved f (vec 0 ?n)) j" if "j < 4" for j
    using arg_cong [OF l(2), of "\<lambda>xs. xs ! j"] that l(1,3) wf by (simp_all add: cell_x_def cell_y_def moved_def)
  with free have free: "fits (board own1) ?l" by (simp add: fits_def CanMoveFallingBlock_iff)
  have gl: "fpos ?g = vec_add (fpos ?l) (vec 0 (land_distance c f - ?n))"
    by (simp add: c(3) l(1) vec_add_def vec_def)
  have "land_distance c f - ?n \<noteq> 0" using assms(8) c(3) l(1) by auto
  from locked_apart [OF b(2) b'(1) b(1) free _ l(3) gl this] c(4) l(2) have apart:
    "\<exists>y<20. \<exists>x<10. blockType (b ! y ! x) = WALL \<and> blockType (b' ! y ! x) \<noteq> WALL" by simp
  have "board own3 \<noteq> board enemy3"
    if "list_all (\<lambda>r. \<not> full_row r) (view b)" "list_all (\<lambda>r. \<not> full_row r) (view b')"
  proof -
    have "wf_cells b" "wf_cells b'" using b(2) b'(1) by (simp_all add: walled_def)
    from RemoveWall_no_full [OF this(1) that(1)] RemoveWall_no_full [OF this(2) that(2)] b(3) b'(2)
    have "board own3 = b" "board enemy3 = b'" by simp_all
    with apart show ?thesis by auto
  qed
  moreover have "expectBlock enemy1 = ?g" "board enemy1 = board own1" using e1 by simp_all
  ultimately show ?thesis using c(1,3) own2 b b' apart by auto
qed

theorem line_clear_desynchronises_witness:
  "\<exists>own1 enemy1 own2 own3 enemy3. Update 0 (QueueInput DROP clearing) = Inr own1 \<and>
     Update 0 (clearing\<lparr>inputQueue := applyQueue own1\<rparr>) = Inr enemy1 \<and> board enemy1 = board own1 \<and>
     Update 0 own1 = Inr own2 \<and> applyQueue own2 = [] \<and>
     Update 0 (QueueInput DROP own2) = Inr own3 \<and>
     Update 0 (enemy1\<lparr>inputQueue := applyQueue own3\<rparr>) = Inr enemy3 \<and> board own3 \<noteq> board enemy3 \<and>
     (\<exists>b b'. RemoveWall b = Inr (board own3, 0) \<and> RemoveWall b' = Inr (board enemy3, 0) \<and>
        (\<exists>y<20. \<exists>x<10. blockType (b ! y ! x) = WALL \<and> blockType (b' ! y ! x) \<noteq> WALL))"
proof -
  have q: "QueueInput DROP t = t\<lparr>inputQueue := [DROP]\<rparr>" if "inputQueue t = []" for t
    using that by (simp add: QueueInput_def)
  note qc = q [OF clearing_facts(3)]
  have "core True (spawn (clearing\<lparr>inputQueue := [DROP]\<rparr>)) = core True (spawn clearing)"
    by (rule core_spawn) simp
  then have m: "mirrors True (QueueInput DROP clearing) clearing"
    by (simp add: mirrors_def qc clearing_facts)
  obtain own1 where own1: "Update 0 (QueueInput DROP clearing) = Inr own1" "applyQueue own1 = [DROP]"
    "lastFallingTime own1 = 0" "inputQueue own1 = []" "core True own1 = core True cleared"
    using zero_frame_to [of "QueueInput DROP clearing" clearing "[DROP]", OF _ _ _ _ clearing_run(1)]
    by (auto simp: QueueInput_def clearing_facts)
  note c = core_eqD [OF own1(5)]
  obtain own2 where own2: "Update 0 own1 = Inr own2" "applyQueue own2 = []"
    "lastFallingTime own2 = 0" "inputQueue own2 = []" "core True own2 = core True refreshed"
    using zero_frame_to [of own1 cleared "[]", OF own1(5) clearing_facts(4) own1(3,4) clearing_run(2)] by auto
  obtain own3 where own3: "Update 0 (QueueInput DROP own2) = Inr own3" "applyQueue own3 = [DROP]"
    "core True own3 = core True own_end"
    using zero_frame_to [of "QueueInput DROP own2" refreshed "[DROP]", OF _ clearing_facts(6) _ _ clearing_run(3)] own2
    by (auto simp: QueueInput_def)
  obtain enemy3 where enemy3: "Update 0 (QueueInput DROP own1) = Inr enemy3" "core True enemy3 = core True enemy_end"
    using zero_frame_to [of "QueueInput DROP own1" cleared "[DROP]", OF _ clearing_facts(4) _ _ clearing_run(4)] own1
    by (auto simp: QueueInput_def)
  have e1: "Update 0 (clearing\<lparr>inputQueue := applyQueue own1\<rparr>) = Inr own1"
    using own1(1,2) by (simp add: qc)
  have e3: "Update 0 (own1\<lparr>inputQueue := applyQueue own3\<rparr>) = Inr enemy3"
    using enemy3 own3(2) by (simp add: q [OF own1(4)])
  have p: "isPlaying (QueueInput DROP clearing)" by (simp add: qc clearing_facts)
  have w: "wf_board (QueueInput DROP clearing)" using wf_clearing by (simp add: qc wf_board_def)
  obtain f where f: "fallingBlock cleared = Some f" "fits (board cleared) f"
    using cleared_facts(1,2) by (cases "fallingBlock cleared") simp_all
  have u: "expectBlock (UpdateExpectBlock own1) = expectBlock (UpdateExpectBlock cleared)"
    using c by (simp add: UpdateExpectBlock_def Let_def f(1))
  have "board own3 \<noteq> board enemy3"
    using core_eqD(1) [OF own3(3)] core_eqD(1) [OF enemy3(2)] clearing_ends by auto
  moreover have f1: "fallingBlock own1 = Some f" "fits (board own1) f"
    "fpos (expectBlock own1) \<noteq> fpos (expectBlock (UpdateExpectBlock own1))"
    using c f u cleared_facts(3) by simp_all
  note line_clear_desynchronises [OF w m p own1(1) e1 f1 own2(1,2) own3(1,2) e3]
  then obtain b b' where "RemoveWall b = Inr (board own3, 0)" "RemoveWall b' = Inr (board enemy3, 0)"
    "\<exists>y<20. \<exists>x<10. blockType (b ! y ! x) = WALL \<and> blockType (b' ! y ! x) \<noteq> WALL" by auto
  ultimately show ?thesis using own1(1) e1 own2(1,2) own3(1) e3 by blast
qed

end
