(* ===== verification/GameMirror.thy ===== *)
theory GameMirror
  imports MirrorFaults
begin

text \<open>
  A whole game on two clients: the frames of a player, the packets of inputs that leave the client,
  and the other client's handler for what the server relays.

  \<open>pair k own enemy\<close> is the invariant of the run: the two boards show the same, and their ghosts are
  up to date, that of the enemy board once an input has reached it (\<open>k\<close>).
\<close>

section \<open>The boards\<close>

definition pair :: "bool \<Rightarrow> TetrisBoard \<Rightarrow> TetrisBoard \<Rightarrow> bool" where
  "pair k own enemy \<longleftrightarrow>
     mirrors False own enemy \<and> (k \<longrightarrow> settled enemy) \<and> (fallingBlock own \<noteq> None \<longrightarrow> settled own)"

lemma settled_input: "settled (tb\<lparr>inputQueue := q\<rparr>) = settled tb"
  by (cases tb) (simp add: settled_def UpdateExpectBlock_def Let_def split: option.split)

lemma mirrors_forget: "mirrors k own enemy \<Longrightarrow> mirrors False own enemy"
  by (auto simp: mirrors_def intro: core_forget)

lemma pair_mirrors:
  assumes "pair k own enemy"
  shows "mirrors (k \<and> fallingBlock own \<noteq> None) own enemy"
proof (cases "k \<and> fallingBlock own \<noteq> None")
  case True
  with assms have s: "settled own" "settled enemy" and m: "mirrors False own enemy"
    by (simp_all add: pair_def)
  then have "spawn own = own" "spawn enemy = enemy" by (auto simp: settled_def spawn_def)
  with m settled_core [OF s, of False] True show ?thesis by (simp add: mirrors_def)
qed (use assms in \<open>auto simp: pair_def\<close>)

lemma no_line_board:
  "no_line e tb \<Longrightarrow>
     bind_res (InputLoop e (spawn (tb\<lparr>applyQueue := []\<rparr>))) (UpdateFallingBlock e) = Inr b \<Longrightarrow>
     RemoveWall (board b) = Inr (board b, 0)"
  by (simp add: no_line_def)

lemma frame_settles:
  assumes "isPlaying own" and "Update e own = Inr own'" and "no_line e own"
  shows "fallingBlock own' \<noteq> None \<longrightarrow> settled own'"
proof -
  from assms(1,2) obtain b where
    b: "bind_res (InputLoop e (spawn (own\<lparr>applyQueue := []\<rparr>))) (UpdateFallingBlock e) = Inr b"
    and own': "finish b = Inr own'"
    by (auto simp: Update_finish bind_res_Inr_iff)
  have "fallingBlock own' = fallingBlock b" using finish_core [OF refl own', of True] by blast
  with settled_finish [OF own' no_line_board [OF assms(3) b]] show ?thesis by simp
qed

lemma pair_idle:
  assumes "pair k own enemy" and "isPlaying own" and "Update e own = Inr own'"
    and "applyQueue own' = []" and "no_line e own"
  shows "pair k own' enemy"
proof -
  from idle_frame [OF assms(2-4)] obtain b where
    b: "bind_res (InputLoop e (spawn (own\<lparr>applyQueue := []\<rparr>))) (UpdateFallingBlock e) = Inr b"
    "core True b = core True (spawn own)" by blast
  have "RemoveWall (board own) = Inr (board own, 0)"
    using no_line_board [OF assms(5) b(1)] core_eqD(1) [OF b(2)] by simp
  from mirror_idle [OF _ assms(2-4) this] assms(1) frame_settles [OF assms(2,3,5)]
  show ?thesis by (simp add: pair_def) blast
qed

lemma pair_frame:
  assumes "pair k own enemy" and "isPlaying own" and "Update e own = Inr own'"
    and "DROP \<in> set (applyQueue own') \<longrightarrow> k \<and> fallingBlock own \<noteq> None"
    and "no_line e own" and "nextFallingBlockQueue own' \<noteq> []"
  shows "\<exists>enemy'. Update 0 (enemy\<lparr>inputQueue := applyQueue own'\<rparr>) = Inr enemy' \<and> pair True own' enemy'"
  using mirror_frame [OF pair_mirrors [OF assms(1)] assms(2,3)] assms(4-6)
    frame_settles [OF assms(2,3,5)]
  by (auto simp: pair_def dest: mirrors_forget)

section \<open>The run\<close>

definition own_board :: "Client \<Rightarrow> TetrisBoard option" where
  "own_board s = Option.bind (GetInGameScene s) tetrisBoard"

text \<open>The frames of a player, each with its keys and its time.\<close>

fun play_run :: "(Keys \<times> f32) list \<Rightarrow> Client \<Rightarrow> Client res" where
  "play_run [] s = Inr s"
| "play_run ((keys, e) # fs) s =
     bind_res (of_option UseAfterFree (GetInGameScene s)) (\<lambda>g.
     bind_res (of_option NullDeref (tetrisBoard g)) (\<lambda>mine.
     bind_res (play_frame keys e g mine s) (play_run fs)))"

text \<open>The packets of inputs among those that wait to be sent, and their way to the other client.\<close>

definition input_packets :: "ClientPacket list \<Rightarrow> ClientPacket list" where
  "input_packets ps = filter (\<lambda>p. cp_PacketId p = packet_id PID_REQ_GAME_INPUT) ps"

definition deliver :: "ClientPacket list \<Rightarrow> Client \<Rightarrow> Client res" where
  "deliver ps t = fold_res (\<lambda>p. on_ReqGameInput (relayed (cp_data p))) ps t"

text \<open>
  What a run must keep to: no line is completed, there is always a next block, and a block is locked
  only when it has been shown for a frame and an input has been sent before (\<open>k\<close>).
\<close>

definition fair_frame :: "bool \<Rightarrow> f32 \<Rightarrow> TetrisBoard \<Rightarrow> TetrisBoard \<Rightarrow> bool" where
  "fair_frame k e own own' \<longleftrightarrow>
     no_line e own \<and> nextFallingBlockQueue own' \<noteq> [] \<and>
     (DROP \<in> set (applyQueue own') \<longrightarrow> k \<and> fallingBlock own \<noteq> None)"

fun fair_run :: "bool \<Rightarrow> (Keys \<times> f32) list \<Rightarrow> TetrisBoard \<Rightarrow> bool" where
  "fair_run k [] own = True"
| "fair_run k ((keys, e) # fs) own =
     (case Update e (own\<lparr>inputQueue := GetInput keys\<rparr>) of
        Inl _ \<Rightarrow> True
      | Inr own' \<Rightarrow> fair_frame k e (own\<lparr>inputQueue := GetInput keys\<rparr>) own' \<and>
                    fair_run (k \<or> applyQueue own' \<noteq> []) fs own')"

text \<open>Whether an input has been sent by the end of the run.\<close>

fun input_sent :: "(Keys \<times> f32) list \<Rightarrow> TetrisBoard \<Rightarrow> bool" where
  "input_sent [] own = False"
| "input_sent ((keys, e) # fs) own =
     (case Update e (own\<lparr>inputQueue := GetInput keys\<rparr>) of
        Inl _ \<Rightarrow> False | Inr own' \<Rightarrow> applyQueue own' \<noteq> [] \<or> input_sent fs own')"

lemma play_frame_packets:
  assumes "play_frame keys e g mine s = Inr s'" and "isPlaying mine" and "inputQueue mine = []"
    and "cl_isConnect s"
  obtains own' new where "Update e (mine\<lparr>inputQueue := GetInput keys\<rparr>) = Inr own'"
    and "GetInGameScene s' = Some (g\<lparr>tetrisBoard := Some own'\<rparr>)" and "cl_isConnect s'"
    and "sendable (applyQueue own')" and "inputQueue own' = []"
    and "sendPacketQueue s' = sendPacketQueue s @ new"
    and "applyQueue own' = [] \<Longrightarrow> input_packets new = []"
    and "applyQueue own' \<noteq> [] \<Longrightarrow> \<exists>session seq. input_packets new =
           [request_packet PID_REQ_GAME_INPUT sizeof_REQ_GAME_INPUT enc_REQ_GAME_INPUT
              (input_request (applyQueue own')) session seq]"
proof -
  let ?m = "mine\<lparr>inputQueue := GetInput keys\<rparr>"
  have m: "(if GetInput keys \<noteq> [] then QueueInputs (GetInput keys) mine else mine) = ?m"
    using assms(3) by (cases mine) (simp add: QueueInputs_eq)
  have pid: "cp_PacketId (request_packet pid n enc req session seq) = packet_id pid" for pid n enc req session seq
    by (simp add: request_packet_def)
  from assms(1) [unfolded play_frame_def Let_def m] obtain s1 own' where
    s1: "(if GetRemainFallingBlock ?m < PACKET_FALLING_BLOCK_SIZE
          then cl_Send PID_REQ_FALLING_BLOCK sizeof_BASE enc_BASE default_BASE_PACKET s else Inr s) = Inr s1"
    and upd: "Update e ?m = Inr own'"
    and snd: "(if GetAppliedInputs own' \<noteq> []
               then cl_Send PID_REQ_GAME_INPUT sizeof_REQ_GAME_INPUT enc_REQ_GAME_INPUT
                      (input_request (GetAppliedInputs own')) (set_ingame (g\<lparr>tetrisBoard := Some own'\<rparr>) s1)
               else Inr (set_ingame (g\<lparr>tetrisBoard := Some own'\<rparr>) s1)) = Inr s'"
    by (auto simp: bind_res_Inr_iff)
  have play: "isPlaying ?m" "inputQueue ?m = GetInput keys" using assms(2) by simp_all
  have "packet_id PID_REQ_FALLING_BLOCK \<noteq> packet_id PID_REQ_GAME_INPUT"
    by (simp add: packet_id_def)
  then obtain asked where asked: "sendPacketQueue s1 = sendPacketQueue s @ asked" "input_packets asked = []"
    and c: "cl_isConnect s1"
    using s1 assms(4)
    by (auto simp: cl_Send_def bind_res_Inr_iff input_packets_def pid split: if_splits)
  show ?thesis
  proof (rule that [OF upd _ _ frame_inputs_sendable [OF play upd]])
    show "GetInGameScene s' = Some (g\<lparr>tetrisBoard := Some own'\<rparr>)" "cl_isConnect s'"
      using snd c by (auto simp: GetInGameScene_def set_ingame_def cl_Send_def bind_res_Inr_iff split: if_splits)
    show "sendPacketQueue s' = sendPacketQueue s @ drop (length (sendPacketQueue s)) (sendPacketQueue s')"
      using snd c asked(1) by (auto simp: set_ingame_def cl_Send_def bind_res_Inr_iff split: if_splits)
    let ?new = "drop (length (sendPacketQueue s)) (sendPacketQueue s')"
    show "input_packets ?new = []" if "applyQueue own' = []"
      using that snd asked by (auto simp: GetAppliedInputs_def set_ingame_def)
    show "\<exists>session seq. input_packets ?new =
           [request_packet PID_REQ_GAME_INPUT sizeof_REQ_GAME_INPUT enc_REQ_GAME_INPUT
              (input_request (applyQueue own')) session seq]" if "applyQueue own' \<noteq> []"
      using that snd asked c
      by (auto simp: GetAppliedInputs_def set_ingame_def cl_Send_def bind_res_Inr_iff input_packets_def pid) blast
  qed
qed

lemma deliver_inputs:
  assumes "sendable inputs" and "GetInGameScene t = Some h" and "enemyBoard h = Some enemy"
    and "inputQueue enemy = []" and "Update 0 (enemy\<lparr>inputQueue := inputs\<rparr>) = Inr enemy'"
  shows "deliver [request_packet PID_REQ_GAME_INPUT n enc_REQ_GAME_INPUT (input_request inputs) session seq] t =
    Inr (set_ingame (h\<lparr>enemyBoard := Some enemy'\<rparr>) t)"
  using assms(2-5) relayed_inputs [OF assms(1), of PID_REQ_GAME_INPUT n session seq]
  by (simp add: deliver_def on_ReqGameInput_def fold_QueueInput)

lemma deliver_append: "deliver (ps @ qs) t = bind_res (deliver ps t) (deliver qs)"
  by (simp add: deliver_def [abs_def] fold_res_append)

lemma deliver_Nil [simp]: "deliver [] t = Inr t"
  by (simp add: deliver_def)

section \<open>The boards of the run\<close>

text \<open>One frame and the delivery of what it sends.\<close>

lemma frame_mirrors:
  assumes "play_frame keys e g mine s = Inr s1" and "isPlaying mine" and "inputQueue mine = []"
    and "cl_isConnect s" and "GetInGameScene t = Some h" and "enemyBoard h = Some enemy"
    and "pair k mine enemy" and "Update e (mine\<lparr>inputQueue := GetInput keys\<rparr>) = Inr own'"
    and fair: "fair_frame k e (mine\<lparr>inputQueue := GetInput keys\<rparr>) own'"
  obtains new t1 h1 enemy1 where "GetInGameScene s1 = Some (g\<lparr>tetrisBoard := Some own'\<rparr>)"
    and "cl_isConnect s1" and "inputQueue own' = []" and "isPlaying own'"
    and "sendPacketQueue s1 = sendPacketQueue s @ new" and "deliver (input_packets new) t = Inr t1"
    and "GetInGameScene t1 = Some h1" and "enemyBoard h1 = Some enemy1"
    and "pair (k \<or> applyQueue own' \<noteq> []) own' enemy1"
proof -
  let ?m = "mine\<lparr>inputQueue := GetInput keys\<rparr>"
  obtain own2 new where upd: "Update e ?m = Inr own2"
    and r: "GetInGameScene s1 = Some (g\<lparr>tetrisBoard := Some own2\<rparr>)" "cl_isConnect s1"
      "sendable (applyQueue own2)" "inputQueue own2 = []" "sendPacketQueue s1 = sendPacketQueue s @ new"
      "applyQueue own2 = [] \<Longrightarrow> input_packets new = []"
      "applyQueue own2 \<noteq> [] \<Longrightarrow> \<exists>session seq. input_packets new =
         [request_packet PID_REQ_GAME_INPUT sizeof_REQ_GAME_INPUT enc_REQ_GAME_INPUT
            (input_request (applyQueue own2)) session seq]"
    by (rule play_frame_packets [OF assms(1-4)]) blast
  have "own2 = own'" using upd assms(8) by simp
  note s1 = r(1,2,4,5) [unfolded this] and ok = r(3) [unfolded this] and new = r(6,7) [unfolded this]
  have play: "isPlaying ?m" using assms(2) by simp
  have pair: "pair k ?m enemy" using assms(7) by (auto simp: pair_def settled_input)
  have "\<exists>t1 h1 enemy1. deliver (input_packets new) t = Inr t1 \<and> GetInGameScene t1 = Some h1 \<and>
      enemyBoard h1 = Some enemy1 \<and> pair (k \<or> applyQueue own' \<noteq> []) own' enemy1"
  proof (cases "applyQueue own' = []")
    case True
    with new(1) pair_idle [OF pair play assms(8) True] fair assms(5,6) show ?thesis
      by (auto simp: fair_frame_def)
  next
    case False
    from pair_frame [OF pair play assms(8)] fair obtain enemy1 where
      e1: "Update 0 (enemy\<lparr>inputQueue := applyQueue own'\<rparr>) = Inr enemy1" "pair True own' enemy1"
      by (auto simp: fair_frame_def)
    have "inputQueue enemy = []" using pair by (simp add: pair_def mirrors_def)
    from deliver_inputs [OF ok assms(5,6) this e1(1)] new(2) [OF False] e1(2) False
    show ?thesis by (auto simp: GetInGameScene_def set_ingame_def)
  qed
  with that [OF s1(1-3) isPlaying_Update [OF assms(8) play] s1(4)] show thesis by blast
qed

lemma run_mirrors:
  assumes "GetInGameScene s = Some g" and "tetrisBoard g = Some mine" and "isPlaying mine"
    and "inputQueue mine = []" and "cl_isConnect s" and "play_run fs s = Inr s'"
    and "GetInGameScene t = Some h" and "enemyBoard h = Some enemy"
    and "pair k mine enemy" and "fair_run k fs mine"
  shows "\<exists>new mine' t' h' enemy'. sendPacketQueue s' = sendPacketQueue s @ new \<and>
    own_board s' = Some mine' \<and> deliver (input_packets new) t = Inr t' \<and>
    GetInGameScene t' = Some h' \<and> enemyBoard h' = Some enemy' \<and>
    pair (k \<or> input_sent fs mine) mine' enemy'"
  using assms
proof (induction fs arbitrary: s g mine t h enemy k)
  case Nil
  then show ?case by (auto simp: own_board_def input_packets_def)
next
  case (Cons f fs)
  obtain keys e where f: "f = (keys, e)" by (cases f)
  from Cons.prems(1,2,6) f obtain s1 where s1: "play_frame keys e g mine s = Inr s1"
    "play_run fs s1 = Inr s'"
    by (auto simp: bind_res_Inr_iff)
  from play_frame_packets [OF s1(1) Cons.prems(3-5)] obtain own' where
    upd: "Update e (mine\<lparr>inputQueue := GetInput keys\<rparr>) = Inr own'" by blast
  from Cons.prems(10) f upd have fair: "fair_frame k e (mine\<lparr>inputQueue := GetInput keys\<rparr>) own'"
    and rest: "fair_run (k \<or> applyQueue own' \<noteq> []) fs own'"
    by simp_all
  from frame_mirrors [OF s1(1) Cons.prems(3-5,7-9) upd fair] obtain new t1 h1 enemy1 where
    g1: "GetInGameScene s1 = Some (g\<lparr>tetrisBoard := Some own'\<rparr>)" and c1: "cl_isConnect s1"
    and own: "inputQueue own' = []" "isPlaying own'" and new: "sendPacketQueue s1 = sendPacketQueue s @ new"
    and t1: "deliver (input_packets new) t = Inr t1" "GetInGameScene t1 = Some h1"
      "enemyBoard h1 = Some enemy1" "pair (k \<or> applyQueue own' \<noteq> []) own' enemy1"
    by blast
  from Cons.IH [OF g1 _ own(2,1) c1 s1(2) t1(2-4) rest] obtain new' mine' t' h' enemy' where
    ih: "sendPacketQueue s' = sendPacketQueue s1 @ new'" "own_board s' = Some mine'"
      "deliver (input_packets new') t1 = Inr t'" "GetInGameScene t' = Some h'" "enemyBoard h' = Some enemy'"
      "pair ((k \<or> applyQueue own' \<noteq> []) \<or> input_sent fs own') mine' enemy'"
    by auto
  have "deliver (input_packets (new @ new')) t = Inr t'"
    using t1(1) ih(3) by (simp add: input_packets_def deliver_append)
  with ih new show ?case
    unfolding f by (simp add: upd disj_assoc)
qed

text \<open>Through a whole run of frames the other client's enemy board follows the player's board.  The
  packets of inputs that the run leaves in the send queue, relayed in order, are handled without
  an error, and then the two boards show the same; with the ghost, once an input has been sent and
  while a block is falling.  The run must be fair: no line is completed, there is a next block, and
  a block is locked only in a frame that starts with it, after a first input.\<close>

theorem game_replays_on_the_enemy_board:
  assumes "GetInGameScene s = Some g" and "tetrisBoard g = Some mine" and "isPlaying mine"
    and "inputQueue mine = []" and "cl_isConnect s" and "play_run fs s = Inr s'"
    and "GetInGameScene t = Some h" and "enemyBoard h = Some enemy"
    and "pair k mine enemy" and "fair_run k fs mine"
  shows "\<exists>new mine' t' h' enemy'. sendPacketQueue s' = sendPacketQueue s @ new \<and>
    own_board s' = Some mine' \<and> deliver (input_packets new) t = Inr t' \<and>
    GetInGameScene t' = Some h' \<and> enemyBoard h' = Some enemy' \<and>
    mirrors ((k \<or> input_sent fs mine) \<and> fallingBlock mine' \<noteq> None) mine' enemy'"
  using run_mirrors [OF assms] pair_mirrors by blast

section \<open>A run\<close>

text \<open>The start of a game: an idle frame shows the first block, then the left key and a hard drop.\<close>

definition idle_keys :: Keys where
  "idle_keys = \<lparr>key_Down = False, key_Left = False, key_Right = False, key_Z = False, key_X = False,
     key_Up = False, key_C = False, key_Space = False\<rparr>"

definition demo_keys :: "Keys list" where
  "demo_keys = [idle_keys, idle_keys\<lparr>key_Left := True\<rparr>, idle_keys\<lparr>key_Space := True\<rparr>]"

definition fresh_game :: TetrisBoard where
  "fresh_game = QueueNextBlock Shape_L (QueueNextBlock Shape_O (QueueNextBlock Shape_Z
     (Start (Init 1 new_board))))"

definition fresh1 :: TetrisBoard where "fresh1 = projr (calm_step [] fresh_game)"
definition fresh2 :: TetrisBoard where "fresh2 = projr (calm_step [LEFT] fresh1)"
definition fresh3 :: TetrisBoard where "fresh3 = projr (calm_step [DROP] fresh2)"

text \<open>A calm step completes no line.\<close>

definition calm_no_line :: "InputType list \<Rightarrow> TetrisBoard \<Rightarrow> bool" where
  "calm_no_line is tb =
     (case fold_res (ApplyInput 0) is (spawn tb) of
        Inl _ \<Rightarrow> True | Inr f \<Rightarrow> RemoveWall (board f) = Inr (board f, 0))"

lemma fresh_steps:
  "calm_step [] fresh_game = Inr fresh1" "calm_step [LEFT] fresh1 = Inr fresh2"
  "calm_step [DROP] fresh2 = Inr fresh3"
proof -
  have "\<not> isl (calm_step [] fresh_game)" "\<not> isl (calm_step [LEFT] fresh1)" "\<not> isl (calm_step [DROP] fresh2)"
    by code_simp+
  then show "calm_step [] fresh_game = Inr fresh1" "calm_step [LEFT] fresh1 = Inr fresh2"
    "calm_step [DROP] fresh2 = Inr fresh3"
    by (simp_all add: fresh1_def fresh2_def fresh3_def)
qed

lemma fresh_facts:
  "isPlaying fresh_game" "lastFallingTime fresh_game = 0" "inputQueue fresh_game = []"
  "Option.is_none (fallingBlock fresh_game)" "isPlaying fresh1" "isPlaying fresh2"
  "\<not> Option.is_none (fallingBlock fresh2)"
  "nextFallingBlockQueue fresh1 \<noteq> []" "nextFallingBlockQueue fresh2 \<noteq> []" "nextFallingBlockQueue fresh3 \<noteq> []"
  "calm_no_line [] fresh_game" "calm_no_line [LEFT] fresh1" "calm_no_line [DROP] fresh2"
  by code_simp+

lemma no_line_calm:
  assumes "core True tb = core True a" and "lastFallingTime tb = 0" and "calm_no_line (inputQueue tb) a"
  shows "no_line 0 tb"
proof (cases "bind_res (InputLoop 0 (spawn (tb\<lparr>applyQueue := []\<rparr>))) (UpdateFallingBlock 0)")
  case (Inr b)
  let ?a = "spawn (tb\<lparr>applyQueue := []\<rparr>)"
  from Inr obtain x where x: "InputLoop 0 ?a = Inr x" "UpdateFallingBlock 0 x = Inr b"
    by (auto simp: bind_res_Inr_iff)
  have t: "lastFallingTime x = 0"
    by (rule timer_InputLoop_0 [OF x(1) spawn_timer]) (use assms(2) in simp)
  have "core True ?a = core True (spawn a)" using assms(1) by (intro core_spawn) simp
  from InputLoop_calm [OF this, of 0] x(1) obtain f where
    f: "fold_res (ApplyInput 0) (inputQueue tb) (spawn a) = Inr f" "core True f = core True x"
    by (cases "fold_res (ApplyInput 0) (inputQueue tb) (spawn a)") auto
  have "board b = board f" using x(2) core_eqD(1) [OF f(2)] by (simp add: UpdateFallingBlock_0 [OF t]) auto
  with f(1) assms(3) Inr show ?thesis by (simp add: no_line_def calm_no_line_def)
qed (simp add: no_line_def)

text \<open>One frame of the run, on a board that the calm steps have reached.\<close>

lemma fresh_frame:
  assumes "core True t = core True a" and "isPlaying a" and "lastFallingTime t = 0"
    and "calm_step (GetInput keys) a = Inr b" and "calm_no_line (GetInput keys) a"
    and "nextFallingBlockQueue b \<noteq> []" and "DROP \<in> set (GetInput keys) \<longrightarrow> k \<and> fallingBlock a \<noteq> None"
  obtains u where "Update 0 (t\<lparr>inputQueue := GetInput keys\<rparr>) = Inr u" and "applyQueue u = GetInput keys"
    and "lastFallingTime u = 0" and "core True u = core True b"
    and "fair_frame k 0 (t\<lparr>inputQueue := GetInput keys\<rparr>) u"
proof -
  let ?t = "t\<lparr>inputQueue := GetInput keys\<rparr>"
  have "filter (\<lambda>i. i \<noteq> Input_NONE) (GetInput keys) = GetInput keys" by (simp add: GetInput_def)
  with zero_frame_to [of ?t a "GetInput keys" b] assms(1-4) obtain u where
    u: "Update 0 ?t = Inr u" "applyQueue u = GetInput keys" "lastFallingTime u = 0" "core True u = core True b"
    by auto
  have "no_line 0 ?t" using assms(1,3,5) by (intro no_line_calm [of _ a]) simp_all
  moreover have "nextFallingBlockQueue u \<noteq> []" using core_eqD(4) [OF u(4)] assms(6) by simp
  moreover have "fallingBlock ?t = fallingBlock a" using core_eqD(3) [OF assms(1)] by simp
  ultimately show thesis using that [OF u] u(2) assms(7) by (simp add: fair_frame_def)
qed

lemma play_frame_runs:
  assumes "Update e (mine\<lparr>inputQueue := GetInput keys\<rparr>) = Inr own'" and "inputQueue mine = []"
    and "0 \<le> cl_sequenceIndex s" and "cl_sequenceIndex s < 1000"
  shows "\<exists>s'. play_frame keys e g mine s = Inr s' \<and> 0 \<le> cl_sequenceIndex s' \<and>
    cl_sequenceIndex s' \<le> cl_sequenceIndex s + 2"
proof -
  have m: "(if GetInput keys \<noteq> [] then QueueInputs (GetInput keys) mine else mine) =
      mine\<lparr>inputQueue := GetInput keys\<rparr>"
    using assms(2) by (cases mine) (simp add: QueueInputs_eq)
  have r: "int32_res n = Inr n" if "0 \<le> n" "n < 2000" for n
    using that by (simp add: int32_res_def)
  show ?thesis
    unfolding play_frame_def Let_def m using assms
    by (auto simp: cl_Send_def r set_ingame_def)
qed

text \<open>A run whose updates succeed is a run of the client.\<close>

fun updates_run :: "(Keys \<times> f32) list \<Rightarrow> TetrisBoard \<Rightarrow> TetrisBoard option" where
  "updates_run [] own = Some own"
| "updates_run ((keys, e) # fs) own =
     (case Update e (own\<lparr>inputQueue := GetInput keys\<rparr>) of
        Inl _ \<Rightarrow> None | Inr own' \<Rightarrow> updates_run fs own')"

lemma play_run_exists:
  assumes "GetInGameScene s = Some g" and "tetrisBoard g = Some mine" and "isPlaying mine"
    and "inputQueue mine = []" and "cl_isConnect s" and "updates_run fs mine = Some own"
    and "0 \<le> cl_sequenceIndex s" and "cl_sequenceIndex s + 2 * int (length fs) < 1000"
  shows "\<exists>s'. play_run fs s = Inr s'"
  using assms
proof (induction fs arbitrary: s g mine)
  case (Cons f fs)
  obtain keys e where f: "f = (keys, e)" by (cases f)
  from Cons.prems(6) f obtain own' where upd: "Update e (mine\<lparr>inputQueue := GetInput keys\<rparr>) = Inr own'"
    and rest: "updates_run fs own' = Some own"
    by (auto split: sum.splits)
  have "cl_sequenceIndex s < 1000" using Cons.prems(8) by simp
  from play_frame_runs [OF upd Cons.prems(4,7) this, of g] obtain s1 where
    s1: "play_frame keys e g mine s = Inr s1" "0 \<le> cl_sequenceIndex s1"
    "cl_sequenceIndex s1 \<le> cl_sequenceIndex s + 2" by blast
  have play: "isPlaying (mine\<lparr>inputQueue := GetInput keys\<rparr>)" using Cons.prems(3) by simp
  from play_frame_packets [OF s1(1) Cons.prems(3-5)] upd
  have g1: "GetInGameScene s1 = Some (g\<lparr>tetrisBoard := Some own'\<rparr>)" "cl_isConnect s1" "inputQueue own' = []"
    by auto
  have "\<exists>s'. play_run fs s1 = Inr s'"
    by (rule Cons.IH [OF g1(1) _ isPlaying_Update [OF upd play] g1(3,2) rest s1(2)])
       (use s1(3) Cons.prems(8) in simp_all)
  with Cons.prems(1,2) s1(1) f show ?case by simp
qed simp

definition fresh_scene :: InGameScene where
  "fresh_scene = (new_InGameScene 1)\<lparr>tetrisBoard := Some fresh_game, enemyBoard := Some fresh_game\<rparr>"

definition fresh_player :: Client where
  "fresh_player =
     (new_Client (\<lambda>_. 0) (\<lambda>_. []))\<lparr>cl_isConnect := True, curScene := Some (InGame fresh_scene)\<rparr>"

definition demo_frames :: "(Keys \<times> f32) list" where
  "demo_frames = map (\<lambda>k. (k, 0)) demo_keys"

lemma demo_run:
  "fair_run False demo_frames fresh_game" "input_sent demo_frames fresh_game"
  "\<exists>u. updates_run demo_frames fresh_game = Some u"
proof -
  have keys: "GetInput idle_keys = []" "GetInput (idle_keys\<lparr>key_Left := True\<rparr>) = [LEFT]"
    "GetInput (idle_keys\<lparr>key_Space := True\<rparr>) = [DROP]"
    by (simp_all add: GetInput_def idle_keys_def)
  obtain u1 where u1: "Update 0 (fresh_game\<lparr>inputQueue := GetInput idle_keys\<rparr>) = Inr u1"
    "applyQueue u1 = GetInput idle_keys" "lastFallingTime u1 = 0" "core True u1 = core True fresh1"
    "fair_frame False 0 (fresh_game\<lparr>inputQueue := GetInput idle_keys\<rparr>) u1"
    by (rule fresh_frame [of fresh_game fresh_game idle_keys fresh1 False])
       (simp_all add: fresh_facts keys fresh_steps)
  obtain u2 where u2: "Update 0 (u1\<lparr>inputQueue := GetInput (idle_keys\<lparr>key_Left := True\<rparr>)\<rparr>) = Inr u2"
    "applyQueue u2 = GetInput (idle_keys\<lparr>key_Left := True\<rparr>)" "lastFallingTime u2 = 0"
    "core True u2 = core True fresh2"
    "fair_frame False 0 (u1\<lparr>inputQueue := GetInput (idle_keys\<lparr>key_Left := True\<rparr>)\<rparr>) u2"
    by (rule fresh_frame [of u1 fresh1 "idle_keys\<lparr>key_Left := True\<rparr>" fresh2 False])
       (simp_all add: fresh_facts keys fresh_steps u1)
  obtain u3 where u3: "Update 0 (u2\<lparr>inputQueue := GetInput (idle_keys\<lparr>key_Space := True\<rparr>)\<rparr>) = Inr u3"
    "applyQueue u3 = GetInput (idle_keys\<lparr>key_Space := True\<rparr>)" "lastFallingTime u3 = 0"
    "core True u3 = core True fresh3"
    "fair_frame True 0 (u2\<lparr>inputQueue := GetInput (idle_keys\<lparr>key_Space := True\<rparr>)\<rparr>) u3"
    by (rule fresh_frame [of u2 fresh2 "idle_keys\<lparr>key_Space := True\<rparr>" fresh3 True])
       (use fresh_facts(7) in \<open>simp_all add: fresh_facts keys fresh_steps u2 Option.is_none_def\<close>)
  show "fair_run False demo_frames fresh_game" "input_sent demo_frames fresh_game"
    "\<exists>u. updates_run demo_frames fresh_game = Some u"
    using u1 u2 u3 by (simp_all add: demo_frames_def demo_keys_def keys)
qed

lemma demo_start:
  "GetInGameScene fresh_player = Some fresh_scene" "tetrisBoard fresh_scene = Some fresh_game"
  "cl_isConnect fresh_player" "enemyBoard fresh_scene = Some fresh_game"
  "sendPacketQueue fresh_player = []" "cl_sequenceIndex fresh_player = 0"
  "pair False fresh_game fresh_game"
  using fresh_facts
  by (simp_all add: fresh_player_def fresh_scene_def GetInGameScene_def new_Client_def pair_def mirrors_def
      Option.is_none_def)

lemma demo_play: "\<exists>s'. play_run demo_frames fresh_player = Inr s'"
proof -
  from demo_run(3) obtain u where "updates_run demo_frames fresh_game = Some u" by blast
  from play_run_exists [OF demo_start(1,2) fresh_facts(1,3) demo_start(3) this] demo_start(6)
  show ?thesis by (simp add: demo_frames_def demo_keys_def)
qed

theorem game_replays_on_the_enemy_board_witness:
  "\<exists>s' mine' t' h' enemy'. play_run demo_frames fresh_player = Inr s' \<and>
     own_board s' = Some mine' \<and>
     deliver (input_packets (sendPacketQueue s')) fresh_player = Inr t' \<and>
     GetInGameScene t' = Some h' \<and> enemyBoard h' = Some enemy' \<and>
     mirrors (fallingBlock mine' \<noteq> None) mine' enemy'"
proof -
  obtain s' where s': "play_run demo_frames fresh_player = Inr s'" using demo_play ..
  from game_replays_on_the_enemy_board [OF demo_start(1,2) fresh_facts(1,3) demo_start(3) s' demo_start(1,4,7)
      demo_run(1)] demo_start(5) demo_run(2) s'
  show ?thesis by auto
qed

section \<open>A drop before any other input\<close>

text \<open>
  Why a fair run asks for a first input: the player's first frames show the block and its ghost, but
  send nothing.  When the first input is a hard drop, the player's block lands on the ground, and
  the enemy board, which has no ghost yet, puts all four cells into the corner at the top.
\<close>

definition early1 :: TetrisBoard where "early1 = projr (calm_step [DROP] fresh1)"
definition early2 :: TetrisBoard where "early2 = projr (calm_step [DROP] fresh_game)"

lemma early_steps: "calm_step [DROP] fresh1 = Inr early1" "calm_step [DROP] fresh_game = Inr early2"
proof -
  have "\<not> isl (calm_step [DROP] fresh1)" "\<not> isl (calm_step [DROP] fresh_game)" by code_simp+
  then show "calm_step [DROP] fresh1 = Inr early1" "calm_step [DROP] fresh_game = Inr early2"
    by (simp_all add: early1_def early2_def)
qed

lemma early_ends:
  "IsAnyBlock (board early1) 19" "\<not> IsAnyBlock (board early1) 0" "IsAnyBlock (board early2) 0"
  "list_all (\<lambda>y. \<not> IsAnyBlock (board early2) y) [1..<20]"
  by code_simp+

theorem first_drop_lands_in_the_corner:
  "\<exists>own1 own2 enemy. Update 0 fresh_game = Inr own1 \<and> applyQueue own1 = [] \<and>
     Update 0 (QueueInput DROP own1) = Inr own2 \<and> applyQueue own2 = [DROP] \<and>
     Update 0 (QueueInput DROP fresh_game) = Inr enemy \<and>
     IsAnyBlock (board own2) 19 \<and> \<not> IsAnyBlock (board own2) 0 \<and>
     IsAnyBlock (board enemy) 0 \<and> (\<forall>y \<in> {1..<20}. \<not> IsAnyBlock (board enemy) y)"
proof -
  obtain own1 where own1: "Update 0 fresh_game = Inr own1" "applyQueue own1 = []"
    "lastFallingTime own1 = 0" "inputQueue own1 = []" "core True own1 = core True fresh1"
    using zero_frame_to [of fresh_game fresh_game "[]", OF _ _ _ _ fresh_steps(1)] by (auto simp: fresh_facts)
  obtain own2 where own2: "Update 0 (QueueInput DROP own1) = Inr own2" "applyQueue own2 = [DROP]"
    "core True own2 = core True early1"
    using zero_frame_to [of "QueueInput DROP own1" fresh1 "[DROP]", OF _ _ _ _ early_steps(1)] own1
    by (auto simp: fresh_facts QueueInput_def)
  obtain enemy where enemy: "Update 0 (QueueInput DROP fresh_game) = Inr enemy"
    "core True enemy = core True early2"
    using zero_frame_to [of "QueueInput DROP fresh_game" fresh_game "[DROP]", OF _ _ _ _ early_steps(2)]
    by (auto simp: fresh_facts QueueInput_def)
  have "{1..<20} = set [1..<20 :: nat]" by simp
  with own1 own2 enemy early_ends core_eqD(1) [OF own2(3)] core_eqD(1) [OF enemy(2)] show ?thesis
    by (auto simp: list_all_iff)
qed

end
