(* ===== verification/GameTraffic.thy ===== *)
theory GameTraffic
  imports GameRequests GameMirror
begin

text \<open>
  The two ends of a game on the clients: what the frames of the player hand to \<open>SendThread\<close>, and
  how the notifications that arrive at the other client reach its handler.
\<close>

section \<open>Sending\<close>

definition game_packet :: "ClientPacket \<Rightarrow> bool" where
  "game_packet p \<longleftrightarrow>
     (\<exists>session seq. p = request_packet PID_REQ_FALLING_BLOCK sizeof_BASE enc_BASE default_BASE_PACKET session seq) \<or>
     (\<exists>is session seq. sendable is \<and> is \<noteq> [] \<and>
        p = request_packet PID_REQ_GAME_INPUT sizeof_REQ_GAME_INPUT enc_REQ_GAME_INPUT
              (input_request is) session seq)"

lemma game_packet_input:
  assumes "sendable is" and "is \<noteq> []"
  shows "input_bytes (cp_data (request_packet PID_REQ_GAME_INPUT sizeof_REQ_GAME_INPUT enc_REQ_GAME_INPUT
           (input_request is) session seq))"
proof -
  let ?r = "input_request is\<lparr>sessionIndex := session, PacketId := packet_id PID_REQ_GAME_INPUT,
    sequenceIndex := seq, PacketLength := of_nat sizeof_REQ_GAME_INPUT\<rparr>"
  have r: "req_inputs ?r = is @ replicate (PACKET_KEY_INPUT_SIZE - length is) Input_NONE"
    "inputCnt ?r = of_nat (length is)" "resultID ?r = resultID default_BASE_PACKET"
    using assms by (simp_all add: input_request_def Let_def default_REQ_GAME_INPUT_def sendable_def
        default_BASE_PACKET_def BASE_PACKET.defs REQ_GAME_INPUT.defs)
  then have "valid_REQ_GAME_INPUT ?r"
    using assms by (auto simp: valid_REQ_GAME_INPUT_def valid_BASE_def sendable_def list_all_iff
        default_BASE_PACKET_def in_set_replicate)
  moreover have "sint (of_nat (length is) :: 32 word) = int (length is)"
    using assms by (simp add: sendable_def signed_of_nat signed_take_bit_int_eq_self_iff)
  ultimately show ?thesis using assms r(2)
    unfolding input_bytes_def request_packet_def
    by (intro exI [of _ ?r]) (simp add: sendable_def)
qed

lemma game_packetD:
  assumes "game_packet p"
  shows "is_packet PACKET_HEADER_LENGTH (cp_data p)" "game_bytes (cp_data p)"
    "input_bytes (cp_data p) \<longleftrightarrow> cp_PacketId p = packet_id PID_REQ_GAME_INPUT" "length (cp_data p) \<le> 78"
proof -
  have ids: "packet_id PID_REQ_GAME_INPUT \<noteq> packet_id PID_REQ_FALLING_BLOCK" by (simp add: packet_id_def)
  consider (block) session seq where
      "p = request_packet PID_REQ_FALLING_BLOCK sizeof_BASE enc_BASE default_BASE_PACKET session seq"
    | (inputs) "is" session seq where "sendable is" "is \<noteq> []"
      "p = request_packet PID_REQ_GAME_INPUT sizeof_REQ_GAME_INPUT enc_REQ_GAME_INPUT (input_request is) session seq"
    using assms by (auto simp: game_packet_def)
  then have "request_ok p \<and> game_bytes (cp_data p) \<and>
      (input_bytes (cp_data p) \<longleftrightarrow> cp_PacketId p = packet_id PID_REQ_GAME_INPUT) \<and> length (cp_data p) \<le> 78"
  proof cases
    case block
    have "block_bytes (cp_data p)" unfolding block block_bytes_def by (auto simp: request_packet_def)
    moreover have "\<not> input_bytes (cp_data p)" "cp_PacketId p \<noteq> packet_id PID_REQ_GAME_INPUT"
      using PacketId_bytes [of "cp_data p"] ids calculation by (auto simp: block request_packet_def)
    moreover have "request_ok p" "length (cp_data p) \<le> 78"
      using requests_well_formed(1) by (simp_all add: block) (simp add: request_packet_def)
    ultimately show ?thesis by (simp add: game_bytes_def)
  next
    case inputs
    have i: "input_bytes (cp_data p)" using game_packet_input [OF inputs(1,2)] inputs(3) by simp
    then obtain r where "cp_data p = enc_REQ_GAME_INPUT r" "valid_REQ_GAME_INPUT r"
      by (auto simp: input_bytes_def)
    then have "length (cp_data p) \<le> 78"
      using req_game_input.length_enc [of r] by (simp add: sizeof_REQ_GAME_INPUT_def)
    with i inputs show ?thesis by (simp add: game_bytes_def) (simp add: request_packet_def)
  qed
  then show "is_packet PACKET_HEADER_LENGTH (cp_data p)" "game_bytes (cp_data p)"
    "input_bytes (cp_data p) \<longleftrightarrow> cp_PacketId p = packet_id PID_REQ_GAME_INPUT" "length (cp_data p) \<le> 78"
    by (simp_all add: request_ok_def)
qed

definition connection :: "Client \<Rightarrow> bool \<times> bool \<times> bytes list" where
  "connection s = (cl_isRun s, cl_isConnect s, sockSends s)"

lemma game_packet_intros:
  "game_packet (request_packet PID_REQ_FALLING_BLOCK sizeof_BASE enc_BASE default_BASE_PACKET session seq)"
  "sendable is \<Longrightarrow> is \<noteq> [] \<Longrightarrow> game_packet (request_packet PID_REQ_GAME_INPUT sizeof_REQ_GAME_INPUT
     enc_REQ_GAME_INPUT (input_request is) session seq)"
  unfolding game_packet_def by blast+

lemma Send_traffic:
  assumes "cl_Send pid n enc req s = Inr t" and "cl_isConnect s"
  shows "\<exists>session seq. sendPacketQueue t = sendPacketQueue s @ [request_packet pid n enc req session seq] \<and>
           connection t = connection s"
  using assms by (auto simp: cl_Send_def bind_res_Inr_iff connection_def intro!: exI)

lemma frame_traffic:
  assumes "play_frame keys e g mine s = Inr s'" and "isPlaying mine" and "inputQueue mine = []"
    and "cl_isConnect s"
  obtains new where "sendPacketQueue s' = sendPacketQueue s @ new" and "list_all game_packet new"
    and "length new \<le> 2" and "connection s' = connection s"
proof -
  let ?m = "mine\<lparr>inputQueue := GetInput keys\<rparr>"
  have m: "(if GetInput keys \<noteq> [] then QueueInputs (GetInput keys) mine else mine) = ?m"
    using assms(3) by (cases mine) (simp add: QueueInputs_eq)
  from assms(1) [unfolded play_frame_def Let_def m GetAppliedInputs_def] obtain s1 own' where
    s1: "(if GetRemainFallingBlock ?m < PACKET_FALLING_BLOCK_SIZE
          then cl_Send PID_REQ_FALLING_BLOCK sizeof_BASE enc_BASE default_BASE_PACKET s else Inr s) = Inr s1"
    and upd: "Update e ?m = Inr own'"
    and snd: "(if applyQueue own' \<noteq> []
               then cl_Send PID_REQ_GAME_INPUT sizeof_REQ_GAME_INPUT enc_REQ_GAME_INPUT
                      (input_request (applyQueue own')) (set_ingame (g\<lparr>tetrisBoard := Some own'\<rparr>) s1)
               else Inr (set_ingame (g\<lparr>tetrisBoard := Some own'\<rparr>) s1)) = Inr s'"
    by (auto simp: bind_res_Inr_iff)
  have play: "isPlaying ?m" "inputQueue ?m = GetInput keys" using assms(2) by simp_all
  note ok = frame_inputs_sendable(1) [OF play upd]
  have "\<exists>asked. sendPacketQueue s1 = sendPacketQueue s @ asked \<and> list_all game_packet asked \<and>
      length asked \<le> 1 \<and> connection s1 = connection s"
    using s1 Send_traffic [of PID_REQ_FALLING_BLOCK sizeof_BASE enc_BASE default_BASE_PACKET s s1] assms(4)
    by (fastforce simp: game_packet_intros split: if_splits)
  then obtain asked where asked: "sendPacketQueue s1 = sendPacketQueue s @ asked"
    "list_all game_packet asked" "length asked \<le> 1" "connection s1 = connection s" by blast
  let ?s2 = "set_ingame (g\<lparr>tetrisBoard := Some own'\<rparr>) s1"
  have s2: "sendPacketQueue ?s2 = sendPacketQueue s1" "connection ?s2 = connection s1" "cl_isConnect ?s2"
    using asked(4) assms(4) by (simp_all add: set_ingame_def connection_def)
  have "\<exists>sent. sendPacketQueue s' = sendPacketQueue s1 @ sent \<and> list_all game_packet sent \<and>
      length sent \<le> 1 \<and> connection s' = connection s1"
  proof (cases "applyQueue own' = []")
    case False
    with snd Send_traffic [OF _ s2(3)] s2(1,2) game_packet_intros(2) [OF ok False] show ?thesis by fastforce
  qed (use snd s2 in simp)
  then obtain sent where "sendPacketQueue s' = sendPacketQueue s1 @ sent"
    "list_all game_packet sent" "length sent \<le> 1" "connection s' = connection s1" by blast
  with asked that [of "asked @ sent"] show thesis by simp
qed

lemma run_traffic:
  assumes "GetInGameScene s = Some g" and "tetrisBoard g = Some mine" and "isPlaying mine"
    and "inputQueue mine = []" and "cl_isConnect s" and "play_run fs s = Inr s'"
  shows "\<exists>new. sendPacketQueue s' = sendPacketQueue s @ new \<and> list_all game_packet new \<and>
           length new \<le> 2 * length fs \<and> connection s' = connection s"
  using assms
proof (induction fs arbitrary: s g mine)
  case Nil
  then show ?case by simp
next
  case (Cons f fs)
  obtain keys e where f: "f = (keys, e)" by (cases f)
  from Cons.prems(1,2,6) f obtain s1 where s1: "play_frame keys e g mine s = Inr s1" "play_run fs s1 = Inr s'"
    by (auto simp: bind_res_Inr_iff)
  from play_frame_packets [OF s1(1) Cons.prems(3-5)] obtain own' where
    upd: "Update e (mine\<lparr>inputQueue := GetInput keys\<rparr>) = Inr own'"
    and g1: "GetInGameScene s1 = Some (g\<lparr>tetrisBoard := Some own'\<rparr>)" "cl_isConnect s1" "inputQueue own' = []"
    by blast
  have play: "isPlaying own'" by (rule isPlaying_Update [OF upd]) (use Cons.prems(3) in simp)
  from frame_traffic [OF s1(1) Cons.prems(3-5)] obtain new where
    new: "sendPacketQueue s1 = sendPacketQueue s @ new" "list_all game_packet new" "length new \<le> 2"
      "connection s1 = connection s" .
  from Cons.IH [OF g1(1) _ play g1(3,2) s1(2)] obtain new' where
    "sendPacketQueue s' = sendPacketQueue s1 @ new'" "list_all game_packet new'"
    "length new' \<le> 2 * length fs" "connection s' = connection s1" by auto
  with new show ?case by (intro exI [of _ "new @ new'"]) simp
qed

text \<open>\<open>SendThread\<close> hands the queue to \<open>send\<close>, one packet per iteration.\<close>

lemma sends_queue:
  assumes "cl_isRun s" and "cl_isConnect s" and "sendPacketQueue s = ps"
  shows "sockSends ((SendThread True ^^ length ps) s) = sockSends s @ map cp_data ps"
  using assms
proof (induction ps arbitrary: s)
  case (Cons p ps)
  let ?s = "SendThread True s"
  have s: "cl_isRun ?s" "cl_isConnect ?s" "sendPacketQueue ?s = ps" "sockSends ?s = sockSends s @ [cp_data p]"
    using Cons.prems by (simp_all add: SendThread_def Let_def)
  from Cons.IH [OF s(1-3)] s(4) show ?case by (simp add: funpow_swap1)
qed simp

section \<open>Receiving\<close>

definition take_packet :: "bytes \<Rightarrow> Client \<Rightarrow> Client" where
  "take_packet p s =
     (if sequenceIndex (dec_header p) = 0 then s\<lparr>notifyPackets := notifyPackets s @ [packet_of p]\<rparr>
      else s\<lparr>recvPackets := pq_push (packet_of p) (recvPackets s)\<rparr>)"

definition take_packets :: "bytes list \<Rightarrow> PacketBuffer \<Rightarrow> Client \<Rightarrow> Client" where
  "take_packets fs b s = (fold take_packet fs s)\<lparr>cl_packetBuffer := b\<rparr>"

lemma fold_take_packet_buffer:
  "fold take_packet fs (s\<lparr>cl_packetBuffer := b\<rparr>) = (fold take_packet fs s)\<lparr>cl_packetBuffer := b\<rparr>"
proof (induction fs arbitrary: s)
  case (Cons p fs)
  have "take_packet p (s\<lparr>cl_packetBuffer := b\<rparr>) = (take_packet p s)\<lparr>cl_packetBuffer := b\<rparr>"
    by (simp add: take_packet_def)
  with Cons show ?case by simp
qed simp

lemma fold_queue_packet:
  "list_all (is_packet PACKET_HEADER_LENGTH) fs \<Longrightarrow> fold_res queue_packet fs s = Inr (fold take_packet fs s)"
proof (induction fs arbitrary: s)
  case (Cons p fs)
  then have "queue_packet p s = Inr (take_packet p s)"
    by (simp add: queue_packet_def is_packet_def PACKET_HEADER_LENGTH_def packet_of_def take_packet_def Let_def)
  with Cons show ?case by simp
qed simp

interpretation peer: packet_reader cl_packetBuffer RecvThread_bytes take_packets "\<lambda>_. True"
proof
  show "\<exists>q. RecvThread_bytes b s = Some (Inr (take_packets fs q s)) \<and> stream_ok q \<and> pending q = r"
    if "stream_ok (cl_packetBuffer s)" "accepts (int (length b)) (cl_packetBuffer s)"
      "pending (cl_packetBuffer s) @ b = concat fs @ r" "list_all (is_packet PACKET_HEADER_LENGTH) fs"
      "partial_packet PACKET_HEADER_LENGTH r" for s b fs r
    using pb.Receive_packets [OF that fold_queue_packet [OF that(4), of s]]
    by (auto simp: RecvThread_bytes_def take_packets_def)
qed (simp_all add: take_packets_def fold_take_packet_buffer)

text \<open>Room for all chunks at once is room for each.\<close>

lemma all_accepted_short:
  assumes "stream_ok (cl_packetBuffer s)"
    and "writePos (cl_packetBuffer s) + int (length (concat cs)) < bufferSize (cl_packetBuffer s)"
  shows "all_accepted cl_packetBuffer RecvThread_bytes cs s"
  using assms
proof (induction cs arbitrary: s)
  case (Cons c cs s)
  have c: "writePos (cl_packetBuffer s) + int (length c) < bufferSize (cl_packetBuffer s)" using Cons.prems(2) by simp
  have "all_accepted cl_packetBuffer RecvThread_bytes cs t" if t: "RecvThread_bytes c s = Some (Inr t)" for t
  proof -
    from t obtain b u where
      r: "Receive Read write_chunk queue_packet c (cl_packetBuffer s) s = Some (Inr (b, u))" "cl_packetBuffer t = b"
      by (auto simp: RecvThread_bytes_def bind_run_Inr_iff)
    from Receive_pos [OF r(1) Cons.prems(1) c] r(2) Cons.prems(2) show ?thesis by (intro Cons.IH) simp_all
  qed
  with c show ?case by (simp add: accepts_def split: option.split sum.split)
qed simp

definition is_notification :: "bytes \<Rightarrow> bool" where
  "is_notification p \<longleftrightarrow> sequenceIndex (dec_header p) = 0"

lemma take_packet_queues:
  "notifyPackets (take_packet p t) = notifyPackets t @ (if is_notification p then [packet_of p] else [])"
  "mset (recvPackets (take_packet p t)) =
     mset (recvPackets t) + (if is_notification p then {#} else {#packet_of p#})"
  "pq_ok (recvPackets t) \<Longrightarrow> pq_ok (recvPackets (take_packet p t))"
  by (simp_all add: take_packet_def is_notification_def pq_push_def pq.ok_push [unfolded pq_push_def])

lemma fold_take_packet:
  "notifyPackets (fold take_packet fs t) = notifyPackets t @ map packet_of (filter is_notification fs)"
  "mset (recvPackets (fold take_packet fs t)) =
     mset (recvPackets t) + mset (map packet_of (filter (\<lambda>p. \<not> is_notification p) fs))"
  "pq_ok (recvPackets t) \<Longrightarrow> pq_ok (recvPackets (fold take_packet fs t))"
  by (induction fs arbitrary: t) (simp_all add: take_packet_queues)

section \<open>Handling\<close>

lemma take_notifications:
  assumes "list_all (\<lambda>p. sequenceIndex (dec_header p) = 0) fs"
  shows "take_packets fs b s = s\<lparr>notifyPackets := notifyPackets s @ map packet_of fs, cl_packetBuffer := b\<rparr>"
proof -
  have "fold take_packet fs s = s\<lparr>notifyPackets := notifyPackets s @ map packet_of fs\<rparr>"
    using assms
  proof (induction fs arbitrary: s)
    case (Cons p fs)
    then have "take_packet p s = s\<lparr>notifyPackets := notifyPackets s @ [packet_of p]\<rparr>" by (simp add: take_packet_def)
    with Cons show ?case by simp
  qed simp
  then show ?thesis by (simp add: take_packets_def)
qed

text \<open>The game calls \<open>HandlerThread\<close> once a frame.\<close>

fun handle_times :: "nat \<Rightarrow> Client \<Rightarrow> Client res" where
  "handle_times 0 s = Inr s"
| "handle_times (Suc n) s = bind_res (HandlerThread s) (handle_times n)"

lemma input_notification:
  assumes "input_bytes p" and "recvPackets s = []" and "notifyPackets s = packet_of (relay j p) # ns"
  shows "HandlerThread s = on_ReqGameInput (relayed p) (s\<lparr>notifyPackets := ns\<rparr>)"
proof -
  let ?p = "packet_of (relay j p)"
  note h = header_relay [OF assms(1), of j]
  have p: "cp_DataSize ?p = of_nat sizeof_RES_GAME_INPUT" "cp_PacketId ?p = packet_id PID_RES_GAME_INPUT"
    "cp_data ?p = relay j p"
    by (simp_all add: packet_of_def h)
  have "checked sizeof_RES_GAME_INPUT ?p = Inr (relay j p)"
    using relay_is_packet(2) [OF assms(1), of j] by (simp add: checked_def p sizeof_RES_GAME_INPUT_def)
  moreover have "on_ReqGameInput (dec_RES_GAME_INPUT (relay j p)) u = on_ReqGameInput (relayed p) u" for u
    unfolding on_ReqGameInput_def dec_relay [OF assms(1)] by (rule refl)
  moreover have "map_of cl_handlers (packet_id PID_RES_GAME_INPUT) = Some RES_GameInput"
    by (simp add: cl_handlers_def packet_id_def)
  ultimately show ?thesis
    using assms(2,3) by (simp add: HandlerThread_def handle_response_def handle_notify_def p
        handler_Response_def Response_def)
qed

lemma on_ReqGameInput_queue:
  assumes "on_ReqGameInput r s = Inr t"
  shows "on_ReqGameInput r (s\<lparr>notifyPackets := ns\<rparr>) = Inr (t\<lparr>notifyPackets := ns\<rparr>)" "recvPackets t = recvPackets s"
  using assms by (auto simp: on_ReqGameInput_def GetInGameScene_def set_ingame_def bind_res_Inr_iff split: option.splits)

lemma handles_notifications:
  assumes "deliver ps t = Inr t'" and "list_all (\<lambda>p. input_bytes (cp_data p)) ps" and "recvPackets t = []"
  shows "handle_times (length ps) (t\<lparr>notifyPackets := map (\<lambda>p. packet_of (relay j (cp_data p))) ps\<rparr>) =
           Inr (t'\<lparr>notifyPackets := []\<rparr>)"
  using assms
proof (induction ps arbitrary: t)
  case Nil
  then show ?case by simp
next
  case (Cons p ps)
  let ?n = "\<lambda>ps. map (\<lambda>p. packet_of (relay j (cp_data p))) ps"
  from Cons.prems(1) obtain u where u: "on_ReqGameInput (relayed (cp_data p)) t = Inr u" "deliver ps u = Inr t'"
    by (auto simp: deliver_def bind_res_Inr_iff)
  have "HandlerThread (t\<lparr>notifyPackets := ?n (p # ps)\<rparr>) = Inr (u\<lparr>notifyPackets := ?n ps\<rparr>)"
    using input_notification [of "cp_data p" "t\<lparr>notifyPackets := ?n (p # ps)\<rparr>" j "?n ps"]
      on_ReqGameInput_queue(1) [OF u(1), of "?n ps"] Cons.prems(2,3) by simp
  with Cons.IH [OF u(2)] Cons.prems(2,3) on_ReqGameInput_queue(2) [OF u(1)] show ?case by simp
qed

end
