(* ===== verification/EndToEnd.thy ===== *)
theory EndToEnd
  imports Duel ServerTraffic GameTraffic
begin

text \<open>
  The composition of the whole system: the client of a player, the server, and the client of the
  other player of the room, connected by two byte streams.
\<close>

section \<open>A game from keyboard to enemy board\<close>

lemma game_inputs:
  "list_all game_packet ps \<Longrightarrow> filter input_bytes (map cp_data ps) = map cp_data (input_packets ps)"
  by (induction ps) (simp_all add: input_packets_def game_packetD(3))

lemma input_packets_are_inputs:
  "list_all game_packet ps \<Longrightarrow> list_all (\<lambda>p. input_bytes (cp_data p)) (input_packets ps)"
  by (induction ps) (simp_all add: input_packets_def game_packetD(3))

text \<open>The server's part: the stream of requests comes in, the packet thread serves it, and the messages
  for the other player go out one by one.\<close>

lemma server_relays:
  assumes "duel i c j d (length ps) v" and "slot_ready c i v" and "stream_ok (slot_buffer c v)"
    and "pending (slot_buffer c v) = []" and "Server.recvPackets v = []"
    and "concat cs = concat (map cp_data ps)" and "list_all game_packet ps"
    and "all_accepted (slot_buffer c) (slot_step now c) cs v"
  shows "\<exists>v' m. steps sh v (map (\<lambda>b. Completion now (Received c b)) cs @ replicate (length ps) PacketStep @
                            replicate m (Completion now (Sent d))) v' \<and>
           sendDataQueue (clients v' ! d) = [] \<and>
           wsaSends (clients v' ! d) =
             outgoing (clients v ! d) @ map (\<lambda>p. notification j (cp_data p)) (input_packets ps) \<and>
           only_answers c d (length ps) v v'"
proof -
  have "list_all (is_packet PACKET_HEADER_LENGTH) (map cp_data ps)" "list_all game_bytes (map cp_data ps)"
    using assms(7) by (auto simp: list_all_iff game_packetD)
  from chunks_are_received [OF assms(2-4,6) this(1) assms(8), of sh] obtain q where
    q: "steps sh v (map (\<lambda>b. Completion now (Received c b)) cs)
          (slot_received c q (map (received i) (map cp_data ps)) v)" (is "steps sh v _ ?v1") by blast
  have cd: "c \<noteq> d" "d < length (clients v)" using assms(1) by (auto simp: duel_def session_slot_def)
  have "duel i c j d (length (map cp_data ps)) ?v1"
    by (rule duel_keep [OF assms(1)]) simp_all
  from duel_run [OF this, of "[]" sh] assms(5) \<open>list_all game_bytes (map cp_data ps)\<close> cd
  obtain u where u: "steps sh ?v1 (replicate (length ps) PacketStep) u" "duel i c j d 0 u"
    "outgoing (clients u ! d) = outgoing (clients v ! d) @ map (notification j) (filter input_bytes (map cp_data ps))"
    "only_answers c d (length ps) ?v1 u"
    by auto
  have "outgoing (clients ?v1 ! e) = outgoing (clients v ! e)" for e
    by (cases "c < length (clients v)"; cases "e = c") (simp_all add: slot_received_def list_update_beyond)
  moreover have "length (clients ?v1) = length (clients v)" by simp
  ultimately have only: "only_answers c d (length ps) v u" using u(4) by (simp add: only_answers_def)
  have "d < length (clients u)" using u(2) by (simp add: duel_def session_slot_def)
  from sends_complete [OF this, of sh now] u(3) game_inputs [OF assms(7)] this obtain c' where
    c': "steps sh u (replicate (length (sendDataQueue (clients u ! d))) (Completion now (Sent d)))
           (u\<lparr>clients := (clients u)[d := c']\<rparr>)" "sendDataQueue c' = []"
        "wsaSends c' = outgoing (clients v ! d) @ map (\<lambda>p. notification j (cp_data p)) (input_packets ps)"
    by (auto simp: comp_def)
  have "only_answers c d (length ps) v (u\<lparr>clients := (clients u)[d := c']\<rparr>)"
    by (rule only_answers_cong [OF _ _ cd(1) only]) simp_all
  with steps_append [OF steps_append [OF c'(1) u(1)] q] c'(2,3) \<open>d < length (clients u)\<close> show ?thesis
    by fastforce
qed

text \<open>The other client's part.\<close>

lemma enemy_follows:
  assumes "GetInGameScene s = Some g" and "tetrisBoard g = Some mine" and "isPlaying mine"
    and "inputQueue mine = []" and "cl_isConnect s" and "sendPacketQueue s = []" and "play_run fs s = Inr s1"
    and "GetInGameScene t = Some h" and "enemyBoard h = Some enemy"
    and "pair k mine enemy" and "fair_run k fs mine"
    and "stream_ok (cl_packetBuffer t)" and "pending (cl_packetBuffer t) = []"
    and "recvPackets t = []" and "notifyPackets t = []"
    and "concat ds = concat (map (\<lambda>p. relay j (cp_data p)) (input_packets (sendPacketQueue s1)))"
    and "all_accepted cl_packetBuffer RecvThread_bytes ds t"
  shows "\<exists>t1 t2 mine' h' enemy'. fold_run RecvThread_bytes ds t = Some (Inr t1) \<and>
    handle_times (length (notifyPackets t1)) t1 = Inr t2 \<and> own_board s1 = Some mine' \<and>
    GetInGameScene t2 = Some h' \<and> enemyBoard h' = Some enemy' \<and>
    mirrors ((k \<or> input_sent fs mine) \<and> fallingBlock mine' \<noteq> None) mine' enemy'"
proof -
  let ?ps = "input_packets (sendPacketQueue s1)"
  let ?fs = "map (\<lambda>p. relay j (cp_data p)) ?ps"
  from run_traffic [OF assms(1-5,7)] assms(6) have "list_all game_packet (sendPacketQueue s1)" by simp
  then have ok: "list_all (\<lambda>p. input_bytes (cp_data p)) ?ps" by (rule input_packets_are_inputs)
  then have "list_all (is_packet PACKET_HEADER_LENGTH) ?fs"
    and zero: "list_all (\<lambda>p. sequenceIndex (dec_header p) = 0) ?fs"
    by (auto simp: list_all_iff relay_is_packet header_relay)
  from peer.reads_stream [OF _ assms(12) _ this(1) _ _ assms(17), of "[]"] assms(13,16) obtain q where
    "fold_run RecvThread_bytes ds t = Some (Inr (take_packets ?fs q t))"
    by (auto simp: partial_packet_def)
  then have t1: "fold_run RecvThread_bytes ds t =
      Some (Inr ((t\<lparr>cl_packetBuffer := q\<rparr>)\<lparr>notifyPackets := map (\<lambda>p. packet_of (relay j (cp_data p))) ?ps\<rparr>))"
    (is "_ = Some (Inr ?t1)")
    using take_notifications [OF zero] assms(15) by (simp add: comp_def)
  have scene: "GetInGameScene (t\<lparr>cl_packetBuffer := q\<rparr>) = Some h" using assms(8) by (simp add: GetInGameScene_def)
  from run_mirrors [OF assms(1-5,7) scene assms(9-11)] assms(6) obtain mine' t' h' enemy' where
    r: "own_board s1 = Some mine'" "deliver ?ps (t\<lparr>cl_packetBuffer := q\<rparr>) = Inr t'"
    "GetInGameScene t' = Some h'" "enemyBoard h' = Some enemy'"
    "pair (k \<or> input_sent fs mine) mine' enemy'" by auto
  have "handle_times (length (notifyPackets ?t1)) ?t1 = Inr (t'\<lparr>notifyPackets := []\<rparr>)"
    using handles_notifications [OF r(2) ok, of j] assms(14) by simp
  moreover have "GetInGameScene (t'\<lparr>notifyPackets := []\<rparr>) = Some h'" using r(3) by (simp add: GetInGameScene_def)
  ultimately show ?thesis using t1 r(1,4) pair_mirrors [OF r(5)] by blast
qed

text \<open>C3: a game travels from the keyboard of one player to the enemy board of the other, when no line
  gets full and there is always a next block (a fair run), when the enemy board shows the same game
  to begin with, and when the three stages follow one another.  The frames of the run leave requests
  in the queue of the client and \<open>SendThread\<close> hands them to the socket.  Their bytes arrive in any
  receive completions of which each finds room in the empty buffer of the slot; the server
  reads and serves the requests.  The other player of the room is sent the inputs of every request,
  in their order and nothing else; the player who asked is sent one answer for each request and no
  notification; no other slot is sent anything.  These bytes arrive in turn in any chunks of which
  each finds room in the empty buffer of the other client, which reads the notifications and
  handles all of them; then its enemy board shows what the player's board shows.\<close>

theorem game_travels_to_the_enemy_board:
  assumes "GetInGameScene s = Some g" and "tetrisBoard g = Some mine" and "isPlaying mine"
    and "inputQueue mine = []" and "cl_isConnect s" and "sendPacketQueue s = []" and "play_run fs s = Inr s1"
    and "cl_isRun s" and "sockSends ((SendThread True ^^ length (sendPacketQueue s1)) s1) = sockSends s @ bs"
    and "duel i c j d (length bs) v" and "slot_ready c i v" and "stream_ok (slot_buffer c v)"
    and "pending (slot_buffer c v) = []" and "Server.recvPackets v = []"
    and "concat cs = concat bs" and "all_accepted (slot_buffer c) (slot_step now c) cs v"
    and "GetInGameScene t = Some h" and "enemyBoard h = Some enemy"
    and "pair k mine enemy" and "fair_run k fs mine"
    and "stream_ok (cl_packetBuffer t)" and "pending (cl_packetBuffer t) = []"
    and "recvPackets t = []" and "notifyPackets t = []"
  shows "\<exists>v' m ms. ms = map (\<lambda>p. notification j (cp_data p)) (input_packets (sendPacketQueue s1)) \<and>
    steps sh v (map (\<lambda>b. Completion now (Received c b)) cs @ replicate (length bs) PacketStep @
                replicate m (Completion now (Sent d))) v' \<and>
    wsaSends (clients v' ! d) = outgoing (clients v ! d) @ ms \<and>
    (\<exists>as. outgoing (clients v' ! c) = outgoing (clients v ! c) @ as \<and> length as = length bs \<and>
      (\<forall>a \<in> set as. operation a = SEND)) \<and>
    (\<forall>e. e \<noteq> c \<and> e \<noteq> d \<longrightarrow> outgoing (clients v' ! e) = outgoing (clients v ! e)) \<and>
    (\<forall>ds. concat ds = concat (map wsaBuf ms) \<and> all_accepted cl_packetBuffer RecvThread_bytes ds t \<longrightarrow>
      (\<exists>t1 t2 mine' h' enemy'. fold_run RecvThread_bytes ds t = Some (Inr t1) \<and>
        handle_times (length (notifyPackets t1)) t1 = Inr t2 \<and> own_board s1 = Some mine' \<and>
        GetInGameScene t2 = Some h' \<and> enemyBoard h' = Some enemy' \<and>
        mirrors ((k \<or> input_sent fs mine) \<and> fallingBlock mine' \<noteq> None) mine' enemy'))"
proof -
  let ?ps = "sendPacketQueue s1"
  from run_traffic [OF assms(1-5,7)] assms(6) have ps: "list_all game_packet ?ps" "connection s1 = connection s"
    by simp_all
  then have "cl_isRun s1" "cl_isConnect s1" "sockSends s1 = sockSends s"
    using assms(5,8) by (simp_all add: connection_def)
  with sends_queue [OF this(1,2) refl] assms(9) have bs: "bs = map cp_data ?ps" by simp
  from server_relays [OF _ assms(11-14) _ ps(1) assms(16), of j d sh] assms(10,15) bs obtain v' m where
    v': "steps sh v (map (\<lambda>b. Completion now (Received c b)) cs @ replicate (length bs) PacketStep @
                replicate m (Completion now (Sent d))) v'"
      "wsaSends (clients v' ! d) = outgoing (clients v ! d) @ map (\<lambda>p. notification j (cp_data p)) (input_packets ?ps)"
      "only_answers c d (length bs) v v'"
    by auto
  have only: "\<exists>as. outgoing (clients v' ! c) = outgoing (clients v ! c) @ as \<and> length as = length bs \<and>
      (\<forall>a \<in> set as. operation a = SEND)"
    "\<forall>e. e \<noteq> c \<and> e \<noteq> d \<longrightarrow> outgoing (clients v' ! e) = outgoing (clients v ! e)"
    using v'(3) by (auto simp: only_answers_def)
  have "map wsaBuf (map (\<lambda>p. notification j (cp_data p)) (input_packets ?ps)) =
      map (\<lambda>p. relay j (cp_data p)) (input_packets ?ps)"
    by (simp add: notification_def)
  with v'(1,2) only enemy_follows [OF assms(1-7,17-24), of _ j] show ?thesis by metis
qed

text \<open>Two slots of the server with a session each, and a game in the one room.\<close>

definition duel_server :: Server where
  "duel_server = two_player_server\<lparr>clients := [(new_ClientInfo (\<lambda>_. 0) 1)\<lparr>c_sessionIndex := 1\<rparr>,
     (new_ClientInfo (\<lambda>_. 0) 2)\<lparr>c_sessionIndex := 2\<rparr>]\<rparr>"

lemma duel_server_facts:
  "slot_ready 0 1 duel_server" "stream_ok (slot_buffer 0 duel_server)" "pending (slot_buffer 0 duel_server) = []"
  "Server.recvPackets duel_server = []" "n \<le> 1000 \<Longrightarrow> accepts (int n) (slot_buffer 0 duel_server)"
  "n \<le> 1000 \<Longrightarrow> duel 1 0 2 1 n duel_server" "outgoing (clients duel_server ! 1) = []"
proof -
  show "stream_ok (slot_buffer 0 duel_server)" "pending (slot_buffer 0 duel_server) = []"
    by (simp_all add: slot_buffer_def duel_server_def new_ClientInfo_def stream_ok_def wf_buffer_Init PACKET_HEADER_LENGTH_def)
      (simp add: buffer_Init_def)
  show "duel 1 0 2 1 n duel_server" if "n \<le> 1000"
    using that unfolding duel_def
    by (intro conjI exI [of _ 0] exI [of _ 1])
       (auto simp: duel_server_def two_player_server_def session_slot_def FindPlayerBySessionIndex_def
         FindRoom_def new_Room_def new_Player_def)
qed (auto simp: duel_server_def two_player_server_def slot_ready_def new_Server_def slot_buffer_def
    new_ClientInfo_def accepts_def buffer_Init_def outgoing_def)

lemma fresh_player_buffer:
  "stream_ok (cl_packetBuffer fresh_player)" "pending (cl_packetBuffer fresh_player) = []"
  "n \<le> 1000 \<Longrightarrow> accepts (int n) (cl_packetBuffer fresh_player)"
  by (simp_all add: fresh_player_def new_Client_def stream_ok_def wf_buffer_Init PACKET_HEADER_LENGTH_def)
    (simp_all add: buffer_Init_def accepts_def)

lemma length_concat_bound: "(\<And>x. x \<in> set xs \<Longrightarrow> length x \<le> n) \<Longrightarrow> length (concat xs) \<le> n * length xs"
  by (induction xs) (auto simp: add_le_mono)

theorem game_travels_to_the_enemy_board_witness:
  "\<exists>s1 v' m ms t1 t2 mine' h' enemy'. play_run demo_frames fresh_player = Inr s1 \<and>
    steps keep_order duel_server ([Completion 0 (Received 0 (concat (map cp_data (sendPacketQueue s1))))] @
      replicate (length (sendPacketQueue s1)) PacketStep @ replicate m (Completion 0 (Sent 1))) v' \<and>
    wsaSends (clients v' ! 1) = ms \<and>
    fold_run RecvThread_bytes [concat (map wsaBuf ms)] fresh_player = Some (Inr t1) \<and>
    handle_times (length (notifyPackets t1)) t1 = Inr t2 \<and> own_board s1 = Some mine' \<and>
    GetInGameScene t2 = Some h' \<and> enemyBoard h' = Some enemy' \<and>
    mirrors (fallingBlock mine' \<noteq> None) mine' enemy'"
proof -
  obtain s1 where s1: "play_run demo_frames fresh_player = Inr s1" using demo_play ..
  let ?ps = "sendPacketQueue s1" and ?bs = "map cp_data (sendPacketQueue s1)"
  let ?ms = "map (\<lambda>p. notification 2 (cp_data p)) (input_packets ?ps)"
  have run: "cl_isRun fresh_player" "recvPackets fresh_player = []" "notifyPackets fresh_player = []"
    "sockSends fresh_player = []"
    by (simp_all add: fresh_player_def new_Client_def)
  from run_traffic [OF demo_start(1,2) fresh_facts(1,3) demo_start(3) s1] demo_start(5)
  have ps: "list_all game_packet ?ps" "length ?ps \<le> 6" "connection s1 = connection fresh_player"
    by (simp_all add: demo_frames_def demo_keys_def)
  then have "cl_isRun s1" "cl_isConnect s1" "sockSends s1 = []"
    using run demo_start(3) by (simp_all add: connection_def)
  with sends_queue [OF this(1,2) refl]
  have sent: "sockSends ((SendThread True ^^ length ?ps) s1) = sockSends fresh_player @ ?bs" using run(4) by simp
  have "length (concat ?bs) \<le> 78 * length ?bs"
    by (rule length_concat_bound) (use ps(1) in \<open>auto simp: list_all_iff game_packetD\<close>)
  then have acc: "all_accepted (slot_buffer 0) (slot_step 0 0) [concat ?bs] duel_server"
    using ps(2) duel_server_facts(5) [of "length (concat ?bs)"] by (simp split: option.split sum.split)
  have "length (input_packets ?ps) \<le> length ?ps" by (simp add: input_packets_def)
  moreover have "length (concat (map wsaBuf ?ms)) \<le> sizeof_RES_GAME_INPUT * length (map wsaBuf ?ms)"
    by (rule length_concat_bound)
       (use input_packets_are_inputs [OF ps(1)] in \<open>auto simp: notification_def relay_is_packet list_all_iff\<close>)
  ultimately have acc': "all_accepted cl_packetBuffer RecvThread_bytes [concat (map wsaBuf ?ms)] fresh_player"
    using ps(2) fresh_player_buffer(3) [of "length (concat (map wsaBuf ?ms))"]
    by (simp add: sizeof_RES_GAME_INPUT_def split: option.split sum.split)
  have duel: "duel 1 0 2 1 (length ?bs) duel_server" using ps(2) by (intro duel_server_facts(6)) simp
  have bytes: "concat [concat ?bs] = concat ?bs" by simp
  note travels = game_travels_to_the_enemy_board [OF demo_start(1,2) fresh_facts(1,3) demo_start(3,5) s1 run(1)
      sent duel duel_server_facts(1-4) bytes acc demo_start(1,4,7) demo_run(1) fresh_player_buffer(1,2) run(2,3)]
  let ?Q = "\<lambda>ds. \<exists>t1 t2 mine' h' enemy'. fold_run RecvThread_bytes ds fresh_player = Some (Inr t1) \<and>
      handle_times (length (notifyPackets t1)) t1 = Inr t2 \<and> own_board s1 = Some mine' \<and>
      GetInGameScene t2 = Some h' \<and> enemyBoard h' = Some enemy' \<and>
      mirrors ((False \<or> input_sent demo_frames fresh_game) \<and> fallingBlock mine' \<noteq> None) mine' enemy'"
  from travels [of keep_order] obtain v' m where
    v': "steps keep_order duel_server (map (\<lambda>b. Completion 0 (Received 0 b)) [concat ?bs] @
      replicate (length ?bs) PacketStep @ replicate m (Completion 0 (Sent 1))) v'"
      "wsaSends (clients v' ! 1) = outgoing (clients duel_server ! 1) @ ?ms"
    and enemy: "\<forall>ds. concat ds = concat (map wsaBuf ?ms) \<and>
        all_accepted cl_packetBuffer RecvThread_bytes ds fresh_player \<longrightarrow> ?Q ds" by blast
  have q: "?Q [concat (map wsaBuf ?ms)]" by (rule mp [OF spec [OF enemy]]) (use acc' in simp)
  have "steps keep_order duel_server ([Completion 0 (Received 0 (concat ?bs))] @
      replicate (length ?ps) PacketStep @ replicate m (Completion 0 (Sent 1))) v'"
    using v'(1) by simp
  moreover have "wsaSends (clients v' ! 1) = ?ms" using v'(2) duel_server_facts(7) by simp
  ultimately show ?thesis using q s1 demo_run(2) by fastforce
qed

section \<open>A new server and its first client\<close>

definition login_packet_of :: "Client \<Rightarrow> ClientPacket" where
  "login_packet_of s = request_packet PID_REQ_LOGIN sizeof_BASE enc_BASE default_BASE_PACKET
     (cl_playerSessionIndex s) (of_int (cl_sequenceIndex s + 1))"

lemma connected_client_login:
  fixes a :: bytes
  defines "s \<equiv> connected_client a"
  shows "cl_Send PID_REQ_LOGIN sizeof_BASE enc_BASE default_BASE_PACKET s =
      Inr (s\<lparr>cl_sequenceIndex := 1, sendPacketQueue := [login_packet_of s]\<rparr>)"
    "length (cp_data (login_packet_of s)) = 14" "cl_isConnect s" "cl_isRun s" "sendPacketQueue s = []" "sockSends s = []"
  by (simp_all add: s_def connected_client_def new_Client_def cl_Send_def int32_res_def login_packet_of_def
      request_packet_def)

lemma Write_fresh:
  assumes "length b < 1000"
  shows "Write (Some b) (int (length b)) (buffer_Init f f 1024 h) =
    Inr ((buffer_Init f f 1024 h)\<lparr>buffer := b @ drop (length b) (map f [0..<1024]), writePos := int (length b)\<rparr>)"
  using assms by (simp add: Write_def NeedRelocate_def Let_def std_copy_def buffer_Init_def del: upt_rec_numeral)

text \<open>A first chunk shorter than a header just stays in the buffer.\<close>

lemma first_bytes:
  assumes "c < 2" and "length b < 12" and "slot_step now c b start_server = Some (Inr w)"
  shows "readPos (slot_buffer c w) = 0 \<and> writePos (slot_buffer c w) = int (length b) \<and>
    bufferSize (slot_buffer c w) = 1024"
proof -
  let ?s = "connected c start_server"
  note n = new_server_slots(1-2) [OF assms(1)]
  have "sessions_ok start_server" by (simp add: sessions_ok_def new_Server_def)
  from first_chunk [OF this n] assms(3) have step: "slot_step now c b ?s = Some (Inr w)" by simp
  have "[1..<3] ! c = Suc c" using assms(1) nth_upt [of 1 c 3] by simp
  then have buf: "packetBuffer (clients ?s ! c) = buffer_Init (\<lambda>_. 0) (\<lambda>_. 0) 1024 PACKET_HEADER_LENGTH"
    using connected_sel(4) [OF n(1)] n(1) assms(1)
    by (simp add: slot_buffer_def new_Server_def new_ClientInfo_def del: upt_Suc)
  let ?q = "(buffer_Init (\<lambda>_. 0) (\<lambda>_. 0) 1024 PACKET_HEADER_LENGTH)
    \<lparr>buffer := b @ drop (length b) (map (\<lambda>_. 0) [0..<1024]), writePos := int (length b)\<rparr>"
  have "Write (Some b) (int (length b)) (packetBuffer (clients ?s ! c)) = Inr ?q"
    unfolding buf by (rule Write_fresh) (use assms(2) in simp)
  moreover have "Read ?q = Inr (None, ?q)"
    using assms(2) by (simp add: Read_def Let_def PACKET_HEADER_LENGTH_def) (simp add: buffer_Init_def)
  ultimately have "w = ?s\<lparr>clients := (clients ?s)[c := (clients ?s ! c)\<lparr>packetBuffer := ?q\<rparr>]\<rparr>"
    using step n(1) connected_sel(3) [OF n(1)]
    by (simp add: slot_step_def WorkerThread_def work_received_def OnRecv_def set_client_def ReadLoop.simps)
  then show ?thesis using n(1) by (simp add: slot_buffer_def) (simp add: buffer_Init_def)
qed

section \<open>The requests of a client\<close>

lemma upto_prefix:
  assumes "xs @ ys = [1..n]" shows "xs = [1..int (length xs)]"
proof (rule nth_equalityI)
  fix i assume i: "i < length xs"
  have "length (xs @ ys) = nat n" unfolding assms by simp
  with i have n: "1 + int i \<le> n" by simp
  have "xs ! i = (xs @ ys) ! i" using i by (simp add: nth_append)
  also have "\<dots> = 1 + int i" unfolding assms by (rule nth_upto [OF n])
  also have "\<dots> = [1..int (length xs)] ! i" using i by (intro nth_upto [symmetric]) simp
  finally show "xs ! i = [1..int (length xs)] ! i" .
qed simp

text \<open>C4: what a client sends is what the server works on.  Whatever the client has done from a state
  of its invariant on, and whatever the server has done, if all the bytes the client has sent arrive
  one after the other at a slot with an empty buffer, in any chunks of which each finds room (a
  chunk without room would be dropped as a whole by \<open>Write\<close>), then the queue of the packet thread
  gets exactly the client's packets, in the order of their numbers 1, 2, 3 and marked with the
  session of the slot; a slot without a session gets one from the first chunk.\<close>

theorem requests_reach_the_server:
  assumes "client_ok s0" and "client_steps (tm, s0) evs (tm', s)"
    and "is_shuffle sh" and "steps sh (new_Server g n) es v" and "c < length (clients v)"
    and "pending (slot_buffer c v) = []" and "concat cs = concat (sockSends s)" and "cs \<noteq> []"
    and "all_accepted (slot_buffer c) (slot_step now c) cs v"
  shows "\<exists>v' i. steps sh v (map (\<lambda>b. Completion now (Received c b)) cs) v' \<and>
    slot_ready c i v' \<and> (c_sessionIndex (clients v ! c) \<noteq> 0 \<longrightarrow> i = c_sessionIndex (clients v ! c)) \<and>
    Server.recvPackets v' = Server.recvPackets v @ map (received i) (sockSends s) \<and>
    pending (slot_buffer c v') = [] \<and>
    map seq_of (sockSends s) = [1..int (length (sockSends s))]"
proof -
  have "client_ok s" using client_ok_steps [OF assms(2)] assms(1) by simp
  then have r: "requests_ok s" by (rule client_okD)
  have v: "sessions_ok v" "stream_ok (slot_buffer c v)"
    using server_ok_steps [OF assms(4,3) server_ok_new] assms(5)
    by (auto simp: server_ok_def clients_ok_def connection_ok_def slot_buffer_def)
  let ?i = "c_sessionIndex (clients (introduced c v) ! c)"
  from r have pk: "list_all (is_packet PACKET_HEADER_LENGTH) (sockSends s)" by (simp add: requests_ok_def)
  from stream_is_received [OF v(1) assms(5,8) v(2) assms(6,7) pk assms(9), of sh] obtain q where
    q: "steps sh v (map (\<lambda>b. Completion now (Received c b)) cs)
          (slot_received c q (map (received ?i) (sockSends s)) (introduced c v))" "pending q = []" by blast
  note ready = introduced_ready [OF assms(5)]
  have "map seq_of (sockSends s) = [1..int (length (sockSends s))]"
    using r upto_prefix [of "map seq_of (sockSends s)" "map seq_of (map cp_data (sendPacketQueue s))"]
    by (simp add: requests_ok_def)
  moreover have "c_sessionIndex (clients v ! c) \<noteq> 0 \<longrightarrow> ?i = c_sessionIndex (clients v ! c)"
    by (simp add: introduced_def)
  moreover have "slot_ready c ?i (slot_received c q (map (received ?i) (sockSends s)) (introduced c v))"
    using ready(1) by (simp add: slot_ready_def)
  moreover have "c < length (clients (introduced c v))" using ready(1) by (simp add: slot_ready_def)
  ultimately show ?thesis using q ready(3)
    by (intro exI [of _ "slot_received c q (map (received ?i) (sockSends s)) (introduced c v)"] exI [of _ ?i])
       (simp add: slot_buffer_def)
qed

theorem requests_reach_the_server_witness:
  "\<exists>v' p. steps keep_order start_server [Completion 0 (Received 0 (take 5 p)), Completion 0 (Received 0 (drop 5 p))] v' \<and>
     Server.recvPackets v' = [received (c_sessionIndex (clients v' ! 0)) p] \<and> seq_of p = 1"
proof -
  let ?q = "login_packet_of (connected_client [])" and ?p = "cp_data (login_packet_of (connected_client []))"
  let ?s = "(connected_client [])\<lparr>cl_sequenceIndex := 1, sendPacketQueue := [?q]\<rparr>"
  note c = connected_client_login [of "[]"]
  have ok: "client_ok ?s"
    by (rule client_ok_Send [OF c(1) connected_client_ok]) simp
  let ?t = "SendThread True ?s"
  have t: "client_steps (tm, ?s) [Thread (Sending True)] (tm, ?t)" "sockSends ?t = [?p]" for tm
    using c(3,4,6) by (simp_all add: client_step_def thread_step_def SendThread_def Let_def)
  have one: "(0::nat) < 2" by simp
  let ?cs = "[take 5 ?p, drop 5 ?p]"
  have "accepts 9 (slot_buffer 0 w)" if "slot_step 0 0 (take 5 ?p) start_server = Some (Inr w)" for w
    using first_bytes [OF one _ that] c(2) by (simp add: accepts_def)
  then have acc: "all_accepted (slot_buffer 0) (slot_step 0 0) ?cs start_server"
    using new_server_slots(4) [OF one, of 5] c(2) by (simp split: option.split sum.split)
  from requests_reach_the_server [OF ok t(1) is_shuffle_keep_order steps.steps_refl new_server_slots(1,3) [OF one]
      _ _ acc] t(2)
  show ?thesis by (auto simp: slot_ready_def new_Server_def)
qed

section \<open>Login\<close>

text \<open>C13: a login completes between client and server.  A connected client with nothing to send asks
  for a login; its request arrives in one piece at a slot without a session, whose buffer is empty
  and has room for it, while no packet waits for the packet thread and no player that is left over
  has the number of the next session.  Then the server creates a player, a session that joins the
  player with the slot, and answers on the slot; and with this answer, whenever it comes, if nothing
  else happens on the client until then, the client's synchronous login returns, and the client knows
  the number of the session that the server has given to its slot.\<close>

theorem login_over_the_wire:
  assumes "client_ok s" and "cl_isConnect s" and "sendPacketQueue s = []"
    and "cl_Send PID_REQ_LOGIN sizeof_BASE enc_BASE default_BASE_PACKET s = Inr s1" and "sendPacketQueue s1 = [q]"
    and "is_shuffle sh" and "steps sh (new_Server g n) es v" and "c < length (clients v)"
    and "c_sessionIndex (clients v ! c) = 0" and "pending (slot_buffer c v) = []"
    and "accepts (int (length (cp_data q))) (slot_buffer c v)"
    and "Server.recvPackets v = []" and "next_is_new v"
  shows "\<exists>v' m. steps sh v [Completion now (Received c (cp_data q)), PacketStep] v' \<and>
    outgoing (clients v' ! c) = outgoing (clients v ! c) @ [\<lparr>wsaBuf = m, operation = SEND\<rparr>] \<and>
    heap v (nextAddress v) = None \<and>
    heap v' = (heap v)(nextAddress v \<mapsto>
      new_Player\<lparr>p_playerUID := int (first_null (allPlayers v)), p_sessionIndex := new_session v\<rparr>) \<and>
    FindPlayerBySessionIndex (new_session v) v' = Inr (Some (nextAddress v)) \<and>
    first_unused (sessions v) < length (sessions v') \<and>
    sessions v' ! first_unused (sessions v) =
      \<lparr>playerInfo = Some (nextAddress v), clientInfo = Some c, s_sessionIndex = new_session v, isUse = True\<rparr> \<and>
    c_sessionIndex (clients v' ! c) = new_session v \<and> length m = sizeof_RES_LOGIN \<and>
    (\<forall>k sched. quiet_until_answer k m (s\<lparr>schedule := sched\<rparr>) \<longrightarrow>
      (\<exists>t. SendSync PID_REQ_LOGIN sizeof_BASE enc_BASE default_BASE_PACKET sizeof_RES_LOGIN
             enc_RES_LOGIN dec_RES_LOGIN default_RES_LOGIN (s\<lparr>schedule := sched\<rparr>) =
               Some (Inr (dec_RES_LOGIN m, t)) \<and>
           cl_playerSessionIndex t = of_int (new_session v) \<and> curScene t = curScene s))"
proof -
  let ?n = "cl_sequenceIndex s + 1"
  from assms(2-5) have q: "q = request_packet PID_REQ_LOGIN sizeof_BASE enc_BASE default_BASE_PACKET
      (cl_playerSessionIndex s) (of_int ?n)" and seq: "?n < 2 ^ 31"
    by (auto simp: cl_Send_def bind_res_Inr_iff int32_res_Inr_iff)
  have req: "request_ok q" unfolding q by (rule requests_well_formed)
  have "login_bytes (cp_data q)"
    using req by (auto simp: login_bytes_def request_ok_def q request_packet_def)
  moreover have "server_ok v" using server_ok_steps [OF assms(7,6) server_ok_new] .
  ultimately obtain v' m where
    v': "steps sh v [Completion now (Received c (cp_data q)), PacketStep] v'"
      "outgoing (clients v' ! c) = outgoing (clients v ! c) @ [\<lparr>wsaBuf = m, operation = SEND\<rparr>]"
      "logged_in c v v'"
    and m: "is_packet PACKET_HEADER_LENGTH m" "length m = sizeof_RES_LOGIN"
      "dec_header m = answer_to sizeof_RES_LOGIN (dec_header (cp_data q))"
      "newSessionID (dec_RES_LOGIN m) = of_int (new_session v)"
    using login_served [OF _ assms(8-12) _ login_id_reachable [OF assms(7)] assms(13), where sh = sh and now = now]
    by blast
  have "packet_id PID_REQ_LOGIN + 1 = packet_id PID_RES_LOGIN" by (simp add: packet_id_def)
  then have "answer_ok sizeof_RES_LOGIN PID_RES_LOGIN ?n m"
    using m(1,2) req by (simp add: answer_ok_def m(3) answer_to_def request_ok_def) (simp add: q request_packet_def)
  moreover have "client_ok (s\<lparr>schedule := sched\<rparr>)" for sched
    using assms(1) by (simp add: client_ok_def requests_ok_def)
  ultimately have "\<exists>t. SendSync PID_REQ_LOGIN sizeof_BASE enc_BASE default_BASE_PACKET sizeof_RES_LOGIN
        enc_RES_LOGIN dec_RES_LOGIN default_RES_LOGIN (s\<lparr>schedule := sched\<rparr>) = Some (Inr (dec_RES_LOGIN m, t)) \<and>
      cl_playerSessionIndex t = of_int (new_session v) \<and> curScene t = curScene s"
    if "quiet_until_answer k m (s\<lparr>schedule := sched\<rparr>)" for k sched
    using login_completes [OF _ that] seq m(4) by simp
  with v'(1,2) v'(3) [unfolded logged_in_def] m(2) show ?thesis by blast
qed

theorem login_over_the_wire_witness:
  "\<exists>v' m t. steps keep_order start_server
       [Completion 0 (Received 1 (cp_data (login_packet_of (connected_client [])))), PacketStep] v' \<and>
     c_sessionIndex (clients v' ! 1) = 1 \<and>
     SendSync PID_REQ_LOGIN sizeof_BASE enc_BASE default_BASE_PACKET sizeof_RES_LOGIN enc_RES_LOGIN
       dec_RES_LOGIN default_RES_LOGIN (connected_client m) = Some (Inr (dec_RES_LOGIN m, t)) \<and>
     cl_playerSessionIndex t = 1"
proof -
  let ?s = "connected_client []" and ?q = "login_packet_of (connected_client [])"
  note c = connected_client_login [of "[]"]
  have q: "sendPacketQueue (?s\<lparr>cl_sequenceIndex := 1, sendPacketQueue := [?q]\<rparr>) = [?q]" by simp
  have new: "next_is_new start_server" "Server.recvPackets start_server = []" "new_session start_server = 1"
    by (simp_all add: next_is_new_def new_session_def new_Server_def)
  have acc: "accepts (int (length (cp_data ?q))) (slot_buffer 1 start_server)"
    using c(2) by (intro new_server_slots(4)) simp_all
  have one: "(1::nat) < 2" by simp
  obtain v' m where v': "steps keep_order start_server [Completion 0 (Received 1 (cp_data ?q)), PacketStep] v'"
    "c_sessionIndex (clients v' ! 1) = new_session start_server" "length m = sizeof_RES_LOGIN"
    and sync: "\<forall>k sched. quiet_until_answer k m (?s\<lparr>schedule := sched\<rparr>) \<longrightarrow>
      (\<exists>t. SendSync PID_REQ_LOGIN sizeof_BASE enc_BASE default_BASE_PACKET sizeof_RES_LOGIN
             enc_RES_LOGIN dec_RES_LOGIN default_RES_LOGIN (?s\<lparr>schedule := sched\<rparr>) =
               Some (Inr (dec_RES_LOGIN m, t)) \<and>
           cl_playerSessionIndex t = of_int (new_session start_server) \<and> curScene t = curScene ?s)"
    using login_over_the_wire [OF connected_client_ok c(3,5,1) q is_shuffle_keep_order steps.steps_refl
        new_server_slots(1-3) [OF one] acc new(2,1), of 0] by blast
  let ?sched = "\<lambda>k. if k = 2 then [Sending True, Arrived m] else []"
  have m: "?s\<lparr>schedule := ?sched\<rparr> = connected_client m" by (simp add: connected_client_def new_Client_def)
  have "quiet_until_answer 2 m (connected_client m)"
    by (rule connected_client_quiet) (simp add: v'(3) sizeof_RES_LOGIN_def)
  with sync [THEN spec, of 2, THEN spec, of ?sched] v'(1,2) new(3) show ?thesis unfolding m by auto
qed

section \<open>The messages of the server\<close>

text \<open>C5: what the server sends is what a client works on.  Whatever the server has done, if the bytes
  it has given to \<open>WSASend\<close> for a slot arrive at a client with an empty buffer, in any chunks of which
  each finds room (a chunk without room would be dropped as a whole by \<open>Write\<close>), then none of them is dropped and none is refused: the client's queues get exactly the
  messages of the server, the notifications in their order and the answers by their numbers, and
  no byte is left in the buffer.\<close>

theorem messages_reach_the_client:
  assumes "steps sh (new_Server g n) es v" and "c < length (clients v)"
    and "stream_ok (cl_packetBuffer t)" and "pending (cl_packetBuffer t) = []" and "pq_ok (recvPackets t)"
    and "concat ds = concat (map wsaBuf (wsaSends (clients v ! c)))"
    and "all_accepted cl_packetBuffer RecvThread_bytes ds t"
  shows "\<exists>t' ms. ms = map wsaBuf (wsaSends (clients v ! c)) \<and> fold_run RecvThread_bytes ds t = Some (Inr t') \<and>
    notifyPackets t' = notifyPackets t @ map packet_of (filter is_notification ms) \<and>
    mset (recvPackets t') = mset (recvPackets t) + mset (map packet_of (filter (\<lambda>p. \<not> is_notification p) ms)) \<and>
    pq_ok (recvPackets t') \<and> pending (cl_packetBuffer t') = []"
proof -
  let ?ms = "map wsaBuf (wsaSends (clients v ! c))"
  have "list_all (is_packet PACKET_HEADER_LENGTH) ?ms" using reachable_messages [OF assms(1,2)] by simp
  from peer.reads_stream [OF _ assms(3) _ this _ _ assms(7), of "[]"] assms(4,6) obtain q where
    q: "fold_run RecvThread_bytes ds t = Some (Inr (take_packets ?ms q t))" "pending q = []"
    by (auto simp: partial_packet_def)
  with assms(5) fold_take_packet [where fs = ?ms and t = t] show ?thesis by (simp add: take_packets_def)
qed

theorem messages_reach_the_client_witness:
  "\<exists>v' es m t'. steps keep_order start_server es v' \<and> length m = sizeof_RES_LOGIN \<and>
     wsaSends (clients v' ! 1) = [\<lparr>wsaBuf = m, operation = SEND\<rparr>] \<and>
     fold_run RecvThread_bytes [m] fresh_player = Some (Inr t') \<and>
     recvPackets t' = [packet_of m] \<and> notifyPackets t' = []"
proof -
  let ?q = "login_packet_of (connected_client [])" and ?p = "cp_data (login_packet_of (connected_client []))"
  have one: "(1::nat) < 2" by simp
  have req: "login_bytes ?p" "sequenceIndex (dec_header ?p) = 1"
    using requests_well_formed(1) by (auto simp: login_packet_of_def login_bytes_def request_ok_def)
      (auto simp: request_packet_def connected_client_def new_Client_def)
  have new: "next_is_new start_server" "Server.recvPackets start_server = []"
    by (simp_all add: next_is_new_def new_session_def new_Server_def)
  have acc: "accepts (int (length ?p)) (slot_buffer 1 start_server)"
    using connected_client_login(2) by (intro new_server_slots(4)) simp_all
  obtain u m where u: "steps keep_order start_server [Completion 0 (Received 1 ?p), PacketStep] u"
    "length (clients u) = length (clients start_server)"
    "outgoing (clients u ! 1) = [\<lparr>wsaBuf = m, operation = SEND\<rparr>]" "length m = sizeof_RES_LOGIN"
    "dec_header m = answer_to sizeof_RES_LOGIN (dec_header ?p)"
    using login_served [OF server_ok_new new_server_slots(1-3) [OF one] acc new(2) req(1)
        login_id_reachable [OF steps.steps_refl] new(1), of keep_order 0] new_server_slots(5) [OF one] by auto
  have "1 < length (clients u)" using u(2) new_server_slots(1) [OF one] by simp
  from sends_complete [OF this, of keep_order 0] obtain k x where
    k: "steps keep_order u (replicate k (Completion 0 (Sent 1))) (u\<lparr>clients := (clients u)[1 := x]\<rparr>)"
      "wsaSends x = outgoing (clients u ! 1)" by blast
  let ?v = "u\<lparr>clients := (clients u)[1 := x]\<rparr>"
  note run = steps_append [OF k(1) u(1)]
  have v: "wsaSends (clients ?v ! 1) = [\<lparr>wsaBuf = m, operation = SEND\<rparr>]" "1 < length (clients ?v)"
    using k(2) u(3) \<open>1 < length (clients u)\<close> by simp_all
  have "\<not> is_notification m" using u(5) req(2) by (simp add: is_notification_def answer_to_def)
  moreover have "pq_ok (recvPackets fresh_player)" "notifyPackets fresh_player = []" "recvPackets fresh_player = []"
    by (simp_all add: fresh_player_def new_Client_def pq_ok_def)
  moreover have "all_accepted cl_packetBuffer RecvThread_bytes [m] fresh_player"
    using fresh_player_buffer(3) [of "length m"] u(4)
    by (simp add: sizeof_RES_LOGIN_def split: option.split sum.split)
  ultimately show ?thesis
    using messages_reach_the_client [OF run v(2) fresh_player_buffer(1,2), of "[m]"] v(1) u(4) run
    by auto
qed

end
