(* ===== verification/ClientReceive.thy ===== *)
theory ClientReceive
  imports ClientNet
begin

text \<open>
  \<open>RecvThread\<close> and the destructor of \<open>IOCPTetrisClient/System/Server.cpp\<close> at the level of the system
  calls.  The socket is associated with a completion port that the program leaves in its default
  mode: every receive that succeeds, also one that \<open>WSARecv\<close> has completed at once, and every
  receive that is cancelled, queues a completion on the port.

  \<^item> \<open>rp_buf\<close> is the thread's array \<open>buf\<close>, into which all receives write; \<open>rp_posted\<close> counts the
    receives that are still to be completed; \<open>rp_done\<close> is the port's queue, for each completion
    whether it succeeded and its number of bytes; \<open>rp_waiting\<close> tells that the thread is inside
    \<open>GetQueuedCompletionStatus\<close>.
  \<^item> The events of \<open>ClientNet\<close> for the receiving thread are what an iteration looks like when no
    receive is completed at once (\<open>ReceiveClaims\<close>).
\<close>

section \<open>The thread and its completion port\<close>

record Receiver =
  rp_buf :: bytes
  rp_posted :: nat
  rp_done :: "(bool \<times> nat) list"
  rp_waiting :: bool

definition new_Receiver :: Receiver where
  "new_Receiver = \<lparr>rp_buf = replicate 1024 0, rp_posted = 0, rp_done = [], rp_waiting = False\<rparr>"

text \<open>What \<open>WSARecv\<close> answers: the bytes, at once; that the receive is pending; another error.\<close>

datatype recv_answer = Immediate bytes | IoPending | RecvFailed

definition fill :: "bytes \<Rightarrow> Receiver \<Rightarrow> Receiver" where
  "fill bs r = r\<lparr>rp_buf := bs @ drop (length bs) (rp_buf r), rp_done := rp_done r @ [(True, length bs)]\<rparr>"

text \<open>The system: bytes arrive and complete the oldest receive; bytes for which there is none stay in
  the socket, until a receive is completed at once.  A connection that is reset and \<open>closesocket\<close>
  cancel all receives.\<close>

definition data_in :: "bytes \<Rightarrow> Receiver \<Rightarrow> Receiver" where
  "data_in bs r = (if rp_posted r = 0 then r else fill bs (r\<lparr>rp_posted := rp_posted r - 1\<rparr>))"

definition cancel_receives :: "Receiver \<Rightarrow> Receiver" where
  "cancel_receives r = r\<lparr>rp_done := rp_done r @ replicate (rp_posted r) (False, 0), rp_posted := 0\<rparr>"

text \<open>The loop from its head up to the call of \<open>GetQueuedCompletionStatus\<close>; a completed receive goes
  straight to the packet buffer.\<close>

definition recv_post :: "recv_answer \<Rightarrow> Receiver \<times> Client \<Rightarrow> (Receiver \<times> Client) run" where
  "recv_post a = (\<lambda>(r, s).
     if rp_waiting r \<or> \<not> cl_isRun s \<or> \<not> cl_isConnect s then Some (Inr (r, s))
     else case a of
       Immediate bs \<Rightarrow>
         bind_run (RecvThread_bytes (take (length bs) (rp_buf (fill bs r))) s) (\<lambda>t. Some (Inr (fill bs r, t)))
     | IoPending \<Rightarrow> Some (Inr (r\<lparr>rp_posted := rp_posted r + 1, rp_waiting := True\<rparr>, s))
     | RecvFailed \<Rightarrow> Some (Inr (cancel_receives r, Close s)))"

text \<open>The loop from there on: the first completion of the port, whichever receive it belongs to.\<close>

definition recv_wake :: "Receiver \<times> Client \<Rightarrow> (Receiver \<times> Client) run" where
  "recv_wake = (\<lambda>(r, s).
     if \<not> rp_waiting r then Some (Inr (r, s))
     else case rp_done r of
       [] \<Rightarrow> Some (Inr (r, s))
     | (bSuccess, n) # rest \<Rightarrow>
         let r' = r\<lparr>rp_done := rest, rp_waiting := False\<rparr>
         in if \<not> bSuccess \<and> n = 0 then Some (Inr (r', s\<lparr>cl_isRun := False\<rparr>))
            else bind_run (RecvThread_bytes (take n (rp_buf r')) s) (\<lambda>t. Some (Inr (r', t))))"

datatype receiver_event = Post recv_answer | Wake | DataIn bytes | Reset | Closed

definition receiver_step :: "receiver_event \<Rightarrow> Receiver \<times> Client \<Rightarrow> (Receiver \<times> Client) run" where
  "receiver_step ev x =
     (case ev of
        Post a \<Rightarrow> recv_post a x
      | Wake \<Rightarrow> recv_wake x
      | DataIn bs \<Rightarrow> Some (Inr (data_in bs (fst x), snd x))
      | Reset \<Rightarrow> Some (Inr (cancel_receives (fst x), snd x))
      | Closed \<Rightarrow> Some (Inr (cancel_receives (fst x), Close (snd x))))"

section \<open>The destructor\<close>

text \<open>\<open>recvThread.join()\<close>: a thread that waits gets its completion, and the next test of \<open>isRun\<close> ends
  the loop; without a completion \<open>join\<close> does not return.  \<open>SendThread\<close> never waits for long, and
  \<open>handlerThread\<close> is not started.\<close>

definition join_recv :: "Receiver \<times> Client \<Rightarrow> (Receiver \<times> Client) run" where
  "join_recv = (\<lambda>(r, s).
     if rp_waiting r \<and> rp_done r = [] then None else recv_wake (r, s))"

definition destroy_Server :: "Receiver \<times> Client \<Rightarrow> (Receiver \<times> Client) run" where
  "destroy_Server = (\<lambda>(r, s).
     let r1 = (if cl_isConnect s then cancel_receives r else r);
         s1 = (Shutdown s)\<lparr>cl_isRun := False\<rparr>
     in join_recv (r1, s1))"

end
