(* ===== verification/ReceiveClaims.thy ===== *)
theory ReceiveClaims
  imports GameTraffic ClientClaims ClientReceive
begin

text \<open>
  The receiving thread of the client and its completion port: when every receive is pending first,
  its iterations are the events of \<open>ClientNet\<close>; a receive that is completed at once is read twice.
\<close>

section \<open>Pending receives\<close>

definition idle :: "Receiver \<Rightarrow> bool" where
  "idle r \<longleftrightarrow> rp_posted r = 0 \<and> rp_done r = [] \<and> \<not> rp_waiting r"

definition live :: "Client \<Rightarrow> bool" where
  "live s \<longleftrightarrow> cl_isRun s \<and> cl_isConnect s"

lemma RecvThread_bytes_live:
  assumes "RecvThread_bytes b s = Some (Inr t)"
  shows "cl_isRun t = cl_isRun s" "cl_isConnect t = cl_isConnect s" "live t = live s"
proof -
  have q: "cl_isRun v = cl_isRun u \<and> cl_isConnect v = cl_isConnect u" if "queue_packet p u = Inr v" for p u v
    using that by (auto simp: queue_packet_def Let_def split: if_splits)
  from assms obtain c s1 where r: "Receive Read write_chunk queue_packet b (cl_packetBuffer s) s = Some (Inr (c, s1))"
    and t: "t = s1\<lparr>cl_packetBuffer := c\<rparr>"
    by (auto simp: RecvThread_bytes_def bind_run_Inr_iff)
  then obtain d where "ReadLoop Read queue_packet d s = Some (Inr (c, s1))"
    by (auto simp: Receive_def split: sum.splits)
  then have "cl_isRun s1 = cl_isRun s \<and> cl_isConnect s1 = cl_isConnect s"
    by (rule ReadLoop_state [where P = "\<lambda>u. cl_isRun u = cl_isRun s \<and> cl_isConnect u = cl_isConnect s"])
      (simp_all add: q)
  then show "cl_isRun t = cl_isRun s" "cl_isConnect t = cl_isConnect s" by (simp_all add: t)
  then show "live t = live s" by (simp add: live_def)
qed

definition round_of :: "bytes \<Rightarrow> receiver_event list" where
  "round_of b = [Post IoPending, DataIn b, Wake]"

lemma fold_run_append: "fold_run f (xs @ ys) s = bind_run (fold_run f xs s) (fold_run f ys)"
  by (induction xs arbitrary: s) (simp_all add: bind_run_def split: option.split sum.split Option.bind_split)

lemma pending_round:
  assumes "idle r" and "live s"
  shows "fold_run receiver_step (round_of b) (r, s) =
    bind_run (RecvThread_bytes b s) (\<lambda>t. Some (Inr (r\<lparr>rp_buf := b @ drop (length b) (rp_buf r)\<rparr>, t)))"
proof -
  have nil: "fold_run receiver_step [] = (\<lambda>x. Some (Inr x))" by (rule ext) simp
  have "bind_run (bind_run m f) (\<lambda>x. Some (Inr x)) = bind_run m f"
    for m :: "Client run" and f :: "Client \<Rightarrow> (Receiver \<times> Client) run"
    by (simp add: bind_run_def split: option.split sum.split Option.bind_split)
  with assms show ?thesis
    by (cases r) (simp add: round_of_def receiver_step_def recv_post_def recv_wake_def data_in_def fill_def
        idle_def live_def Let_def nil del: fold_run.simps(1))
qed

text \<open>So whole runs of such iterations are runs of the abstract thread, and the other two events are
  what a reset or a failing receive does.\<close>

lemma pending_rounds:
  assumes "idle r" and "live s" and "fold_run RecvThread_bytes bs s = Some (Inr t)"
  shows "\<exists>r'. idle r' \<and> fold_run receiver_step (concat (map round_of bs)) (r, s) = Some (Inr (r', t))"
  using assms
proof (induction bs arbitrary: r s)
  case (Cons b bs)
  then obtain u where u: "RecvThread_bytes b s = Some (Inr u)" "fold_run RecvThread_bytes bs u = Some (Inr t)"
    by (auto simp: bind_run_Inr_iff)
  let ?r = "r\<lparr>rp_buf := b @ drop (length b) (rp_buf r)\<rparr>"
  have "idle ?r" "live u" using Cons.prems(1,2) RecvThread_bytes_live(3) [OF u(1)] by (simp_all add: idle_def)
  from Cons.IH [OF this u(2)] show ?case
    by (simp add: fold_run_append pending_round [OF Cons.prems(1,2)] u(1))
qed auto

lemma end_of_connection:
  assumes "idle r" and "live s"
  shows "fold_run receiver_step [Post IoPending, Reset, Wake] (r, s) = bind_run (thread_step PeerClosed s) (\<lambda>t. Some (Inr (r, t)))"
    "receiver_step (Post RecvFailed) (r, s) = bind_run (thread_step RecvError s) (\<lambda>t. Some (Inr (r, t)))"
  using assms by (cases r; simp add: receiver_step_def recv_post_def recv_wake_def cancel_receives_def idle_def
      live_def Let_def thread_step_def)+

text \<open>A connection that the server closes in order completes a receive with no bytes: nothing in the
  client changes, and the thread goes on with the next receive.\<close>

lemma orderly_close_is_not_noticed:
  assumes "stream_ok (cl_packetBuffer s)" and "accepts 0 (cl_packetBuffer s)"
    and "partial_packet PACKET_HEADER_LENGTH (pending (cl_packetBuffer s))" and "idle r" and "live s"
  shows "\<exists>r' t. fold_run receiver_step (round_of []) (r, s) = Some (Inr (r', t)) \<and> idle r' \<and> live t \<and>
    recvPackets t = recvPackets s \<and> notifyPackets t = notifyPackets s \<and>
    pending (cl_packetBuffer t) = pending (cl_packetBuffer s)"
proof -
  from peer.step_packets [OF _ assms(1), of "[]" "[]"] assms(2,3) obtain q where
    "RecvThread_bytes [] s = Some (Inr (take_packets [] q s))" "pending q = pending (cl_packetBuffer s)" by auto
  with pending_round [OF assms(4,5), of "[]"] assms(4,5) show ?thesis
    by (auto simp: take_packets_def idle_def live_def)
qed

section \<open>Receives that are completed at once\<close>

text \<open>How many completions the thread is behind: an immediate completion is never caught up.\<close>

definition behind :: "Receiver \<Rightarrow> int" where
  "behind r = int (rp_posted r + length (rp_done r)) - of_bool (rp_waiting r)"

definition receiver_ok :: "Receiver \<times> Client \<Rightarrow> bool" where
  "receiver_ok x \<longleftrightarrow> 0 \<le> behind (fst x) \<and> (cl_isConnect (snd x) \<or> rp_posted (fst x) = 0)"

lemma behind_system [simp]:
  "rp_posted (cancel_receives r) = 0" "rp_posted r = 0 \<Longrightarrow> rp_posted (data_in bs r) = 0"
  "behind (data_in bs r) = behind r" "behind (cancel_receives r) = behind r"
  by (auto simp: behind_def data_in_def fill_def cancel_receives_def)

lemma receiver_step_behind:
  assumes "receiver_step ev (r, s) = Some (Inr (r', s'))"
  shows "behind r \<le> behind r'" "(\<forall>bs. ev \<noteq> Post (Immediate bs)) \<Longrightarrow> behind r' = behind r"
    "receiver_ok (r, s) \<Longrightarrow> receiver_ok (r', s')"
proof -
  have post: "behind r \<le> behind r' \<and> ((\<forall>bs. a \<noteq> Immediate bs) \<longrightarrow> behind r' = behind r) \<and>
      (rp_posted r = 0 \<or> cl_isConnect s \<longrightarrow> rp_posted r' = 0 \<or> cl_isConnect s')"
    if "recv_post a (r, s) = Some (Inr (r', s'))" for a
    using that
    by (cases a) (auto simp: recv_post_def behind_def fill_def cancel_receives_def Close_def bind_run_Inr_iff
        RecvThread_bytes_live split: if_splits)
  have wake: "behind r' = behind r \<and> rp_posted r' = rp_posted r \<and> cl_isConnect s' = cl_isConnect s"
    if "recv_wake (r, s) = Some (Inr (r', s'))"
    using that
    by (auto simp: recv_wake_def behind_def bind_run_Inr_iff Let_def RecvThread_bytes_live
        split: if_splits list.splits)
  have "behind r \<le> behind r' \<and> ((\<forall>bs. ev \<noteq> Post (Immediate bs)) \<longrightarrow> behind r' = behind r) \<and>
      (rp_posted r = 0 \<or> cl_isConnect s \<longrightarrow> rp_posted r' = 0 \<or> cl_isConnect s')"
    using assms post wake
    by (cases ev) (auto simp: receiver_step_def)
  then show "behind r \<le> behind r'" "(\<forall>bs. ev \<noteq> Post (Immediate bs)) \<Longrightarrow> behind r' = behind r"
    "receiver_ok (r, s) \<Longrightarrow> receiver_ok (r', s')"
    by (auto simp: receiver_ok_def)
qed

text \<open>From a receive that is completed at once on, the thread works on every completion one receive
  too early: it reads the same bytes again while the receive that it has posted is still open.\<close>

lemma immediate_round:
  assumes "idle r" and "live s"
  shows "fold_run receiver_step [Post (Immediate b), Post IoPending, Wake] (r, s) =
    bind_run (fold_run RecvThread_bytes [b, b] s)
      (\<lambda>t. Some (Inr (r\<lparr>rp_buf := b @ drop (length b) (rp_buf r), rp_posted := 1\<rparr>, t)))"
proof (cases "RecvThread_bytes b s")
  case (Some x)
  show ?thesis
  proof (cases x)
    case (Inr t)
    have "live t" using RecvThread_bytes_live(3) [of b s t] Some Inr assms(2) by simp
    with Some Inr assms show ?thesis
      by (cases r; cases "RecvThread_bytes b t")
        (auto simp: receiver_step_def recv_post_def recv_wake_def fill_def idle_def live_def Let_def bind_run_def
          split: sum.splits)
  qed (use Some assms in \<open>simp add: receiver_step_def recv_post_def fill_def idle_def live_def\<close>)
qed (use assms in \<open>simp add: receiver_step_def recv_post_def fill_def idle_def live_def\<close>)

lemma immediate_receive_repeats:
  assumes "idle r" and "live s" and "stream_ok (cl_packetBuffer s)" and "pending (cl_packetBuffer s) = []"
    and "list_all (is_packet PACKET_HEADER_LENGTH) ms"
    and "all_accepted cl_packetBuffer RecvThread_bytes [concat ms, concat ms] s"
  shows "\<exists>r' q. fold_run receiver_step [Post (Immediate (concat ms)), Post IoPending, Wake] (r, s) =
      Some (Inr (r', take_packets (ms @ ms) q s)) \<and> rp_posted r' = 1 \<and> \<not> rp_waiting r'"
proof -
  from peer.reads_stream [OF _ assms(3), of "[concat ms, concat ms]" "ms @ ms" "[]"] assms(4-6) obtain q where
    "fold_run RecvThread_bytes [concat ms, concat ms] s = Some (Inr (take_packets (ms @ ms) q s))"
    by (auto simp: partial_packet_def)
  with immediate_round [OF assms(1,2), of "concat ms"] assms(1) show ?thesis by (auto simp: idle_def)
qed

section \<open>An answer that is received at once\<close>

lemma HandlerThread_answer:
  assumes "HandlerThread s = Inr t" and "recvPackets s = p # ps" and "sendPackets s = [q]"
    and "cp_SequenceIndex q = cp_SequenceIndex p" and "notifyPackets s = []"
  shows "recvPackets t = ps" "sendPackets t = []" "notifyPackets t = []"
proof -
  obtain k s2 s3 where
    set: "SetRequest k q (s\<lparr>sendPackets := [], recvPackets := ps\<rparr>) = Inr s2"
    and run: "handler_Response k p s2 = Inr s3" and t: "handle_notify (finish_sync p s3) = Inr t"
    using assms by (auto simp: HandlerThread_def handle_response_def pq_top_def pq_pop_def bind_res_Inr_iff Let_def)
  have "recvPackets s2 = ps" "sendPackets s2 = []" "notifyPackets s2 = []"
    using set assms(5) by (auto simp: SetRequest_def bind_res_Inr_iff)
  then have "recvPackets (finish_sync p s3) = ps" "sendPackets (finish_sync p s3) = []"
    "notifyPackets (finish_sync p s3) = []"
    using scene_changeD [OF handler_frame [OF run]] by (simp_all add: finish_sync_def)
  moreover from this(3) t have "t = finish_sync p s3" by (simp add: handle_notify_def)
  ultimately show "recvPackets t = ps" "sendPackets t = []" "notifyPackets t = []" by simp_all
qed

text \<open>C35: an answer that is there when \<open>WSARecv\<close> is called stops the client.  With a pending receive
  the answer to the only outstanding request is queued once, handled once, and the next frame finds
  nothing to do.  But when the same bytes complete the receive at once, the thread reads them a
  second time from the completion port: the answer is queued twice, and after the first has been
  handled the next frame takes the top of the empty queue of requests.\<close>

theorem answer_completed_at_once_stops_the_client:
  assumes "idle r" and "live s" and "stream_ok (cl_packetBuffer s)" and "pending (cl_packetBuffer s) = []"
    and "is_packet PACKET_HEADER_LENGTH a" and "sequenceIndex (dec_header a) \<noteq> 0"
    and "all_accepted cl_packetBuffer RecvThread_bytes [a, a] s"
    and "sendPackets s = [q]" and "cp_SequenceIndex q = sequenceIndex (dec_header a)"
    and "recvPackets s = []" and "notifyPackets s = []"
  shows "\<exists>r1 u1 r2 u2.
    fold_run receiver_step [Post IoPending, DataIn a, Wake] (r, s) = Some (Inr (r1, u1)) \<and>
    fold_run receiver_step [Post (Immediate a), Post IoPending, Wake] (r, s) = Some (Inr (r2, u2)) \<and>
    recvPackets u1 = [packet_of a] \<and> (\<forall>t. HandlerThread u1 = Inr t \<longrightarrow> HandlerThread t = Inr t) \<and>
    recvPackets u2 = [packet_of a, packet_of a] \<and> sendPackets u2 = [q] \<and> notifyPackets u2 = [] \<and>
    (\<forall>t. HandlerThread u2 = Inr t \<longrightarrow> HandlerThread t = Inl EmptyContainer)"
proof -
  have take: "take_packets [a] b s = s\<lparr>recvPackets := [packet_of a], cl_packetBuffer := b\<rparr>"
    "take_packets [a, a] b s = s\<lparr>recvPackets := [packet_of a, packet_of a], cl_packetBuffer := b\<rparr>" for b
    using assms(6,10) by (simp_all add: take_packets_def take_packet_def pq_push_def)
  have p: "cp_SequenceIndex q = cp_SequenceIndex (packet_of a)" using assms(9) by (simp add: packet_of_def)
  have acc: "accepts (int (length a)) (cl_packetBuffer s)" using assms(7) by simp
  from peer.step_packets [OF _ assms(3) acc, of "[a]" "[]"] assms(4,5) obtain b where
    "RecvThread_bytes a s = Some (Inr (take_packets [a] b s))" by (auto simp: partial_packet_def)
  then obtain r1 where r1: "fold_run receiver_step (round_of a) (r, s) = Some (Inr (r1, take_packets [a] b s))"
    using pending_round [OF assms(1,2), of a] by simp
  from immediate_receive_repeats [OF assms(1-4), of "[a]"] assms(5,7) obtain r2 c where
    r2: "fold_run receiver_step [Post (Immediate a), Post IoPending, Wake] (r, s) =
      Some (Inr (r2, take_packets [a, a] c s))" by auto
  have once: "HandlerThread t = Inr t" if "HandlerThread (take_packets [a] b s) = Inr t" for t
    using HandlerThread_answer [OF that _ _ p] assms(8,11) by (intro HandlerThread_idle) (simp_all add: take)
  have twice: "HandlerThread t = Inl EmptyContainer" if "HandlerThread (take_packets [a, a] c s) = Inr t" for t
    using HandlerThread_answer [OF that _ _ p] assms(8,11)
    by (simp add: take HandlerThread_def handle_response_def pq_top_def)
  have "recvPackets (take_packets [a] b s) = [packet_of a]"
    "recvPackets (take_packets [a, a] c s) = [packet_of a, packet_of a]"
    "sendPackets (take_packets [a, a] c s) = [q]" "notifyPackets (take_packets [a, a] c s) = []"
    using assms(8,11) by (simp_all add: take)
  with r1 [unfolded round_of_def] r2 once twice show ?thesis by blast
qed

text \<open>A client that has sent its login and waits for the answer.\<close>

definition waiting_client :: Client where
  "waiting_client = (connected_client [])\<lparr>sendPackets :=
     [request_packet PID_REQ_LOGIN sizeof_BASE enc_BASE default_BASE_PACKET 0 1]\<rparr>"

lemma login_answer_handled:
  assumes "answer_ok sizeof_RES_LOGIN PID_RES_LOGIN n a" and "recvPackets u = packet_of a # ps"
    and "sendPackets u = [request_packet pid sizeof_BASE enc_BASE (b :: BASE_PACKET) session (of_int n)]"
    and "notifyPackets u = []"
  shows "\<exists>t. HandlerThread u = Inr t \<and> cl_playerSessionIndex t = newSessionID (dec_RES_LOGIN a)"
proof -
  have small: "sizeof_RES_LOGIN < 128" by (simp add: sizeof_RES_LOGIN_def)
  have h: "handler_Response RES_Login (packet_of a) v = Inr (v\<lparr>cl_playerSessionIndex := newSessionID (dec_RES_LOGIN a)\<rparr>)" for v
    by (simp add: handler_Response_def Response_def checked_answer(1) [OF assms(1) small] on_ReqLogin_def)
  let ?q = "request_packet pid sizeof_BASE enc_BASE b session (of_int n)"
  have set: "SetRequest RES_Login ?q v = Inr v" for v
    by (simp add: SetRequest_def checked_def request_packet_def sizeof_BASE_def sizeof_Req_def)
  have id: "cp_SequenceIndex ?q = cp_SequenceIndex (packet_of a)"
    "map_of cl_handlers (cp_PacketId (packet_of a)) = Some RES_Login"
    using assms(1) by (simp_all add: answer_ok_def packet_of_def request_packet_def cl_handlers_def packet_id_def)
  let ?v = "u\<lparr>sendPackets := [], recvPackets := ps,
    cl_playerSessionIndex := newSessionID (dec_RES_LOGIN a)\<rparr>"
  have "handle_response u = Inr (finish_sync (packet_of a) ?v)"
    using assms(2,3) id by (simp add: handle_response_def pq_top_def pq_pop_def set h)
  moreover have "notifyPackets (finish_sync (packet_of a) ?v) = []"
    "cl_playerSessionIndex (finish_sync (packet_of a) ?v) = newSessionID (dec_RES_LOGIN a)"
    using assms(4) by (simp_all add: finish_sync_def)
  ultimately show ?thesis by (simp add: HandlerThread_def handle_notify_def)
qed

theorem answer_completed_at_once_stops_the_client_witness:
  "\<exists>r' u t. fold_run receiver_step
       [Post (Immediate (enc_RES_LOGIN login_answer)), Post IoPending, Wake] (new_Receiver, waiting_client) =
       Some (Inr (r', u)) \<and>
     HandlerThread u = Inr t \<and> cl_playerSessionIndex t = 7 \<and> HandlerThread t = Inl EmptyContainer"
proof -
  let ?a = "enc_RES_LOGIN login_answer"
  let ?q = "request_packet PID_REQ_LOGIN sizeof_BASE enc_BASE default_BASE_PACKET 0 1"
  note a = login_answer_ok(1) [unfolded answer_ok_def]
  have r: "idle new_Receiver" by (simp add: idle_def new_Receiver_def)
  have s: "live waiting_client" "stream_ok (cl_packetBuffer waiting_client)"
    "pending (cl_packetBuffer waiting_client) = []" "recvPackets waiting_client = []" "notifyPackets waiting_client = []"
    "sendPackets waiting_client = [?q]"
    by (simp_all add: waiting_client_def connected_client_def new_Client_def live_def stream_ok_def wf_buffer_Init
        PACKET_HEADER_LENGTH_def) (simp add: buffer_Init_def)
  have "writePos (cl_packetBuffer waiting_client) = 0" "bufferSize (cl_packetBuffer waiting_client) = 20000"
    by (simp_all add: waiting_client_def connected_client_def new_Client_def buffer_Init_def)
  then have acc: "all_accepted cl_packetBuffer RecvThread_bytes [?a, ?a] waiting_client"
    using a by (intro all_accepted_short [OF s(2)]) (simp add: sizeof_RES_LOGIN_def)
  have pk: "is_packet PACKET_HEADER_LENGTH ?a" "sequenceIndex (dec_header ?a) = 1" using a by simp_all
  then have seq: "sequenceIndex (dec_header ?a) \<noteq> 0" "cp_SequenceIndex ?q = sequenceIndex (dec_header ?a)"
    by (simp_all add: request_packet_def)
  from answer_completed_at_once_stops_the_client [OF r s(1-3) pk(1) seq(1) acc s(6) seq(2) s(4,5)] obtain r2 u where
    u: "fold_run receiver_step [Post (Immediate ?a), Post IoPending, Wake] (new_Receiver, waiting_client) = Some (Inr (r2, u))"
      "recvPackets u = [packet_of ?a, packet_of ?a]" "sendPackets u = [?q]" "notifyPackets u = []"
    and stops: "\<forall>t. HandlerThread u = Inr t \<longrightarrow> HandlerThread t = Inl EmptyContainer" by blast
  have "sendPackets u = [request_packet PID_REQ_LOGIN sizeof_BASE enc_BASE default_BASE_PACKET 0 (of_int 1)]"
    using u(3) by simp
  from login_answer_handled [OF login_answer_ok(1) u(2) this u(4)]
  have "\<exists>t. HandlerThread u = Inr t \<and> cl_playerSessionIndex t = newSessionID login_answer"
    by (simp only: login_answer_ok(2))
  moreover have "newSessionID login_answer = 7" by (simp add: login_answer_def)
  ultimately obtain t where "HandlerThread u = Inr t" "cl_playerSessionIndex t = 7" by auto
  with u(1) stops show ?thesis by blast
qed

section \<open>Shutting down\<close>

text \<open>In every state that the thread and the system can reach, the destructor returns, unless the
  bytes of a completion that is already queued send the packet buffer into its endless loop.\<close>

lemma receiver_ok_new: "receiver_ok (new_Receiver, s)"
  by (simp add: receiver_ok_def new_Receiver_def behind_def)

lemma receiver_ok_run:
  assumes "fold_run receiver_step evs x = Some (Inr y)" and "receiver_ok x"
  shows "receiver_ok y"
  by (rule fold_run_invariant [where P = receiver_ok, OF assms])
    (metis receiver_step_behind(3) surj_pair)

lemma recv_wake_None:
  assumes "recv_wake (r, s) = None"
  shows "\<exists>b n ns. rp_done r = (b, n) # ns \<and> (b \<or> n \<noteq> 0) \<and> RecvThread_bytes (take n (rp_buf r)) s = None"
  using assms
  by (auto simp: recv_wake_def Let_def bind_run_def Option.bind_eq_None_conv split: if_splits list.splits sum.splits)

lemma destroy_returns:
  assumes "receiver_ok (r, s)" and "destroy_Server (r, s) = None"
  shows "\<exists>b n ns. rp_done r = (b, n) # ns \<and>
    RecvThread_bytes (take n (rp_buf r)) ((Shutdown s)\<lparr>cl_isRun := False\<rparr>) = None"
proof -
  let ?r = "if cl_isConnect s then cancel_receives r else r" and ?s = "(Shutdown s)\<lparr>cl_isRun := False\<rparr>"
  have "rp_posted ?r = 0" "0 \<le> behind ?r" using assms(1) by (auto simp: receiver_ok_def)
  then have "rp_waiting ?r \<Longrightarrow> rp_done ?r \<noteq> []" by (auto simp: behind_def)
  with assms(2) have "recv_wake (?r, ?s) = None" by (auto simp: destroy_Server_def join_recv_def Let_def split: if_splits)
  from recv_wake_None [OF this] obtain b n ns where
    w: "rp_done ?r = (b, n) # ns" "b \<or> n \<noteq> 0" "RecvThread_bytes (take n (rp_buf ?r)) ?s = None" by blast
  have "rp_done r \<noteq> []"
    using w(1,2) by (cases "rp_posted r") (auto simp: cancel_receives_def split: if_splits)
  with w show ?thesis by (cases "rp_done r") (auto simp: cancel_receives_def split: if_splits)
qed

end
