(* ===== verification/Logger.thy ===== *)
theory Logger
  imports Prelude
begin

text \<open>
  The server's log: \<open>IOCPTetrisServer/Util/Logger.h\<close> and \<open>Logger.cpp\<close>.

  \<^item> log4cpp is reached through a category of a name and a priority; the model keeps what was handed
    to it, as long as it has not been shut down.
  \<^item> A format with its arguments is given as the text that it makes; \<open>vsprintf_s\<close> calls the
    invalid-parameter handler when the text and its end do not fit.
\<close>

section \<open>State\<close>

datatype priority = prio_debug | prio_info | prio_warn | prio_error | prio_fatal

record LogEntry =
  le_category :: string
  le_priority :: priority
  le_text :: string

record Log =
  log_debug_build :: bool
  log_open :: bool
  log_entries :: "LogEntry list"

text \<open>\<open>LoadConfig\<close> reads the configuration of log4cpp, \<open>Shutdown\<close> removes its appenders.\<close>

definition LoadConfig :: "Log \<Rightarrow> Log" where "LoadConfig l = l\<lparr>log_open := True\<rparr>"

definition Logger_Shutdown :: "Log \<Rightarrow> Log" where "Logger_Shutdown l = l\<lparr>log_open := False\<rparr>"

definition category_log :: "priority \<Rightarrow> string \<Rightarrow> string \<Rightarrow> Log \<Rightarrow> Log" where
  "category_log p category message l =
     (if log_open l
      then l\<lparr>log_entries := log_entries l @
             [\<lparr>le_category = category, le_priority = p, le_text = message\<rparr>]\<rparr>
      else l)"

section \<open>Messages\<close>

definition MAX_LOG_SIZE :: nat where "MAX_LOG_SIZE = 1024"

definition IsValidLogSize :: "string \<Rightarrow> bool" where
  "IsValidLogSize message = (MAX_LOG_SIZE > length message)"

definition Debug :: "string \<Rightarrow> string \<Rightarrow> Log \<Rightarrow> Log" where
  "Debug category message l =
     (if log_debug_build l then category_log prio_debug category message l else l)"

definition Info :: "string \<Rightarrow> string \<Rightarrow> Log \<Rightarrow> Log" where
  "Info category message l =
     (if IsValidLogSize message then category_log prio_info category message l
      else category_log prio_info category (take MAX_LOG_SIZE message) l)"

definition Warn :: "string \<Rightarrow> string \<Rightarrow> Log \<Rightarrow> Log" where
  "Warn category message l =
     (if IsValidLogSize message then category_log prio_warn category message l
      else category_log prio_warn category (take MAX_LOG_SIZE message) l)"

definition Error :: "string \<Rightarrow> string \<Rightarrow> Log \<Rightarrow> Log" where
  "Error category message l =
     (if IsValidLogSize message then category_log prio_error category message l
      else category_log prio_error category (take MAX_LOG_SIZE message) l)"

definition Fatal :: "string \<Rightarrow> string \<Rightarrow> Log \<Rightarrow> Log" where
  "Fatal category message l =
     (if IsValidLogSize message then category_log prio_fatal category message l
      else category_log prio_fatal category (take MAX_LOG_SIZE message) l)"

section \<open>Formatted messages\<close>

definition MakeStringFormat :: "string \<Rightarrow> string res" where
  "MakeStringFormat rendered =
     (if length rendered < MAX_LOG_SIZE - 1 then Inr rendered else Inl InvalidParameter)"

definition Debug_format :: "string \<Rightarrow> string \<Rightarrow> Log \<Rightarrow> Log res" where
  "Debug_format category rendered l =
     (if log_debug_build l
      then bind_res (MakeStringFormat rendered) (\<lambda>message. Inr (Debug category message l))
      else Inr l)"

definition Info_format :: "string \<Rightarrow> string \<Rightarrow> Log \<Rightarrow> Log res" where
  "Info_format category rendered l =
     bind_res (MakeStringFormat rendered) (\<lambda>message. Inr (Info category message l))"

definition Warn_format :: "string \<Rightarrow> string \<Rightarrow> Log \<Rightarrow> Log res" where
  "Warn_format category rendered l =
     bind_res (MakeStringFormat rendered) (\<lambda>message. Inr (Warn category message l))"

definition Error_format :: "string \<Rightarrow> string \<Rightarrow> Log \<Rightarrow> Log res" where
  "Error_format category rendered l =
     bind_res (MakeStringFormat rendered) (\<lambda>message. Inr (Error category message l))"

definition Fatal_format :: "string \<Rightarrow> string \<Rightarrow> Log \<Rightarrow> Log res" where
  "Fatal_format category rendered l =
     bind_res (MakeStringFormat rendered) (\<lambda>message. Inr (Fatal category message l))"

section \<open>What is written\<close>

text \<open>A message is written cut to the maximal length, whichever branch it takes.\<close>

lemma Info_writes:
  "log_open l \<Longrightarrow> log_entries (Info category message l) =
     log_entries l @ [\<lparr>le_category = category, le_priority = prio_info,
       le_text = take MAX_LOG_SIZE message\<rparr>]"
  by (simp add: Info_def IsValidLogSize_def category_log_def)

lemma Info_closed: "\<not> log_open l \<Longrightarrow> Info category message l = l"
  by (simp add: Info_def category_log_def)

lemma Info_open [simp]: "log_open (Info category message l) = log_open l"
  by (simp add: Info_def category_log_def)

text \<open>A formatted message is never cut: one that is too long stops the program first.\<close>

lemma Info_format_cases:
  "Info_format category rendered l =
     (if length rendered < 1023
      then Inr (category_log prio_info category rendered l) else Inl InvalidParameter)"
  by (simp add: Info_format_def MakeStringFormat_def Info_def IsValidLogSize_def MAX_LOG_SIZE_def)

text \<open>A call with a literal takes the overload with a format; a short one is written as it is.\<close>

lemma Info_literal: "length message < 1023 \<Longrightarrow> Info_format category message l = Inr (Info category message l)"
  by (simp add: Info_format_def MakeStringFormat_def MAX_LOG_SIZE_def)

end
