(* ===== verification/ServerLife.thy ===== *)
theory ServerLife
  imports IOServer Logger
begin

text \<open>
  Start and shutdown of the server: \<open>main.cpp\<close>, \<open>ServerManager\<close>, \<open>IOCPServer::Init\<close>, \<open>Start\<close> and
  \<open>Shutdown\<close>, the thread of \<open>PacketManager\<close>, and what the threads do in between.

  \<^item> \<open>Host\<close> is the object \<open>IOCPTetrisServer\<close> with the managers of \<open>Game\<close> (the record \<open>Server\<close>), its
    configuration and handles, its packet manager, and the threads that have been started and not
    joined.  \<open>freed\<close> tells that the client slots have been deleted.
  \<^item> A thread is joined when its loop has ended; a \<open>join\<close> of a thread whose loop cannot end does
    not return.  A worker waits at the completion port without a limit, so it sees that \<open>isRun\<close> is
    gone only when the port is closed.
  \<^item> Between two commands the threads work (\<open>serve\<close>): each step of the server is one of \<open>IOServer\<close>, and a
    completion is taken by one of the workers.  Where the loop over \<open>ReadPacket\<close> does not end, as
    after a packet with the length byte 0, the worker stays in it (\<open>h_reading\<close>), reads one packet
    in each \<open>Turn\<close>, takes no other completion and cannot be joined.  No further receive is
    posted for the slot it reads from.
  \<^item> A step that fails, by an exception that nobody catches or by leaving an object, ends the
    process; it is the result of \<open>main\<close>.
  \<^item> \<open>Network\<close> holds the results of the calls of Winsock at the start.  \<open>wsa\<close> counts the starts of
    Winsock that are not yet cleaned up.
\<close>

section \<open>Configuration and system\<close>

datatype ServerType = ServerType_NONE | MAINGAMESERVER

record ServerConfig =
  worldName :: string
  serverName :: string
  cfg_port :: "16 word"
  serverType :: ServerType
  maxSockBuf :: int
  workerQueueSize :: int
  listenQueueSize :: int
  clientQueueSize :: int

definition default_ServerConfig :: ServerConfig where
  "default_ServerConfig =
     \<lparr>worldName = [], serverName = [], cfg_port = 0, serverType = ServerType_NONE, maxSockBuf = 0,
      workerQueueSize = 0, listenQueueSize = 0, clientQueueSize = 0\<rparr>"

record Network =
  wsa_started :: bool
  listener_made :: bool
  listener_bound :: bool
  listening :: bool
  port_made :: bool
  listener_on_port :: bool
  fresh_bytes :: "nat \<Rightarrow> 8 word"

datatype ServerThread = Accepting | Working nat | Processing | Packeting

text \<open>A worker in a loop over \<open>ReadPacket\<close> that goes on and on, with the buffer of the slot.\<close>

record Reading =
  r_worker :: nat
  r_slot :: nat
  r_buffer :: PacketBuffer

record Host =
  h_server :: Server
  h_config :: ServerConfig
  h_listener :: bool
  h_port :: bool
  h_threads :: "ServerThread list"
  freed :: bool
  pm_isRun :: bool
  sendPackets :: "PacketInfo list"
  h_reading :: "Reading list"

section \<open>The packet manager\<close>

definition PacketManager_Init :: "Host \<Rightarrow> Host" where
  "PacketManager_Init h = h\<lparr>pm_isRun := True, h_threads := h_threads h @ [Packeting]\<rparr>"

definition QueueSendPacket :: "PacketInfo \<Rightarrow> Host \<Rightarrow> Host" where
  "QueueSendPacket p h = h\<lparr>sendPackets := sendPackets h @ [p]\<rparr>"

definition DequeSendPacket :: "Host \<Rightarrow> PacketInfo option \<times> Host" where
  "DequeSendPacket h =
     (case sendPackets h of
        [] \<Rightarrow> (None, h)
      | p # ps \<Rightarrow> (Some p, h\<lparr>sendPackets := ps\<rparr>))"

section \<open>Threads\<close>

text \<open>Whether the loop of a thread ends.\<close>

fun loop_ends :: "ServerThread \<Rightarrow> Host \<Rightarrow> bool" where
  "loop_ends Accepting h = (\<not> isRun (h_server h))"
| "loop_ends (Working i) h =
     (\<not> isRun (h_server h) \<and> \<not> h_port h \<and> i \<notin> r_worker ` set (h_reading h))"
| "loop_ends Processing h = (\<not> isRun (h_server h))"
| "loop_ends Packeting h = (\<not> pm_isRun h)"

text \<open>\<open>joinable\<close> and \<open>join\<close>; \<open>None\<close> is a call that never returns.\<close>

definition join_thread :: "ServerThread \<Rightarrow> Host \<Rightarrow> Host option" where
  "join_thread t h =
     (if t \<notin> set (h_threads h) then Some h
      else if loop_ends t h then Some (h\<lparr>h_threads := filter (\<lambda>u. u \<noteq> t) (h_threads h)\<rparr>)
      else None)"

fun join_threads :: "ServerThread list \<Rightarrow> Host \<Rightarrow> Host option" where
  "join_threads [] h = Some h"
| "join_threads (t # ts) h = Option.bind (join_thread t h) (join_threads ts)"

definition PacketManager_Shutdown :: "Host \<Rightarrow> Host option" where
  "PacketManager_Shutdown h = join_thread Packeting (h\<lparr>pm_isRun := False\<rparr>)"

section \<open>The server object\<close>

text \<open>The constructor of \<open>IOCPTetrisServer\<close>, and the managers of \<open>Game\<close> before anything happens.\<close>

definition new_Host :: "Network \<Rightarrow> Host" where
  "new_Host net =
     PacketManager_Init
       \<lparr>h_server = (new_Server (fresh_bytes net) 0)\<lparr>isRun := False\<rparr>,
        h_config = default_ServerConfig, h_listener = False, h_port = False, h_threads = [],
        freed = False, pm_isRun = False, sendPackets = [], h_reading = []\<rparr>"

definition IOCPServer_Init :: "Network \<Rightarrow> ServerConfig \<Rightarrow> Host \<Rightarrow> Host res" where
  "IOCPServer_Init net cfg h =
     bind_res (guard_res AssertFailed (listener_made net)) (\<lambda>_.
     Inr (h\<lparr>h_config := cfg, h_listener := True\<rparr>))"

definition SetupClientInfos :: "Network \<Rightarrow> int \<Rightarrow> Host \<Rightarrow> Host" where
  "SetupClientInfos net n h =
     h\<lparr>h_server := (h_server h)\<lparr>clients :=
        map (\<lambda>i. new_ClientInfo (fresh_bytes net) (int i)) [1..<nat n + 1]\<rparr>\<rparr>"

definition SetupWorkerThread :: "int \<Rightarrow> Host \<Rightarrow> Host" where
  "SetupWorkerThread n h = h\<lparr>h_threads := h_threads h @ map Working [0..<nat n]\<rparr>"

definition IOCPServer_Start :: "Network \<Rightarrow> Host \<Rightarrow> Host res" where
  "IOCPServer_Start net h =
     bind_res (guard_res AssertFailed (listener_bound net)) (\<lambda>_.
     bind_res (guard_res AssertFailed (listening net)) (\<lambda>_.
     bind_res (guard_res AssertFailed (port_made net)) (\<lambda>_.
     bind_res (guard_res AssertFailed (listener_on_port net)) (\<lambda>_.
     let h1 = h\<lparr>h_port := True, h_server := (h_server h)\<lparr>isRun := True\<rparr>\<rparr>;
         h2 = SetupClientInfos net (clientQueueSize (h_config h1)) h1;
         h3 = h2\<lparr>h_threads := h_threads h2 @ [Accepting]\<rparr>;
         h4 = SetupWorkerThread (workerQueueSize (h_config h3)) h3
     in Inr (h4\<lparr>h_threads := h_threads h4 @ [Processing]\<rparr>)))))"

text \<open>The join of every worker, then of the accept and the process thread; then the slots go.\<close>

definition worker_threads :: "Host \<Rightarrow> ServerThread list" where
  "worker_threads h = filter (\<lambda>t. \<exists>i. t = Working i) (h_threads h)"

definition delete_clients :: "int \<Rightarrow> Host \<Rightarrow> Host" where
  "delete_clients now h =
     h\<lparr>h_server := (h_server h)\<lparr>clients := map (Disconnect_client now) (clients (h_server h))\<rparr>,
       freed := True\<rparr>"

definition IOCPServer_Shutdown :: "int \<Rightarrow> Host \<Rightarrow> Host option" where
  "IOCPServer_Shutdown now h =
     (let h1 = h\<lparr>h_server := (h_server h)\<lparr>isRun := False\<rparr>, h_port := False\<rparr>
      in Option.bind (join_threads (worker_threads h1 @ [Accepting, Processing]) h1)
           (\<lambda>h2. Some (delete_clients now (h2\<lparr>h_listener := False\<rparr>))))"

section \<open>The threads at work\<close>

text \<open>The beginning of a receive completion, up to the loop.\<close>

definition receive_start :: "nat \<Rightarrow> bytes \<Rightarrow> Server \<Rightarrow> Server res" where
  "receive_start c buf s =
     bind_res (OnRecv c buf s) (\<lambda>s1. if c_sessionIndex (clients s1 ! c) = 0 then OnConnect c s1 else Inr s1)"

text \<open>A step of the server; \<open>None\<close> comes from a receive completion only.\<close>

definition serve :: "shuffle \<Rightarrow> event \<Rightarrow> Host \<Rightarrow> Host res" where
  "serve shuffle e h =
     (case server_step shuffle e (h_server h) of
        Some r \<Rightarrow> bind_res r (\<lambda>s. Inr (h\<lparr>h_server := s\<rparr>))
      | None \<Rightarrow> Inr h)"

definition serve_received :: "nat \<Rightarrow> nat \<Rightarrow> bytes \<Rightarrow> Host \<Rightarrow> Host res" where
  "serve_received i c buf h =
     (case work_received c buf (h_server h) of
        Some r \<Rightarrow> bind_res r (\<lambda>s. Inr (h\<lparr>h_server := s\<rparr>))
      | None \<Rightarrow>
          bind_res (receive_start c buf (h_server h)) (\<lambda>s.
          Inr (h\<lparr>h_server := s, h_reading := h_reading h @
                 [\<lparr>r_worker = i, r_slot = c, r_buffer = packetBuffer (clients s ! c)\<rparr>]\<rparr>)))"

text \<open>Once more through the loop.\<close>

definition read_turn :: "Reading \<Rightarrow> Host \<Rightarrow> Host res" where
  "read_turn r h =
     bind_res (Read (r_buffer r)) (\<lambda>(p, b).
       case p of
         None \<Rightarrow>
           bind_res (set_client (Some (r_slot r)) (\<lambda>ci. ci\<lparr>packetBuffer := b\<rparr>) (h_server h)) (\<lambda>s.
           Inr (h\<lparr>h_server := s, h_reading := remove1 r (h_reading h)\<rparr>))
       | Some readBuf \<Rightarrow>
           bind_res (receive_packet (c_sessionIndex (clients (h_server h) ! r_slot r)) readBuf (h_server h)) (\<lambda>s.
           Inr (h\<lparr>h_server := s,
                  h_reading := map (\<lambda>x. if x = r then r\<lparr>r_buffer := b\<rparr> else x) (h_reading h)\<rparr>)))"

datatype host_event = Served nat event | Turn nat

text \<open>A completion needs a worker that waits for one, and a receive completion a slot with a posted receive.\<close>

definition idle_worker :: "nat \<Rightarrow> Host \<Rightarrow> bool" where
  "idle_worker i h \<longleftrightarrow> Working i \<in> set (h_threads h) \<and> i \<notin> r_worker ` set (h_reading h)"

definition host_step :: "shuffle \<Rightarrow> host_event \<Rightarrow> Host \<Rightarrow> Host res" where
  "host_step shuffle ev h =
     (case ev of
        Served i e \<Rightarrow>
          (case e of
             Completion now (Received c buf) \<Rightarrow>
               if idle_worker i h \<and> c \<notin> r_slot ` set (h_reading h) then serve_received i c buf h else Inr h
           | Completion now _ \<Rightarrow> if idle_worker i h then serve shuffle e h else Inr h
           | _ \<Rightarrow> serve shuffle e h)
      | Turn i \<Rightarrow>
          (case find (\<lambda>r. r_worker r = i) (h_reading h) of
             None \<Rightarrow> Inr h
           | Some r \<Rightarrow> read_turn r h))"

section \<open>The manager of the servers\<close>

text \<open>
  \<open>hosts\<close> are the server objects that were made, \<open>servers\<close> the manager's pointers to them.  The
  objects are never deleted: \<open>servers.clear()\<close> only forgets the pointers.  The reference \<open>logger\<close> is bound
  to a temporary that is gone when the constructor has ended: \<open>m_logger\<close> is what the dangling
  reference finds, in each state of the log, a category or nothing that could be used.
\<close>

record Manager =
  m_isRun :: bool
  servers :: "nat list"
  hosts :: "Host list"
  wsa :: int
  m_log :: Log
  m_logger :: "Log \<Rightarrow> string option"

definition new_Manager :: "(Log \<Rightarrow> string option) \<Rightarrow> Log \<Rightarrow> Manager" where
  "new_Manager stale l =
     \<lparr>m_isRun = False, servers = [], hosts = [], wsa = 0, m_log = l, m_logger = stale\<rparr>"

text \<open>\<open>logger.Info\<close> of a short literal, for which the overload with a format does the same as \<open>Info\<close>
  (\<open>Info_literal\<close>).\<close>

definition m_Info :: "string \<Rightarrow> Manager \<Rightarrow> Manager res" where
  "m_Info message m =
     (case m_logger m (m_log m) of
        None \<Rightarrow> Inl NullDeref
      | Some category \<Rightarrow> Inr (m\<lparr>m_log := Info category message (m_log m)\<rparr>))"

definition Manager_Init :: "Network \<Rightarrow> Manager \<Rightarrow> Manager res" where
  "Manager_Init net m =
     bind_res (guard_res AssertFailed (wsa_started net)) (\<lambda>_.
     m_Info ''Init'' (m\<lparr>wsa := wsa m + 1, servers := [], m_isRun := True\<rparr>))"

definition StartServer :: "Network \<Rightarrow> ServerConfig \<Rightarrow> Manager \<Rightarrow> Manager res" where
  "StartServer net cfg m =
     (if serverType cfg = MAINGAMESERVER then
        bind_res (IOCPServer_Init net cfg (new_Host net)) (\<lambda>h1.
        bind_res (IOCPServer_Start net h1) (\<lambda>h2.
        Inr (m\<lparr>hosts := hosts m @ [h2], servers := servers m @ [length (hosts m)]\<rparr>)))
      else Inr m)"

fun shutdown_servers :: "int \<Rightarrow> nat list \<Rightarrow> Manager \<Rightarrow> Manager option" where
  "shutdown_servers now [] m = Some m"
| "shutdown_servers now (i # is) m =
     Option.bind (IOCPServer_Shutdown now (hosts m ! i)) (\<lambda>h.
       shutdown_servers now is (m\<lparr>hosts := (hosts m)[i := h], wsa := wsa m - 1\<rparr>))"

definition Manager_Shutdown :: "int \<Rightarrow> Manager \<Rightarrow> Manager run" where
  "Manager_Shutdown now m =
     Option.bind (shutdown_servers now (servers m) (m\<lparr>m_isRun := False\<rparr>)) (\<lambda>m1.
     Some (m_Info ''Shutdown'' (m1\<lparr>wsa := wsa m1 - 1, servers := []\<rparr>)))"

definition Command :: "int \<Rightarrow> string \<Rightarrow> Manager \<Rightarrow> Manager run" where
  "Command now command m = (if command = ''quit'' then Manager_Shutdown now m else Some (Inr m))"

definition Manager_IsRun :: "Manager \<Rightarrow> bool" where "Manager_IsRun m = m_isRun m"

section \<open>The main program\<close>

text \<open>
  \<open>w_input w k\<close> is what \<open>getline\<close> gives the \<open>k\<close>-th time; behind the end of the input it is the empty
  string, again and again.  \<open>w_traffic w k\<close> is what the threads of the servers do until then.  \<open>None\<close> is a
  loop that never ends.
\<close>

record World =
  w_input :: "nat \<Rightarrow> string"
  w_now :: "nat \<Rightarrow> int"
  w_traffic :: "nat \<Rightarrow> (nat \<times> host_event) list"
  w_shuffle :: shuffle

definition at_work :: "shuffle \<Rightarrow> nat \<times> host_event \<Rightarrow> Manager \<Rightarrow> Manager res" where
  "at_work shuffle x m =
     (case x of (i, ev) \<Rightarrow>
        if i < length (hosts m)
        then bind_res (host_step shuffle ev (hosts m ! i)) (\<lambda>h. Inr (m\<lparr>hosts := (hosts m)[i := h]\<rparr>))
        else Inr m)"

partial_function (option) command_loop :: "World \<Rightarrow> nat \<Rightarrow> Manager \<Rightarrow> Manager run" where
  "command_loop w k m =
     (if \<not> Manager_IsRun m then Some (Inr m)
      else
        (case fold_res (at_work (w_shuffle w)) (w_traffic w k) m of
           Inl e \<Rightarrow> Some (Inl e)
         | Inr m1 \<Rightarrow>
             (case Command (w_now w k) (w_input w k) m1 of
                None \<Rightarrow> None
              | Some (Inl e) \<Rightarrow> Some (Inl e)
              | Some (Inr m2) \<Rightarrow> command_loop w (Suc k) m2)))"

definition main_config :: ServerConfig where
  "main_config =
     \<lparr>worldName = ''IOCPTetris'', serverName = ''MAINGAMESERVER'', cfg_port = 15001,
      serverType = MAINGAMESERVER, maxSockBuf = 1024, workerQueueSize = 16, listenQueueSize = 5,
      clientQueueSize = 100\<rparr>"

text \<open>\<open>main\<close>'s own logger lives as long as \<open>main\<close>.\<close>

definition main_Info :: "string \<Rightarrow> Manager \<Rightarrow> Manager" where
  "main_Info message m = m\<lparr>m_log := Info ''main'' message (m_log m)\<rparr>"

definition main_start :: "Network \<Rightarrow> (Log \<Rightarrow> string option) \<Rightarrow> Log \<Rightarrow> Manager res" where
  "main_start net stale l =
     bind_res (Manager_Init net (main_Info ''server start'' (new_Manager stale (LoadConfig l))))
       (StartServer net main_config)"

definition main_end :: "int \<Rightarrow> Manager \<Rightarrow> Manager run" where
  "main_end later m =
     bind_run (Manager_Shutdown later m) (\<lambda>m1.
     Some (Inr (main_Info ''server end'' (m1\<lparr>m_log := Logger_Shutdown (m_log m1)\<rparr>))))"

text \<open>The exit code and the state it leaves.\<close>

definition main :: "Network \<Rightarrow> (Log \<Rightarrow> string option) \<Rightarrow> World \<Rightarrow> int \<Rightarrow> Log \<Rightarrow> (int \<times> Manager) run" where
  "main net stale w later l =
     bind_run (Some (main_start net stale l)) (\<lambda>m.
     bind_run (command_loop w 0 m) (\<lambda>m1.
     bind_run (main_end later m1) (\<lambda>m2. Some (Inr (0, m2)))))"

end
