(* ===== verification/ServerLifeClaims.thy ===== *)
theory ServerLifeClaims
  imports ServerLife ServerStream
begin

text \<open>
  Properties of the server's start and shutdown: what \<open>main\<close> starts, when it returns, and which
  threads are still there when it does or when it does not.
\<close>

section \<open>Start\<close>

definition network_ok :: "Network \<Rightarrow> bool" where
  "network_ok net \<longleftrightarrow> wsa_started net \<and> listener_made net \<and> listener_bound net \<and> listening net \<and>
     port_made net \<and> listener_on_port net"

definition started_threads :: "nat \<Rightarrow> ServerThread list" where
  "started_threads n = [Packeting, Accepting] @ map Working [0..<n] @ [Processing]"

definition started_host :: "Network \<Rightarrow> Host" where
  "started_host net =
     \<lparr>h_server = new_Server (fresh_bytes net) 100, h_config = main_config, h_listener = True,
      h_port = True, h_threads = started_threads 16, freed = False, pm_isRun = True,
      sendPackets = [], h_reading = []\<rparr>"

text \<open>A manager of one server.\<close>

definition serving :: "(Log \<Rightarrow> string option) \<Rightarrow> Log \<Rightarrow> Host \<Rightarrow> Manager" where
  "serving stale l h =
     \<lparr>m_isRun = True, servers = [0], hosts = [h], wsa = 1, m_log = l, m_logger = stale\<rparr>"

definition usable :: "(Log \<Rightarrow> string option) \<Rightarrow> bool" where
  "usable stale \<longleftrightarrow> (\<forall>l. stale l \<noteq> None)"

definition written :: "(Log \<Rightarrow> string option) \<Rightarrow> string \<Rightarrow> Log \<Rightarrow> Log" where
  "written stale message l = Info (the (stale l)) message l"

lemma m_Info_usable:
  "usable (m_logger m) \<Longrightarrow> m_Info message m = Inr (m\<lparr>m_log := written (m_logger m) message (m_log m)\<rparr>)"
  by (auto simp: usable_def m_Info_def written_def split: option.split)

definition start_log :: "(Log \<Rightarrow> string option) \<Rightarrow> Log \<Rightarrow> Log" where
  "start_log stale l = written stale ''Init'' (Info ''main'' ''server start'' (LoadConfig l))"

lemma StartServer_host:
  assumes "network_ok net"
  shows "bind_res (IOCPServer_Init net main_config (new_Host net)) (IOCPServer_Start net) =
    Inr (started_host net)"
  using assms
  by (simp add: network_ok_def IOCPServer_Init_def IOCPServer_Start_def new_Host_def
      PacketManager_Init_def SetupClientInfos_def SetupWorkerThread_def started_host_def
      started_threads_def new_Server_def main_config_def Let_def del: upt_Suc)

lemma main_starts:
  assumes "network_ok net" and "usable stale"
  shows "main_start net stale l = Inr (serving stale (start_log stale l) (started_host net))"
proof -
  have "StartServer net main_config m =
      Inr (m\<lparr>hosts := hosts m @ [started_host net], servers := servers m @ [length (hosts m)]\<rparr>)" for m
    using StartServer_host [OF assms(1)]
    by (auto simp: StartServer_def main_config_def bind_res_Inr_iff)
  with assms show ?thesis
    by (simp add: main_start_def Manager_Init_def network_ok_def m_Info_usable new_Manager_def main_Info_def
        start_log_def serving_def)
qed

text \<open>\<open>main\<close> starts one server with a hundred free slots, which is the initial state of the model of
  the server, and with its nineteen threads, exactly if every call of Winsock succeeds; otherwise an
  assertion fails.\<close>

theorem main_starts_the_server:
  assumes "usable stale"
  shows "main_start net stale l =
    (if network_ok net then Inr (serving stale (start_log stale l) (started_host net)) else Inl AssertFailed)"
proof (cases "network_ok net")
  case True
  with assms show ?thesis by (simp add: main_starts)
next
  case False
  with assms show ?thesis
    by (auto simp: main_start_def Manager_Init_def network_ok_def StartServer_def main_config_def m_Info_usable
        IOCPServer_Init_def IOCPServer_Start_def guard_res_def new_Manager_def main_Info_def)
qed

theorem main_starts_the_server_witness:
  "main_start \<lparr>wsa_started = True, listener_made = True, listener_bound = False, listening = True,
       port_made = True, listener_on_port = True, fresh_bytes = \<lambda>_. 0\<rparr> (\<lambda>l. Some [])
     \<lparr>log_debug_build = False, log_open = False, log_entries = []\<rparr> = Inl AssertFailed"
  using main_starts_the_server [of "\<lambda>l. Some []"] by (simp add: usable_def network_ok_def)

section \<open>Joining\<close>

lemma join_threads_eq:
  "join_threads ts h =
     (if \<forall>t \<in> set ts. t \<in> set (h_threads h) \<longrightarrow> loop_ends t h
      then Some (h\<lparr>h_threads := filter (\<lambda>u. u \<notin> set ts) (h_threads h)\<rparr>) else None)"
proof (induction ts arbitrary: h)
  case Nil
  then show ?case by simp
next
  case (Cons t ts)
  have ends: "loop_ends u (h\<lparr>h_threads := us\<rparr>) = loop_ends u h" for u us
    by (cases u) simp_all
  let ?h = "h\<lparr>h_threads := filter (\<lambda>u. u \<noteq> t) (h_threads h)\<rparr>"
  have "filter (\<lambda>u. u \<noteq> t) (h_threads h) = h_threads h" if "t \<notin> set (h_threads h)"
    using that by (auto simp: filter_id_conv)
  then have "join_thread t h = (if t \<in> set (h_threads h) \<longrightarrow> loop_ends t h then Some ?h else None)"
    by (simp add: join_thread_def)
  then show ?case by (auto simp: Cons.IH ends conj_commute)
qed

text \<open>What shutting down makes of a server object.\<close>

definition closed_host :: "int \<Rightarrow> Host \<Rightarrow> Host" where
  "closed_host t h =
     h\<lparr>h_server := (h_server h)\<lparr>isRun := False,
         clients := map (Disconnect_client t) (clients (h_server h))\<rparr>,
       h_port := False, h_listener := False,
       h_threads := filter (\<lambda>t. t = Packeting) (h_threads h), freed := True\<rparr>"

text \<open>Only the server's own workers read.\<close>

definition readers_ok :: "Host \<Rightarrow> bool" where
  "readers_ok h \<longleftrightarrow> (\<forall>r \<in> set (h_reading h). Working (r_worker r) \<in> set (h_threads h))"

lemma IOCPServer_Shutdown_closes:
  assumes "readers_ok h"
  shows "IOCPServer_Shutdown t h = (if h_reading h = [] then Some (closed_host t h) else None)"
proof -
  let ?h = "h\<lparr>h_server := (h_server h)\<lparr>isRun := False\<rparr>, h_port := False\<rparr>"
  let ?ts = "worker_threads ?h @ [Accepting, Processing]"
  have "(\<forall>t \<in> set ?ts. t \<in> set (h_threads ?h) \<longrightarrow> loop_ends t ?h) \<longleftrightarrow> h_reading h = []"
  proof
    assume all: "\<forall>t \<in> set ?ts. t \<in> set (h_threads ?h) \<longrightarrow> loop_ends t ?h"
    have False if "r \<in> set (h_reading h)" for r
    proof -
      have "Working (r_worker r) \<in> set (h_threads ?h)" using that assms by (simp add: readers_ok_def)
      moreover from this have "Working (r_worker r) \<in> set ?ts" by (simp add: worker_threads_def)
      ultimately have "loop_ends (Working (r_worker r)) ?h" using all by blast
      with that show False by simp
    qed
    then show "h_reading h = []" by (cases "h_reading h") auto
  qed (auto simp: worker_threads_def)
  moreover have "filter (\<lambda>u. u \<notin> set ?ts) (h_threads h) = filter (\<lambda>t. t = Packeting) (h_threads h)"
  proof (rule filter_cong)
    fix u assume u: "u \<in> set (h_threads h)"
    have "u \<in> set (worker_threads ?h) \<longleftrightarrow> (\<exists>i. u = Working i)"
      using u by (simp add: worker_threads_def)
    moreover have "u = Packeting \<or> u = Accepting \<or> u = Processing \<or> (\<exists>i. u = Working i)"
      by (cases u) simp_all
    ultimately show "(u \<notin> set ?ts) = (u = Packeting)" by auto
  qed simp
  ultimately show ?thesis
    by (simp add: IOCPServer_Shutdown_def join_threads_eq delete_clients_def closed_host_def)
qed

lemma Manager_Shutdown_one:
  assumes "servers m = [i]" and "readers_ok (hosts m ! i)" and "usable (m_logger m)"
  shows "Manager_Shutdown t m =
    (if h_reading (hosts m ! i) = []
     then Some (Inr (m\<lparr>m_isRun := False, hosts := (hosts m)[i := closed_host t (hosts m ! i)], wsa := wsa m - 2,
            servers := [], m_log := written (m_logger m) ''Shutdown'' (m_log m)\<rparr>))
     else None)"
  using assms by (simp add: Manager_Shutdown_def IOCPServer_Shutdown_closes m_Info_usable)


section \<open>The threads at work\<close>

text \<open>A buffer over which the loop of a worker goes on and on.\<close>

definition endless :: "PacketBuffer \<Rightarrow> bool" where
  "endless pb \<longleftrightarrow> (\<forall>k s. ReadLoop Read (receive_packet k) pb s = None)"

lemma receive_packet_total: "\<exists>t. receive_packet k p s = Inr t"
  by (simp add: receive_packet_def OnReceive_def)

text \<open>Whether the loop ends depends on the buffer alone.\<close>

lemma ReadLoop_returns:
  assumes "ReadLoop Read (receive_packet k) pb s = Some r"
  shows "ReadLoop Read (receive_packet k') pb s' \<noteq> None"
proof -
  let ?P = "\<lambda>pull f b (s :: Server) (r :: (PacketBuffer \<times> Server) res).
    \<forall>s'. pull = Read \<and> f = receive_packet k \<longrightarrow> ReadLoop Read (receive_packet k') b s' \<noteq> None"
  have "?P Read (receive_packet k) pb s r"
  proof (rule ReadLoop.raw_induct [where P = ?P, OF _ assms], intro allI impI)
    fix loop :: "(PacketBuffer \<Rightarrow> (bytes option \<times> PacketBuffer) res) \<Rightarrow> (bytes \<Rightarrow> Server \<Rightarrow> Server res) \<Rightarrow>
        PacketBuffer \<Rightarrow> Server \<Rightarrow> (PacketBuffer \<times> Server) res option" and pull f b s r s'
    assume IH: "\<And>pull f b s r. loop pull f b s = Some r \<Longrightarrow> ?P pull f b s r"
      and step: "(case pull b of Inl e \<Rightarrow> Some (Inl e)
         | Inr (r, b') \<Rightarrow>
             (case r of None \<Rightarrow> Some (Inr (b', s))
              | Some readBuf \<Rightarrow> (case f readBuf s of Inl e \<Rightarrow> Some (Inl e) | Inr s' \<Rightarrow> loop pull f b' s')))
         = Some r"
      and hyp: "pull = Read \<and> f = receive_packet k"
    show "ReadLoop Read (receive_packet k') b s' \<noteq> None"
    proof (cases "Read b")
      case (Inr x)
      obtain p b' where x: "x = (p, b')" by (cases x)
      show ?thesis
      proof (cases p)
        case (Some readBuf)
        obtain t where t: "receive_packet k readBuf s = Inr t" using receive_packet_total by blast
        obtain t' where t': "receive_packet k' readBuf s' = Inr t'" using receive_packet_total by blast
        have "loop Read (receive_packet k) b' t = Some r" using step hyp Inr x Some t by simp
        from IH [OF this] have "ReadLoop Read (receive_packet k') b' t' \<noteq> None" by blast
        with Inr x Some t' show ?thesis by (subst ReadLoop.simps) simp
      qed (use Inr x in \<open>simp add: ReadLoop.simps\<close>)
    qed (simp add: ReadLoop.simps)
  qed
  then show ?thesis by blast
qed

lemma endlessI: "ReadLoop Read (receive_packet k) pb s = None \<Longrightarrow> endless pb"
  unfolding endless_def using ReadLoop_returns by (metis not_None_eq)

lemma endless_next:
  assumes "endless pb" and "Read pb = Inr (p, pb')"
  shows "p \<noteq> None \<and> endless pb'"
proof -
  fix s :: Server
  have none: "ReadLoop Read (receive_packet 0) pb s = None" using assms(1) by (simp add: endless_def)
  then obtain readBuf where p: "p = Some readBuf" using assms(2) by (subst (asm) ReadLoop.simps) (cases p; simp)
  obtain t where "receive_packet 0 readBuf s = Inr t" using receive_packet_total by blast
  with none assms(2) p have "ReadLoop Read (receive_packet 0) pb' t = None" by (subst (asm) ReadLoop.simps) simp
  with p show ?thesis by (simp add: endlessI)
qed

text \<open>The workers that read belong to the server, are different, and do not come to an end.\<close>

definition reading_ok :: "Host \<Rightarrow> bool" where
  "reading_ok h \<longleftrightarrow> readers_ok h \<and> distinct (map r_worker (h_reading h)) \<and>
     (\<forall>r \<in> set (h_reading h). endless (r_buffer r))"

text \<open>What the threads at work leave as it is.\<close>

definition frame_of :: "Host \<Rightarrow> ServerConfig \<times> bool \<times> bool \<times> ServerThread list \<times> bool \<times> bool \<times> PacketInfo list" where
  "frame_of h = (h_config h, h_listener h, h_port h, h_threads h, freed h, pm_isRun h, sendPackets h)"

definition goes_on_from :: "Host \<Rightarrow> Host \<Rightarrow> bool" where
  "goes_on_from h h' \<longleftrightarrow> frame_of h' = frame_of h \<and> reading_ok h' \<and>
     set (map r_worker (h_reading h)) \<subseteq> set (map r_worker (h_reading h'))"

lemma serve_goes_on: "serve sh e h = Inr h' \<Longrightarrow> reading_ok h \<Longrightarrow> goes_on_from h h'"
  by (auto simp: serve_def goes_on_from_def frame_of_def reading_ok_def readers_ok_def bind_res_Inr_iff
      split: option.splits)

lemma serve_received_goes_on:
  assumes "serve_received i c b h = Inr h'" and "reading_ok h" and "idle_worker i h"
  shows "goes_on_from h h'"
proof (cases "work_received c b (h_server h)")
  case None
  with assms(1) obtain s where s: "receive_start c b (h_server h) = Inr s"
    and h': "h' = h\<lparr>h_server := s, h_reading := h_reading h @
      [\<lparr>r_worker = i, r_slot = c, r_buffer = packetBuffer (clients s ! c)\<rparr>]\<rparr>"
    by (auto simp: serve_received_def bind_res_Inr_iff)
  have "ReadLoop Read (receive_packet (c_sessionIndex (clients s ! c))) (packetBuffer (clients s ! c)) s = None"
    using None s by (auto simp: work_received_def receive_start_def bind_res_Inr_iff split: option.splits)
  then have "endless (packetBuffer (clients s ! c))" by (rule endlessI)
  with assms(2,3) show ?thesis
    by (auto simp: h' goes_on_from_def frame_of_def reading_ok_def readers_ok_def idle_worker_def)
qed (use assms in \<open>auto simp: serve_received_def goes_on_from_def frame_of_def reading_ok_def readers_ok_def
      bind_res_Inr_iff\<close>)

lemma read_turn_goes_on:
  assumes "read_turn r h = Inr h'" and "r \<in> set (h_reading h)" and "reading_ok h"
  shows "goes_on_from h h'"
proof -
  have e: "endless (r_buffer r)" using assms(2,3) by (simp add: reading_ok_def)
  from assms(1) obtain p b where p: "Read (r_buffer r) = Inr (p, b)"
    by (auto simp: read_turn_def bind_res_Inr_iff)
  from endless_next [OF e p] obtain readBuf where some: "p = Some readBuf" and "endless b" by auto
  let ?g = "\<lambda>x. if x = r then r\<lparr>r_buffer := b\<rparr> else x"
  have same: "r_worker (?g x) = r_worker x" for x by simp
  from assms(1) p some obtain s where h': "h' = h\<lparr>h_server := s, h_reading := map ?g (h_reading h)\<rparr>"
    by (auto simp: read_turn_def bind_res_Inr_iff)
  have "r_worker \<circ> ?g = r_worker" using same by auto
  with assms(3) \<open>endless b\<close> show ?thesis
    by (auto simp: h' goes_on_from_def frame_of_def reading_ok_def readers_ok_def)
qed

lemma host_step_goes_on:
  assumes "host_step sh ev h = Inr h'" and "reading_ok h"
  shows "goes_on_from h h'"
proof -
  have refl: "goes_on_from h h" using assms(2) by (simp add: goes_on_from_def)
  show ?thesis
  proof (cases ev)
    case (Served i e)
    show ?thesis
    proof (cases e)
      case (Completion t x)
      with Served assms refl show ?thesis
        by (cases x) (auto simp: host_step_def split: if_splits dest: serve_goes_on serve_received_goes_on)
    qed (use Served assms refl in \<open>auto simp: host_step_def dest: serve_goes_on\<close>)
  next
    case (Turn i)
    with assms refl show ?thesis
      by (auto simp: host_step_def find_Some_iff split: option.splits dest: read_turn_goes_on)
  qed
qed

definition host_run :: "shuffle \<Rightarrow> host_event list \<Rightarrow> Host \<Rightarrow> Host res" where
  "host_run sh evs h = fold_res (host_step sh) evs h"

lemma host_run_goes_on: "host_run sh evs h = Inr h' \<Longrightarrow> reading_ok h \<Longrightarrow> goes_on_from h h'"
proof (induction evs arbitrary: h)
  case Nil
  then show ?case by (simp add: host_run_def goes_on_from_def)
next
  case (Cons ev evs)
  then obtain h1 where h1: "host_step sh ev h = Inr h1" "host_run sh evs h1 = Inr h'"
    by (auto simp: host_run_def bind_res_Inr_iff)
  from host_step_goes_on [OF h1(1) Cons.prems(2)] Cons.IH [OF h1(2)] show ?case
    by (auto simp: goes_on_from_def)
qed

text \<open>The invariant of the server holds for the threads at work.\<close>

lemma host_step_server_ok:
  assumes "host_step sh ev h = Inr h'" and "reading_ok h" and "server_ok (h_server h)" and "is_shuffle sh"
  shows "server_ok (h_server h')"
proof -
  have serve: "server_ok (h_server h')" if "serve sh e h = Inr h'" for e
    using that assms(3) server_ok_step [OF _ assms(3,4)]
    by (auto simp: serve_def bind_res_Inr_iff split: option.splits)
  have received: "server_ok (h_server h')" if r: "serve_received i c b h = Inr h'" for i c b
  proof (cases "work_received c b (h_server h)")
    case None
    with r show ?thesis
      using assms(3)
      by (auto simp: serve_received_def receive_start_def bind_res_Inr_iff split: if_splits
          dest!: server_ok_OnRecv [OF _ assms(3)] dest: server_ok_OnConnect)
  next
    case (Some x)
    with r server_ok_work_received [OF _ assms(3)] show ?thesis
      by (auto simp: serve_received_def bind_res_Inr_iff)
  qed
  show ?thesis
  proof (cases ev)
    case (Served i e)
    show ?thesis
    proof (cases e)
      case (Completion t x)
      with Served assms(1,3) show ?thesis
        by (cases x) (auto simp: host_step_def split: if_splits dest: serve received)
    qed (use Served assms(1,3) in \<open>auto simp: host_step_def dest: serve\<close>)
  next
    case (Turn i)
    show ?thesis
    proof (cases "find (\<lambda>r. r_worker r = i) (h_reading h)")
      case (Some r)
      then have "r \<in> set (h_reading h)" by (auto simp: find_Some_iff)
      then have "endless (r_buffer r)" using assms(2) by (simp add: reading_ok_def)
      moreover from Some Turn assms(1) have turn: "read_turn r h = Inr h'" by (simp add: host_step_def)
      then obtain p b where "Read (r_buffer r) = Inr (p, b)" by (auto simp: read_turn_def bind_res_Inr_iff)
      ultimately obtain readBuf where "Read (r_buffer r) = Inr (Some readBuf, b)"
        using endless_next by blast
      with turn assms(3) show ?thesis
        by (auto simp: read_turn_def bind_res_Inr_iff elim!: server_ok_receive_packet)
    qed (use Turn assms(1,3) in \<open>simp add: host_step_def\<close>)
  qed
qed

lemma host_run_server_ok:
  "host_run sh evs h = Inr h' \<Longrightarrow> reading_ok h \<Longrightarrow> server_ok (h_server h) \<Longrightarrow> is_shuffle sh \<Longrightarrow>
   server_ok (h_server h')"
proof (induction evs arbitrary: h)
  case (Cons ev evs)
  then obtain h1 where h1: "host_step sh ev h = Inr h1" "host_run sh evs h1 = Inr h'"
    by (auto simp: host_run_def bind_res_Inr_iff)
  from host_step_goes_on [OF h1(1) Cons.prems(2)] have "reading_ok h1" by (simp add: goes_on_from_def)
  with Cons.IH [OF h1(2)] host_step_server_ok [OF h1(1) Cons.prems(2-4)] Cons.prems(4) show ?case by blast
qed (simp add: host_run_def)

lemma started_host_ok: "reading_ok (started_host net)" "server_ok (h_server (started_host net))"
  using server_ok_new by (simp_all add: reading_ok_def readers_ok_def started_host_def)

section \<open>Shutdown\<close>


lemma reading_ok_readers: "reading_ok h \<Longrightarrow> readers_ok h"
  by (simp add: reading_ok_def)


text \<open>A packet with the length byte 0 keeps the worker that reads it.\<close>

lemma zero_length_blocks_worker:
  assumes "sessions_ok s" and "c < length (clients s)" and "stream_ok (slot_buffer c s)"
    and "pending (slot_buffer c s) = []" and "accepts (int (length b)) (slot_buffer c s)"
    and "12 \<le> length b" and "hd b = 0"
  shows "work_received c b s = None" and "\<exists>t. receive_start c b s = Inr t"
proof -
  from pb.push_room [OF assms(3,5)] assms(4) obtain q where
    q: "Write (Some b) (int (length b)) (slot_buffer c s) = Inr q" "stream_ok q" "pending q = b"
    by (auto simp: write_chunk_def)
  let ?s = "s\<lparr>clients := (clients s)[c := (clients s ! c)\<lparr>packetBuffer := q\<rparr>]\<rparr>"
  have recv: "OnRecv c b s = Inr ?s"
    using q(1) assms(2) by (simp add: OnRecv_def set_client_def slot_buffer_def)
  have "sessions_ok ?s" using assms(1) by (simp add: sessions_ok_def)
  from OnConnect_connected [OF this] assms(2) have conn: "OnConnect c ?s = Inr (connected c ?s)" by simp
  let ?t = "introduced c ?s"
  have start: "(if c_sessionIndex (clients ?s ! c) = 0 then OnConnect c ?s else Inr ?s) = Inr ?t"
    using conn by (simp add: introduced_def)
  then show "\<exists>t. receive_start c b s = Inr t" using recv by (simp add: receive_start_def)
  have buf: "packetBuffer (clients ?t ! c) = q"
    using introduced_ready(2) [of c ?s] assms(2) by (simp add: slot_buffer_def)
  have "Read q = Inr (Some [], q)"
    using q assms(6,7) by (intro Read_zero) (simp_all add: stream_ok_def PACKET_HEADER_LENGTH_def)
  from ReadLoop_endless [of Read q "[]", OF this receive_packet_total] recv start buf
  show "work_received c b s = None" by (simp add: work_received_def)
qed

text \<open>C14: a client can keep the server from ever shutting down: when twelve or more bytes arrive of which
  the first is 0, at a slot with an empty buffer with room for them, then the worker that takes them
  reads an empty packet again and again; whatever the threads of the server do from there on
  without failing, that worker stays in its loop and the shutdown never returns.\<close>

theorem zero_length_stops_shutdown:
  assumes "host_run sh evs (started_host net) = Inr h" and "is_shuffle sh" and "idle_worker w h"
    and "c \<notin> r_slot ` set (h_reading h)" and "c < length (clients (h_server h))"
    and "pending (slot_buffer c (h_server h)) = []" and "accepts (int (length b)) (slot_buffer c (h_server h))"
    and "12 \<le> length b" and "hd b = 0"
    and "host_run sh (Served w (Completion t (Received c b)) # later) h = Inr h'"
    and "servers m = [i]" and "hosts m ! i = h'" and "usable (m_logger m)"
  shows "w \<in> r_worker ` set (h_reading h') \<and> Manager_Shutdown t' m = None"
proof -
  note ok = host_run_goes_on [OF assms(1) started_host_ok(1)]
  have "server_ok (h_server h)" by (rule host_run_server_ok [OF assms(1) started_host_ok assms(2)])
  then have "sessions_ok (h_server h)" "stream_ok (slot_buffer c (h_server h))"
    using assms(5) by (auto simp: server_ok_def clients_ok_def connection_ok_def slot_buffer_def)
  note block = zero_length_blocks_worker [OF this(1) assms(5) this(2) assms(6-9)]
  from block(2) obtain s where s: "receive_start c b (h_server h) = Inr s" ..
  let ?h = "h\<lparr>h_server := s, h_reading := h_reading h @
    [\<lparr>r_worker = w, r_slot = c, r_buffer = packetBuffer (clients s ! c)\<rparr>]\<rparr>"
  have "host_step sh (Served w (Completion t (Received c b))) h = Inr ?h"
    using assms(3,4) block(1) s by (simp add: host_step_def serve_received_def)
  moreover from this have "goes_on_from h ?h"
    by (rule host_step_goes_on) (use ok in \<open>simp add: goes_on_from_def\<close>)
  ultimately have run: "host_run sh later ?h = Inr h'" and "reading_ok ?h"
    using assms(10) by (simp_all add: host_run_def goes_on_from_def)
  from host_run_goes_on [OF this] have w: "w \<in> r_worker ` set (h_reading h')" and "readers_ok h'"
    by (auto simp: goes_on_from_def reading_ok_readers)
  moreover from w have "h_reading h' \<noteq> []" by auto
  ultimately show ?thesis
    using Manager_Shutdown_one [OF assms(11) _ assms(13), of t'] assms(12) by simp
qed

text \<open>A server of which one client has sent twelve zeros, and what becomes of its shutdown.\<close>

definition good_network :: Network where
  "good_network =
     \<lparr>wsa_started = True, listener_made = True, listener_bound = True, listening = True,
      port_made = True, listener_on_port = True, fresh_bytes = \<lambda>_. 0\<rparr>"

definition zeros_arrive :: "nat \<Rightarrow> host_event" where
  "zeros_arrive w = Served w (Completion 0 (Received 7 (replicate 12 0)))"

lemma started_slot:
  "7 < length (clients (h_server (started_host good_network)))"
  "pending (slot_buffer 7 (h_server (started_host good_network))) = []"
  "accepts (int (length (replicate 12 (0 :: 8 word)))) (slot_buffer 7 (h_server (started_host good_network)))"
  "stream_ok (slot_buffer 7 (h_server (started_host good_network)))"
  "sessions_ok (h_server (started_host good_network))"
proof -
  have "clients (h_server (started_host good_network)) ! 7 = new_ClientInfo (\<lambda>_. 0) 8"
    by (simp add: started_host_def good_network_def new_Server_def del: upt_Suc)
  then show "pending (slot_buffer 7 (h_server (started_host good_network))) = []"
    "accepts (int (length (replicate 12 (0 :: 8 word)))) (slot_buffer 7 (h_server (started_host good_network)))"
    "stream_ok (slot_buffer 7 (h_server (started_host good_network)))"
    using fresh_ok by (simp_all add: slot_buffer_def new_ClientInfo_def accepts_def stream_ok_def) 
      (simp_all add: buffer_Init_def)
qed (simp_all add: started_host_def new_Server_def sessions_ok_def del: upt_Suc)

lemma zeros_step:
  assumes "w < 16"
  obtains h' where "host_step sh (zeros_arrive w) (started_host good_network) = Inr h'"
    and "r_worker ` set (h_reading h') = {w}"
proof -
  let ?h = "started_host good_network"
  note z = zero_length_blocks_worker [OF started_slot(5,1,4,2,3)]
  have "work_received 7 (replicate 12 0) (h_server ?h) = None"
    and "\<exists>t. receive_start 7 (replicate 12 0) (h_server ?h) = Inr t"
    by (rule z; simp)+
  moreover have "idle_worker w ?h" "h_reading ?h = []"
    using assms by (simp_all add: idle_worker_def started_host_def started_threads_def)
  ultimately show thesis using that
    by (auto simp: host_step_def zeros_arrive_def serve_received_def)
qed

theorem zero_length_stops_shutdown_witness:
  "\<exists>h'. host_run keep_order [zeros_arrive 3] (started_host good_network) = Inr h' \<and>
     Manager_Shutdown 9 (serving (\<lambda>l. Some []) \<lparr>log_debug_build = False, log_open = False, log_entries = []\<rparr> h') = None"
proof -
  obtain h' where h': "host_step keep_order (zeros_arrive 3) (started_host good_network) = Inr h'"
    by (rule zeros_step [where w = 3 and sh = keep_order]) simp_all
  have run: "host_run keep_order [] (started_host good_network) = Inr (started_host good_network)"
    by (simp add: host_run_def)
  have w: "idle_worker 3 (started_host good_network)"
    "7 \<notin> r_slot ` set (h_reading (started_host good_network))"
    by (simp_all add: idle_worker_def started_host_def started_threads_def)
  let ?m = "serving (\<lambda>l. Some []) \<lparr>log_debug_build = False, log_open = False, log_entries = []\<rparr> h'"
  have m: "servers ?m = [0]" "hosts ?m ! 0 = h'" "usable (m_logger ?m)"
    by (simp_all add: serving_def usable_def)
  have z: "12 \<le> length (replicate 12 (0 :: 8 word))" "hd (replicate 12 (0 :: 8 word)) = 0" by simp_all
  have "host_run keep_order (Served 3 (Completion 0 (Received 7 (replicate 12 0))) # []) (started_host good_network) = Inr h'"
    using h' by (simp add: host_run_def zeros_arrive_def)
  from zero_length_stops_shutdown [OF run is_shuffle_keep_order w started_slot(1-3) z this m] h'
  show ?thesis by (auto simp: host_run_def)
qed


text \<open>The packet thread that is left answers the requests that still wait, on slots that are deleted.\<close>

lemma freed_slots_are_answered:
  fixes h :: Host
  defines "h \<equiv> closed_host 9 ((started_host good_network)\<lparr>h_server := two_player_server\<lparr>recvPackets :=
    [\<lparr>DataSize = 14, pi_PacketId = 10001, pi_SessionIndex = 2, pDataPtr = login_packet\<rparr>]\<rparr>\<rparr>)"
  shows "freed h \<and> (\<exists>t. PacketThread keep_order (h_server h) = Inr t \<and>
    sendDataQueue (clients (h_server h) ! 1) = [] \<and> length (sendDataQueue (clients t ! 1)) = 1)"
  by (simp add: h_def closed_host_def PacketThread_def DequeRecvPacket_def
      ProcessPacket_def handlers_def packet_id_def run_handler_def Handle_def ReadReq_def
      length_login sizeof_BASE_def FindPlayerBySessionIndex_def two_player_server_def
      new_Player_def ReqLogin_def SendPacketFunc_def FindSession_def at_res_def SendMsg_def
      set_client_def new_Server_def SendMsg_client_def SendIO_def new_ClientInfo_def
      Disconnect_client_def Let_def)

section \<open>The main program\<close>

























end
