(* ===== verification/Spec2Isabelle.thy ===== *)
theory Spec2Isabelle
  imports BoardEdge PacketClaims ServerEdge ServerFaults ClientFaults TimerClaims ViewClaims WindowClaims DeviceClaims
    BadRequests ControlsClaims EndToEnd ReceiveClaims ServerLifeClaims
begin

text \<open>
  A verification development for IOCPTetris, a two-player Tetris over TCP: a game server on Windows
  I/O completion ports (\<open>IOCPTetrisServer\<close>), a DirectX client (\<open>IOCPTetrisClient\<close>), and what both
  share (\<open>IOCPTetrisCommon\<close>).

  \<^bold>\<open>The program.\<close>  A client logs in, lists the rooms, opens or enters one and plays.  Its own board is
  updated every frame with the pressed keys and the elapsed time; the inputs that took effect go to
  the server, which relays them to the other player of the room, whose client replays them on its
  enemy board.  Both boards draw their blocks from the same sequence, which the server deals in bags
  of seven.  All messages are packets with a fixed layout over a byte stream; a reassembly buffer
  cuts the stream into packets on both sides.

  \<^bold>\<open>Theories and sources.\<close>  Each theory opens with what it models; the groups are:

  \<^item> \<open>Prelude\<close>: failures of C++ operations as values of \<open>cpp_error\<close>, results and loops over them, the
    collection \<open>invs\<close>.  \<open>Float32\<close>: binary32 floats as integers in the unit \<open>2^-149\<close>.
  \<^item> Board (\<open>IOCPTetrisDef.h\<close>, \<open>TetrisBoard.h\<close>): \<open>TetrisDef\<close> the data, \<open>BoardLines\<close> the grid and line
    clearing, \<open>TetrisBoard\<close> the record of the class and its operations up to \<open>Update\<close>.
    \<open>BoardInv\<close> holds the invariant \<open>wf_board\<close>, \<open>BoardProps\<close> totality, landing and locking, \<open>BoardClaims\<close>
    and \<open>BoardEdge\<close> the properties.  \<open>BoardMirror\<close> relates a board and its replay.
  \<^item> Packets (\<open>PacketBuffer.h\<close>, \<open>Packet.hh\<close>, \<open>Common.h\<close>): \<open>PacketBuffer\<close> the ring of bytes, \<open>PacketStream\<close>
    the read loop, the abstract cutting of a stream and the locale \<open>packet_reader\<close>, interpreted for
    the server's slots and for the client, \<open>Packet\<close> the structs and their object
    representation, \<open>PacketCodec\<close> the locale \<open>packet_codec\<close> with an interpretation for every layout;
    \<open>StreamClaims\<close> and \<open>PacketClaims\<close> the properties.
  \<^item> Server (\<open>Game/\<close>, \<open>Handler/\<close>, \<open>System/\<close>, \<open>main.cpp\<close>): \<open>ServerState\<close> the records, \<open>ClientIO\<close> a
    connection, \<open>GameServer\<close> players, sessions and rooms, \<open>Handlers\<close> the requests, \<open>IOServer\<close> the
    threads as steps of the relation \<open>steps\<close>.  \<open>ServerInv\<close>, \<open>RoomFacts\<close> and \<open>AnswerFacts\<close> hold the
    invariants, \<open>ServerClaims\<close>, \<open>ServerEdge\<close> and \<open>ServerFaults\<close> the properties.  \<open>Logger\<close> is the log
    (\<open>Util/Logger.cpp\<close>), \<open>ServerLife\<close> the server object from its construction to its shutdown with
    what its threads do in between, also a worker whose read loop does not end, the manager of the
    servers with its dangling reference to a logger, and the main program; \<open>ServerLifeClaims\<close> their
    properties.
  \<^item> Client (\<open>System/Server.*\<close>, \<open>Handler/\<close>, \<open>Scene/\<close>, \<open>Game/\<close>, \<open>Game.cpp\<close>, \<open>System/Input.h\<close>): \<open>ClientState\<close> the
    record of the process, \<open>ClientNet\<close> sending, receiving and the priority queues (locale
    \<open>max_queue\<close>), \<open>ClientHandlers\<close> the handlers, \<open>HandlerThread\<close> and \<open>SendSync\<close>, \<open>ClientScenes\<close> scenes,
    buttons, the frame and the relation \<open>client_steps\<close>.  \<open>ClientInv\<close> holds the invariant \<open>client_ok\<close>,
    \<open>ClientSync\<close> how a synchronous request ends, \<open>ClientClaims\<close> and \<open>ClientFaults\<close> the properties.
    \<open>ClientReceive\<close> is the receiving thread with its completion port and the destructor, at the level
    of the system calls; \<open>ReceiveClaims\<close> relates it to the events of \<open>ClientNet\<close>.
    \<open>ClientMirror\<close>, \<open>MirrorFaults\<close> and \<open>GameMirror\<close> compose two clients and the contents of the
    relayed packets, for a frame and for a run of frames.
  \<^item> The whole system: \<open>ServerStream\<close> the chunks of a client as steps of the server, \<open>ServerLogin\<close> the
    first request on a slot, \<open>ServerTraffic\<close> the invariant that everything sent is a packet and the
    history of each client's messages, \<open>BadRequests\<close> the packets the server does not survive, \<open>GameRequests\<close> the bytes of a game and their relayed form, \<open>Duel\<close> the server between the two players
    of a room, \<open>GameTraffic\<close> what a run of frames sends and how notifications are received and
    handled; \<open>EndToEnd\<close> composes them over two byte streams and holds the properties.
  \<^item> Frame timer (\<open>StepTimer.h\<close>): \<open>StepTimer\<close>, \<open>TimerFacts\<close>, \<open>TimerClaims\<close>.  Drawing (\<open>Renderer\<close>,
    \<open>ResourceLoader\<close>, \<open>Render\<close> of the scenes): \<open>ClientView\<close> the draw calls, \<open>Rendering\<close> the renderer
    around them, \<open>DrawFacts\<close>, \<open>ViewClaims\<close>.  Keyboard and mouse (\<open>System/Input.h\<close>): \<open>Controls\<close>,
    \<open>ControlsClaims\<close>, which also relates clicks to what is drawn.
  \<^item> Window and device (\<open>Main.cpp\<close>, \<open>DeviceResources.*\<close>, \<open>Game.cpp\<close>): \<open>Device\<close> the device resources over
    an arbitrary Direct3D, \<open>DeviceLost\<close> resizing, presenting and the recovery from a lost device,
    \<open>GameProcess\<close> the object \<open>Game\<close> with its device, \<open>Window\<close> the window procedure and the message
    loop.  \<open>DeviceInv\<close> and \<open>ProcessInv\<close> hold the invariants, \<open>WindowRun\<close> concrete runs, \<open>DeviceClaims\<close>
    and \<open>WindowClaims\<close> the properties.

  \<^bold>\<open>What is shown.\<close>  Line clearing equals its reference on lists of rows; the ghost is the landing
  place and locking fills exactly its cells; no frame of a well-formed board fails, and every
  operation keeps the invariant; the float rotation is the exact quarter turn.  As long as each
  chunk finds room in the buffer, the stream is cut into the packets that were sent, whose length is
  specified as the 16 bits of \<open>Packet.hh\<close> and shorter than 128 (\<open>well_framed\<close>): the code reads one
  signed byte of it.
  In every reachable state of the server rooms, players and connections are well formed, blocks come
  in whole bags, both players get the same ones, every request is answered, and the messages of a
  client leave in the order in which they were queued.  In every reachable
  state of the client its requests are numbered packets, its scenes are well formed and can be
  drawn; a synchronous request that is answered returns.  The replay on the enemy board simulates
  the own board, frame by frame and over a whole run without completed lines; and from end to end,
  through the bytes of both connections and the threads of the server, the enemy board follows the
  player's, while nobody else is sent its inputs.  Every request of a client reaches the server's
  packet thread with its session, every message of the server is a packet that the client takes, and
  a login completes over both.  All of these assume that each chunk finds room (\<open>all_accepted\<close>):
  \<open>Write\<close> drops a chunk that does not, and one that ends exactly at the buffer's end.  The
  chunks of the client in these theorems are what its receiving thread reads as long as no receive
  is completed at once; one that is gets read twice.
  Whatever Direct3D answers, swap chain, views and viewport fit the output, a lost device is recovered once, its owner is told once, and the
  output has the size the window was last told.  The main program of the server returns exactly
  after a \<open>quit\<close> that finds no worker in an endless read loop; one packet with the length byte 0
  puts a worker there.  The remaining theorems state where the code does something else than it means
  to; each is listed with its source line in the findings of the manifest.

  \<^bold>\<open>Conventions and bounds.\<close>

  \<^item> An operation that can fail returns \<open>Inl\<close> of a \<open>cpp_error\<close>: null dereference, access out of
    bounds or after free, empty container, overflow of a signed counter, failed assertion,
    exception.  An \<open>assert\<close> is a failure, as in a debug build.
  \<^item> Loops that always end are \<open>fun\<close> or \<open>function\<close> with a termination proof; so is the mutual
    recursion of resizing and recovery, which ends because a recovery is not itself recovered.
    Four loops can run forever and are \<open>partial_function (option)\<close>: the read loop of a stream, the
    wait of \<open>SendSync\<close>, the fixed-step loop of the timer and the command loop of the server.
    \<open>None\<close> means that they do not return, and it is proved when they do.  No fuel is used.
  \<^item> Threads interleave between atomic steps: an iteration of a thread's loop, a completion, a frame
    of the game.  Data races inside a step are not modelled.  What the other threads of the client
    do while \<open>SendSync\<close> sleeps is its \<open>schedule\<close>, an arbitrary function.
  \<^item> Environment and library code are parameters: the shuffle of a bag (a permutation), what the
    sockets and the clock do, what the threads do between two commands, what a dangling reference
    finds, the trackers of keys and mouse and the rectangles of DirectXTK, fresh
    memory, the texture files that can be read, what Direct3D and the window system answer.
    What their documentation says is a named hypothesis where a property needs it (\<open>toolkit_ok\<close>,
    \<open>rectangles_ok\<close>), with an instance in the witness.
  \<^item> Bytes behind the copy of a packet that is shorter than its header are read as zeros; a request
    that reads past the copy of its packet fails.  Entries with equal numbers in a
    \<open>std::priority_queue\<close> are taken newest first, which the standard leaves open; the requests
    of a client have different numbers.
  \<^item> Wire integers are words.  Coordinates are integers; the invariants keep them small.

  \<^bold>\<open>Not modelled.\<close>  The calls into DirectX that change no state of the program (colours, blend states,
  messages to the debugger), the release of textures, \<open>OverlappedEx\<close> as a system structure, the
  template \<open>Singleton\<close>, which nothing uses, and data races inside the atomic steps.  In the
  end-to-end game \<open>SendThread\<close> runs after the frames and each stage after the one before it, not
  interleaved with it, and no line is completed during the run; the frame-wise properties and
  \<open>MirrorFaults\<close> say what happens when one is.
\<close>

end
